(* ===== verification/Erdos_Prelude.thy ===== *)
theory Erdos_Prelude
  imports Main "HOL-Library.Word" "HOL-Library.Multiset"
begin

text \<open>
  The shared ground of the development: the fixed-width integer types of the sources, Rust's
  three-valued \<^verbatim>\<open>std::cmp::Ordering\<close> with the contract of its \<^verbatim>\<open>Ord\<close> trait as a locale, Rust's
  \<^verbatim>\<open>Result\<close> as a sum type, and the generic list lemmas the component theories share. Facts that
  component proofs feed to the simplifier are gathered in the collections declared here.
\<close>

section \<open>Collections of facts\<close>

named_theorems ord_simps \<open>characterisations of three-valued comparisons\<close>
named_theorems res_simps \<open>case analysis on results\<close>

section \<open>Machine integers\<close>

type_synonym u8 = "8 word"
type_synonym u32 = "32 word"
type_synonym u64 = "64 word"
type_synonym i8 = "8 word"

text \<open>Identifiers: \<^verbatim>\<open>crate::Uuid\<close> is 16 bytes; a node is known by its index.\<close>

type_synonym Uuid = "128 word"
type_synonym StreamId = Uuid
type_synonym OperatorId = Uuid
type_synonym NodeId = nat

section \<open>Ordering\<close>

text \<open>The three-valued \<^verbatim>\<open>std::cmp::Ordering\<close> and its \<^verbatim>\<open>reverse\<close>.\<close>

datatype ordering = Less | Equal | Greater

fun reverse :: "ordering \<Rightarrow> ordering" where
  "reverse Less = Greater"
| "reverse Equal = Equal"
| "reverse Greater = Less"

lemma reverse_reverse [simp]: "reverse (reverse x) = x"
  by (cases x) simp_all

lemma reverse_eq_iff [simp]:
  "reverse x = Less \<longleftrightarrow> x = Greater"
  "reverse x = Equal \<longleftrightarrow> x = Equal"
  "reverse x = Greater \<longleftrightarrow> x = Less"
  by (cases x; simp)+

text \<open>The \<^verbatim>\<open>Ord\<close> instance of a type whose comparison is a linear order of the logic.\<close>

definition prim_cmp :: "'a::linorder \<Rightarrow> 'a \<Rightarrow> ordering" where
  "prim_cmp x y = (if x < y then Less else if x = y then Equal else Greater)"

lemma prim_cmp_iff [simp, ord_simps]:
  "prim_cmp x y = Less \<longleftrightarrow> x < y"
  "prim_cmp x y = Equal \<longleftrightarrow> x = y"
  "prim_cmp x y = Greater \<longleftrightarrow> y < x"
  by (auto simp: prim_cmp_def)

text \<open>
  What the documentation of \<^verbatim>\<open>Ord\<close> asks of an implementation of \<^verbatim>\<open>cmp\<close>: every element compares
  \<^verbatim>\<open>Equal\<close> to itself, swapping the arguments reverses the result, and ``not after'' is transitive.
  Consistency with \<^verbatim>\<open>==\<close> is kept apart in \<open>rust_ord_eq\<close>, since the timestamps of the
  sources fail it for some values.
\<close>

locale rust_ord =
  fixes cmp :: "'a \<Rightarrow> 'a \<Rightarrow> ordering"
  assumes cmp_refl [simp]: "cmp x x = Equal"
    and cmp_swap: "cmp y x = reverse (cmp x y)"
    and cmp_le_trans: "cmp x y \<noteq> Greater \<Longrightarrow> cmp y z \<noteq> Greater \<Longrightarrow> cmp x z \<noteq> Greater"
begin

lemma greater_iff_less: "cmp x y = Greater \<longleftrightarrow> cmp y x = Less"
  by (metis cmp_swap reverse_eq_iff(3))

lemma equal_sym: "cmp x y = Equal \<Longrightarrow> cmp y x = Equal"
  using cmp_swap[of x y] by simp

lemma le_iff: "cmp x y \<noteq> Greater \<longleftrightarrow> cmp y x \<noteq> Less"
  using greater_iff_less by blast

lemma le_antisym: "cmp x y \<noteq> Greater \<Longrightarrow> cmp y x \<noteq> Greater \<Longrightarrow> cmp x y = Equal"
  unfolding greater_iff_less[of y x] by (cases "cmp x y") simp_all

lemma less_le_trans: "cmp x y = Less \<Longrightarrow> cmp y z \<noteq> Greater \<Longrightarrow> cmp x z = Less"
  using cmp_le_trans[of y z x] cmp_le_trans[of z x y] cmp_swap[of x y] cmp_swap[of x z] cmp_swap[of y z]
  by (metis cmp_le_trans ordering.distinct(3) ordering.exhaust reverse.simps(1,2))

lemma le_less_trans: "cmp x y \<noteq> Greater \<Longrightarrow> cmp y z = Less \<Longrightarrow> cmp x z = Less"
  using cmp_le_trans[of z x y] cmp_swap[of x y] cmp_swap[of x z] cmp_swap[of y z]
  by (metis cmp_le_trans greater_iff_less ordering.distinct(1,3) ordering.exhaust)

lemma less_trans: "cmp x y = Less \<Longrightarrow> cmp y z = Less \<Longrightarrow> cmp x z = Less"
  by (rule less_le_trans) auto

lemma equal_cong_right: "cmp x y = Equal \<Longrightarrow> cmp z x = cmp z y"
  by (metis cmp_le_trans cmp_swap greater_iff_less ordering.distinct(3,5) ordering.exhaust reverse_eq_iff(2))

lemma equal_cong_left: "cmp x y = Equal \<Longrightarrow> cmp x z = cmp y z"
  by (metis equal_cong_right cmp_swap)

lemma equal_trans: "cmp x y = Equal \<Longrightarrow> cmp y z = Equal \<Longrightarrow> cmp x z = Equal"
  by (metis equal_cong_left)

end

locale rust_ord_eq = rust_ord +
  assumes cmp_Equal: "cmp x y = Equal \<Longrightarrow> x = y"
begin

lemma cmp_Equal_iff: "cmp x y = Equal \<longleftrightarrow> x = y"
  using cmp_Equal by auto

end

interpretation prim_ord: rust_ord_eq prim_cmp
  by unfold_locales (auto simp: prim_cmp_def split: if_splits)

section \<open>Results\<close>

lemma case_bool_if [simp]: "(case b of True \<Rightarrow> x | False \<Rightarrow> y) = (if b then x else y)"
  by (cases b) simp_all

text \<open>Rust's \<^verbatim>\<open>Result<T, E>\<close> is \<open>'e + 'a\<close> with \<open>Inl\<close> for \<^verbatim>\<open>Err\<close>. A panic is the value \<open>None\<close> of
  an \<open>option\<close> around the state a function returns.\<close>

fun is_ok :: "'e + 'a \<Rightarrow> bool" where
  "is_ok (Inl _) = False"
| "is_ok (Inr _) = True"

lemma is_ok_iff [res_simps]: "is_ok r \<longleftrightarrow> (\<exists>x. r = Inr x)"
  by (cases r) simp_all

lemma not_is_ok_iff [res_simps]: "\<not> is_ok r \<longleftrightarrow> (\<exists>e. r = Inl e)"
  by (cases r) simp_all

section \<open>Sets kept as lists without repetition\<close>

text \<open>
  A \<^verbatim>\<open>HashSet\<close> or \<^verbatim>\<open>HashMap\<close> the code iterates over is a list here: the list's order stands for
  the iteration order, which the standard library leaves unspecified.
\<close>

definition set_add :: "'a \<Rightarrow> 'a list \<Rightarrow> 'a list" where
  "set_add x xs = (if x \<in> set xs then xs else xs @ [x])"

lemma set_set_add [simp]: "set (set_add x xs) = insert x (set xs)"
  by (auto simp: set_add_def)

lemma distinct_set_add [simp]: "distinct (set_add x xs) \<longleftrightarrow> distinct xs"
  by (auto simp: set_add_def)

lemma set_add_nonempty [simp]: "set_add x xs \<noteq> []"
  by (auto simp: set_add_def)

section \<open>Lists\<close>

text \<open>The first position at which a predicate holds: \<^verbatim>\<open>Iterator::position\<close>.\<close>

fun position :: "('a \<Rightarrow> bool) \<Rightarrow> 'a list \<Rightarrow> nat option" where
  "position P [] = None"
| "position P (x # xs) = (if P x then Some 0 else map_option Suc (position P xs))"

lemma position_None_iff: "position P xs = None \<longleftrightarrow> (\<forall>x \<in> set xs. \<not> P x)"
  by (induction xs) auto

lemma position_SomeD: "position P xs = Some i \<Longrightarrow> i < length xs \<and> P (xs ! i)"
  by (induction xs arbitrary: i) (auto split: if_splits)

text \<open>\<^verbatim>\<open>Vec::remove(i)\<close>.\<close>

definition vec_remove :: "nat \<Rightarrow> 'a list \<Rightarrow> 'a list" where
  "vec_remove i xs = take i xs @ drop (Suc i) xs"

lemma mset_vec_remove: "i < length xs \<Longrightarrow> mset xs = add_mset (xs ! i) (mset (vec_remove i xs))"
  by (metis add_mset_add_single append_Cons append_Nil id_take_nth_drop mset.simps(2) mset_append
        union_mset_add_mset_right vec_remove_def)

lemma set_vec_remove_subset: "set (vec_remove i xs) \<subseteq> set xs"
  by (auto simp: vec_remove_def dest: in_set_takeD in_set_dropD)

lemma map_vec_remove: "map f (vec_remove i xs) = vec_remove i (map f xs)"
  by (simp add: vec_remove_def take_map drop_map)

lemma distinct_vec_remove: "distinct xs \<Longrightarrow> distinct (vec_remove i xs)"
  by (auto simp: vec_remove_def distinct_append set_take_disj_set_drop_if_distinct)

lemma set_vec_remove: "distinct xs \<Longrightarrow> i < length xs \<Longrightarrow> set (vec_remove i xs) = set xs - {xs ! i}"
proof -
  assume d: "distinct xs" and i: "i < length xs"
  from mset_vec_remove[OF i] have s: "set xs = insert (xs ! i) (set (vec_remove i xs))"
    by (metis set_mset_add_mset_insert set_mset_mset)
  from d mset_vec_remove[OF i] have "xs ! i \<notin> set (vec_remove i xs)"
    by (metis distinct.simps(2) mset.simps(2) mset_eq_imp_distinct_iff)
  with s show ?thesis by auto
qed

end
