(* ===== verification/Timestamps.thy ===== *)
theory Timestamps
  imports Erdos_Prelude
begin

text \<open>
  Messages and timestamps: \<^verbatim>\<open>src/src/dataflow/message.rs\<close>.

  A timestamp is a vector of unsigned 64-bit coordinates together with a flag that marks the top
  timestamp, the one that closes a stream. The theory translates the constructors, the accessors
  and the \<^verbatim>\<open>Ord\<close> implementation, shows that the latter meets the contract \<open>rust_ord\<close> and
  orders the timestamps lexicographically between the bottom and the top one, and states for
  which values the order agrees with the derived equality.
\<close>

section \<open>Data\<close>

datatype IntTimestamp = IntTimestamp (ts_time: "u64 list") (ts_is_top: bool)

type_synonym Timestamp = IntTimestamp

datatype 'd TimestampedData = TimestampedData_new (td_timestamp: Timestamp) (td_data: 'd)

datatype 'd Message = TimestampedData "'d TimestampedData" | Watermark Timestamp

section \<open>Operations\<close>

definition ts_new :: "u64 list \<Rightarrow> Timestamp" where
  "ts_new time = IntTimestamp time False"

definition ts_top :: Timestamp where
  "ts_top = IntTimestamp [] True"

definition ts_bottom :: Timestamp where
  "ts_bottom = IntTimestamp [] False"

definition new_message :: "Timestamp \<Rightarrow> 'd \<Rightarrow> 'd Message" where
  "new_message t d = TimestampedData (TimestampedData_new t d)"

definition new_watermark :: "Timestamp \<Rightarrow> 'd Message" where
  "new_watermark t = Watermark t"

fun is_top_watermark :: "'d Message \<Rightarrow> bool" where
  "is_top_watermark (Watermark t) = ts_is_top t"
| "is_top_watermark (TimestampedData _) = False"

fun msg_data :: "'d Message \<Rightarrow> 'd option" where
  "msg_data (TimestampedData d) = Some (td_data d)"
| "msg_data (Watermark _) = None"

fun msg_timestamp :: "'d Message \<Rightarrow> Timestamp" where
  "msg_timestamp (TimestampedData d) = td_timestamp d"
| "msg_timestamp (Watermark t) = t"

text \<open>The hand-written \<^verbatim>\<open>PartialEq\<close> instances, over an equality of the payload.\<close>

definition timestamped_data_eq ::
    "('d \<Rightarrow> 'd \<Rightarrow> bool) \<Rightarrow> 'd TimestampedData \<Rightarrow> 'd TimestampedData \<Rightarrow> bool" where
  "timestamped_data_eq eq a b \<longleftrightarrow> td_timestamp a = td_timestamp b \<and> eq (td_data a) (td_data b)"

fun message_eq :: "('d \<Rightarrow> 'd \<Rightarrow> bool) \<Rightarrow> 'd Message \<Rightarrow> 'd Message \<Rightarrow> bool" where
  "message_eq eq (TimestampedData d1) (TimestampedData d2) = timestamped_data_eq eq d1 d2"
| "message_eq eq (Watermark w1) (Watermark w2) = (w1 = w2)"
| "message_eq eq _ _ = False"

text \<open>\<^verbatim>\<open>Vec::cmp\<close>: lexicographic, a proper prefix is smaller.\<close>

fun vec_cmp :: "'a::linorder list \<Rightarrow> 'a list \<Rightarrow> ordering" where
  "vec_cmp [] [] = Equal"
| "vec_cmp [] (_ # _) = Less"
| "vec_cmp (_ # _) [] = Greater"
| "vec_cmp (x # xs) (y # ys) = (case prim_cmp x y of Equal \<Rightarrow> vec_cmp xs ys | c \<Rightarrow> c)"

fun ts_cmp :: "Timestamp \<Rightarrow> Timestamp \<Rightarrow> ordering" where
  "ts_cmp (IntTimestamp t1 top1) (IntTimestamp t2 top2) =
     (case (top1, top2) of
        (True, True) \<Rightarrow> Equal
      | (True, False) \<Rightarrow> Greater
      | (False, True) \<Rightarrow> Less
      | (False, False) \<Rightarrow> vec_cmp t1 t2)"

definition ts_partial_cmp :: "Timestamp \<Rightarrow> Timestamp \<Rightarrow> ordering option" where
  "ts_partial_cmp a b = Some (ts_cmp a b)"

text \<open>The operators \<open><\<close> and \<open>\<le>\<close> that Rust derives from \<^verbatim>\<open>partial_cmp\<close>.\<close>

definition ts_lt :: "Timestamp \<Rightarrow> Timestamp \<Rightarrow> bool" where
  "ts_lt a b \<longleftrightarrow> ts_partial_cmp a b = Some Less"

definition ts_le :: "Timestamp \<Rightarrow> Timestamp \<Rightarrow> bool" where
  "ts_le a b \<longleftrightarrow> ts_partial_cmp a b \<in> {Some Less, Some Equal}"

text \<open>
  What the constructors produce: the coordinates of the top timestamp are empty. The field
  \<^verbatim>\<open>time\<close> is public, so a client can break this by assigning to it.
\<close>

definition ts_wf :: "Timestamp \<Rightarrow> bool" where
  "ts_wf t \<longleftrightarrow> (ts_is_top t \<longrightarrow> ts_time t = [])"

section \<open>The order on vectors\<close>

lemma vec_cmp_lexord:
  "vec_cmp xs ys =
     (if (xs, ys) \<in> lexord {(u, v). u < v} then Less else if xs = ys then Equal else Greater)"
  by (induction xs ys rule: vec_cmp.induct) (auto simp: prim_cmp_def)

lemma vec_cmp_refl [simp]: "vec_cmp xs xs = Equal"
  by (induction xs) (simp_all add: prim_cmp_def)

lemma vec_cmp_swap: "vec_cmp ys xs = reverse (vec_cmp xs ys)"
  by (induction xs ys rule: vec_cmp.induct) (auto simp: prim_cmp_def)

lemma vec_cmp_Equal_iff [simp, ord_simps]: "vec_cmp xs ys = Equal \<longleftrightarrow> xs = ys"
  by (induction xs ys rule: vec_cmp.induct) (auto simp: prim_cmp_def)

lemma vec_cmp_le_trans:
  "vec_cmp xs ys \<noteq> Greater \<Longrightarrow> vec_cmp ys zs \<noteq> Greater \<Longrightarrow> vec_cmp xs zs \<noteq> Greater"
proof (induction xs arbitrary: ys zs)
  case Nil
  then show ?case by (cases zs) simp_all
next
  case (Cons x xs)
  then obtain y ys' z zs' where "ys = y # ys'" "zs = z # zs'"
    by (cases ys; cases zs) auto
  with Cons show ?case by (auto simp: prim_cmp_def split: if_splits)
qed

interpretation vec_ord: rust_ord_eq vec_cmp
  by unfold_locales (auto intro: vec_cmp_swap dest: vec_cmp_le_trans)

lemma vec_cmp_Nil [simp]: "vec_cmp [] xs \<noteq> Greater" "vec_cmp xs [] \<noteq> Less"
  by (cases xs; simp)+

section \<open>The order on timestamps\<close>

lemma ts_cmp_cases:
  "ts_cmp a b = (if ts_is_top a then (if ts_is_top b then Equal else Greater)
                 else if ts_is_top b then Less else vec_cmp (ts_time a) (ts_time b))"
  by (cases a; cases b) (auto split: bool.splits)

interpretation ts_ord: rust_ord ts_cmp
proof
  fix x y z :: Timestamp
  show "ts_cmp x x = Equal" by (simp add: ts_cmp_cases)
  show "ts_cmp y x = reverse (ts_cmp x y)"
    by (auto simp: ts_cmp_cases intro: vec_cmp_swap)
  show "ts_cmp x y \<noteq> Greater \<Longrightarrow> ts_cmp y z \<noteq> Greater \<Longrightarrow> ts_cmp x z \<noteq> Greater"
    by (auto simp: ts_cmp_cases split: if_splits dest: vec_cmp_le_trans)
qed

lemma ts_le_iff [ord_simps]: "ts_le a b \<longleftrightarrow> ts_cmp a b \<noteq> Greater"
  by (cases "ts_cmp a b") (auto simp: ts_le_def ts_partial_cmp_def)

lemma ts_lt_iff [ord_simps]: "ts_lt a b \<longleftrightarrow> ts_cmp a b = Less"
  by (simp add: ts_lt_def ts_partial_cmp_def)

lemma not_ts_lt_iff [ord_simps]: "\<not> ts_lt a b \<longleftrightarrow> ts_le b a"
  by (simp add: ts_lt_iff ts_le_iff ts_ord.greater_iff_less)

lemma ts_le_refl [simp]: "ts_le t t"
  by (simp add: ts_le_iff)

lemma ts_le_trans: "ts_le a b \<Longrightarrow> ts_le b c \<Longrightarrow> ts_le a c"
  using ts_ord.cmp_le_trans[of a b c] by (simp add: ts_le_iff)

lemma ts_lt_le_trans: "ts_lt a b \<Longrightarrow> ts_le b c \<Longrightarrow> ts_lt a c"
  using ts_ord.less_le_trans[of a b c] by (simp add: ts_le_iff ts_lt_iff)

lemma ts_le_lt_trans: "ts_le a b \<Longrightarrow> ts_lt b c \<Longrightarrow> ts_lt a c"
  using ts_ord.le_less_trans[of a b c] by (simp add: ts_le_iff ts_lt_iff)

lemma ts_lt_imp_le: "ts_lt a b \<Longrightarrow> ts_le a b"
  by (simp add: ts_le_iff ts_lt_iff)

lemma ts_le_linear: "ts_le a b \<or> ts_le b a"
  using not_ts_lt_iff ts_lt_imp_le by blast

lemma ts_lt_irrefl [simp]: "\<not> ts_lt t t"
  by (simp add: ts_lt_iff)

lemma ts_le_top [simp]: "ts_le t ts_top"
  by (simp add: ts_le_iff ts_cmp_cases ts_top_def)

lemma ts_bottom_le [simp]: "ts_le ts_bottom t"
  by (simp add: ts_le_iff ts_cmp_cases ts_bottom_def)

lemma ts_wf_simps [simp]: "ts_wf ts_top" "ts_wf ts_bottom" "ts_wf (ts_new time)"
  by (simp_all add: ts_wf_def ts_top_def ts_bottom_def ts_new_def)

lemma ts_cmp_Equal_wf: "ts_wf a \<Longrightarrow> ts_wf b \<Longrightarrow> ts_cmp a b = Equal \<longleftrightarrow> a = b"
  by (cases a; cases b) (auto simp: ts_wf_def split: bool.splits)

lemma top_le_iff: "ts_wf a \<Longrightarrow> ts_le ts_top a \<longleftrightarrow> a = ts_top"
  by (cases a) (auto simp: ts_le_iff ts_cmp_cases ts_top_def ts_wf_def)

lemma le_bottom_iff: "ts_wf a \<Longrightarrow> ts_le a ts_bottom \<longleftrightarrow> a = ts_bottom"
  by (cases a; cases "ts_time a") (auto simp: ts_le_iff ts_cmp_cases ts_bottom_def ts_wf_def)

section \<open>Properties\<close>

text \<open>The comparison of timestamps is a total preorder as Rust's \<^verbatim>\<open>Ord\<close> requires: it is
  reflexive, antisymmetric under swapping and transitive, top is the greatest and bottom the least
  timestamp, and two ordinary timestamps compare in the lexicographic order of their
  coordinates.\<close>

theorem ts_cmp_total_order:
  "ts_cmp a a = Equal \<and>
   ts_cmp b a = reverse (ts_cmp a b) \<and>
   (ts_le a b \<and> ts_le b c \<longrightarrow> ts_le a c) \<and>
   ts_le ts_bottom a \<and> ts_le a ts_top \<and>
   (ts_cmp (ts_new xs) (ts_new ys) = Less \<longleftrightarrow> (xs, ys) \<in> lexord {(u, v). u < v}) \<and>
   (ts_cmp (ts_new xs) (ts_new ys) = Equal \<longleftrightarrow> xs = ys)"
proof -
  have "ts_cmp (ts_new xs) (ts_new ys) = vec_cmp xs ys"
    by (simp add: ts_new_def)
  moreover have "vec_cmp xs ys = Less \<longleftrightarrow> (xs, ys) \<in> lexord {(u, v). u < v}"
    by (simp add: vec_cmp_lexord)
  ultimately show ?thesis
    using ts_ord.cmp_swap[of b a] ts_le_trans[of a b c] by simp
qed

theorem ts_cmp_total_order_witness:
  "ts_le (ts_new [1, 2]) (ts_new [1, 3]) \<and> ts_le (ts_new [1, 3]) ts_top \<and>
   ts_le (ts_new [1, 2]) ts_top"
  using ts_cmp_total_order[of "ts_new [1, 2]" "ts_new [1, 3]" ts_top "[]" "[]"]
  by (simp add: ts_le_iff ts_new_def ts_top_def prim_cmp_def)

text \<open>On the timestamps that the constructors build, \<^verbatim>\<open>cmp\<close> returns \<^verbatim>\<open>Equal\<close> exactly for equal
  timestamps; the two ends are reached only by the top and the bottom timestamp themselves.\<close>

theorem ts_cmp_consistent_with_eq:
  assumes "ts_wf a" "ts_wf b"
  shows "(ts_cmp a b = Equal \<longleftrightarrow> a = b) \<and> (ts_le ts_top a \<longleftrightarrow> a = ts_top) \<and>
         (ts_le a ts_bottom \<longleftrightarrow> a = ts_bottom)"
  using assms ts_cmp_Equal_wf[OF assms] top_le_iff[OF assms(1)] le_bottom_iff[OF assms(1)]
  by simp

theorem ts_cmp_consistent_with_eq_witness:
  "ts_cmp (ts_new [1, 2]) (ts_new [1, 3]) \<noteq> Equal \<and> \<not> ts_le ts_top (ts_new [1, 2])"
  using ts_cmp_consistent_with_eq[OF ts_wf_simps(3)[of "[1, 2]"] ts_wf_simps(3)[of "[1, 3]"]]
  by (simp add: ts_new_def ts_top_def)

text \<open>The coordinates of a timestamp are a public field: a top timestamp whose coordinates
  were assigned compares \<^verbatim>\<open>Equal\<close> to the top timestamp and is not equal to it, so that the order and
  the derived equality disagree.\<close>

theorem ts_cmp_inconsistent_off_wf:
  "ts_cmp (IntTimestamp [x] True) ts_top = Equal \<and> IntTimestamp [x] True \<noteq> ts_top"
  by (simp add: ts_top_def)

end
