(* ===== verification/Btree_Map.thy ===== *)
theory Btree_Map
  imports Erdos_Prelude
begin

text \<open>
  The part of \<^verbatim>\<open>std::collections::BTreeMap\<close> that the sources use. A map is the list of its entries
  in ascending key order, the order in which the standard library iterates; every operation takes
  the comparison of the key type, as the trait bound \<^verbatim>\<open>K: Ord\<close> does. The laws are proved once in
  the locale \<open>btree_map\<close>, for every comparison that meets the contract of \<^verbatim>\<open>Ord\<close>.
\<close>

type_synonym ('k, 'v) btree = "('k \<times> 'v) list"

section \<open>Operations\<close>

definition bt_get :: "('k \<Rightarrow> 'k \<Rightarrow> ordering) \<Rightarrow> 'k \<Rightarrow> ('k, 'v) btree \<Rightarrow> 'v option" where
  "bt_get cmp k m = map_option snd (List.find (\<lambda>e. cmp (fst e) k = Equal) m)"

text \<open>An insertion under a key that is present replaces the value and keeps the old key.\<close>

fun bt_insert :: "('k \<Rightarrow> 'k \<Rightarrow> ordering) \<Rightarrow> 'k \<Rightarrow> 'v \<Rightarrow> ('k, 'v) btree \<Rightarrow> ('k, 'v) btree" where
  "bt_insert cmp k v [] = [(k, v)]"
| "bt_insert cmp k v ((k', v') # m) =
     (case cmp k k' of
        Less \<Rightarrow> (k, v) # (k', v') # m
      | Equal \<Rightarrow> (k', v) # m
      | Greater \<Rightarrow> (k', v') # bt_insert cmp k v m)"

text \<open>\<^verbatim>\<open>entry(k).or_default()\<close>, with the default value as an argument.\<close>

definition bt_or_default :: "('k \<Rightarrow> 'k \<Rightarrow> ordering) \<Rightarrow> 'k \<Rightarrow> 'v \<Rightarrow> ('k, 'v) btree \<Rightarrow> ('k, 'v) btree" where
  "bt_or_default cmp k d m = (if bt_get cmp k m = None then bt_insert cmp k d m else m)"

text \<open>A write through the reference that \<^verbatim>\<open>get_mut(k)\<close> returns.\<close>

definition bt_modify :: "('k \<Rightarrow> 'k \<Rightarrow> ordering) \<Rightarrow> 'k \<Rightarrow> ('v \<Rightarrow> 'v) \<Rightarrow> ('k, 'v) btree \<Rightarrow> ('k, 'v) btree" where
  "bt_modify cmp k f m = map (\<lambda>(k', v). (k', if cmp k' k = Equal then f v else v)) m"

text \<open>\<^verbatim>\<open>split_off(k)\<close> returns the entries whose key is not below \<open>k\<close>.\<close>

definition bt_split_off :: "('k \<Rightarrow> 'k \<Rightarrow> ordering) \<Rightarrow> 'k \<Rightarrow> ('k, 'v) btree \<Rightarrow> ('k, 'v) btree" where
  "bt_split_off cmp k m = filter (\<lambda>e. cmp (fst e) k \<noteq> Less) m"

text \<open>\<^verbatim>\<open>range(..=k)\<close>, \<^verbatim>\<open>range((Excluded(k), Unbounded))\<close> and \<^verbatim>\<open>range(l..u)\<close>; the last one panics in
  the library when \<open>l\<close> is above \<open>u\<close>.\<close>

definition bt_range_to :: "('k \<Rightarrow> 'k \<Rightarrow> ordering) \<Rightarrow> 'k \<Rightarrow> ('k, 'v) btree \<Rightarrow> ('k, 'v) btree" where
  "bt_range_to cmp k m = filter (\<lambda>e. cmp (fst e) k \<noteq> Greater) m"

definition bt_range_after :: "('k \<Rightarrow> 'k \<Rightarrow> ordering) \<Rightarrow> 'k \<Rightarrow> ('k, 'v) btree \<Rightarrow> ('k, 'v) btree" where
  "bt_range_after cmp k m = filter (\<lambda>e. cmp (fst e) k = Greater) m"

definition bt_range :: "('k \<Rightarrow> 'k \<Rightarrow> ordering) \<Rightarrow> 'k \<Rightarrow> 'k \<Rightarrow> ('k, 'v) btree \<Rightarrow> ('k, 'v) btree option" where
  "bt_range cmp l u m =
     (if cmp l u = Greater then None
      else Some (filter (\<lambda>e. cmp (fst e) l \<noteq> Less \<and> cmp (fst e) u = Less) m))"

text \<open>Iterators from the back: \<^verbatim>\<open>next\<close>, \<^verbatim>\<open>next_back\<close> and \<^verbatim>\<open>nth_back\<close> of a double-ended iterator.\<close>

definition iter_next :: "'a list \<Rightarrow> 'a option" where
  "iter_next xs = (case xs of [] \<Rightarrow> None | x # _ \<Rightarrow> Some x)"

definition iter_next_back :: "'a list \<Rightarrow> 'a option \<times> 'a list" where
  "iter_next_back xs = (if xs = [] then (None, []) else (Some (last xs), butlast xs))"

definition iter_nth_back :: "nat \<Rightarrow> 'a list \<Rightarrow> 'a option" where
  "iter_nth_back n xs = (if n < length xs then Some (rev xs ! n) else None)"

definition bt_sorted :: "('k \<Rightarrow> 'k \<Rightarrow> ordering) \<Rightarrow> ('k, 'v) btree \<Rightarrow> bool" where
  "bt_sorted cmp m \<longleftrightarrow> sorted_wrt (\<lambda>a b. cmp a b = Less) (map fst m)"

section \<open>Laws that hold for every comparison\<close>

lemma bt_get_Nil [simp]: "bt_get cmp k [] = None"
  by (simp add: bt_get_def)

lemma bt_get_Cons [simp]:
  "bt_get cmp k (e # m) = (if cmp (fst e) k = Equal then Some (snd e) else bt_get cmp k m)"
  by (simp add: bt_get_def)

lemma bt_get_None_iff: "bt_get cmp k m = None \<longleftrightarrow> (\<forall>k' \<in> fst ` set m. cmp k' k \<noteq> Equal)"
  by (induction m) auto

lemma bt_get_None_keys: "map fst m = map fst m' \<Longrightarrow> bt_get cmp k m = None \<longleftrightarrow> bt_get cmp k m' = None"
  unfolding bt_get_None_iff by (metis list.set_map)

lemma bt_sorted_Nil [simp]: "bt_sorted cmp []"
  by (simp add: bt_sorted_def)

lemma bt_sorted_Cons [simp]:
  "bt_sorted cmp (e # m) \<longleftrightarrow> (\<forall>x \<in> set m. cmp (fst e) (fst x) = Less) \<and> bt_sorted cmp m"
  by (simp add: bt_sorted_def)

lemma bt_sorted_filter: "bt_sorted cmp m \<Longrightarrow> bt_sorted cmp (filter P m)"
  by (induction m) auto

lemma bt_sorted_split_off: "bt_sorted cmp m \<Longrightarrow> bt_sorted cmp (bt_split_off cmp k m)"
  by (simp add: bt_split_off_def bt_sorted_filter)

lemma map_fst_filter_key: "map fst (filter (\<lambda>e. P (fst e)) m) = filter P (map fst m)"
  by (induction m) auto

lemma map_fst_split_off: "map fst (bt_split_off cmp k m) = filter (\<lambda>x. cmp x k \<noteq> Less) (map fst m)"
  unfolding bt_split_off_def by (rule map_fst_filter_key)

lemma map_fst_modify [simp]: "map fst (bt_modify cmp k f m) = map fst m"
  by (simp add: bt_modify_def split_beta comp_def)

lemma bt_sorted_keys: "map fst m = map fst m' \<Longrightarrow> bt_sorted cmp m = bt_sorted cmp m'"
  by (simp add: bt_sorted_def)

lemma bt_sorted_modify [simp]: "bt_sorted cmp (bt_modify cmp' k f m) = bt_sorted cmp m"
  by (rule bt_sorted_keys) simp

lemma map_fst_insert_cong:
  "map fst m = map fst m' \<Longrightarrow> map fst (bt_insert cmp k v m) = map fst (bt_insert cmp k v' m')"
proof (induction m arbitrary: m')
  case (Cons e m)
  then obtain e' n' where "m' = e' # n'" by (cases m') auto
  with Cons show ?case by (cases e; cases e') (auto split: ordering.splits)
qed simp

lemma iter_nth_back_eq: "((\<lambda>xs. snd (iter_next_back xs)) ^^ n) xs = take (length xs - n) xs"
proof (induction n)
  case (Suc n)
  have "snd (iter_next_back ys) = take (length ys - 1) ys" for ys :: "'a list"
    by (simp add: iter_next_back_def butlast_conv_take)
  then have "snd (iter_next_back (take (length xs - n) xs)) = take (length xs - Suc n) xs"
    by simp
  with Suc show ?case by simp
qed simp

lemma iter_next_back_funpow:
  "fst (iter_next_back (((\<lambda>xs. snd (iter_next_back xs)) ^^ n) xs)) = iter_nth_back n xs"
  unfolding iter_nth_back_eq
  by (auto simp: iter_next_back_def iter_nth_back_def rev_nth last_conv_nth)

section \<open>Laws of ordered maps\<close>

locale btree_map = rust_ord cmp for cmp :: "'k \<Rightarrow> 'k \<Rightarrow> ordering"
begin

lemma set_insert_keys: "fst ` set (bt_insert cmp k v m) \<subseteq> insert k (fst ` set m)"
proof (induction m)
  case (Cons e m)
  then show ?case by (cases e) (auto split: ordering.splits)
qed simp

lemma sorted_insert [simp]: "bt_sorted cmp m \<Longrightarrow> bt_sorted cmp (bt_insert cmp k v m)"
proof (induction m)
  case (Cons e m)
  show ?case
  proof (cases "cmp k (fst e)")
    case Less
    with Cons.prems show ?thesis
      by (cases e) (auto intro: less_trans)
  next
    case Equal
    with Cons.prems show ?thesis by (cases e) auto
  next
    case Greater
    have "\<forall>x \<in> set (bt_insert cmp k v m). cmp (fst e) (fst x) = Less"
      using Cons.prems Greater set_insert_keys[of k v m] by (fastforce simp: greater_iff_less)
    with Greater Cons show ?thesis by (cases e) auto
  qed
qed simp

lemma get_insert:
  "bt_sorted cmp m \<Longrightarrow>
     bt_get cmp k' (bt_insert cmp k v m) = (if cmp k k' = Equal then Some v else bt_get cmp k' m)"
proof (induction m)
  case (Cons e m)
  obtain a b where e: "e = (a, b)" by (cases e)
  show ?case
  proof (cases "cmp k a")
    case Equal
    then show ?thesis using e equal_cong_left[OF Equal, of k'] by auto
  next
    case Greater
    then have "cmp a k' = Equal \<Longrightarrow> cmp k k' \<noteq> Equal"
      by (metis equal_cong_right equal_sym ordering.distinct(5))
    with Greater Cons e show ?thesis by auto
  next
    case Less
    then show ?thesis using Cons e by auto
  qed
qed simp

lemma sorted_or_default [simp]: "bt_sorted cmp m \<Longrightarrow> bt_sorted cmp (bt_or_default cmp k d m)"
  by (simp add: bt_or_default_def)

lemma get_or_default:
  "bt_sorted cmp m \<Longrightarrow>
     bt_get cmp k' (bt_or_default cmp k d m) =
       (if cmp k k' = Equal \<and> bt_get cmp k m = None then Some d else bt_get cmp k' m)"
  by (auto simp: bt_or_default_def get_insert)

lemma get_cong: "cmp k k' = Equal \<Longrightarrow> bt_get cmp k m = bt_get cmp k' m"
  using equal_cong_right[of k k'] by (induction m) auto

lemma get_modify:
  "bt_get cmp k' (bt_modify cmp k f m) =
     (if cmp k k' = Equal then map_option f (bt_get cmp k' m) else bt_get cmp k' m)"
proof (induction m)
  case (Cons e m)
  have "cmp (fst e) k' = Equal \<Longrightarrow> cmp (fst e) k = Equal \<longleftrightarrow> cmp k k' = Equal"
    by (metis equal_cong_left equal_sym)
  with Cons show ?case by (cases e) (auto simp: bt_modify_def)
qed (simp add: bt_modify_def)

lemma get_split_off:
  "bt_get cmp k' (bt_split_off cmp k m) = (if cmp k' k = Less then None else bt_get cmp k' m)"
proof (induction m)
  case (Cons e m)
  have "cmp (fst e) k' = Equal \<Longrightarrow> cmp (fst e) k = cmp k' k"
    by (rule equal_cong_left)
  with Cons show ?case by (auto simp: bt_split_off_def)
qed (simp add: bt_split_off_def)

text \<open>A sorted map is cut by a key into the entries below it and those at or above it.\<close>

lemma split_off_append:
  "bt_sorted cmp m \<Longrightarrow> m = filter (\<lambda>e. cmp (fst e) k = Less) m @ bt_split_off cmp k m"
proof (induction m)
  case (Cons e m)
  show ?case
  proof (cases "cmp (fst e) k = Less")
    case False
    then have "\<forall>x \<in> set m. cmp (fst x) k \<noteq> Less"
      using Cons.prems less_trans by auto
    with False show ?thesis by (auto simp: bt_split_off_def filter_empty_conv)
  qed (use Cons in \<open>auto simp: bt_split_off_def\<close>)
qed (simp add: bt_split_off_def)

lemma range_append:
  "bt_sorted cmp m \<Longrightarrow> m = bt_range_to cmp k m @ bt_range_after cmp k m"
proof (induction m)
  case (Cons e m)
  show ?case
  proof (cases "cmp (fst e) k = Greater")
    case True
    then have "\<forall>x \<in> set m. cmp (fst x) k = Greater"
      using Cons.prems less_trans by (auto simp: greater_iff_less)
    with True show ?thesis by (auto simp: bt_range_to_def bt_range_after_def filter_empty_conv)
  qed (use Cons in \<open>auto simp: bt_range_to_def bt_range_after_def\<close>)
qed (simp add: bt_range_to_def bt_range_after_def)

text \<open>Splitting at the key of an entry drops exactly the entries in front of it.\<close>

lemma split_off_nth:
  assumes "bt_sorted cmp m" "i < length m"
  shows "bt_split_off cmp (fst (m ! i)) m = drop i m"
  using assms
proof (induction m arbitrary: i)
  case (Cons e m)
  show ?case
  proof (cases i)
    case 0
    have "\<forall>x \<in> set (e # m). cmp (fst x) (fst e) \<noteq> Less"
      using Cons.prems(1) by (auto simp: cmp_swap[of "fst e"])
    with 0 show ?thesis by (simp add: bt_split_off_def)
  next
    case (Suc j)
    with Cons.prems have "cmp (fst e) (fst (m ! j)) = Less" by simp
    with Suc Cons show ?thesis by (simp add: bt_split_off_def)
  qed
qed simp

end

end
