(* ===== verification/Time_Versioned_State.thy ===== *)
theory Time_Versioned_State
  imports Timestamps Btree_Map
begin

text \<open>
  The time-versioned operator state: \<^verbatim>\<open>src/src/dataflow/state.rs\<close>.

  A \<^verbatim>\<open>TimeVersionedState\<close> keeps, per timestamp, the messages appended by ordinary callbacks and the
  state computed by watermark callbacks. What may be called depends on the access context. The
  theory translates every operation, shows the invariant they keep, which operations can panic
  and when, what garbage collection removes, and that it does not change what a later watermark
  callback iterates over.
\<close>

section \<open>Data\<close>

datatype AccessError = AccessError string

datatype AccessContext = Operator | Callback | WatermarkCallback

record ('s, 't) TimeVersionedState =
  current_time :: Timestamp
  history_size :: nat
  access_context :: AccessContext
  message_history :: "(Timestamp, 't list) btree"
  state_history :: "(Timestamp, 's) btree"

text \<open>The trait \<^verbatim>\<open>ManagedState\<close> as the record of its methods.\<close>

record 's ManagedState =
  ms_set_access_context :: "AccessContext \<Rightarrow> 's \<Rightarrow> 's"
  ms_set_current_time :: "Timestamp \<Rightarrow> 's \<Rightarrow> 's"
  ms_close_time :: "Timestamp \<Rightarrow> 's \<Rightarrow> 's \<times> (AccessError + unit)"

section \<open>Operations\<close>

definition tvs_new_with_history_size :: "nat \<Rightarrow> ('s, 't) TimeVersionedState" where
  "tvs_new_with_history_size h =
     \<lparr> current_time = ts_bottom, history_size = h, access_context = Operator,
       message_history = [], state_history = [] \<rparr>"

definition tvs_new :: "('s, 't) TimeVersionedState" where
  "tvs_new = tvs_new_with_history_size 0"

text \<open>The key at which \<^verbatim>\<open>close_time\<close> splits the histories.\<close>

definition close_split_option :: "Timestamp \<Rightarrow> ('s, 't) TimeVersionedState \<Rightarrow> Timestamp option" where
  "close_split_option t s =
     (if history_size s = 0
      then iter_next (map fst (bt_range_after ts_cmp t (state_history s)))
      else fst (iter_next_back
             (((\<lambda>rng. snd (iter_next_back rng)) ^^ (history_size s - 1))
                (map fst (bt_range_to ts_cmp t (state_history s))))))"

definition close_time ::
    "Timestamp \<Rightarrow> ('s, 't) TimeVersionedState \<Rightarrow> ('s, 't) TimeVersionedState \<times> (AccessError + unit)" where
  "close_time t s =
     (case access_context s of
        Operator \<Rightarrow> (s, Inl (AccessError ''Attempted to close_time from Operator::new''))
      | Callback \<Rightarrow> (s, Inl (AccessError ''Attempted to close_time from a callback''))
      | WatermarkCallback \<Rightarrow>
          (case close_split_option t s of
             Some split_t \<Rightarrow>
               (s \<lparr> state_history := bt_split_off ts_cmp split_t (state_history s),
                    message_history := bt_split_off ts_cmp split_t (message_history s) \<rparr>, Inr ())
           | None \<Rightarrow> (s, Inr ())))"

definition set_history_size ::
    "nat \<Rightarrow> ('s, 't) TimeVersionedState \<Rightarrow> ('s, 't) TimeVersionedState \<times> (AccessError + unit)" where
  "set_history_size h s =
     (case access_context s of
        Operator \<Rightarrow> (s \<lparr> history_size := h \<rparr>, Inr ())
      | Callback \<Rightarrow> (s, Inl (AccessError ''Attempted to set_history_size from callback''))
      | WatermarkCallback \<Rightarrow>
          (s, Inl (AccessError ''Attempted to set_history_size from watermark callback'')))"

definition set_initial_state ::
    "'s \<Rightarrow> ('s, 't) TimeVersionedState \<Rightarrow> ('s, 't) TimeVersionedState \<times> (AccessError + unit)" where
  "set_initial_state x s =
     (case access_context s of
        Operator \<Rightarrow>
          (s \<lparr> message_history := bt_insert ts_cmp ts_bottom [] (message_history s),
               state_history := bt_insert ts_cmp ts_bottom x (state_history s) \<rparr>, Inr ())
      | Callback \<Rightarrow> (s, Inl (AccessError ''Attempted to set_initial_state from callback''))
      | WatermarkCallback \<Rightarrow>
          (s, Inl (AccessError ''Attempted to set_initial_state from watermark callback'')))"

text \<open>Functions that may hit an \<^verbatim>\<open>expect\<close> or \<^verbatim>\<open>panic!\<close> return \<open>None\<close> there.\<close>

definition append_msg ::
    "'t \<Rightarrow> ('s, 't) TimeVersionedState \<Rightarrow> (('s, 't) TimeVersionedState \<times> (AccessError + unit)) option" where
  "append_msg d s =
     (case access_context s of
        Operator \<Rightarrow> Some (s, Inl (AccessError ''Attempted to append from Operator::new''))
      | Callback \<Rightarrow>
          (case bt_get ts_cmp (current_time s) (message_history s) of
             None \<Rightarrow> None
           | Some _ \<Rightarrow>
               Some (s \<lparr> message_history :=
                           bt_modify ts_cmp (current_time s) (\<lambda>v. v @ [d]) (message_history s) \<rparr>, Inr ()))
      | WatermarkCallback \<Rightarrow>
          Some (s, Inl (AccessError ''Attempted to append from a watermark callback'')))"

text \<open>The lookup that \<^verbatim>\<open>get_messages\<close> and \<^verbatim>\<open>get_state\<close> share, over either history.\<close>

definition history_get :: "Timestamp \<Rightarrow> Timestamp \<Rightarrow> nat \<Rightarrow> (Timestamp, 'v) btree \<Rightarrow> 'v option option" where
  "history_get t cur h m =
     (if ts_le t cur
      then (case bt_range ts_cmp t cur m of
              None \<Rightarrow> None
            | Some rng \<Rightarrow>
                (case iter_nth_back h rng of
                   Some (oldest_allowed_t, _) \<Rightarrow>
                     (if ts_le oldest_allowed_t t then Some (bt_get ts_cmp t m) else Some None)
                 | None \<Rightarrow> Some (bt_get ts_cmp t m)))
      else Some None)"

definition get_messages ::
    "Timestamp \<Rightarrow> ('s, 't) TimeVersionedState \<Rightarrow> (AccessError + 't list option) option" where
  "get_messages t s =
     (case access_context s of
        Operator \<Rightarrow> Some (Inl (AccessError ''Attempted to get_messages from Operator::new''))
      | WatermarkCallback \<Rightarrow>
          map_option Inr (history_get t (current_time s) (history_size s) (message_history s))
      | Callback \<Rightarrow>
          Some (Inl (AccessError ''Attempted to get_messages from a non-watermark callback'')))"

definition get_current_messages :: "('s, 't) TimeVersionedState \<Rightarrow> (AccessError + 't list) option" where
  "get_current_messages s =
     (case access_context s of
        Operator \<Rightarrow> Some (Inl (AccessError ''Attempted to get_current_messages from Operator::new''))
      | WatermarkCallback \<Rightarrow> map_option Inr (bt_get ts_cmp (current_time s) (message_history s))
      | Callback \<Rightarrow>
          Some (Inl (AccessError ''Attempted to get_current_messages from a non-watermark callback'')))"

text \<open>\<^verbatim>\<open>range(..=cur).rev().enumerate().filter(|x| x.0 <= history_size).map(|x| x.1)\<close>\<close>

definition history_iter :: "Timestamp \<Rightarrow> nat \<Rightarrow> (Timestamp, 'v) btree \<Rightarrow> (Timestamp \<times> 'v) list" where
  "history_iter cur h m =
     map snd (filter (\<lambda>x. fst x \<le> h) (List.enumerate 0 (rev (bt_range_to ts_cmp cur m))))"

definition iter_messages ::
    "('s, 't) TimeVersionedState \<Rightarrow> AccessError + (Timestamp \<times> 't list) list" where
  "iter_messages s =
     (case access_context s of
        Operator \<Rightarrow> Inl (AccessError ''Attempted to iter_states from Operator::new'')
      | Callback \<Rightarrow> Inl (AccessError ''Attempted to iter_states from a non-watermark callback'')
      | WatermarkCallback \<Rightarrow> Inr (history_iter (current_time s) (history_size s) (message_history s)))"

definition get_state ::
    "Timestamp \<Rightarrow> ('s, 't) TimeVersionedState \<Rightarrow> (AccessError + 's option) option" where
  "get_state t s =
     (case access_context s of
        Operator \<Rightarrow> Some (Inl (AccessError ''Attempted to get_state from Operator::new''))
      | WatermarkCallback \<Rightarrow>
          map_option Inr (history_get t (current_time s) (history_size s) (state_history s))
      | Callback \<Rightarrow>
          Some (Inl (AccessError ''Attempted to get_state from a non-watermark callback'')))"

definition get_current_state :: "('s, 't) TimeVersionedState \<Rightarrow> (AccessError + 's) option" where
  "get_current_state s =
     (case access_context s of
        Operator \<Rightarrow> Some (Inl (AccessError ''Attempted to get_current_state from Operator::new''))
      | WatermarkCallback \<Rightarrow> map_option Inr (bt_get ts_cmp (current_time s) (state_history s))
      | Callback \<Rightarrow>
          Some (Inl (AccessError ''Attempted to get_current_state from a non-watermark callback'')))"

text \<open>\<^verbatim>\<open>get_current_state_mut\<close> hands out a mutable reference; what the caller does with it is the
  argument \<open>f\<close>.\<close>

definition get_current_state_mut ::
    "('s \<Rightarrow> 's) \<Rightarrow> ('s, 't) TimeVersionedState \<Rightarrow>
     (('s, 't) TimeVersionedState \<times> (AccessError + unit)) option" where
  "get_current_state_mut f s =
     (case access_context s of
        Operator \<Rightarrow>
          Some (s, Inl (AccessError ''Attempted to get_current_state_mut from Operator::new''))
      | WatermarkCallback \<Rightarrow>
          (case bt_get ts_cmp (current_time s) (state_history s) of
             None \<Rightarrow> None
           | Some _ \<Rightarrow>
               Some (s \<lparr> state_history := bt_modify ts_cmp (current_time s) f (state_history s) \<rparr>,
                     Inr ()))
      | Callback \<Rightarrow>
          Some (s, Inl (AccessError ''Attempted to get_current_state_mut from a non-watermark callback'')))"

definition iter_states :: "('s, 't) TimeVersionedState \<Rightarrow> AccessError + (Timestamp \<times> 's) list" where
  "iter_states s =
     (case access_context s of
        Operator \<Rightarrow> Inl (AccessError ''Attempted to iter_states from Operator::new'')
      | Callback \<Rightarrow> Inl (AccessError ''Attempted to iter_states from a non-watermark callback'')
      | WatermarkCallback \<Rightarrow> Inr (history_iter (current_time s) (history_size s) (state_history s)))"

definition set_access_context ::
    "AccessContext \<Rightarrow> ('s, 't) TimeVersionedState \<Rightarrow> ('s, 't) TimeVersionedState" where
  "set_access_context c s = s \<lparr> access_context := c \<rparr>"

text \<open>\<open>dflt\<close> is \<^verbatim>\<open>S::default()\<close>.\<close>

definition set_current_time ::
    "'s \<Rightarrow> Timestamp \<Rightarrow> ('s, 't) TimeVersionedState \<Rightarrow> ('s, 't) TimeVersionedState" where
  "set_current_time dflt t s =
     s \<lparr> current_time := t,
         message_history := bt_or_default ts_cmp t [] (message_history s),
         state_history := bt_or_default ts_cmp t dflt (state_history s) \<rparr>"

text \<open>The two implementations of \<^verbatim>\<open>ManagedState\<close>: the blanket one does nothing.\<close>

definition default_managed :: "'s ManagedState" where
  "default_managed =
     \<lparr> ms_set_access_context = (\<lambda>_ s. s), ms_set_current_time = (\<lambda>_ s. s),
       ms_close_time = (\<lambda>_ s. (s, Inr ())) \<rparr>"

definition tvs_managed :: "'s \<Rightarrow> ('s, 't) TimeVersionedState ManagedState" where
  "tvs_managed dflt =
     \<lparr> ms_set_access_context = set_access_context, ms_set_current_time = set_current_time dflt,
       ms_close_time = close_time \<rparr>"

section \<open>The invariant\<close>

text \<open>Both histories are sorted and have the same keys.\<close>

definition tvs_inv :: "('s, 't) TimeVersionedState \<Rightarrow> bool" where
  "tvs_inv s \<longleftrightarrow> bt_sorted ts_cmp (state_history s) \<and>
                map fst (message_history s) = map fst (state_history s)"

text \<open>\<^verbatim>\<open>set_current_time\<close> was called and its entry is still there.\<close>

definition current_present :: "('s, 't) TimeVersionedState \<Rightarrow> bool" where
  "current_present s \<longleftrightarrow> bt_get ts_cmp (current_time s) (state_history s) \<noteq> None"

interpretation ts_map: btree_map ts_cmp ..

lemmas tvs_defs = set_history_size_def set_initial_state_def append_msg_def get_current_state_mut_def
  set_access_context_def set_current_time_def

lemma tvs_inv_messages_sorted: "tvs_inv s \<Longrightarrow> bt_sorted ts_cmp (message_history s)"
  using bt_sorted_keys unfolding tvs_inv_def by blast

lemma current_present_messages:
  "tvs_inv s \<Longrightarrow> current_present s \<longleftrightarrow> bt_get ts_cmp (current_time s) (message_history s) \<noteq> None"
  unfolding tvs_inv_def current_present_def using bt_get_None_keys by metis

lemma tvs_inv_new: "tvs_inv (tvs_new_with_history_size h)"
  by (simp add: tvs_inv_def tvs_new_with_history_size_def)

lemma tvs_inv_set_initial_state: "tvs_inv s \<Longrightarrow> tvs_inv (fst (set_initial_state x s))"
  by (auto simp: tvs_inv_def set_initial_state_def intro: map_fst_insert_cong split: AccessContext.split)

lemma tvs_inv_set_current_time: "tvs_inv s \<Longrightarrow> tvs_inv (set_current_time dflt t s)"
  using bt_get_None_keys[of "message_history s" "state_history s" ts_cmp t]
  by (auto simp: tvs_inv_def set_current_time_def bt_or_default_def intro: map_fst_insert_cong)

lemma tvs_inv_append: "tvs_inv s \<Longrightarrow> append_msg d s = Some (s', r) \<Longrightarrow> tvs_inv s'"
  by (auto simp: tvs_inv_def append_msg_def split: AccessContext.splits option.splits)

lemma tvs_inv_state_mut: "tvs_inv s \<Longrightarrow> get_current_state_mut f s = Some (s', r) \<Longrightarrow> tvs_inv s'"
  by (auto simp: tvs_inv_def get_current_state_mut_def split: AccessContext.splits option.splits)

lemma tvs_inv_close_time: "tvs_inv s \<Longrightarrow> tvs_inv (fst (close_time t s))"
  by (auto simp: tvs_inv_def close_time_def map_fst_split_off bt_sorted_split_off
           split: AccessContext.split option.split)

section \<open>Garbage collection\<close>

text \<open>How many entries \<^verbatim>\<open>close_time\<close> drops from the front of the histories.\<close>

definition gc_count :: "Timestamp \<Rightarrow> ('s, 't) TimeVersionedState \<Rightarrow> nat" where
  "gc_count t s =
     (if history_size s = 0 \<and> bt_range_after ts_cmp t (state_history s) = [] then 0
      else length (bt_range_to ts_cmp t (state_history s)) - history_size s)"

lemma gc_count_le: "gc_count t s \<le> length (bt_range_to ts_cmp t (state_history s))"
  by (simp add: gc_count_def)

lemma split_option_nth:
  assumes "tvs_inv s"
  shows "close_split_option t s =
           (if history_size s = 0 \<and> bt_range_after ts_cmp t (state_history s) = []
               \<or> length (bt_range_to ts_cmp t (state_history s)) < history_size s then None
            else Some (fst (state_history s ! gc_count t s))) \<and>
         (close_split_option t s \<noteq> None \<longrightarrow> gc_count t s < length (state_history s))"
proof -
  let ?A = "bt_range_to ts_cmp t (state_history s)" and ?B = "bt_range_after ts_cmp t (state_history s)"
  have split: "state_history s = ?A @ ?B"
    using assms ts_map.range_append by (auto simp: tvs_inv_def)
  have len: "length (state_history s) = length ?A + length ?B"
    by (subst split) simp
  have nthA: "i < length ?A \<Longrightarrow> state_history s ! i = ?A ! i" for i
    by (subst split) (simp add: nth_append)
  have nthB: "?B = b # bs \<Longrightarrow> state_history s ! length ?A = b" for b bs
    by (subst split) (simp add: nth_append)
  show ?thesis
  proof (cases "history_size s = 0")
    case True
    then show ?thesis
      using len nthB
      by (cases ?B) (auto simp: close_split_option_def iter_next_def gc_count_def)
  next
    case False
    then show ?thesis
      using len nthA[of "length ?A - history_size s"]
      unfolding close_split_option_def iter_next_back_funpow
      by (auto simp: iter_nth_back_def gc_count_def rev_nth rev_map[symmetric])
  qed
qed

text \<open>\<^verbatim>\<open>close_time\<close> from a watermark callback drops the same number of entries from both histories.\<close>

lemma close_time_drop:
  assumes "tvs_inv s" "access_context s = WatermarkCallback"
  shows "close_time t s =
           (s \<lparr> state_history := drop (gc_count t s) (state_history s),
                message_history := drop (gc_count t s) (message_history s) \<rparr>, Inr ())"
proof (cases "close_split_option t s")
  case None
  then have "gc_count t s = 0"
    using split_option_nth[OF assms(1), of t] by (auto simp: gc_count_def split: if_splits)
  with None assms(2) show ?thesis by (simp add: close_time_def)
next
  case (Some k)
  let ?i = "gc_count t s"
  have i: "?i < length (state_history s)" and k: "k = fst (state_history s ! ?i)"
    using split_option_nth[OF assms(1), of t] Some by (auto split: if_splits)
  have keys: "map fst (message_history s) = map fst (state_history s)"
    using assms(1) by (simp add: tvs_inv_def)
  then have i': "?i < length (message_history s)" and k': "k = fst (message_history s ! ?i)"
    using i k by (metis length_map, metis length_map nth_map)
  have "bt_split_off ts_cmp k (state_history s) = drop ?i (state_history s)"
    unfolding k by (rule ts_map.split_off_nth) (use i assms(1) in \<open>simp_all add: tvs_inv_def\<close>)
  moreover have "bt_split_off ts_cmp k (message_history s) = drop ?i (message_history s)"
    unfolding k' by (rule ts_map.split_off_nth[OF tvs_inv_messages_sorted[OF assms(1)] i'])
  ultimately show ?thesis using Some assms(2) by (simp add: close_time_def)
qed

lemma enumerate_filter_take:
  "map snd (filter (\<lambda>x. fst x \<le> h) (List.enumerate n xs)) = take (Suc h - n) xs"
proof (induction xs arbitrary: n)
  case (Cons x xs)
  show ?case
  proof (cases "n \<le> h")
    case True
    then have "Suc h - n = Suc (Suc h - Suc n)" by simp
    with True Cons[of "Suc n"] show ?thesis by simp
  next
    case False
    then show ?thesis using Cons[of "Suc n"] by simp
  qed
qed simp

lemma history_iter_take: "history_iter cur h m = take (Suc h) (rev (bt_range_to ts_cmp cur m))"
  by (simp add: history_iter_def enumerate_filter_take)

section \<open>Histories under a later time\<close>

lemma insert_after_prefix:
  "\<forall>e \<in> set p. ts_cmp (fst e) t = Less \<Longrightarrow> bt_insert ts_cmp t d (p @ m) = p @ bt_insert ts_cmp t d m"
  by (induction p) (auto simp: ts_ord.greater_iff_less[symmetric] split: ordering.splits)

lemma get_after_prefix:
  "\<forall>e \<in> set p. ts_cmp (fst e) t = Less \<Longrightarrow> bt_get ts_cmp t (p @ m) = bt_get ts_cmp t m"
  by (induction p) auto

lemma or_default_after_prefix:
  "\<forall>e \<in> set p. ts_cmp (fst e) t = Less \<Longrightarrow>
     bt_or_default ts_cmp t d (p @ m) = p @ bt_or_default ts_cmp t d m"
  by (simp add: bt_or_default_def insert_after_prefix get_after_prefix)

lemma length_filter_less:
  "\<lbrakk>x \<in> set xs; Q x; \<not> P x; \<And>y. P y \<Longrightarrow> Q y\<rbrakk> \<Longrightarrow> length (filter P xs) < length (filter Q xs)"
proof (induction xs)
  case (Cons a xs)
  have "length (filter P xs) \<le> length (filter Q xs)"
    using Cons.prems(4) by (induction xs) (auto intro: le_SucI)
  with Cons show ?case by auto
qed simp

lemma range_to_insert_later:
  "ts_lt t t' \<Longrightarrow> bt_sorted ts_cmp m \<Longrightarrow>
     bt_range_to ts_cmp t (bt_or_default ts_cmp t' d m) = bt_range_to ts_cmp t m"
proof -
  assume lt: "ts_lt t t'"
  have "bt_range_to ts_cmp t (bt_insert ts_cmp t' d m) = bt_range_to ts_cmp t m"
    if "bt_get ts_cmp t' m = None"
    using that lt
  proof (induction m)
    case (Cons e m)
    then have "ts_cmp t' (fst e) \<noteq> Equal" by (auto split: if_splits dest: ts_ord.equal_sym)
    with Cons show ?case
      by (cases e) (auto simp: bt_range_to_def ts_lt_iff ts_ord.greater_iff_less
                         split: ordering.splits if_splits)
  qed (auto simp: bt_range_to_def ts_lt_iff ts_ord.greater_iff_less)
  then show ?thesis by (simp add: bt_or_default_def)
qed

lemma range_to_grows:
  assumes "ts_lt t t'" "bt_sorted ts_cmp m"
  shows "length (bt_range_to ts_cmp t m) < length (bt_range_to ts_cmp t' (bt_or_default ts_cmp t' d m))"
proof -
  have "bt_get ts_cmp t' (bt_or_default ts_cmp t' d m) \<noteq> None"
    using ts_map.get_or_default[OF assms(2), of t'] by simp
  then obtain e where e: "e \<in> set (bt_or_default ts_cmp t' d m)" "ts_cmp (fst e) t' = Equal"
    unfolding bt_get_None_iff by auto
  have "length (bt_range_to ts_cmp t (bt_or_default ts_cmp t' d m)) <
        length (bt_range_to ts_cmp t' (bt_or_default ts_cmp t' d m))"
    unfolding bt_range_to_def
  proof (rule length_filter_less[OF e(1)])
    show "ts_cmp (fst e) t' \<noteq> Greater" using e by simp
    show "\<not> ts_cmp (fst e) t \<noteq> Greater"
      using e(2) assms(1) by (metis ts_lt_iff ts_ord.equal_cong_left ts_ord.greater_iff_less)
  qed (use assms(1) ts_ord.cmp_le_trans in \<open>auto simp: ts_lt_iff\<close>)
  then show ?thesis using range_to_insert_later[OF assms] by simp
qed

text \<open>Dropping entries that are old enough does not change what a later time iterates over.\<close>

lemma history_iter_drop:
  assumes lt: "ts_lt t t'" and sorted: "bt_sorted ts_cmp m"
    and k: "k \<le> length (bt_range_to ts_cmp t m) - h"
  shows "history_iter t' h (bt_or_default ts_cmp t' d (drop k m)) =
         history_iter t' h (bt_or_default ts_cmp t' d m)"
proof (cases "k = 0")
  case False
  let ?R = "bt_range_to ts_cmp t m"
  have m: "m = ?R @ bt_range_after ts_cmp t m" by (rule ts_map.range_append[OF sorted])
  have "take k (?R @ bt_range_after ts_cmp t m) = take k ?R" using k by simp
  then have takek: "take k m = take k ?R" using m by simp
  then have old: "\<forall>e \<in> set (take k m). ts_cmp (fst e) t' = Less"
    using lt ts_ord.le_less_trans
    by (auto simp: bt_range_to_def ts_lt_iff dest!: in_set_takeD)
  have od: "bt_or_default ts_cmp t' d m = take k m @ bt_or_default ts_cmp t' d (drop k m)"
    using or_default_after_prefix[OF old, of d "drop k m"] by simp
  let ?Y = "bt_range_to ts_cmp t' (bt_or_default ts_cmp t' d (drop k m))"
  have "bt_sorted ts_cmp (drop k m)"
    using sorted by (simp add: bt_sorted_def drop_map[symmetric] sorted_wrt_drop)
  from range_to_grows[OF lt this] have "length (bt_range_to ts_cmp t (drop k m)) < length ?Y" .
  moreover have "bt_range_to ts_cmp t (drop k m) = drop k ?R"
  proof -
    have "?R = bt_range_to ts_cmp t (take k m) @ bt_range_to ts_cmp t (drop k m)"
      unfolding bt_range_to_def filter_append[symmetric] by simp
    moreover have "bt_range_to ts_cmp t (take k m) = take k m"
      unfolding takek by (auto simp: bt_range_to_def filter_id_conv dest!: in_set_takeD)
    ultimately show ?thesis using k takek by (metis append_eq_conv_conj append_take_drop_id same_append_eq)
  qed
  ultimately have "Suc h \<le> length ?Y" using k False by simp
  moreover have "bt_range_to ts_cmp t' (bt_or_default ts_cmp t' d m) = take k m @ ?Y"
    unfolding od using old by (auto simp: bt_range_to_def filter_id_conv)
  ultimately show ?thesis by (simp add: history_iter_take)
qed simp

section \<open>Lookups inside the history window\<close>

text \<open>The number of entries at or after \<open>t\<close> and before the current time.\<close>

definition entries_since :: "Timestamp \<Rightarrow> Timestamp \<Rightarrow> (Timestamp, 'v) btree \<Rightarrow> nat" where
  "entries_since t cur m = length (filter (\<lambda>e. ts_le t (fst e) \<and> ts_lt (fst e) cur) m)"

lemma range_entries_since:
  "ts_le t cur \<Longrightarrow> \<exists>rng. bt_range ts_cmp t cur m = Some rng \<and> length rng = entries_since t cur m \<and>
     rng = filter (\<lambda>e. ts_le t (fst e) \<and> ts_lt (fst e) cur) m"
  by (auto simp: bt_range_def entries_since_def ts_le_iff ts_lt_iff ts_ord.greater_iff_less
           intro!: arg_cong[where f = length] filter_cong)

text \<open>
  An element that is not the first one of a sorted list is strictly above the first one, so the
  comparison with the oldest allowed timestamp only succeeds at the edge of the window.
\<close>

lemma sorted_nth_above:
  assumes "bt_sorted ts_cmp m" "i < length m" "0 < i" "ts_le t (fst (m ! 0))"
  shows "\<not> ts_le (fst (m ! i)) t"
proof -
  have "ts_cmp (fst (m ! 0)) (fst (m ! i)) = Less"
    using assms(1-3) by (auto simp: bt_sorted_def sorted_wrt_map sorted_wrt_iff_nth_less)
  with assms(4) have "ts_lt t (fst (m ! i))"
    using ts_le_lt_trans by (auto simp: ts_lt_iff)
  then show ?thesis by (simp add: ts_lt_iff ts_le_iff ts_ord.greater_iff_less)
qed

text \<open>If \<open>t\<close> is a key, the first entry of its window is the one of \<open>t\<close> itself.\<close>

lemma window_first:
  assumes "bt_sorted ts_cmp m" "bt_get ts_cmp t m \<noteq> None"
    and r: "r = filter (\<lambda>e. ts_le t (fst e) \<and> ts_lt (fst e) cur) m" "r \<noteq> []"
  shows "ts_le (fst (r ! 0)) t"
proof (rule ccontr)
  assume above: "\<not> ts_le (fst (r ! 0)) t"
  obtain e where e: "e \<in> set m" "ts_cmp (fst e) t = Equal"
    using assms(2) unfolding bt_get_None_iff by auto
  have hd: "r ! 0 \<in> set r" using r(2) by simp
  then have hd_le: "ts_le t (fst (r ! 0))" and hd_lt: "ts_lt (fst (r ! 0)) cur"
    unfolding r(1) by auto
  have "ts_lt (fst e) cur"
    using e(2) above hd_lt ts_ord.less_trans by (metis not_ts_lt_iff ts_lt_iff ts_ord.equal_cong_left)
  then have "e \<in> set r" using e ts_ord.equal_sym r(1) by (auto simp: ts_le_iff)
  then obtain j where j: "j < length r" "e = r ! j" by (metis in_set_conv_nth)
  have "ts_le (fst e) t" using e(2) by (simp add: ts_le_iff)
  then show False
    using sorted_nth_above[OF bt_sorted_filter[OF assms(1)], of j "\<lambda>e. ts_le t (fst e) \<and> ts_lt (fst e) cur" t]
      j hd_le above r(1) by (cases "j = 0") auto
qed

lemma history_get_window:
  assumes "bt_sorted ts_cmp m"
  shows "history_get t cur h m =
           Some (if ts_le t cur \<and> entries_since t cur m \<le> Suc h then bt_get ts_cmp t m else None)"
proof (cases "ts_le t cur")
  case True
  obtain r where range: "bt_range ts_cmp t cur m = Some r" and len: "length r = entries_since t cur m"
    and r: "r = filter (\<lambda>e. ts_le t (fst e) \<and> ts_lt (fst e) cur) m"
    using range_entries_since[OF True, of m] by auto
  show ?thesis
  proof (cases "h < length r")
    case False
    then show ?thesis using True range len by (simp add: history_get_def iter_nth_back_def)
  next
    case inside: True
    let ?i = "length r - Suc h"
    have nth: "iter_nth_back h r = Some (r ! ?i)"
      using inside by (simp add: iter_nth_back_def rev_nth)
    have ne: "r \<noteq> []" using inside by auto
    then have "r ! 0 \<in> set r" by simp
    then have hd: "ts_le t (fst (r ! 0))" unfolding r by auto
    have "\<not> ts_le (fst (r ! ?i)) t" if "0 < ?i"
      using sorted_nth_above[of r ?i t] that hd inside r bt_sorted_filter[OF assms] by simp
    moreover have "ts_le (fst (r ! 0)) t \<or> bt_get ts_cmp t m = None"
      using window_first[OF assms _ r ne] by blast
    ultimately show ?thesis
      using True range len nth inside
      by (cases "?i = 0") (auto simp: history_get_def split: prod.splits)
  qed
qed (simp add: history_get_def)

section \<open>Sequences of operations\<close>

text \<open>The calls a callback and the runtime can make on a state, and their effect.\<close>

datatype ('s, 't) tvs_op =
    SetAccessContext AccessContext
  | SetCurrentTime Timestamp
  | CloseTime Timestamp
  | SetHistorySize nat
  | SetInitialState 's
  | Append 't
  | UpdateCurrentState "'s \<Rightarrow> 's"

fun tvs_exec ::
    "'s \<Rightarrow> ('s, 't) tvs_op \<Rightarrow> ('s, 't) TimeVersionedState \<Rightarrow> ('s, 't) TimeVersionedState option" where
  "tvs_exec dflt (SetAccessContext c) s = Some (set_access_context c s)"
| "tvs_exec dflt (SetCurrentTime t) s = Some (set_current_time dflt t s)"
| "tvs_exec dflt (CloseTime t) s = Some (fst (close_time t s))"
| "tvs_exec dflt (SetHistorySize h) s = Some (fst (set_history_size h s))"
| "tvs_exec dflt (SetInitialState x) s = Some (fst (set_initial_state x s))"
| "tvs_exec dflt (Append d) s = map_option fst (append_msg d s)"
| "tvs_exec dflt (UpdateCurrentState f) s = map_option fst (get_current_state_mut f s)"

fun tvs_run ::
    "'s \<Rightarrow> ('s, 't) tvs_op list \<Rightarrow> ('s, 't) TimeVersionedState \<Rightarrow> ('s, 't) TimeVersionedState option" where
  "tvs_run dflt [] s = Some s"
| "tvs_run dflt (op # ops) s = Option.bind (tvs_exec dflt op s) (tvs_run dflt ops)"

text \<open>Closing a time does not collect the entry of the current time.\<close>

fun keeps_current :: "('s, 't) tvs_op \<Rightarrow> ('s, 't) TimeVersionedState \<Rightarrow> bool" where
  "keeps_current (CloseTime t) s = (ts_lt t (current_time s) \<or> 0 < history_size s \<and> ts_le t (current_time s))"
| "keeps_current _ s = True"

fun keeps_current_run :: "'s \<Rightarrow> ('s, 't) tvs_op list \<Rightarrow> ('s, 't) TimeVersionedState \<Rightarrow> bool" where
  "keeps_current_run dflt [] s = True"
| "keeps_current_run dflt (op # ops) s =
     (keeps_current op s \<and>
      (case tvs_exec dflt op s of None \<Rightarrow> True | Some s' \<Rightarrow> keeps_current_run dflt ops s'))"

lemma tvs_inv_exec: "tvs_inv s \<Longrightarrow> tvs_exec dflt op s = Some s' \<Longrightarrow> tvs_inv s'"
proof (cases op)
  case (SetHistorySize h)
  then show "tvs_inv s \<Longrightarrow> tvs_exec dflt op s = Some s' \<Longrightarrow> tvs_inv s'"
    by (auto simp: set_history_size_def tvs_inv_def split: AccessContext.splits)
next
  case (SetAccessContext c)
  then show "tvs_inv s \<Longrightarrow> tvs_exec dflt op s = Some s' \<Longrightarrow> tvs_inv s'"
    by (auto simp: set_access_context_def tvs_inv_def)
qed (auto dest: tvs_inv_set_initial_state tvs_inv_set_current_time tvs_inv_append tvs_inv_state_mut
       tvs_inv_close_time)

lemma tvs_inv_run: "tvs_inv s \<Longrightarrow> tvs_run dflt ops s = Some s' \<Longrightarrow> tvs_inv s'"
  by (induction ops arbitrary: s) (auto simp: bind_eq_Some_conv dest: tvs_inv_exec)

lemma get_drop:
  assumes "bt_sorted ts_cmp m" "k \<le> length (bt_range_to ts_cmp t m)" "ts_lt t cur"
  shows "bt_get ts_cmp cur (drop k m) = bt_get ts_cmp cur m"
proof -
  have "take k m = take k (bt_range_to ts_cmp t m)"
    using ts_map.range_append[OF assms(1), of t] assms(2)
    by (metis append_Nil2 diff_is_0_eq' take_0 take_append)
  then have "\<forall>e \<in> set (take k m). ts_cmp (fst e) cur = Less"
    using assms(3) ts_ord.le_less_trans by (auto simp: bt_range_to_def ts_lt_iff dest!: in_set_takeD)
  from get_after_prefix[OF this, of "drop k m"] show ?thesis by simp
qed

text \<open>With a history, closing the current time itself keeps its entry, which is the most recent of
  the kept ones.\<close>

lemma get_drop_current:
  assumes "bt_sorted ts_cmp m" "k < length (bt_range_to ts_cmp t m)" "ts_le t cur"
    "bt_get ts_cmp cur m \<noteq> None"
  shows "bt_get ts_cmp cur (drop k m) \<noteq> None"
proof (cases "ts_lt t cur")
  case True
  then show ?thesis using get_drop[OF assms(1) _ True, of k] assms by simp
next
  case False
  then have eq: "ts_cmp t cur = Equal" using assms(3) by (cases "ts_cmp t cur") (auto simp: ts_lt_iff ts_le_iff)
  let ?R = "bt_range_to ts_cmp t m"
  obtain e where e: "e \<in> set m" "ts_cmp (fst e) cur = Equal"
    using assms(4) unfolding bt_get_None_iff by auto
  then have eR: "e \<in> set ?R"
    using eq by (auto simp: bt_range_to_def) (metis ordering.distinct(5) ts_ord.equal_cong_right)
  then obtain i where i: "i < length ?R" "e = ?R ! i" by (metis in_set_conv_nth)
  have "i = length ?R - 1"
  proof (rule ccontr)
    assume "i \<noteq> length ?R - 1"
    with i have "i < length ?R - 1" by simp
    moreover have "bt_sorted ts_cmp ?R" unfolding bt_range_to_def by (rule bt_sorted_filter[OF assms(1)])
    ultimately have less: "ts_cmp (fst e) (fst (?R ! (length ?R - 1))) = Less"
      using i by (auto simp: bt_sorted_def sorted_wrt_map sorted_wrt_iff_nth_less)
    have "?R ! (length ?R - 1) \<in> set ?R" using i by (intro nth_mem) simp
    then have "ts_cmp (fst (?R ! (length ?R - 1))) t \<noteq> Greater" unfolding bt_range_to_def by simp
    from ts_ord.less_le_trans[OF less this] have "ts_cmp (fst e) t = Less" .
    then show False using ts_ord.equal_cong_right[OF eq, of "fst e"] e(2) by simp
  qed
  then have "k \<le> i" using assms(2) by simp
  have "?R ! i = m ! i" using ts_map.range_append[OF assms(1), of t] i(1) by (metis nth_append)
  moreover have "i < length m" using i(1) by (metis bt_range_to_def length_filter_le order_less_le_trans)
  ultimately have "drop k m ! (i - k) = e" "i - k < length (drop k m)"
    using i(2) \<open>k \<le> i\<close> by auto
  then have "e \<in> set (drop k m)" by (metis nth_mem)
  with e(2) show ?thesis unfolding bt_get_None_iff by auto
qed

lemma current_present_close_time:
  assumes "tvs_inv s" "current_present s" "keeps_current (CloseTime t) s"
  shows "current_present (fst (close_time t s))"
proof (cases "access_context s = WatermarkCallback")
  case True
  let ?m = "state_history s" and ?k = "gc_count t s"
  have sorted: "bt_sorted ts_cmp ?m" using assms(1) by (simp add: tvs_inv_def)
  have "bt_get ts_cmp (current_time s) (drop ?k ?m) \<noteq> None"
  proof (cases "ts_lt t (current_time s)")
    case True
    then show ?thesis using get_drop[OF sorted gc_count_le True] assms(2) by (simp add: current_present_def)
  next
    case False
    with assms(3) have h: "0 < history_size s" "ts_le t (current_time s)" by auto
    show ?thesis
    proof (cases "?k = 0")
      case False
      then have "?k < length (bt_range_to ts_cmp t ?m)" using h(1) by (auto simp: gc_count_def)
      from get_drop_current[OF sorted this h(2)] assms(2) show ?thesis by (simp add: current_present_def)
    qed (use assms(2) in \<open>simp add: current_present_def\<close>)
  qed
  with True show ?thesis by (simp add: close_time_drop[OF assms(1)] current_present_def)
qed (use assms(2) in \<open>auto simp: close_time_def split: AccessContext.splits\<close>)

lemma current_present_set_current_time:
  "tvs_inv s \<Longrightarrow> current_present (set_current_time dflt t s)"
  by (simp add: current_present_def set_current_time_def tvs_inv_def ts_map.get_or_default)

lemma exec_no_panic:
  assumes "tvs_inv s" "current_present s" "keeps_current op s"
  shows "\<exists>s'. tvs_exec dflt op s = Some s' \<and> current_present s'"
proof (cases op)
  case (Append d)
  then show ?thesis
    using current_present_messages[OF assms(1)] assms(2)
    by (auto simp: append_msg_def current_present_def split: AccessContext.split)
next
  case (UpdateCurrentState f)
  then show ?thesis
    using assms(2)
    by (auto simp: get_current_state_mut_def current_present_def ts_map.get_modify split: AccessContext.split)
next
  case (SetInitialState x)
  then show ?thesis
    using assms(1,2)
    by (auto simp: set_initial_state_def current_present_def tvs_inv_def ts_map.get_insert split: AccessContext.split)
next
  case (CloseTime t)
  then show ?thesis using current_present_close_time[OF assms(1,2)] assms(3) by auto
next
  case (SetCurrentTime t)
  then show ?thesis using current_present_set_current_time[OF assms(1)] by auto
qed (use assms(2) in \<open>auto simp: set_access_context_def set_history_size_def current_present_def split: AccessContext.split\<close>)

lemma run_no_panic:
  "tvs_inv s \<Longrightarrow> current_present s \<Longrightarrow> keeps_current_run dflt ops s \<Longrightarrow>
     \<exists>s'. tvs_run dflt ops s = Some s' \<and> current_present s'"
proof (induction ops arbitrary: s)
  case (Cons op ops)
  from exec_no_panic[OF Cons.prems(1,2), of op dflt] Cons.prems(3)
  obtain s1 where s1: "tvs_exec dflt op s = Some s1" "current_present s1" by auto
  with Cons.IH[OF tvs_inv_exec[OF Cons.prems(1) s1(1)] s1(2)] Cons.prems(3) show ?case by simp
qed simp

section \<open>Properties\<close>

text \<open>C12. Whatever sequence of calls is made on a fresh state: both histories stay sorted by
  timestamp and have entries for the same timestamps, so that the two histories can be traversed
  in step.\<close>

theorem tvs_histories_aligned:
  assumes "tvs_run dflt ops (tvs_new_with_history_size h) = Some s"
  shows "bt_sorted ts_cmp (state_history s) \<and> bt_sorted ts_cmp (message_history s) \<and>
         map fst (message_history s) = map fst (state_history s)"
  using tvs_inv_run[OF tvs_inv_new assms] tvs_inv_messages_sorted by (auto simp: tvs_inv_def)

theorem tvs_histories_aligned_witness:
  "\<exists>s. tvs_run (0::nat) [SetInitialState 7, SetCurrentTime (ts_new [2]), SetCurrentTime (ts_new [1])]
         (tvs_new_with_history_size 1 :: (nat, nat) TimeVersionedState) = Some s \<and>
       map fst (message_history s) = [ts_bottom, ts_new [1], ts_new [2]] \<and>
       map fst (state_history s) = [ts_bottom, ts_new [1], ts_new [2]]"
proof -
  let ?s = "\<lparr> current_time = ts_new [1], history_size = 1, access_context = Operator,
              message_history = [(ts_bottom, []), (ts_new [1], []), (ts_new [2], [])],
              state_history = [(ts_bottom, 7), (ts_new [1], 0), (ts_new [2], 0)] \<rparr>
            :: (nat, nat) TimeVersionedState"
  have run: "tvs_run 0 [SetInitialState 7, SetCurrentTime (ts_new [2]), SetCurrentTime (ts_new [1])]
         (tvs_new_with_history_size 1) = Some ?s"
    by (simp add: tvs_new_with_history_size_def tvs_defs bt_or_default_def ts_bottom_def ts_new_def prim_cmp_def)
  from tvs_histories_aligned[OF run] run show ?thesis by simp
qed

text \<open>C11. No panic in callbacks: once the runtime has set the current time of a state that any
  calls produced, no further sequence of calls panics, and the current state and messages can be
  read after it, as long as the calls that close a time keep the entry of the current time: they
  close an earlier time, or the current one under a positive history size.\<close>

theorem tvs_no_panic_after_set_current_time:
  assumes "tvs_run dflt before (tvs_new_with_history_size h) = Some s"
    and "keeps_current_run dflt ops (set_current_time dflt t s)"
  shows "\<exists>s'. tvs_run dflt ops (set_current_time dflt t s) = Some s' \<and>
              get_current_state s' \<noteq> None \<and> get_current_messages s' \<noteq> None"
proof -
  let ?s1 = "set_current_time dflt t s"
  have inv: "tvs_inv s" by (rule tvs_inv_run[OF tvs_inv_new assms(1)])
  have inv1: "tvs_inv ?s1" by (rule tvs_inv_set_current_time[OF inv])
  from run_no_panic[OF inv1 current_present_set_current_time[OF inv] assms(2)]
  obtain s' where s': "tvs_run dflt ops ?s1 = Some s'" "current_present s'" by blast
  moreover have "tvs_inv s'" by (rule tvs_inv_run[OF inv1 s'(1)])
  ultimately show ?thesis
    using current_present_messages[of s']
    by (auto simp: get_current_state_def get_current_messages_def current_present_def
             split: AccessContext.split)
qed

theorem tvs_no_panic_after_set_current_time_witness:
  "\<exists>s'. tvs_run (0::nat) [SetAccessContext WatermarkCallback, CloseTime (ts_new [1])]
           (set_current_time 0 (ts_new [1]) (tvs_new_with_history_size 1 :: (nat, nat) TimeVersionedState))
         = Some s' \<and> get_current_state s' \<noteq> None \<and> get_current_messages s' \<noteq> None"
proof (rule tvs_no_panic_after_set_current_time)
  show "tvs_run 0 [] (tvs_new_with_history_size 1 :: (nat, nat) TimeVersionedState)
          = Some (tvs_new_with_history_size 1)" by simp
  show "keeps_current_run 0 [SetAccessContext WatermarkCallback, CloseTime (ts_new [1])]
          (set_current_time 0 (ts_new [1]) (tvs_new_with_history_size 1 :: (nat, nat) TimeVersionedState))"
    by (simp add: tvs_new_with_history_size_def tvs_defs)
qed

text \<open>The access rules: outside \<^verbatim>\<open>Operator::new\<close> the history size and the initial state cannot
  be set, outside ordinary callbacks nothing can be appended, and outside watermark callbacks
  nothing can be read, changed or closed; a rejected call returns an error and leaves the state
  as it was.\<close>

theorem tvs_access_control:
  "(access_context s \<noteq> Operator \<longrightarrow>
      (\<exists>e. set_history_size h s = (s, Inl e)) \<and> (\<exists>e. set_initial_state x s = (s, Inl e))) \<and>
   (access_context s \<noteq> Callback \<longrightarrow> (\<exists>e. append_msg d s = Some (s, Inl e))) \<and>
   (access_context s \<noteq> WatermarkCallback \<longrightarrow>
      (\<exists>e. close_time t s = (s, Inl e)) \<and> (\<exists>e. get_current_state_mut f s = Some (s, Inl e)) \<and>
      (\<exists>e. get_current_state s = Some (Inl e)) \<and> (\<exists>e. get_current_messages s = Some (Inl e)) \<and>
      (\<exists>e. get_state t s = Some (Inl e)) \<and> (\<exists>e. get_messages t s = Some (Inl e)) \<and>
      (\<exists>e. iter_states s = Inl e) \<and> (\<exists>e. iter_messages s = Inl e))"
  by (cases "access_context s")
     (simp_all add: tvs_defs close_time_def get_current_state_def get_current_messages_def get_state_def
        get_messages_def iter_states_def iter_messages_def)

theorem tvs_access_control_witness:
  "\<exists>e. append_msg (3::nat) (tvs_new :: (nat, nat) TimeVersionedState) = Some (tvs_new, Inl e)"
  using tvs_access_control[of "tvs_new :: (nat, nat) TimeVersionedState" 0 0 3 ts_top id]
  by (simp add: tvs_new_def tvs_new_with_history_size_def)

text \<open>C10. What garbage collection removes: under a positive history size \<open>h\<close>, closing \<open>t\<close> keeps
  every entry after \<open>t\<close> and, of those up to \<open>t\<close>, the \<open>h\<close> most recent ones; under history size
  zero it keeps exactly the entries after \<open>t\<close>, except that nothing is removed when there is no
  entry after \<open>t\<close>. Both histories lose the same timestamps.\<close>

theorem close_time_collects:
  assumes "tvs_inv s" "access_context s = WatermarkCallback"
  shows "\<exists>s'. close_time t s = (s', Inr ()) \<and> tvs_inv s' \<and>
           bt_range_after ts_cmp t (state_history s') = bt_range_after ts_cmp t (state_history s) \<and>
           (let old = bt_range_to ts_cmp t (state_history s);
                kept = bt_range_to ts_cmp t (state_history s')
            in if history_size s = 0 \<and> bt_range_after ts_cmp t (state_history s) = [] then kept = old
               else kept = drop (length old - history_size s) old)"
proof -
  let ?m = "state_history s" and ?k = "gc_count t s"
  let ?A = "bt_range_to ts_cmp t ?m" and ?B = "bt_range_after ts_cmp t ?m"
  let ?s' = "fst (close_time t s)"
  have split: "?m = ?A @ ?B" using assms(1) ts_map.range_append by (auto simp: tvs_inv_def)
  have "drop ?k ?m = drop ?k (?A @ ?B)" using split by simp
  also have "\<dots> = drop ?k ?A @ ?B" using gc_count_le[of t s] by simp
  finally have new: "state_history ?s' = drop ?k ?A @ ?B" by (simp add: close_time_drop[OF assms])
  have A: "\<forall>e \<in> set ?A. ts_cmp (fst e) t \<noteq> Greater" and B: "\<forall>e \<in> set ?B. ts_cmp (fst e) t = Greater"
    by (auto simp: bt_range_to_def bt_range_after_def)
  have "bt_range_to ts_cmp t (drop ?k ?A @ ?B) = drop ?k ?A"
    using A B by (auto simp: bt_range_to_def[of _ _ "_ @ _"] filter_empty_conv filter_id_conv dest: in_set_dropD)
  moreover have "bt_range_after ts_cmp t (drop ?k ?A @ ?B) = ?B"
    using A B by (auto simp: bt_range_after_def[of _ _ "_ @ _"] filter_empty_conv filter_id_conv dest: in_set_dropD)
  moreover have "tvs_inv ?s'" by (rule tvs_inv_close_time[OF assms(1)])
  ultimately show ?thesis
    using new by (intro exI[of _ ?s']) (auto simp: close_time_drop[OF assms] gc_count_def Let_def)
qed

theorem close_time_collects_witness:
  "map fst (state_history (fst (close_time (ts_new [2])
      \<lparr> current_time = ts_new [2], history_size = 1, access_context = WatermarkCallback,
        message_history = [(ts_new [1], [CHR ''a'']), (ts_new [2], []), (ts_new [3], [])],
        state_history = [(ts_new [1], 10), (ts_new [2], 20), (ts_new [3], 30::nat)] \<rparr>))) =
   [ts_new [2], ts_new [3]]"
proof -
  let ?s = "\<lparr> current_time = ts_new [2], history_size = 1, access_context = WatermarkCallback,
        message_history = [(ts_new [1], [CHR ''a'']), (ts_new [2], []), (ts_new [3], [])],
        state_history = [(ts_new [1], 10), (ts_new [2], 20), (ts_new [3], 30::nat)] \<rparr>"
  have inv: "tvs_inv ?s" "access_context ?s = WatermarkCallback"
    by (simp_all add: tvs_inv_def ts_new_def prim_cmp_def)
  from close_time_collects[OF inv, of "ts_new [2]"] obtain s' where
    s': "close_time (ts_new [2]) ?s = (s', Inr ())" "tvs_inv s'"
      "bt_range_after ts_cmp (ts_new [2]) (state_history s') = [(ts_new [3], 30)]"
      "bt_range_to ts_cmp (ts_new [2]) (state_history s') = [(ts_new [2], 20)]"
    by (auto simp: bt_range_after_def bt_range_to_def ts_new_def prim_cmp_def)
  then have "state_history s' = [(ts_new [2], 20), (ts_new [3], 30)]"
    using ts_map.range_append[of "state_history s'" "ts_new [2]"] by (simp add: tvs_inv_def)
  with s'(1) show ?thesis by simp
qed

text \<open>C9. Garbage collection is invisible to the watermark callbacks of later times: after closing
  \<open>t\<close>, a callback at a time \<open>t'\<close> after \<open>t\<close> iterates over the same states and messages as if
  nothing had been collected.\<close>

theorem close_time_transparent:
  assumes "tvs_inv s" "access_context s = WatermarkCallback" "ts_lt t t'"
  shows "iter_states (set_current_time dflt t' (fst (close_time t s))) =
           iter_states (set_current_time dflt t' s) \<and>
         iter_messages (set_current_time dflt t' (fst (close_time t s))) =
           iter_messages (set_current_time dflt t' s)"
proof -
  let ?k = "gc_count t s" and ?h = "history_size s"
  have keys: "map fst (message_history s) = map fst (state_history s)"
    and sorted: "bt_sorted ts_cmp (state_history s)" "bt_sorted ts_cmp (message_history s)"
    using assms(1) tvs_inv_messages_sorted by (auto simp: tvs_inv_def)
  have "length (bt_range_to ts_cmp t (message_history s)) = length (bt_range_to ts_cmp t (state_history s))"
    unfolding bt_range_to_def
    using keys map_fst_filter_key[of "\<lambda>k. ts_cmp k t \<noteq> Greater"] by (metis length_map)
  then have k: "?k \<le> length (bt_range_to ts_cmp t (state_history s)) - ?h"
    "?k \<le> length (bt_range_to ts_cmp t (message_history s)) - ?h"
    by (simp_all add: gc_count_def)
  show ?thesis
    using history_iter_drop[OF assms(3) sorted(1) k(1), of dflt]
      history_iter_drop[OF assms(3) sorted(2) k(2), of "[]"] assms(2)
    by (simp add: close_time_drop[OF assms(1,2)] iter_states_def iter_messages_def set_current_time_def)
qed

theorem close_time_transparent_witness:
  "iter_states (set_current_time 0 (ts_new [3]) (fst (close_time (ts_new [2])
      \<lparr> current_time = ts_new [2], history_size = 1, access_context = WatermarkCallback,
        message_history = [(ts_new [1], [CHR ''a'']), (ts_new [2], [])],
        state_history = [(ts_new [1], 10), (ts_new [2], 20::nat)] \<rparr>))) =
   Inr [(ts_new [3], 0), (ts_new [2], 20)]"
proof -
  let ?s = "\<lparr> current_time = ts_new [2], history_size = 1, access_context = WatermarkCallback,
        message_history = [(ts_new [1], [CHR ''a'']), (ts_new [2], [])],
        state_history = [(ts_new [1], 10), (ts_new [2], 20::nat)] \<rparr>"
  have hyps: "tvs_inv ?s" "access_context ?s = WatermarkCallback" "ts_lt (ts_new [2]) (ts_new [3])"
    by (simp_all add: tvs_inv_def ts_lt_iff ts_new_def prim_cmp_def)
  show ?thesis
    unfolding close_time_transparent[OF hyps, THEN conjunct1]
    by (simp add: iter_states_def set_current_time_def bt_or_default_def history_iter_take
        bt_range_to_def ts_new_def prim_cmp_def)
qed

text \<open>Lookups by timestamp: from a watermark callback, \<^verbatim>\<open>get_state\<close> returns the state of \<open>t\<close>
  exactly when \<open>t\<close> is not in the future and at most \<open>history_size + 1\<close> entries lie between \<open>t\<close>
  inclusive and the current time exclusive. The window is one entry wider than the
  \<open>history_size\<close> past states over which \<^verbatim>\<open>iter_states\<close> iterates.\<close>

theorem get_state_window:
  assumes "tvs_inv s" "access_context s = WatermarkCallback"
  shows "get_state t s =
           Some (Inr (if ts_le t (current_time s) \<and>
                         entries_since t (current_time s) (state_history s) \<le> history_size s + 1
                      then bt_get ts_cmp t (state_history s) else None)) \<and>
         iter_states s =
           Inr (take (history_size s + 1) (rev (bt_range_to ts_cmp (current_time s) (state_history s))))"
  using assms by (simp add: get_state_def iter_states_def history_get_window history_iter_take tvs_inv_def)

theorem get_state_window_witness:
  "get_state (ts_new [1])
      \<lparr> current_time = ts_new [2], history_size = 0, access_context = WatermarkCallback,
        message_history = [(ts_new [1], [CHR ''a'']), (ts_new [2], [])],
        state_history = [(ts_new [1], 10), (ts_new [2], 20::nat)] \<rparr> = Some (Inr (Some 10)) \<and>
   iter_states
      \<lparr> current_time = ts_new [2], history_size = 0, access_context = WatermarkCallback,
        message_history = [(ts_new [1], [CHR ''a'']), (ts_new [2], [])],
        state_history = [(ts_new [1], 10), (ts_new [2], 20::nat)] \<rparr> = Inr [(ts_new [2], 20)]"
proof -
  let ?s = "\<lparr> current_time = ts_new [2], history_size = 0, access_context = WatermarkCallback,
        message_history = [(ts_new [1], [CHR ''a'']), (ts_new [2], [])],
        state_history = [(ts_new [1], 10), (ts_new [2], 20::nat)] \<rparr>"
  have hyps: "tvs_inv ?s" "access_context ?s = WatermarkCallback"
    by (simp_all add: tvs_inv_def ts_new_def prim_cmp_def)
  show ?thesis
    using get_state_window[OF hyps, of "ts_new [1]"]
    by (simp add: entries_since_def bt_range_to_def ts_le_iff ts_lt_iff ts_new_def prim_cmp_def)
qed

end
