(* ===== verification/Operator_Event.thy ===== *)
theory Operator_Event
  imports Timestamps
begin

text \<open>
  Operator events and the order in which they have to run: \<^verbatim>\<open>src/src/node/operator_event.rs\<close>.

  An event is one invocation of a callback. Its comparison decides which events the lattice makes
  wait for which others. The comparison panics on some pairs, so it is an \<open>option\<close> of an ordering.
  The theory shows when it panics, what it answers for each pair of kinds of events, and where it
  departs from a partial order.
\<close>

section \<open>Data\<close>

text \<open>The closure of an event is opaque: a value of the type parameter.\<close>

record 'cb OperatorEvent =
  ev_timestamp :: Timestamp
  is_watermark_callback :: bool
  priority :: i8
  callback :: 'cb
  read_ids :: "Uuid set"
  write_ids :: "Uuid set"

definition operator_event_new ::
    "Timestamp \<Rightarrow> bool \<Rightarrow> i8 \<Rightarrow> Uuid set \<Rightarrow> Uuid set \<Rightarrow> 'cb \<Rightarrow> 'cb OperatorEvent" where
  "operator_event_new t wm prio rids wids cb =
     \<lparr> ev_timestamp = t, is_watermark_callback = wm, priority = prio, callback = cb,
       read_ids = rids, write_ids = wids \<rparr>"

section \<open>Comparison\<close>

definition is_disjoint :: "'a set \<Rightarrow> 'a set \<Rightarrow> bool" where
  "is_disjoint A B \<longleftrightarrow> A \<inter> B = {}"

definition i8_cmp :: "i8 \<Rightarrow> i8 \<Rightarrow> ordering" where
  "i8_cmp x y = prim_cmp (sint x) (sint y)"

definition num_dependencies :: "'cb OperatorEvent \<Rightarrow> nat" where
  "num_dependencies x = card (read_ids x) + card (write_ids x)"

definition resolve_access_conflicts :: "'cb OperatorEvent \<Rightarrow> 'cb OperatorEvent \<Rightarrow> ordering option" where
  "resolve_access_conflicts x y =
     (if \<not> is_disjoint (write_ids x) (write_ids y)
      then Some (case i8_cmp (priority x) (priority y) of
                   Equal \<Rightarrow> prim_cmp (num_dependencies x) (num_dependencies y)
                 | ord \<Rightarrow> ord)
      else (let has_rw_conflicts = \<not> is_disjoint (read_ids x) (write_ids y);
                has_wr_conflicts = \<not> is_disjoint (write_ids x) (read_ids y)
            in case (has_rw_conflicts, has_wr_conflicts) of
                 (True, True) \<Rightarrow> None
               | (True, False) \<Rightarrow> Some Greater
               | (False, True) \<Rightarrow> Some Less
               | (False, False) \<Rightarrow> Some (i8_cmp (priority x) (priority y))))"

text \<open>A watermark event against a message event.\<close>

definition watermark_message_cmp :: "'cb OperatorEvent \<Rightarrow> 'cb OperatorEvent \<Rightarrow> ordering" where
  "watermark_message_cmp w m =
     (case ts_cmp (ev_timestamp w) (ev_timestamp m) of
        Greater \<Rightarrow> Greater | Equal \<Rightarrow> Greater | Less \<Rightarrow> Equal)"

definition event_cmp :: "'cb OperatorEvent \<Rightarrow> 'cb OperatorEvent \<Rightarrow> ordering option" where
  "event_cmp x y =
     (case (is_watermark_callback x, is_watermark_callback y) of
        (True, True) \<Rightarrow>
          (case ts_cmp (ev_timestamp x) (ev_timestamp y) of
             Equal \<Rightarrow> map_option (\<lambda>ord. case ord of Equal \<Rightarrow> Greater | _ \<Rightarrow> ord) (resolve_access_conflicts x y)
           | ord \<Rightarrow> Some ord)
      | (True, False) \<Rightarrow> Some (watermark_message_cmp x y)
      | (False, True) \<Rightarrow> Some (reverse (watermark_message_cmp y x))
      | (False, False) \<Rightarrow> resolve_access_conflicts x y)"

definition event_eq :: "'cb OperatorEvent \<Rightarrow> 'cb OperatorEvent \<Rightarrow> bool option" where
  "event_eq x y = map_option (\<lambda>ord. case ord of Equal \<Rightarrow> True | _ \<Rightarrow> False) (event_cmp x y)"

definition event_partial_cmp :: "'cb OperatorEvent \<Rightarrow> 'cb OperatorEvent \<Rightarrow> ordering option option" where
  "event_partial_cmp x y = map_option Some (event_cmp x y)"

text \<open>The operator \<open>>\<close> of \<^verbatim>\<open>PartialOrd\<close>; the outer option is the panic.\<close>

definition event_gt :: "'cb OperatorEvent \<Rightarrow> 'cb OperatorEvent \<Rightarrow> bool option" where
  "event_gt x y = map_option (\<lambda>ord. ord = Some Greater) (event_partial_cmp x y)"

section \<open>Lemmas\<close>

text \<open>The two write to and read from each other's items without a common write.\<close>

definition circular :: "'cb OperatorEvent \<Rightarrow> 'cb OperatorEvent \<Rightarrow> bool" where
  "circular x y \<longleftrightarrow> is_disjoint (write_ids x) (write_ids y) \<and>
     \<not> is_disjoint (read_ids x) (write_ids y) \<and> \<not> is_disjoint (write_ids x) (read_ids y)"

lemma is_disjoint_sym: "is_disjoint A B = is_disjoint B A"
  by (auto simp: is_disjoint_def)

lemma circular_sym: "circular x y = circular y x"
  by (auto simp: circular_def is_disjoint_def)

interpretation i8_ord: rust_ord_eq i8_cmp
proof
  fix x y z :: i8
  show "i8_cmp x x = Equal" by (simp add: i8_cmp_def word_eq_iff_signed)
  show "i8_cmp y x = reverse (i8_cmp x y)"
    unfolding i8_cmp_def by (rule prim_ord.cmp_swap)
  show "i8_cmp x y \<noteq> Greater \<Longrightarrow> i8_cmp y z \<noteq> Greater \<Longrightarrow> i8_cmp x z \<noteq> Greater"
    unfolding i8_cmp_def by (rule prim_ord.cmp_le_trans)
  show "i8_cmp x y = Equal \<Longrightarrow> x = y"
    unfolding i8_cmp_def prim_cmp_iff(2) by (rule word_eq_iff_signed[THEN iffD2])
qed

lemma resolve_None_iff: "resolve_access_conflicts x y = None \<longleftrightarrow> circular x y"
  by (auto simp: resolve_access_conflicts_def circular_def Let_def)

lemma resolve_swap: "resolve_access_conflicts y x = map_option reverse (resolve_access_conflicts x y)"
proof -
  have p: "i8_cmp (priority y) (priority x) = reverse (i8_cmp (priority x) (priority y))"
    by (rule i8_ord.cmp_swap)
  have d: "prim_cmp (num_dependencies y) (num_dependencies x) =
           reverse (prim_cmp (num_dependencies x) (num_dependencies y))"
    by (rule prim_ord.cmp_swap)
  show ?thesis
    unfolding resolve_access_conflicts_def p d
    by (auto simp: is_disjoint_sym[of "write_ids y"] is_disjoint_sym[of "read_ids y"] Let_def
             split: ordering.split bool.split)
qed

lemma resolve_self: "resolve_access_conflicts x x = Some Equal"
  by (auto simp: resolve_access_conflicts_def is_disjoint_def Let_def)

lemma event_cmp_None_iff:
  "event_cmp x y = None \<longleftrightarrow>
     circular x y \<and>
     (is_watermark_callback x \<longleftrightarrow> is_watermark_callback y) \<and>
     (is_watermark_callback x \<longrightarrow> ts_cmp (ev_timestamp x) (ev_timestamp y) = Equal)"
  by (auto simp: event_cmp_def resolve_None_iff split: ordering.split)

lemma event_gt_iff: "event_gt x y = Some True \<longleftrightarrow> event_cmp x y = Some Greater"
  by (cases "event_cmp x y") (auto simp: event_gt_def event_partial_cmp_def)

lemma event_gt_None: "event_gt x y = None \<longleftrightarrow> event_cmp x y = None"
  by (auto simp: event_gt_def event_partial_cmp_def)

section \<open>Properties\<close>

text \<open>C31. Comparing two events panics exactly when they are of the same kind (two messages, or
  two watermarks with the same timestamp), write no common item, and each reads an item that the
  other one writes.\<close>

theorem event_cmp_panics_iff_circular:
  "event_cmp x y = None \<longleftrightarrow>
     write_ids x \<inter> write_ids y = {} \<and> read_ids x \<inter> write_ids y \<noteq> {} \<and> write_ids x \<inter> read_ids y \<noteq> {} \<and>
     (\<not> is_watermark_callback x \<and> \<not> is_watermark_callback y \<or>
      is_watermark_callback x \<and> is_watermark_callback y \<and> ts_cmp (ev_timestamp x) (ev_timestamp y) = Equal)"
  by (auto simp: event_cmp_None_iff circular_def is_disjoint_def)

text \<open>The order between messages and watermarks: a message runs before every watermark whose
  timestamp is not smaller than its own and is unordered with the others; watermarks with
  different timestamps run in timestamp order. The answer for the pair in the other direction is
  the reverse one, except for watermarks with the same timestamp.\<close>

theorem event_cmp_watermark_order:
  "\<lbrakk>is_watermark_callback w; \<not> is_watermark_callback m\<rbrakk> \<Longrightarrow>
     event_cmp m w = Some (if ts_le (ev_timestamp m) (ev_timestamp w) then Less else Equal) \<and>
     event_cmp w m = Some (if ts_le (ev_timestamp m) (ev_timestamp w) then Greater else Equal) \<and>
     (is_watermark_callback v \<and> ts_cmp (ev_timestamp v) (ev_timestamp w) \<noteq> Equal \<longrightarrow>
        event_cmp v w = Some (ts_cmp (ev_timestamp v) (ev_timestamp w)) \<and>
        event_cmp w v = Some (reverse (ts_cmp (ev_timestamp v) (ev_timestamp w))))"
  using ts_ord.cmp_swap[of "ev_timestamp w" "ev_timestamp v"]
    ts_ord.cmp_swap[of "ev_timestamp w" "ev_timestamp m"]
  by (auto simp: event_cmp_def watermark_message_cmp_def ts_le_iff split: ordering.split)

theorem event_cmp_watermark_order_witness:
  "event_cmp (operator_event_new (ts_new [3]) False 0 {} {} ())
             (operator_event_new (ts_new [3]) True 0 {} {} ()) = Some Less"
  using event_cmp_watermark_order[of "operator_event_new (ts_new [3]) True 0 {} {} ()"
      "operator_event_new (ts_new [3]) False 0 {} {} ()"]
  by (simp add: operator_event_new_def)

text \<open>The comparison is not the partial order that the documentation describes: a watermark
  event compares \<^verbatim>\<open>Greater\<close> to itself, and two watermark events with the same timestamp, the same
  priority and no conflicting accesses each compare \<^verbatim>\<open>Greater\<close> to the other, so that whichever is
  added second waits for the first one although events of equal priority are said to run
  concurrently.\<close>

theorem event_cmp_watermark_tie:
  assumes "is_watermark_callback x" "is_watermark_callback y"
    and "ts_cmp (ev_timestamp x) (ev_timestamp y) = Equal" "priority x = priority y"
    and "write_ids x \<inter> (read_ids y \<union> write_ids y) = {}" "read_ids x \<inter> write_ids y = {}"
  shows "event_cmp x y = Some Greater \<and> event_cmp y x = Some Greater \<and> event_cmp x x = Some Greater"
proof -
  have c: "resolve_access_conflicts x y = Some Equal"
    using assms(4-6) by (auto simp: resolve_access_conflicts_def is_disjoint_def Let_def)
  then have "resolve_access_conflicts y x = Some Equal" by (simp add: resolve_swap[of y x])
  with c show ?thesis
    using assms(1-3) ts_ord.equal_sym[OF assms(3)] resolve_self[of x] by (simp add: event_cmp_def)
qed

theorem event_cmp_watermark_tie_witness:
  "event_cmp (operator_event_new (ts_new [1]) True 0 {} {} ''a'')
             (operator_event_new (ts_new [1]) True 0 {} {} ''b'') = Some Greater"
  using event_cmp_watermark_tie[of "operator_event_new (ts_new [1]) True 0 {} {} ''a''"
      "operator_event_new (ts_new [1]) True 0 {} {} ''b''"]
  by (simp add: operator_event_new_def)

text \<open>Message events that touch the same item: when the two write an item in common and have
  the same priority and the same number of dependencies they compare \<^verbatim>\<open>Equal\<close>, which the lattice
  treats as independent, whatever their timestamps are.\<close>

theorem message_write_conflict_unordered:
  assumes "\<not> is_watermark_callback x" "\<not> is_watermark_callback y" "write_ids x \<inter> write_ids y \<noteq> {}"
    and "priority x = priority y" "num_dependencies x = num_dependencies y"
  shows "event_cmp x y = Some Equal \<and> event_eq x y = Some True"
  using assms by (simp add: event_cmp_def event_eq_def resolve_access_conflicts_def is_disjoint_def)

theorem message_write_conflict_unordered_witness:
  "event_cmp (operator_event_new (ts_new [1]) False 0 {} {7} ''a'')
             (operator_event_new (ts_new [2]) False 0 {} {7} ''b'') = Some Equal"
  using message_write_conflict_unordered[of "operator_event_new (ts_new [1]) False 0 {} {7} ''a''"
      "operator_event_new (ts_new [2]) False 0 {} {7} ''b''"]
  by (simp add: operator_event_new_def num_dependencies_def)

end
