(* ===== verification/Binary_Heap.thy ===== *)
theory Binary_Heap
  imports Erdos_Prelude
begin

text \<open>
  \<^verbatim>\<open>std::collections::BinaryHeap\<close> as far as the sources use it: a bag of elements from which
  \<^verbatim>\<open>pop\<close> takes a greatest one. The list holds the elements in the unspecified order in which the
  heap iterates over them.
\<close>

definition heap_push :: "'a \<Rightarrow> 'a list \<Rightarrow> 'a list" where
  "heap_push x h = x # h"

text \<open>A greatest element of the non-empty heap \<open>x # h\<close>.\<close>

definition heap_max :: "('a \<Rightarrow> 'a \<Rightarrow> ordering) \<Rightarrow> 'a \<Rightarrow> 'a list \<Rightarrow> 'a" where
  "heap_max cmp x h = fold (\<lambda>y m. if cmp y m = Greater then y else m) h x"

fun heap_peek :: "('a \<Rightarrow> 'a \<Rightarrow> ordering) \<Rightarrow> 'a list \<Rightarrow> 'a option" where
  "heap_peek cmp [] = None"
| "heap_peek cmp (x # h) = Some (heap_max cmp x h)"

definition heap_pop :: "('a \<Rightarrow> 'a \<Rightarrow> ordering) \<Rightarrow> 'a list \<Rightarrow> ('a \<times> 'a list) option" where
  "heap_pop cmp h = map_option (\<lambda>x. (x, remove1 x h)) (heap_peek cmp h)"

lemma heap_max_in: "heap_max cmp x h \<in> set (x # h)"
  unfolding heap_max_def by (induction h arbitrary: x) auto

lemma heap_peek_None [simp]: "heap_peek cmp h = None \<longleftrightarrow> h = []"
  by (cases h) simp_all

lemma heap_peek_in: "heap_peek cmp h = Some x \<Longrightarrow> x \<in> set h"
  using heap_max_in by (cases h) fastforce+

lemma heap_pop_None [simp]: "heap_pop cmp h = None \<longleftrightarrow> h = []"
  by (simp add: heap_pop_def)

lemma heap_pop_Nil [simp]: "heap_pop cmp [] = None"
  by simp

lemma heap_pop_Some:
  "heap_pop cmp h = Some (x, h') \<Longrightarrow> x \<in> set h \<and> mset h = add_mset x (mset h') \<and> h' = remove1 x h"
  using heap_peek_in[of cmp h x] by (auto simp: heap_pop_def)

lemma heap_pop_in: "heap_pop cmp h = Some (x, h') \<Longrightarrow> x \<in> set h"
  using heap_pop_Some by fast

lemma heap_pop_length: "heap_pop cmp h = Some (x, h') \<Longrightarrow> length h = Suc (length h')"
  using heap_pop_Some[of cmp h x h'] by (metis size_add_mset size_mset)

locale binary_heap = rust_ord cmp for cmp :: "'a \<Rightarrow> 'a \<Rightarrow> ordering"
begin

lemma heap_max_ge: "y \<in> set (x # h) \<Longrightarrow> cmp y (heap_max cmp x h) \<noteq> Greater"
proof (induction h arbitrary: x y)
  case (Cons z h)
  let ?m = "if cmp z x = Greater then z else x"
  have hm: "heap_max cmp x (z # h) = heap_max cmp ?m h" by (simp add: heap_max_def)
  have m: "cmp ?m (heap_max cmp ?m h) \<noteq> Greater" by (rule Cons.IH) simp
  have "cmp x ?m \<noteq> Greater" "cmp z ?m \<noteq> Greater" using greater_iff_less[of z x] by auto
  then have "cmp x (heap_max cmp ?m h) \<noteq> Greater" "cmp z (heap_max cmp ?m h) \<noteq> Greater"
    using m cmp_le_trans by blast+
  then show ?case unfolding hm using Cons.prems Cons.IH by fastforce
qed (simp add: heap_max_def)

lemma peek_ge: "heap_peek cmp h = Some x \<Longrightarrow> y \<in> set h \<Longrightarrow> cmp y x \<noteq> Greater"
  using heap_max_ge by (cases h) fastforce+

lemma pop_ge: "heap_pop cmp h = Some (x, h') \<Longrightarrow> y \<in> set h \<Longrightarrow> cmp y x \<noteq> Greater"
  using peek_ge by (auto simp: heap_pop_def)

end

end
