(* ===== verification/Petgraph.thy ===== *)
theory Petgraph
  imports Erdos_Prelude
begin

text \<open>
  The interface of the graph library \<^verbatim>\<open>petgraph\<close> that the execution lattice uses: a
  \<^verbatim>\<open>StableGraph\<close>, whose node and edge indices survive the removal of other nodes and edges, and the
  traversal \<^verbatim>\<open>DfsPostOrder\<close> over the reversed graph. The library is not part of the sources: its
  operations are the fields of a record that the definitions of the lattice take as an argument,
  and the locales below state the documented behaviour that the lattice relies on. Indices are
  natural numbers; the laws speak of graphs below the capacity of the 32-bit index type.
\<close>

section \<open>Operations\<close>

record ('g, 'd, 'w) petgraph =
  pg_new :: 'g
  pg_add_node :: "'w \<Rightarrow> 'g \<Rightarrow> 'g \<times> nat"
  pg_add_edge :: "nat \<Rightarrow> nat \<Rightarrow> 'g \<Rightarrow> 'g \<times> nat"
  pg_remove_edge :: "nat \<Rightarrow> 'g \<Rightarrow> 'g \<times> unit option"
  pg_remove_node :: "nat \<Rightarrow> 'g \<Rightarrow> 'g \<times> 'w option"
  pg_find_edge :: "'g \<Rightarrow> nat \<Rightarrow> nat \<Rightarrow> nat option"
  pg_incoming :: "'g \<Rightarrow> nat \<Rightarrow> nat list"
  pg_outgoing :: "'g \<Rightarrow> nat \<Rightarrow> nat list"
  pg_node_weight :: "'g \<Rightarrow> nat \<Rightarrow> 'w option"
  pg_set_weight :: "nat \<Rightarrow> 'w \<Rightarrow> 'g \<Rightarrow> 'g"
  pg_edge_endpoints :: "'g \<Rightarrow> nat \<Rightarrow> (nat \<times> nat) option"
  dfs_empty :: "'g \<Rightarrow> 'd"
  dfs_move_to :: "nat \<Rightarrow> 'd \<Rightarrow> 'd"
  dfs_next :: "'g \<Rightarrow> 'd \<Rightarrow> nat option \<times> 'd"

text \<open>The nodes and the edge relation of a graph, read off through the library's own lookups.\<close>

definition pg_nodes :: "('g, 'd, 'w) petgraph \<Rightarrow> 'g \<Rightarrow> nat set" where
  "pg_nodes G g = dom (pg_node_weight G g)"

definition pg_edges :: "('g, 'd, 'w) petgraph \<Rightarrow> 'g \<Rightarrow> (nat \<times> nat) set" where
  "pg_edges G g = ran (pg_edge_endpoints G g)"

text \<open>No two edges have the same endpoints.\<close>

definition pg_simple :: "('g, 'd, 'w) petgraph \<Rightarrow> 'g \<Rightarrow> bool" where
  "pg_simple G g \<longleftrightarrow> inj_on (pg_edge_endpoints G g) (dom (pg_edge_endpoints G g))"

section \<open>Laws of the graph\<close>

text \<open>\<open>ok\<close> stands for the internal consistency that the library maintains.\<close>

locale stable_graph =
  fixes G :: "('g, 'd, 'w) petgraph"
    and ok :: "'g \<Rightarrow> bool"
  assumes new_ok: "ok (pg_new G)"
    and new_nodes: "pg_node_weight G (pg_new G) n = None"
    and new_edges: "pg_edge_endpoints G (pg_new G) e = None"
    and finite_nodes: "ok g \<Longrightarrow> finite (dom (pg_node_weight G g))"
    and endpoints: "ok g \<Longrightarrow> pg_edge_endpoints G g e = Some (a, b) \<Longrightarrow>
      pg_node_weight G g a \<noteq> None \<and> pg_node_weight G g b \<noteq> None"
    and add_node: "ok g \<Longrightarrow> pg_add_node G w g = (g', n) \<Longrightarrow>
      ok g' \<and> pg_node_weight G g n = None \<and> pg_node_weight G g' = (pg_node_weight G g)(n \<mapsto> w) \<and>
      pg_edge_endpoints G g' = pg_edge_endpoints G g"
    and add_edge: "ok g \<Longrightarrow> pg_node_weight G g a \<noteq> None \<Longrightarrow> pg_node_weight G g b \<noteq> None \<Longrightarrow>
      pg_add_edge G a b g = (g', e) \<Longrightarrow>
      ok g' \<and> pg_node_weight G g' = pg_node_weight G g \<and> pg_edge_endpoints G g e = None \<and>
      pg_edge_endpoints G g' = (pg_edge_endpoints G g)(e \<mapsto> (a, b))"
    and remove_edge: "ok g \<Longrightarrow> pg_remove_edge G e g = (g', r) \<Longrightarrow>
      ok g' \<and> pg_node_weight G g' = pg_node_weight G g \<and>
      pg_edge_endpoints G g' = (pg_edge_endpoints G g)(e := None) \<and>
      r = map_option (\<lambda>_. ()) (pg_edge_endpoints G g e)"
    and remove_node: "ok g \<Longrightarrow> pg_remove_node G n g = (g', w') \<Longrightarrow>
      ok g' \<and> pg_node_weight G g' = (pg_node_weight G g)(n := None) \<and>
      pg_edge_endpoints G g' = (\<lambda>e. case pg_edge_endpoints G g e of None \<Rightarrow> None
        | Some (a, b) \<Rightarrow> if a = n \<or> b = n then None else Some (a, b))"
    and set_weight: "ok g \<Longrightarrow> pg_node_weight G g n \<noteq> None \<Longrightarrow>
      ok (pg_set_weight G n w g) \<and>
      pg_node_weight G (pg_set_weight G n w g) = (pg_node_weight G g)(n \<mapsto> w) \<and>
      pg_edge_endpoints G (pg_set_weight G n w g) = pg_edge_endpoints G g"
    and find_edge_Some: "ok g \<Longrightarrow> pg_find_edge G g a b = Some e \<Longrightarrow> pg_edge_endpoints G g e = Some (a, b)"
    and find_edge_None: "ok g \<Longrightarrow> pg_find_edge G g a b = None \<Longrightarrow> pg_edge_endpoints G g e \<noteq> Some (a, b)"
    and incoming: "ok g \<Longrightarrow> \<exists>es. distinct es \<and> set es = {e. \<exists>a. pg_edge_endpoints G g e = Some (a, n)} \<and>
      map (\<lambda>e. fst (the (pg_edge_endpoints G g e))) es = pg_incoming G g n"
    and outgoing: "ok g \<Longrightarrow> \<exists>es. distinct es \<and> set es = {e. \<exists>b. pg_edge_endpoints G g e = Some (n, b)} \<and>
      map (\<lambda>e. snd (the (pg_edge_endpoints G g e))) es = pg_outgoing G g n"
begin

lemma edges_iff: "(a, b) \<in> pg_edges G g \<longleftrightarrow> (\<exists>e. pg_edge_endpoints G g e = Some (a, b))"
  by (auto simp: pg_edges_def ran_def)

lemma edges_nodes: "ok g \<Longrightarrow> (a, b) \<in> pg_edges G g \<Longrightarrow> a \<in> pg_nodes G g \<and> b \<in> pg_nodes G g"
  using endpoints by (auto simp: edges_iff pg_nodes_def dom_def)

lemma set_incoming: "ok g \<Longrightarrow> set (pg_incoming G g n) = {a. (a, n) \<in> pg_edges G g}"
proof -
  assume "ok g"
  from incoming[OF this, of n] obtain es where es: "set es = {e. \<exists>a. pg_edge_endpoints G g e = Some (a, n)}"
    "map (\<lambda>e. fst (the (pg_edge_endpoints G g e))) es = pg_incoming G g n" by blast
  show ?thesis unfolding es(2)[symmetric] set_map es(1) by (force simp: edges_iff)
qed

lemma set_outgoing: "ok g \<Longrightarrow> set (pg_outgoing G g n) = {b. (n, b) \<in> pg_edges G g}"
proof -
  assume "ok g"
  from outgoing[OF this, of n] obtain es where es: "set es = {e. \<exists>b. pg_edge_endpoints G g e = Some (n, b)}"
    "map (\<lambda>e. snd (the (pg_edge_endpoints G g e))) es = pg_outgoing G g n" by blast
  show ?thesis unfolding es(2)[symmetric] set_map es(1) by (force simp: edges_iff)
qed

lemma distinct_incoming: "ok g \<Longrightarrow> pg_simple G g \<Longrightarrow> distinct (pg_incoming G g n)"
proof -
  assume ok: "ok g" and simple: "pg_simple G g"
  from incoming[OF ok, of n] obtain es where es: "distinct es"
    "set es = {e. \<exists>a. pg_edge_endpoints G g e = Some (a, n)}"
    "map (\<lambda>e. fst (the (pg_edge_endpoints G g e))) es = pg_incoming G g n" by blast
  have "inj_on (\<lambda>e. fst (the (pg_edge_endpoints G g e))) (set es)"
    using simple unfolding es(2) pg_simple_def by (auto simp: inj_on_def dom_def)
  with es show ?thesis by (metis distinct_map)
qed

lemma length_outgoing_0: "ok g \<Longrightarrow> length (pg_outgoing G g n) = 0 \<longleftrightarrow> (\<forall>b. (n, b) \<notin> pg_edges G g)"
  using set_outgoing[of g n] by (simp flip: set_empty)

text \<open>A graph that extends another one by edges: same nodes, and the edges keep their indices.\<close>

lemma edges_upd: "pg_edge_endpoints G g e = None \<Longrightarrow>
    pg_edge_endpoints G g' = (pg_edge_endpoints G g)(e \<mapsto> (a, b)) \<Longrightarrow> pg_edges G g' = insert (a, b) (pg_edges G g)"
  by (auto simp: pg_edges_def)

lemma add_edge_spec:
  assumes "ok g" "a \<in> pg_nodes G g" "b \<in> pg_nodes G g" "pg_simple G g" "(a, b) \<notin> pg_edges G g"
    and "g' = fst (pg_add_edge G a b g)"
  shows "ok g' \<and> pg_node_weight G g' = pg_node_weight G g \<and> pg_edges G g' = insert (a, b) (pg_edges G g) \<and>
         pg_simple G g' \<and> pg_edge_endpoints G g \<subseteq>\<^sub>m pg_edge_endpoints G g'"
proof -
  obtain e where e: "pg_add_edge G a b g = (g', e)" using assms(6) by (metis prod.collapse)
  have ne: "pg_edge_endpoints G g e = None"
    and upd: "ok g'" "pg_node_weight G g' = pg_node_weight G g"
      "pg_edge_endpoints G g' = (pg_edge_endpoints G g)(e \<mapsto> (a, b))"
    using add_edge[OF assms(1) _ _ e] assms(2,3) by (auto simp: pg_nodes_def)
  have "pg_simple G g'"
    using assms(4,5) ne unfolding pg_simple_def upd(3)
    by (auto simp: inj_on_def edges_iff dom_def split: if_splits)
  moreover have "pg_edge_endpoints G g \<subseteq>\<^sub>m pg_edge_endpoints G g'"
    unfolding upd(3) using ne by (auto simp: map_le_def)
  ultimately show ?thesis using upd edges_upd[OF ne upd(3)] by blast
qed

lemma add_edges_spec:
  assumes "ok g" "set es \<subseteq> pg_nodes G g \<times> pg_nodes G g" "pg_simple G g" "distinct es" "set es \<inter> pg_edges G g = {}"
    and "g' = fold (\<lambda>(a, b) g. fst (pg_add_edge G a b g)) es g"
  shows "ok g' \<and> pg_node_weight G g' = pg_node_weight G g \<and> pg_edges G g' = set es \<union> pg_edges G g \<and>
         pg_simple G g' \<and> pg_edge_endpoints G g \<subseteq>\<^sub>m pg_edge_endpoints G g'"
  using assms
proof (induction es arbitrary: g)
  case (Cons e es)
  obtain a b where e: "e = (a, b)" by (cases e)
  let ?h = "fst (pg_add_edge G a b g)"
  have h: "ok ?h" "pg_node_weight G ?h = pg_node_weight G g" "pg_edges G ?h = insert (a, b) (pg_edges G g)"
    "pg_simple G ?h" "pg_edge_endpoints G g \<subseteq>\<^sub>m pg_edge_endpoints G ?h"
    using add_edge_spec[OF Cons.prems(1) _ _ Cons.prems(3), of a b ?h] Cons.prems(2,5) e by auto
  have "ok g' \<and> pg_node_weight G g' = pg_node_weight G ?h \<and> pg_edges G g' = set es \<union> pg_edges G ?h \<and>
        pg_simple G g' \<and> pg_edge_endpoints G ?h \<subseteq>\<^sub>m pg_edge_endpoints G g'"
  proof (rule Cons.IH[OF h(1) _ h(4)])
    show "set es \<subseteq> pg_nodes G ?h \<times> pg_nodes G ?h" using Cons.prems(2) h(2) by (auto simp: pg_nodes_def)
    show "set es \<inter> pg_edges G ?h = {}" using Cons.prems(4,5) e h(3) by auto
  qed (use Cons.prems e in auto)
  with h e show ?case using map_le_trans by fastforce
qed simp

lemma simple_restrict:
  assumes "pg_simple G g" "pg_edge_endpoints G g' \<subseteq>\<^sub>m pg_edge_endpoints G g"
  shows "pg_simple G g'"
  unfolding pg_simple_def
proof (rule inj_onI)
  fix x y
  assume xy: "x \<in> dom (pg_edge_endpoints G g')" "y \<in> dom (pg_edge_endpoints G g')"
    "pg_edge_endpoints G g' x = pg_edge_endpoints G g' y"
  then have "pg_edge_endpoints G g x = pg_edge_endpoints G g y" "x \<in> dom (pg_edge_endpoints G g)"
    "y \<in> dom (pg_edge_endpoints G g)"
    using assms(2) by (auto simp: map_le_def dom_def)
  then show "x = y" using assms(1) unfolding pg_simple_def by (meson inj_onD)
qed

end

section \<open>Laws of the traversal\<close>

text \<open>
  \<^verbatim>\<open>DfsPostOrder\<close> keeps its maps of discovered and finished nodes across \<^verbatim>\<open>move_to\<close>, which only
  discards the stack. The observers \<open>discovered\<close> and \<open>finished\<close> are those maps, \<open>target\<close> is the
  argument of the last \<^verbatim>\<open>move_to\<close>, and \<open>opened\<close> are the nodes that were entered since then and are
  not emitted yet. The traversal follows the edges backwards. \<open>valid\<close> holds while every traversal
  starts from a node that was not discovered before, in a graph that does not change.
\<close>

locale dfs_post_order = stable_graph G ok
  for G :: "('g, 'd, 'w) petgraph" and ok :: "'g \<Rightarrow> bool" +
  fixes valid :: "'g \<Rightarrow> 'd \<Rightarrow> bool"
    and discovered finished opened :: "'d \<Rightarrow> nat set"
    and target :: "'d \<Rightarrow> nat option"
  assumes empty: "ok g \<Longrightarrow> valid g (dfs_empty G g) \<and> discovered (dfs_empty G g) = {} \<and>
      finished (dfs_empty G g) = {} \<and> opened (dfs_empty G g) = {} \<and> target (dfs_empty G g) = None"
    and move_to: "valid g d \<Longrightarrow> ok g \<Longrightarrow> n \<in> pg_nodes G g \<Longrightarrow> n \<notin> discovered d \<Longrightarrow>
      valid g (dfs_move_to G n d) \<and> discovered (dfs_move_to G n d) = discovered d \<and>
      finished (dfs_move_to G n d) = finished d \<and> opened (dfs_move_to G n d) = {} \<and>
      target (dfs_move_to G n d) = Some n"
    and next_Some: "valid g d \<Longrightarrow> ok g \<Longrightarrow> dfs_next G g d = (Some v, d') \<Longrightarrow>
      valid g d' \<and> v \<in> pg_nodes G g \<and> v \<notin> finished d \<and> v \<in> discovered d' \<and>
      finished d' = insert v (finished d) \<and> target d' = target d \<and>
      discovered d \<subseteq> discovered d' \<and> discovered d' \<subseteq> discovered d \<union> opened d' \<union> {v} \<and>
      (\<forall>u. (u, v) \<in> pg_edges G g \<longrightarrow> u \<in> discovered d') \<and>
      (\<forall>u \<in> discovered d' - discovered d. Some u = target d \<or> (\<exists>x. (u, x) \<in> pg_edges G g)) \<and>
      (\<forall>z \<in> opened d'. z \<in> discovered d' \<and> z \<notin> finished d' \<and> (v, z) \<in> (pg_edges G g)\<^sup>*) \<and>
      opened d - {v} \<subseteq> opened d' \<and> (\<forall>n. target d = Some n \<longrightarrow> n \<in> discovered d')"
    and next_None: "valid g d \<Longrightarrow> ok g \<Longrightarrow> dfs_next G g d = (None, d') \<Longrightarrow>
      valid g d' \<and> discovered d' = discovered d \<and> finished d' = finished d \<and> opened d = {} \<and>
      opened d' = {} \<and> target d' = target d \<and>
      (\<forall>n. target d = Some n \<longrightarrow> n \<in> finished d \<and> n \<in> discovered d)"

begin

lemma next_basic:
  assumes "valid g d" "ok g" "dfs_next G g d = (Some v, d')"
  shows "valid g d'" "v \<in> pg_nodes G g" "v \<notin> finished d" "v \<in> discovered d'"
    "finished d' = insert v (finished d)" "target d' = target d" "discovered d \<subseteq> discovered d'"
    "target d = Some n \<Longrightarrow> n \<in> discovered d'"
  using next_Some[OF assms] by (blast, blast, blast, blast, blast, blast, blast, blast)

lemma next_discovers:
  assumes "valid g d" "ok g" "dfs_next G g d = (Some v, d')" "u \<in> discovered d'" "u \<notin> discovered d"
  shows "u \<in> opened d' \<or> u = v" "target d = Some u \<or> (\<exists>x. (u, x) \<in> pg_edges G g)"
  using next_Some[OF assms(1-3)] assms(4,5) by (blast, metis DiffI)

lemma next_parents: "\<lbrakk>valid g d; ok g; dfs_next G g d = (Some v, d'); (u, v) \<in> pg_edges G g\<rbrakk> \<Longrightarrow> u \<in> discovered d'"
  using next_Some by blast

lemma next_opened:
  assumes "valid g d" "ok g" "dfs_next G g d = (Some v, d')"
  shows "z \<in> opened d' \<Longrightarrow> z \<in> discovered d' \<and> z \<notin> finished d' \<and> (v, z) \<in> (pg_edges G g)\<^sup>*"
    "opened d - {v} \<subseteq> opened d'"
  using next_Some[OF assms] by (blast, blast)

end

end
