(* ===== verification/Lattice.thy ===== *)
theory Lattice
  imports Operator_Event Binary_Heap Petgraph
begin

text \<open>
  The execution lattice: \<^verbatim>\<open>src/src/node/lattice.rs\<close>.

  The lattice holds the pending events of an operator as the nodes of a dependency graph; an edge
  from A to B says that A has to wait for B. Events without dependencies are the leaves, and those
  leaves that are not running yet are in the run queue. The three locks are always taken together,
  so each operation is one step on the record of the three fields.

  This theory holds the definitions. An operation that hits an \<^verbatim>\<open>unwrap\<close>, an \<^verbatim>\<open>expect\<close>, an index out of
  range or a panic in a comparison is \<open>None\<close>, as is a search that does not end.
\<close>

section \<open>Runnable events\<close>

record RunnableEvent =
  node_index :: nat
  re_timestamp :: "Timestamp option"

definition runnable_new :: "nat \<Rightarrow> RunnableEvent" where
  "runnable_new i = \<lparr> node_index = i, re_timestamp = None \<rparr>"

definition with_timestamp :: "Timestamp \<Rightarrow> RunnableEvent \<Rightarrow> RunnableEvent" where
  "with_timestamp t r = r \<lparr> re_timestamp := Some t \<rparr>"

definition runnable_eq :: "RunnableEvent \<Rightarrow> RunnableEvent \<Rightarrow> bool" where
  "runnable_eq a b = (case prim_cmp (node_index a) (node_index b) of Equal \<Rightarrow> True | _ \<Rightarrow> False)"

definition runnable_cmp :: "RunnableEvent \<Rightarrow> RunnableEvent \<Rightarrow> ordering" where
  "runnable_cmp a b =
     (case (re_timestamp a, re_timestamp b) of
        (Some ts1, Some ts2) \<Rightarrow>
          (case ts_cmp ts1 ts2 of
             Less \<Rightarrow> Greater
           | Greater \<Rightarrow> Less
           | Equal \<Rightarrow> reverse (prim_cmp (node_index a) (node_index b)))
      | _ \<Rightarrow> reverse (prim_cmp (node_index a) (node_index b)))"

definition runnable_partial_cmp :: "RunnableEvent \<Rightarrow> RunnableEvent \<Rightarrow> ordering option" where
  "runnable_partial_cmp a b = Some (runnable_cmp a b)"

section \<open>The lattice\<close>

text \<open>The weight of a node is the event, or \<open>None\<close> once the event was handed out for execution.\<close>

type_synonym ('g, 'd, 'cb) lattice_graph = "('g, 'd, 'cb OperatorEvent option) petgraph"

record 'g ExecutionLattice =
  forest :: 'g
  leaves :: "RunnableEvent list"
  run_queue :: "RunnableEvent list"

definition lattice_new :: "('g, 'd, 'cb) lattice_graph \<Rightarrow> 'g ExecutionLattice" where
  "lattice_new G = \<lparr> forest = pg_new G, leaves = [], run_queue = [] \<rparr>"

text \<open>The local variables of the search in \<^verbatim>\<open>add_events\<close>.\<close>

record 'd search_state =
  dfs_from_leaf :: 'd
  preceding_events :: "nat list"
  children :: "nat list"
  parents :: "nat list"
  demoted_leaves :: "nat list"
  redundant_edges :: "nat list"

text \<open>\<^verbatim>\<open>forest.node_weight(i).unwrap().as_ref().unwrap()\<close>\<close>

definition pending_event :: "('g, 'd, 'cb) lattice_graph \<Rightarrow> 'g \<Rightarrow> nat \<Rightarrow> 'cb OperatorEvent option" where
  "pending_event G g i = Option.bind (pg_node_weight G g i) id"

text \<open>The loop over the parents of a visited node that collects those that follow the added event.\<close>

fun add_parents ::
    "('g, 'd, 'cb) lattice_graph \<Rightarrow> 'g \<Rightarrow> 'cb OperatorEvent \<Rightarrow> nat list \<Rightarrow> nat list \<Rightarrow> nat list option" where
  "add_parents G g added [] ps = Some ps"
| "add_parents G g added (parent_idx # rest) ps =
     (case pending_event G g parent_idx of
        None \<Rightarrow> None
      | Some parent_event \<Rightarrow>
          (case event_gt parent_event added of
             None \<Rightarrow> None
           | Some True \<Rightarrow> add_parents G g added rest (set_add parent_idx ps)
           | Some False \<Rightarrow> add_parents G g added rest ps))"

text \<open>The same loop in the case of a dependency, which also notes the edges that become redundant.\<close>

fun add_parents_redundant ::
    "('g, 'd, 'cb) lattice_graph \<Rightarrow> 'g \<Rightarrow> 'cb OperatorEvent \<Rightarrow> nat \<Rightarrow> nat list \<Rightarrow> nat list \<times> nat list \<Rightarrow>
     (nat list \<times> nat list) option" where
  "add_parents_redundant G g added v [] acc = Some acc"
| "add_parents_redundant G g added v (parent_idx # rest) (ps, es) =
     (case pending_event G g parent_idx of
        None \<Rightarrow> None
      | Some parent_event \<Rightarrow>
          (case event_gt parent_event added of
             None \<Rightarrow> None
           | Some True \<Rightarrow>
               (case pg_find_edge G g parent_idx v of
                  None \<Rightarrow> None
                | Some redundant_edge \<Rightarrow>
                    add_parents_redundant G g added v rest (set_add parent_idx ps, es @ [redundant_edge]))
           | Some False \<Rightarrow> add_parents_redundant G g added v rest (ps, es)))"

text \<open>
  What is done with one visited node. The first component of the result says whether the search
  from the current leaf is abandoned (\<^verbatim>\<open>continue 'dfs_leaves\<close>).
\<close>

definition visit_node ::
    "('g, 'd, 'cb) lattice_graph \<Rightarrow> 'g \<Rightarrow> RunnableEvent list \<Rightarrow> 'cb OperatorEvent \<Rightarrow> nat \<Rightarrow> 'd search_state \<Rightarrow>
     (bool \<times> 'd search_state) option" where
  "visit_node G g rq added v st =
     (if \<exists>parent \<in> set (pg_incoming G g v). parent \<in> set (preceding_events st)
      then Some (True, st \<lparr> preceding_events := set_add v (preceding_events st) \<rparr>)
      else
        (case pg_node_weight G g v of
           None \<Rightarrow> None
         | Some (Some visited_event) \<Rightarrow>
             (case event_cmp added visited_event of
                None \<Rightarrow> None
              | Some Less \<Rightarrow>
                  Some (False,
                    if length (pg_outgoing G g v) = 0
                    then st \<lparr> parents := set_add v (parents st),
                              demoted_leaves := demoted_leaves st @
                                map node_index (filter (\<lambda>n. node_index n = v) rq) \<rparr>
                    else st)
              | Some Equal \<Rightarrow>
                  map_option (\<lambda>ps. (False, st \<lparr> parents := ps \<rparr>))
                    (add_parents G g added (pg_incoming G g v) (parents st))
              | Some Greater \<Rightarrow>
                  map_option (\<lambda>(ps, es). (False, st \<lparr> children := set_add v (children st),
                                preceding_events := set_add v (preceding_events st),
                                parents := ps, redundant_edges := es \<rparr>))
                    (add_parents_redundant G g added v (pg_incoming G g v) (parents st, redundant_edges st)))
         | Some None \<Rightarrow>
             map_option (\<lambda>ps. (False, st \<lparr> parents := ps \<rparr>))
               (add_parents G g added (pg_incoming G g v) (parents st))))"

text \<open>The \<^verbatim>\<open>while let Some(..) = dfs_from_leaf.next(..)\<close> loop from one leaf.\<close>

partial_function (option) dfs_loop ::
    "('g, 'd, 'cb) lattice_graph \<Rightarrow> 'g \<Rightarrow> RunnableEvent list \<Rightarrow> 'cb OperatorEvent \<Rightarrow> 'd search_state \<Rightarrow>
     'd search_state option" where
  "dfs_loop G g rq added st =
     (case dfs_next G g (dfs_from_leaf st) of
        (None, d) \<Rightarrow> Some (st \<lparr> dfs_from_leaf := d \<rparr>)
      | (Some v, d) \<Rightarrow>
          Option.bind (visit_node G g rq added v (st \<lparr> dfs_from_leaf := d \<rparr>))
            (\<lambda>(abandon, st'). if abandon then Some st' else dfs_loop G g rq added st'))"

declare dfs_loop.simps [code]

fun dfs_leaves ::
    "('g, 'd, 'cb) lattice_graph \<Rightarrow> 'g \<Rightarrow> RunnableEvent list \<Rightarrow> 'cb OperatorEvent \<Rightarrow> RunnableEvent list \<Rightarrow>
     'd search_state \<Rightarrow> 'd search_state option" where
  "dfs_leaves G g rq added [] st = Some st"
| "dfs_leaves G g rq added (leaf # rest) st =
     Option.bind
       (dfs_loop G g rq added (st \<lparr> dfs_from_leaf := dfs_move_to G (node_index leaf) (dfs_from_leaf st) \<rparr>))
       (dfs_leaves G g rq added rest)"

definition search_init :: "('g, 'd, 'cb) lattice_graph \<Rightarrow> 'g \<Rightarrow> 'd search_state" where
  "search_init G g =
     \<lparr> dfs_from_leaf = dfs_empty G g, preceding_events = [], children = [], parents = [],
       demoted_leaves = [], redundant_edges = [] \<rparr>"

text \<open>Adding the edges to the children and from the parents, and removing the redundant ones.\<close>

definition add_child_edges :: "('g, 'd, 'cb) lattice_graph \<Rightarrow> nat \<Rightarrow> nat list \<Rightarrow> 'g \<Rightarrow> 'g" where
  "add_child_edges G event_idx cs g = fold (\<lambda>child g. fst (pg_add_edge G event_idx child g)) cs g"

definition add_parent_edges :: "('g, 'd, 'cb) lattice_graph \<Rightarrow> nat \<Rightarrow> nat list \<Rightarrow> 'g \<Rightarrow> 'g" where
  "add_parent_edges G event_idx ps g = fold (\<lambda>parent g. fst (pg_add_edge G parent event_idx g)) ps g"

fun remove_redundant :: "('g, 'd, 'cb) lattice_graph \<Rightarrow> nat list \<Rightarrow> 'g \<Rightarrow> 'g option" where
  "remove_redundant G [] g = Some g"
| "remove_redundant G (e # es) g =
     (case pg_remove_edge G e g of (g', Some _) \<Rightarrow> remove_redundant G es g' | (_, None) \<Rightarrow> None)"

text \<open>The body of the loop over the added events.\<close>

definition insert_event ::
    "('g, 'd, 'cb) lattice_graph \<Rightarrow> 'cb OperatorEvent \<Rightarrow> 'd search_state \<Rightarrow> 'g ExecutionLattice \<Rightarrow>
     'g ExecutionLattice option" where
  "insert_event G added st l =
     (let (g1, event_idx) = pg_add_node G (Some added) (forest l);
          g2 = add_child_edges G event_idx (children st) g1;
          g3 = add_parent_edges G event_idx (parents st) g2
      in map_option
           (\<lambda>g4.
              let retained = (if length (demoted_leaves st) > 0
                              then filter (\<lambda>event. node_index event \<notin> set (demoted_leaves st)) (leaves l)
                              else leaves l);
                  queue = (if length (demoted_leaves st) > 0
                           then fold (\<lambda>event q. if node_index event \<notin> set (demoted_leaves st)
                                                then heap_push event q else q) (run_queue l) []
                           else run_queue l);
                  runnable = with_timestamp (ev_timestamp added) (runnable_new event_idx)
              in if preceding_events st = []
                 then \<lparr> forest = g4, leaves = retained @ [runnable], run_queue = heap_push runnable queue \<rparr>
                 else \<lparr> forest = g4, leaves = retained, run_queue = queue \<rparr>)
           (remove_redundant G (redundant_edges st) g3))"

definition add_event ::
    "('g, 'd, 'cb) lattice_graph \<Rightarrow> 'cb OperatorEvent \<Rightarrow> 'g ExecutionLattice \<Rightarrow> 'g ExecutionLattice option" where
  "add_event G added l =
     Option.bind (dfs_leaves G (forest l) (run_queue l) added (leaves l) (search_init G (forest l)))
       (\<lambda>st. insert_event G added st l)"

fun add_events ::
    "('g, 'd, 'cb) lattice_graph \<Rightarrow> 'cb OperatorEvent list \<Rightarrow> 'g ExecutionLattice \<Rightarrow> 'g ExecutionLattice option" where
  "add_events G [] l = Some l"
| "add_events G (added # events) l = Option.bind (add_event G added l) (add_events G events)"

text \<open>\<open>Some (l, None)\<close> is the answer that no event can run.\<close>

definition get_event ::
    "('g, 'd, 'cb) lattice_graph \<Rightarrow> 'g ExecutionLattice \<Rightarrow>
     ('g ExecutionLattice \<times> ('cb OperatorEvent \<times> nat) option) option" where
  "get_event G l =
     (case heap_pop runnable_cmp (run_queue l) of
        Some (runnable_event, queue) \<Rightarrow>
          (case pg_node_weight G (forest l) (node_index runnable_event) of
             None \<Rightarrow> None
           | Some None \<Rightarrow> None
           | Some (Some event) \<Rightarrow>
               Some (l \<lparr> forest := pg_set_weight G (node_index runnable_event) None (forest l),
                         run_queue := queue \<rparr>,
                     Some (event, node_index runnable_event)))
      | None \<Rightarrow> Some (l, None))"

text \<open>The loop of \<^verbatim>\<open>mark_as_completed\<close> over the captured parents.\<close>

fun promote_parents ::
    "('g, 'd, 'cb) lattice_graph \<Rightarrow> 'g \<Rightarrow> nat list \<Rightarrow> RunnableEvent list \<times> RunnableEvent list \<Rightarrow>
     (RunnableEvent list \<times> RunnableEvent list) option" where
  "promote_parents G g [] acc = Some acc"
| "promote_parents G g (parent_id # rest) (ls, rq) =
     (if length (pg_outgoing G g parent_id) = 0
      then (case pending_event G g parent_id of
              None \<Rightarrow> None
            | Some event \<Rightarrow>
                let parent = with_timestamp (ev_timestamp event) (runnable_new parent_id)
                in promote_parents G g rest (ls @ [parent], heap_push parent rq))
      else promote_parents G g rest (ls, rq))"

definition mark_as_completed ::
    "('g, 'd, 'cb) lattice_graph \<Rightarrow> nat \<Rightarrow> 'g ExecutionLattice \<Rightarrow> 'g ExecutionLattice option" where
  "mark_as_completed G event_id l =
     (case position (\<lambda>e. runnable_eq e (runnable_new event_id)) (leaves l) of
        None \<Rightarrow> None
      | Some event_idx \<Rightarrow>
          (let parent_ids = pg_incoming G (forest l) event_id;
               g' = fst (pg_remove_node G event_id (forest l))
           in map_option (\<lambda>(ls, rq). \<lparr> forest = g', leaves = ls, run_queue = rq \<rparr>)
                (promote_parents G g' parent_ids (vec_remove event_idx (leaves l), run_queue l))))"

end
