(* ===== verification/Lattice_Invariant.thy ===== *)
theory Lattice_Invariant
  imports Lattice
begin

text \<open>
  The invariant of the execution lattice and the effect of its operations, for every graph library
  that meets the laws of \<open>stable_graph\<close> and \<open>dfs_post_order\<close>: the leaves are exactly the nodes
  without dependencies, the run queue holds those of them that are not running, running nodes have
  no dependencies, and there are no parallel edges. It follows that no \<^verbatim>\<open>unwrap\<close> in
  \<^verbatim>\<open>src/src/node/lattice.rs\<close> fails, and that the search of \<^verbatim>\<open>add_events\<close> ends.
\<close>

section \<open>Notions\<close>

definition pending_nodes :: "('g, 'd, 'cb) lattice_graph \<Rightarrow> 'g \<Rightarrow> nat set" where
  "pending_nodes G g = {n. \<exists>e. pg_node_weight G g n = Some (Some e)}"

definition leaf_nodes :: "('g, 'd, 'cb) lattice_graph \<Rightarrow> 'g \<Rightarrow> nat set" where
  "leaf_nodes G g = {n \<in> pg_nodes G g. \<forall>b. (n, b) \<notin> pg_edges G g}"

definition lattice_inv :: "('g, 'd, 'cb) lattice_graph \<Rightarrow> ('g \<Rightarrow> bool) \<Rightarrow> 'g ExecutionLattice \<Rightarrow> bool" where
  "lattice_inv G ok l \<longleftrightarrow>
     ok (forest l) \<and> pg_simple G (forest l) \<and>
     distinct (map node_index (leaves l)) \<and>
     node_index ` set (leaves l) = leaf_nodes G (forest l) \<and>
     distinct (map node_index (run_queue l)) \<and>
     node_index ` set (run_queue l) = leaf_nodes G (forest l) \<inter> pending_nodes G (forest l) \<and>
     pg_nodes G (forest l) \<subseteq> leaf_nodes G (forest l) \<union> pending_nodes G (forest l) \<and>
     (\<forall>r \<in> set (run_queue l). \<forall>e. pg_node_weight G (forest l) (node_index r) = Some (Some e) \<longrightarrow>
        re_timestamp r = Some (ev_timestamp e))"

text \<open>The added event can be compared with every pending one.\<close>

definition comparable :: "('g, 'd, 'cb) lattice_graph \<Rightarrow> 'g \<Rightarrow> 'cb OperatorEvent \<Rightarrow> bool" where
  "comparable G g added \<longleftrightarrow> (\<forall>n e. pg_node_weight G g n = Some (Some e) \<longrightarrow> event_cmp added e \<noteq> None)"

text \<open>The pending event at a node has to wait for the added one.\<close>

definition follows :: "('g, 'd, 'cb) lattice_graph \<Rightarrow> 'g \<Rightarrow> 'cb OperatorEvent \<Rightarrow> nat \<Rightarrow> bool" where
  "follows G g added n \<longleftrightarrow> (\<exists>e. pg_node_weight G g n = Some (Some e) \<and> event_cmp e added = Some Greater)"

text \<open>What the local variables of the search satisfy; \<open>fin\<close> are the nodes visited so far.\<close>

definition search_inv ::
    "('g, 'd, 'cb) lattice_graph \<Rightarrow> 'g \<Rightarrow> nat set \<Rightarrow> 'd search_state \<Rightarrow> bool" where
  "search_inv G g fin st \<longleftrightarrow>
     set (children st) \<subseteq> set (preceding_events st) \<and> set (preceding_events st) \<subseteq> pg_nodes G g \<and>
     (preceding_events st = [] \<longleftrightarrow> children st = []) \<and>
     set (children st) \<subseteq> pending_nodes G g \<and> set (parents st) \<subseteq> pending_nodes G g \<and>
     distinct (children st) \<and> distinct (parents st) \<and>
     set (demoted_leaves st) = set (parents st) \<inter> leaf_nodes G g \<and>
     distinct (redundant_edges st) \<and>
     (\<forall>e \<in> set (redundant_edges st). \<exists>p v. pg_edge_endpoints G g e = Some (p, v) \<and>
        p \<in> set (parents st) \<and> v \<in> set (children st) \<and> v \<in> fin)"

lemma pending_event_iff: "pending_event G g n = Some e \<longleftrightarrow> pg_node_weight G g n = Some (Some e)"
  by (auto simp: pending_event_def bind_eq_Some_conv)

lemma event_cmp_None_sym: "event_cmp x y = None \<longleftrightarrow> event_cmp y x = None"
  unfolding event_cmp_None_iff using circular_sym ts_ord.equal_sym by blast

lemma comparable_gt:
  "comparable G g added \<Longrightarrow> pg_node_weight G g n = Some (Some e) \<Longrightarrow>
     event_gt e added = Some (follows G g added n)"
  using event_cmp_None_sym[of e added] unfolding comparable_def
  by (cases "event_cmp e added") (fastforce simp: follows_def event_gt_def event_partial_cmp_def)+

section \<open>The search\<close>

lemma add_parents_Some:
  assumes "comparable G g added" "set ns \<subseteq> pending_nodes G g"
  shows "\<exists>ps'. add_parents G g added ns ps = Some ps' \<and>
           set ps' = set ps \<union> {n \<in> set ns. follows G g added n} \<and> (distinct ps \<longrightarrow> distinct ps')"
  using assms(2)
proof (induction ns arbitrary: ps)
  case (Cons n ns)
  then obtain e where e: "pg_node_weight G g n = Some (Some e)" by (auto simp: pending_nodes_def)
  then have "pending_event G g n = Some e" by (simp add: pending_event_iff)
  with comparable_gt[OF assms(1) e] Cons.IH[of "set_add n ps"] Cons.IH[of ps] Cons.prems show ?case
    by (cases "follows G g added n") auto
qed simp

lemma add_parents_redundant_Some:
  assumes "comparable G g added" "set ns \<subseteq> pending_nodes G g" "\<forall>n \<in> set ns. pg_find_edge G g n v \<noteq> None"
  shows "\<exists>ps'. add_parents_redundant G g added v ns (ps, es) =
             Some (ps', es @ map (\<lambda>n. the (pg_find_edge G g n v)) (filter (follows G g added) ns)) \<and>
           set ps' = set ps \<union> {n \<in> set ns. follows G g added n} \<and> (distinct ps \<longrightarrow> distinct ps')"
  using assms(2,3)
proof (induction ns arbitrary: ps es)
  case (Cons n ns)
  then obtain e f where e: "pg_node_weight G g n = Some (Some e)" and f: "pg_find_edge G g n v = Some f"
    by (auto simp: pending_nodes_def)
  then have pe: "pending_event G g n = Some e" by (simp add: pending_event_iff)
  show ?case
  proof (cases "follows G g added n")
    case True
    with pe f comparable_gt[OF assms(1) e] Cons.IH[of "set_add n ps" "es @ [f]"] Cons.prems show ?thesis
      by auto
  next
    case False
    with pe comparable_gt[OF assms(1) e] Cons.IH[of ps es] Cons.prems show ?thesis by auto
  qed
qed simp

text \<open>The graph library at the weights that the lattice uses.\<close>

locale lattice_library = dfs_post_order G ok valid discovered finished opened target
  for G :: "('g, 'd, 'cb OperatorEvent option) petgraph" and ok :: "'g \<Rightarrow> bool"
    and valid :: "'g \<Rightarrow> 'd \<Rightarrow> bool" and discovered finished opened :: "'d \<Rightarrow> nat set"
    and target :: "'d \<Rightarrow> nat option"
begin

lemma pending_subset_nodes: "pending_nodes G g \<subseteq> pg_nodes G g"
  by (auto simp: pending_nodes_def pg_nodes_def)

lemma incoming_pending:
  assumes "ok g" "pg_nodes G g \<subseteq> leaf_nodes G g \<union> pending_nodes G g"
  shows "set (pg_incoming G g v) \<subseteq> pending_nodes G g - leaf_nodes G g"
  using assms edges_nodes[OF assms(1)] by (fastforce simp: set_incoming leaf_nodes_def)

lemma outgoing_leaf:
  "ok g \<Longrightarrow> v \<in> pg_nodes G g \<Longrightarrow> length (pg_outgoing G g v) = 0 \<longleftrightarrow> v \<in> leaf_nodes G g"
  unfolding length_outgoing_0 leaf_nodes_def by simp

text \<open>The edges that become redundant when \<open>v\<close> is visited.\<close>

lemma redundant_of_visit:
  fixes v added g
  defines "new \<equiv> map (\<lambda>n. the (pg_find_edge G g n v)) (filter (follows G g added) (pg_incoming G g v))"
  assumes "ok g" "pg_simple G g"
  shows "distinct new \<and> (\<forall>e \<in> set new. \<exists>p. pg_edge_endpoints G g e = Some (p, v) \<and>
           p \<in> set (pg_incoming G g v) \<and> follows G g added p)"
proof -
  have found: "pg_edge_endpoints G g (the (pg_find_edge G g n v)) = Some (n, v)"
    if "n \<in> set (pg_incoming G g v)" for n
    using that find_edge_Some[OF assms(2)] find_edge_None[OF assms(2)] set_incoming[OF assms(2)] edges_iff
    by (cases "pg_find_edge G g n v") auto
  then have "inj_on (\<lambda>n. the (pg_find_edge G g n v)) (set (pg_incoming G g v))"
    by (metis (no_types, lifting) inj_onI option.inject prod.inject)
  then have "distinct new"
    unfolding new_def distinct_map using distinct_incoming[OF assms(2,3)] by (auto intro: inj_on_subset)
  with found show ?thesis unfolding new_def by auto
qed

lemma search_inv_visit: "search_inv G g fin st \<Longrightarrow> search_inv G g (insert v fin) st"
  by (auto simp: search_inv_def)

lemma search_inv_parents:
  assumes "search_inv G g fin st" "distinct ps" "set ps = set (parents st) \<union> new"
    and "new \<subseteq> pending_nodes G g - leaf_nodes G g"
  shows "search_inv G g fin (st \<lparr> parents := ps \<rparr>)"
  using assms unfolding search_inv_def by auto

text \<open>The visited event has to run before the added one.\<close>

lemma search_inv_greater:
  assumes inv: "search_inv G g fin st" and v: "v \<in> pending_nodes G g" "v \<notin> fin"
    and ps: "distinct ps" "set ps = set (parents st) \<union> new_parents" "new_parents \<subseteq> pending_nodes G g - leaf_nodes G g"
    and es: "distinct es" "\<forall>e \<in> set es. \<exists>p \<in> new_parents. pg_edge_endpoints G g e = Some (p, v)"
  shows "search_inv G g (insert v fin)
           (st \<lparr> children := set_add v (children st), preceding_events := set_add v (preceding_events st),
                 parents := ps, redundant_edges := redundant_edges st @ es \<rparr>)"
proof -
  have "set (redundant_edges st) \<inter> set es = {}"
  proof (rule ccontr)
    assume "set (redundant_edges st) \<inter> set es \<noteq> {}"
    then obtain e where e: "e \<in> set (redundant_edges st)" "e \<in> set es" by blast
    then have "v \<in> fin" using inv es(2) unfolding search_inv_def by fastforce
    with v(2) show False by simp
  qed
  moreover have "\<forall>e \<in> set (redundant_edges st @ es). \<exists>p u. pg_edge_endpoints G g e = Some (p, u) \<and>
      p \<in> set ps \<and> u \<in> set (set_add v (children st)) \<and> u \<in> insert v fin"
    using inv es(2) ps(2) unfolding search_inv_def by fastforce
  ultimately show ?thesis
    using inv v(1) ps es(1) pending_subset_nodes[of g] unfolding search_inv_def by auto
qed

text \<open>The visited event is a leaf that has to wait for the added one.\<close>

lemma search_inv_demote:
  assumes "search_inv G g fin st" "v \<in> pending_nodes G g \<inter> leaf_nodes G g"
    and rq: "node_index ` set rq = leaf_nodes G g \<inter> pending_nodes G g"
  shows "search_inv G g fin (st \<lparr> parents := set_add v (parents st),
           demoted_leaves := demoted_leaves st @ map node_index (filter (\<lambda>n. node_index n = v) rq) \<rparr>)"
proof -
  have "v \<in> node_index ` set rq" using assms(2) rq by blast
  then have "set (map node_index (filter (\<lambda>n. node_index n = v) rq)) = {v}" by auto
  with assms(1,2) show ?thesis unfolding search_inv_def by auto
qed

lemma visit_node_inv:
  assumes ok: "ok g" "pg_simple G g" "pg_nodes G g \<subseteq> leaf_nodes G g \<union> pending_nodes G g"
    and rq: "node_index ` set rq = leaf_nodes G g \<inter> pending_nodes G g"
    and comp: "comparable G g added" and v: "v \<in> pg_nodes G g" "v \<notin> fin"
    and inv: "search_inv G g fin st"
  shows "\<exists>b st'. visit_node G g rq added v st = Some (b, st') \<and> search_inv G g (insert v fin) st' \<and>
           dfs_from_leaf st' = dfs_from_leaf st"
proof (cases "\<exists>parent \<in> set (pg_incoming G g v). parent \<in> set (preceding_events st)")
  case True
  have "search_inv G g (insert v fin) (st \<lparr> preceding_events := set_add v (preceding_events st) \<rparr>)"
    using inv v True by (auto simp: search_inv_def)
  with True show ?thesis by (auto simp: visit_node_def)
next
  case no_parent: False
  let ?new = "{n \<in> set (pg_incoming G g v). follows G g added n}"
  have par: "set (pg_incoming G g v) \<subseteq> pending_nodes G g - leaf_nodes G g"
    by (rule incoming_pending[OF ok(1,3)])
  then have par': "set (pg_incoming G g v) \<subseteq> pending_nodes G g" "?new \<subseteq> pending_nodes G g - leaf_nodes G g"
    by auto
  have inv': "search_inv G g (insert v fin) st" by (rule search_inv_visit[OF inv])
  obtain w where w: "pg_node_weight G g v = Some w" using v(1) by (auto simp: pg_nodes_def)
  obtain ps where ps: "add_parents G g added (pg_incoming G g v) (parents st) = Some ps"
    "set ps = set (parents st) \<union> ?new" "distinct ps"
    using add_parents_Some[OF comp par'(1), of "parents st"] inv by (auto simp: search_inv_def)
  note ps_inv = search_inv_parents[OF inv' ps(3,2) par'(2)]
  show ?thesis
  proof (cases w)
    case None
    then show ?thesis using no_parent w ps(1) ps_inv by (auto simp: visit_node_def)
  next
    case (Some e)
    then have pend: "v \<in> pending_nodes G g" using w by (auto simp: pending_nodes_def)
    from Some obtain c where c: "event_cmp added e = Some c"
      using comp w unfolding comparable_def by fastforce
    show ?thesis
    proof (cases c)
      case Less
      then show ?thesis
        using no_parent w Some c inv' outgoing_leaf[OF ok(1) v(1)] search_inv_demote[OF inv' _ rq] pend
        by (cases "v \<in> leaf_nodes G g") (auto simp: visit_node_def)
    next
      case Equal
      then show ?thesis using no_parent w Some c ps(1) ps_inv by (auto simp: visit_node_def)
    next
      case Greater
      have "\<forall>n \<in> set (pg_incoming G g v). pg_find_edge G g n v \<noteq> None"
        using find_edge_None[OF ok(1)] set_incoming[OF ok(1)] edges_iff by fastforce
      from add_parents_redundant_Some[OF comp par'(1) this, of "parents st" "redundant_edges st"]
      obtain qs where qs: "add_parents_redundant G g added v (pg_incoming G g v) (parents st, redundant_edges st) =
            Some (qs, redundant_edges st @
              map (\<lambda>n. the (pg_find_edge G g n v)) (filter (follows G g added) (pg_incoming G g v)))"
          "set qs = set (parents st) \<union> ?new" "distinct qs"
        using inv by (auto simp: search_inv_def)
      note new = redundant_of_visit[OF ok(1,2), of v added]
      from new have "\<forall>e \<in> set (map (\<lambda>n. the (pg_find_edge G g n v)) (filter (follows G g added) (pg_incoming G g v))).
          \<exists>p \<in> ?new. pg_edge_endpoints G g e = Some (p, v)" by blast
      from search_inv_greater[OF inv pend v(2) qs(3,2) par'(2) new[THEN conjunct1] this]
      show ?thesis using no_parent w Some c Greater qs(1) by (auto simp: visit_node_def)
    qed
  qed
qed

text \<open>
  The proof rule of the search from one leaf. Every step visits a node that was not visited before,
  so that the loop ends; \<open>C\<close> is an invariant of the loop and \<open>B\<close> holds when it is left.
\<close>

lemma dfs_loop_rule:
  assumes ok: "ok g" and start: "valid g (dfs_from_leaf st)" "C st"
    and step: "\<And>st v d. \<lbrakk>C st; valid g (dfs_from_leaf st); dfs_next G g (dfs_from_leaf st) = (Some v, d)\<rbrakk> \<Longrightarrow>
      \<exists>b st'. visit_node G g rq added v (st \<lparr> dfs_from_leaf := d \<rparr>) = Some (b, st') \<and>
        dfs_from_leaf st' = d \<and> (if b then B st' else C st')"
    and final: "\<And>st d. \<lbrakk>C st; valid g (dfs_from_leaf st); dfs_next G g (dfs_from_leaf st) = (None, d)\<rbrakk> \<Longrightarrow>
      B (st \<lparr> dfs_from_leaf := d \<rparr>)"
  shows "\<exists>st'. dfs_loop G g rq added st = Some st' \<and> B st' \<and> valid g (dfs_from_leaf st')"
  using start
proof (induction "card (pg_nodes G g - finished (dfs_from_leaf st))" arbitrary: st rule: less_induct)
  case less
  obtain r d where nxt: "dfs_next G g (dfs_from_leaf st) = (r, d)" by (cases "dfs_next G g (dfs_from_leaf st)")
  show ?case
  proof (cases r)
    case None
    with nxt final[OF less.prems(2,1)] next_None[OF less.prems(1) ok] show ?thesis
      by (subst dfs_loop.simps) simp
  next
    case (Some v)
    with nxt have n: "dfs_next G g (dfs_from_leaf st) = (Some v, d)" by simp
    from step[OF less.prems(2,1) n] obtain b st' where
      st': "visit_node G g rq added v (st \<lparr> dfs_from_leaf := d \<rparr>) = Some (b, st')" "dfs_from_leaf st' = d"
        "if b then B st' else C st'" by blast
    note law = next_basic[OF less.prems(1) ok n]
    have "dfs_loop G g rq added st = (if b then Some st' else dfs_loop G g rq added st')"
      by (subst dfs_loop.simps) (simp add: n st'(1))
    moreover have "card (pg_nodes G g - finished d) < card (pg_nodes G g - finished (dfs_from_leaf st))"
      using law finite_nodes[OF ok] by (intro psubset_card_mono) (auto simp: pg_nodes_def)
    ultimately show ?thesis
      using less.hyps[of st'] st' law by (cases b) auto
  qed
qed

text \<open>The traversal enters a leaf only by starting there.\<close>

lemma newly_discovered_not_leaf:
  assumes "valid g d" "ok g" "dfs_next G g d = (Some v, d')" "target d = Some n"
    and "m \<in> leaf_nodes G g" "m \<notin> discovered d" "m \<noteq> n"
  shows "m \<notin> discovered d'"
  using next_discovers(2)[OF assms(1-3), of m] assms(4-7) unfolding leaf_nodes_def by auto

text \<open>What a traversal from one leaf leaves behind; \<open>F\<close> are leaves from which no search started yet.\<close>

definition searched ::
    "'g \<Rightarrow> nat set \<Rightarrow> nat set \<Rightarrow> 'd search_state \<Rightarrow> bool" where
  "searched g F D st \<longleftrightarrow> valid g (dfs_from_leaf st) \<and> search_inv G g (finished (dfs_from_leaf st)) st \<and>
     F \<inter> discovered (dfs_from_leaf st) = {} \<and> D \<subseteq> discovered (dfs_from_leaf st)"

lemma leaf_search_rule:
  assumes graph: "ok g" "pg_simple G g" "pg_nodes G g \<subseteq> leaf_nodes G g \<union> pending_nodes G g"
    and rq: "node_index ` set rq = leaf_nodes G g \<inter> pending_nodes G g"
    and comp: "comparable G g added"
    and n: "n \<in> leaf_nodes G g" "n \<notin> F" "F \<subseteq> leaf_nodes G g"
    and st: "searched g (insert n F) D st"
    and start: "C (st \<lparr> dfs_from_leaf := dfs_move_to G n (dfs_from_leaf st) \<rparr>)"
    and step: "\<And>st v d b st'. \<lbrakk>C st; target (dfs_from_leaf st) = Some n; valid g (dfs_from_leaf st);
        search_inv G g (finished (dfs_from_leaf st)) st; dfs_next G g (dfs_from_leaf st) = (Some v, d);
        visit_node G g rq added v (st \<lparr> dfs_from_leaf := d \<rparr>) = Some (b, st'); dfs_from_leaf st' = d\<rbrakk> \<Longrightarrow>
      if b then B st' else C st'"
    and final: "\<And>st d. \<lbrakk>C st; target (dfs_from_leaf st) = Some n; valid g (dfs_from_leaf st);
        dfs_next G g (dfs_from_leaf st) = (None, d)\<rbrakk> \<Longrightarrow> B (st \<lparr> dfs_from_leaf := d \<rparr>)"
  shows "\<exists>st'. dfs_loop G g rq added (st \<lparr> dfs_from_leaf := dfs_move_to G n (dfs_from_leaf st) \<rparr>) = Some st' \<and>
           B st' \<and> searched g F (insert n D) st'"
proof -
  let ?st = "st \<lparr> dfs_from_leaf := dfs_move_to G n (dfs_from_leaf st) \<rparr>"
  let ?C = "\<lambda>s. C s \<and> target (dfs_from_leaf s) = Some n \<and> searched g F D s"
  let ?B = "\<lambda>s. B s \<and> searched g F (insert n D) s"
  have "n \<in> pg_nodes G g" "n \<notin> discovered (dfs_from_leaf st)" "valid g (dfs_from_leaf st)"
    using n(1) st by (auto simp: leaf_nodes_def searched_def)
  note moved = move_to[OF this(3) graph(1) this(1,2)]
  have valid: "valid g (dfs_from_leaf ?st)" and C: "?C ?st"
    using moved start st by (auto simp: searched_def search_inv_def)
  have "\<exists>st'. dfs_loop G g rq added ?st = Some st' \<and> ?B st' \<and> valid g (dfs_from_leaf st')"
  proof (rule dfs_loop_rule[where C = ?C and B = ?B, OF graph(1) valid C])
    fix s v d
    assume C: "?C s" and val: "valid g (dfs_from_leaf s)" and nxt: "dfs_next G g (dfs_from_leaf s) = (Some v, d)"
    then have tgt: "target (dfs_from_leaf s) = Some n" by blast
    note law = next_basic[OF val graph(1) nxt]
    have inv: "search_inv G g (finished (dfs_from_leaf s)) (s \<lparr> dfs_from_leaf := d \<rparr>)"
      using C by (simp add: searched_def search_inv_def)
    from visit_node_inv[OF graph rq comp law(2,3) inv] obtain b s' where
      s': "visit_node G g rq added v (s \<lparr> dfs_from_leaf := d \<rparr>) = Some (b, s')" "dfs_from_leaf s' = d"
        "search_inv G g (finished d) s'" unfolding law(5) by auto
    have "F \<inter> discovered d = {}"
      using newly_discovered_not_leaf[OF val graph(1) nxt tgt] C n(2,3) unfolding searched_def by blast
    then have "searched g F (insert n D) s'"
      using law(1,7,8) tgt C s'(2,3) unfolding searched_def by auto
    moreover have "if b then B s' else C s'"
      using step[OF _ tgt val _ nxt s'(1,2)] C unfolding searched_def by blast
    ultimately show "\<exists>b s'. visit_node G g rq added v (s \<lparr> dfs_from_leaf := d \<rparr>) = Some (b, s') \<and>
        dfs_from_leaf s' = d \<and> (if b then ?B s' else ?C s')"
      using s'(1,2) law(6) tgt unfolding searched_def by (intro exI[of _ b] exI[of _ s']) auto
  next
    fix s d
    assume C: "?C s" and val: "valid g (dfs_from_leaf s)" and nxt: "dfs_next G g (dfs_from_leaf s) = (None, d)"
    then show "?B (s \<lparr> dfs_from_leaf := d \<rparr>)"
      using final[OF _ _ val nxt] next_None[OF val graph(1) nxt] by (auto simp: searched_def search_inv_def)
  qed
  then show ?thesis by blast
qed

text \<open>
  The proof rule of the whole search over the leaves. \<open>B\<close> holds between the searches from two
  leaves, \<open>C n\<close> during the one that started at the leaf \<open>n\<close>.
\<close>

lemma search_rule:
  assumes graph: "ok g" "pg_simple G g" "pg_nodes G g \<subseteq> leaf_nodes G g \<union> pending_nodes G g"
    and rq: "node_index ` set rq = leaf_nodes G g \<inter> pending_nodes G g"
    and comp: "comparable G g added"
    and ls: "distinct (map node_index ls)" "node_index ` set ls \<subseteq> leaf_nodes G g"
    and init: "B (search_init G g)"
    and move: "\<And>st n. \<lbrakk>B st; valid g (dfs_from_leaf st); n \<in> leaf_nodes G g; n \<notin> discovered (dfs_from_leaf st)\<rbrakk> \<Longrightarrow>
      C n (st \<lparr> dfs_from_leaf := dfs_move_to G n (dfs_from_leaf st) \<rparr>)"
    and step: "\<And>n st v d b st'. \<lbrakk>C n st; target (dfs_from_leaf st) = Some n; valid g (dfs_from_leaf st);
        search_inv G g (finished (dfs_from_leaf st)) st; dfs_next G g (dfs_from_leaf st) = (Some v, d);
        visit_node G g rq added v (st \<lparr> dfs_from_leaf := d \<rparr>) = Some (b, st'); dfs_from_leaf st' = d\<rbrakk> \<Longrightarrow>
      if b then B st' else C n st'"
    and final: "\<And>n st d. \<lbrakk>C n st; target (dfs_from_leaf st) = Some n; valid g (dfs_from_leaf st);
        dfs_next G g (dfs_from_leaf st) = (None, d)\<rbrakk> \<Longrightarrow> B (st \<lparr> dfs_from_leaf := d \<rparr>)"
  shows "\<exists>st. dfs_leaves G g rq added ls (search_init G g) = Some st \<and> B st \<and>
           searched g {} (node_index ` set ls) st"
proof -
  have "\<exists>st'. dfs_leaves G g rq added ls st = Some st' \<and> B st' \<and> searched g {} (D \<union> node_index ` set ls) st'"
    if "distinct (map node_index ls)" "node_index ` set ls \<subseteq> leaf_nodes G g" "B st"
      "searched g (node_index ` set ls) D st" for st D
    using that
  proof (induction ls arbitrary: st D)
    case (Cons r rest)
    let ?n = "node_index r" and ?F = "node_index ` set rest"
    have n: "?n \<in> leaf_nodes G g" "?n \<notin> ?F" "?F \<subseteq> leaf_nodes G g" and st: "searched g (insert ?n ?F) D st"
      using Cons.prems by auto
    have start: "C ?n (st \<lparr> dfs_from_leaf := dfs_move_to G ?n (dfs_from_leaf st) \<rparr>)"
      using move[OF Cons.prems(3) _ n(1)] st by (auto simp: searched_def)
    have "\<exists>st'. dfs_loop G g rq added (st \<lparr> dfs_from_leaf := dfs_move_to G ?n (dfs_from_leaf st) \<rparr>) = Some st' \<and>
        B st' \<and> searched g ?F (insert ?n D) st'"
      by (rule leaf_search_rule[where C = "C ?n" and B = B, OF graph rq comp n st start])
         ((rule step; assumption), (rule final; assumption))
    then obtain st' where
      "dfs_loop G g rq added (st \<lparr> dfs_from_leaf := dfs_move_to G ?n (dfs_from_leaf st) \<rparr>) = Some st'"
      "B st'" "searched g ?F (insert ?n D) st'" by blast
    with Cons.IH[of st' "insert ?n D"] Cons.prems(1) n(3) show ?case by auto
  qed auto
  moreover have "searched g (node_index ` set ls) {} (search_init G g)"
    using empty[OF graph(1)] by (auto simp: search_init_def search_inv_def searched_def)
  ultimately show ?thesis using ls init by fastforce
qed

section \<open>The effect of inserting an event\<close>

lemma remove_redundant_spec:
  assumes "ok g" "distinct es" "set es \<subseteq> dom (pg_edge_endpoints G g)"
  shows "\<exists>g'. remove_redundant G es g = Some g' \<and> ok g' \<and> pg_node_weight G g' = pg_node_weight G g \<and>
           pg_edge_endpoints G g' = pg_edge_endpoints G g |` (- set es)"
  using assms
proof (induction es arbitrary: g)
  case (Cons e es)
  obtain g1 r where r: "pg_remove_edge G e g = (g1, r)" by (cases "pg_remove_edge G e g")
  note law = remove_edge[OF Cons.prems(1) r]
  with Cons.prems(3) have "r = Some ()" by auto
  moreover have es: "ok g1" "distinct es" "set es \<subseteq> dom (pg_edge_endpoints G g1)"
    using law Cons.prems(2,3) by auto
  from Cons.IH[OF this] obtain g' where g': "remove_redundant G es g1 = Some g'" "ok g'" "pg_node_weight G g' = pg_node_weight G g1"
    "pg_edge_endpoints G g' = pg_edge_endpoints G g1 |` (- set es)" by blast
  moreover have "(pg_edge_endpoints G g)(e := None) |` (- set es) = pg_edge_endpoints G g |` (- set (e # es))"
    by (auto simp: restrict_map_def fun_eq_iff)
  ultimately show ?case using r law by (metis option.case(2) prod.case remove_redundant.simps(2))
qed (simp add: restrict_map_def)

lemma edges_restrict:
  assumes "pg_simple G g" "pg_edge_endpoints G g' = pg_edge_endpoints G g |` (- S)"
  shows "pg_edges G g' = pg_edges G g - {x. \<exists>e \<in> S. pg_edge_endpoints G g e = Some x}"
proof -
  have "e = f" if "pg_edge_endpoints G g e = Some x" "pg_edge_endpoints G g f = Some x" for e f x
    using assms(1) that unfolding pg_simple_def by (metis domI inj_onD)
  then show ?thesis
    unfolding pg_edges_def assms(2) by (auto simp: ran_def restrict_map_def split: if_splits)
qed

text \<open>The edges that an insertion at the fresh node \<open>n\<close> removes and adds.\<close>

definition removed_edges :: "'g \<Rightarrow> 'd search_state \<Rightarrow> (nat \<times> nat) set" where
  "removed_edges g st = {x. \<exists>e \<in> set (redundant_edges st). pg_edge_endpoints G g e = Some x}"

definition inserted_edges :: "nat \<Rightarrow> 'd search_state \<Rightarrow> (nat \<times> nat) set" where
  "inserted_edges n st = {n} \<times> set (children st) \<union> set (parents st) \<times> {n}"

lemma removed_edges_between:
  "search_inv G g fin st \<Longrightarrow> removed_edges g st \<subseteq> pg_edges G g \<inter> set (parents st) \<times> set (children st)"
  unfolding removed_edges_def search_inv_def by (fastforce simp: edges_iff)

lemma graph_insert_spec:
  assumes g: "ok g" "pg_simple G g" and inv: "search_inv G g fin st"
    and add: "pg_add_node G (Some added) g = (g1, n)"
  shows "\<exists>g4. remove_redundant G (redundant_edges st)
               (add_parent_edges G n (parents st) (add_child_edges G n (children st) g1)) = Some g4 \<and>
           ok g4 \<and> pg_simple G g4 \<and> pg_node_weight G g n = None \<and>
           pg_node_weight G g4 = (pg_node_weight G g)(n \<mapsto> Some added) \<and>
           pg_edges G g4 = (pg_edges G g - removed_edges g st) \<union> inserted_edges n st"
proof -
  note law = add_node[OF g(1) add]
  let ?es = "map (Pair n) (children st) @ map (\<lambda>p. (p, n)) (parents st)"
  let ?g3 = "add_parent_edges G n (parents st) (add_child_edges G n (children st) g1)"
  have g3: "?g3 = fold (\<lambda>(a, b) g. fst (pg_add_edge G a b g)) ?es g1"
    by (simp add: add_parent_edges_def add_child_edges_def fold_map comp_def)
  have edges1: "pg_edges G g1 = pg_edges G g" using law by (simp add: pg_edges_def)
  have nodes1: "pg_nodes G g1 = insert n (pg_nodes G g)" using law by (auto simp: pg_nodes_def)
  have sub: "set (children st) \<subseteq> pg_nodes G g" "set (parents st) \<subseteq> pg_nodes G g"
    and dist: "distinct (children st)" "distinct (parents st)"
    using inv pending_subset_nodes[of g] by (auto simp: search_inv_def)
  have n: "n \<notin> pg_nodes G g" using law by (auto simp: pg_nodes_def)
  have "set ?es \<inter> pg_edges G g1 = {}" using edges1 edges_nodes[OF g(1)] n by auto
  moreover have "distinct ?es" using dist sub n by (auto simp: distinct_map inj_on_def)
  moreover have "pg_simple G g1" using law g(2) by (simp add: pg_simple_def)
  moreover have "set ?es \<subseteq> pg_nodes G g1 \<times> pg_nodes G g1" using sub nodes1 by auto
  ultimately have s3: "ok ?g3" "pg_node_weight G ?g3 = pg_node_weight G g1"
    "pg_edges G ?g3 = set ?es \<union> pg_edges G g" "pg_simple G ?g3" "pg_edge_endpoints G g1 \<subseteq>\<^sub>m pg_edge_endpoints G ?g3"
    using add_edges_spec[of g1 ?es ?g3] law g3 edges1 by auto
  have same: "pg_edge_endpoints G ?g3 e = pg_edge_endpoints G g e" if "e \<in> set (redundant_edges st)" for e
    using that inv s3(5) law unfolding search_inv_def map_le_def by (metis domI)
  have dom3: "set (redundant_edges st) \<subseteq> dom (pg_edge_endpoints G ?g3)"
    using inv same unfolding search_inv_def by fastforce
  from inv have distinct: "distinct (redundant_edges st)" by (simp add: search_inv_def)
  obtain g4 where g4: "remove_redundant G (redundant_edges st) ?g3 = Some g4" "ok g4"
    "pg_node_weight G g4 = pg_node_weight G ?g3"
    "pg_edge_endpoints G g4 = pg_edge_endpoints G ?g3 |` (- set (redundant_edges st))"
    using remove_redundant_spec[OF s3(1) distinct dom3] by blast
  have "removed_edges ?g3 st = removed_edges g st" using same by (auto simp: removed_edges_def)
  then have "pg_edges G g4 = pg_edges G ?g3 - removed_edges g st"
    using edges_restrict[OF s3(4) g4(4)] by (simp add: removed_edges_def)
  also have "\<dots> = (pg_edges G g - removed_edges g st) \<union> inserted_edges n st"
    using s3(3) removed_edges_between[OF inv] sub n by (auto simp: inserted_edges_def)
  finally have "pg_edges G g4 = (pg_edges G g - removed_edges g st) \<union> inserted_edges n st" .
  moreover have "pg_simple G g4"
    by (rule simple_restrict[OF s3(4)]) (auto simp: g4(4) map_le_def restrict_map_def split: if_splits)
  ultimately show ?thesis using g4 law s3(2) by auto
qed

lemma fold_push_filter: "mset (fold (\<lambda>x q. if P x then heap_push x q else q) xs ys) = mset (filter P xs) + mset ys"
  by (induction xs arbitrary: ys) (auto simp: heap_push_def)

text \<open>The leaves after an insertion.\<close>

lemma leaf_nodes_insert:
  assumes "ok g" "search_inv G g fin st" "pg_node_weight G g n = None"
    and "pg_node_weight G g' = (pg_node_weight G g)(n \<mapsto> Some added)"
    and "pg_edges G g' = (pg_edges G g - removed_edges g st) \<union> inserted_edges n st"
  shows "leaf_nodes G g' = (leaf_nodes G g - set (demoted_leaves st)) \<union> (if preceding_events st = [] then {n} else {})"
proof -
  have n: "n \<notin> pg_nodes G g" "\<And>x. (n, x) \<notin> pg_edges G g" "\<And>x. (x, n) \<notin> pg_edges G g"
    using assms(1,3) edges_nodes[OF assms(1)] by (auto simp: pg_nodes_def)
  have nodes: "pg_nodes G g' = insert n (pg_nodes G g)" using assms(4) by (auto simp: pg_nodes_def)
  have par: "set (parents st) \<subseteq> pg_nodes G g" and pre: "preceding_events st = [] \<longleftrightarrow> children st = []"
    and dem: "set (demoted_leaves st) = set (parents st) \<inter> leaf_nodes G g"
    using assms(2) pending_subset_nodes[of g] by (auto simp: search_inv_def)
  have "(\<forall>b. (u, b) \<notin> pg_edges G g') \<longleftrightarrow> u \<notin> set (parents st) \<and> (\<forall>b. (u, b) \<notin> pg_edges G g)"
    if "u \<noteq> n" for u
    using that removed_edges_between[OF assms(2)] unfolding assms(5) inserted_edges_def by auto
  moreover have "(\<forall>b. (n, b) \<notin> pg_edges G g') \<longleftrightarrow> children st = []"
    using n par unfolding assms(5) inserted_edges_def by (cases "children st") auto
  ultimately have "u \<in> leaf_nodes G g' \<longleftrightarrow>
      u \<in> leaf_nodes G g \<and> u \<notin> set (parents st) \<or> u = n \<and> preceding_events st = []" for u
    using nodes n(1) pre unfolding leaf_nodes_def by (cases "u = n") auto
  then show ?thesis using dem by auto
qed

lemma pending_nodes_insert:
  "pg_node_weight G g n = None \<Longrightarrow> pg_node_weight G g' = (pg_node_weight G g)(n \<mapsto> Some added) \<Longrightarrow>
     pending_nodes G g' = insert n (pending_nodes G g)"
  by (auto simp: pending_nodes_def)

text \<open>The invariant of a lattice whose leaves are \<open>ls\<close> and the pending nodes \<open>new\<close>.\<close>

lemma lattice_inv_extend:
  assumes "ok g" "pg_simple G g" "pg_nodes G g \<subseteq> leaf_nodes G g \<union> pending_nodes G g"
    and "distinct (map node_index ls)" "distinct (map node_index rq)" "distinct (map node_index new)"
    and rq: "node_index ` set rq = node_index ` set ls \<inter> pending_nodes G g"
    and new: "node_index ` set ls \<inter> node_index ` set new = {}" "node_index ` set new \<subseteq> pending_nodes G g"
    and leaf: "leaf_nodes G g = node_index ` set ls \<union> node_index ` set new"
    and times: "\<And>r e. \<lbrakk>r \<in> set new \<union> set rq; pg_node_weight G g (node_index r) = Some (Some e)\<rbrakk> \<Longrightarrow>
      re_timestamp r = Some (ev_timestamp e)"
    and new': "mset new' = mset new"
  shows "lattice_inv G ok \<lparr> forest = g, leaves = ls @ new, run_queue = new' @ rq \<rparr>"
proof -
  have set': "set new' = set new" using new' by (metis set_mset_mset)
  have "mset (map node_index new') = mset (map node_index new)" using new' by simp
  then have "distinct (map node_index new')" using assms(6) mset_eq_imp_distinct_iff by blast
  moreover have "node_index ` (set new \<union> set rq) = leaf_nodes G g \<inter> pending_nodes G g"
    unfolding image_Un rq leaf using new(2) by blast
  moreover have "node_index ` set new \<inter> node_index ` set rq = {}" unfolding rq using new(1) by blast
  ultimately show ?thesis
    using assms(1-6) new(1) leaf times unfolding lattice_inv_def by (simp add: set' image_Un)
qed

lemma insert_event_inv:
  assumes inv: "lattice_inv G ok l" and search: "search_inv G (forest l) fin st"
  shows "\<exists>l' n. insert_event G added st l = Some l' \<and> lattice_inv G ok l' \<and>
           pg_node_weight G (forest l) n = None \<and>
           pg_node_weight G (forest l') = (pg_node_weight G (forest l))(n \<mapsto> Some added) \<and>
           pg_edges G (forest l') = (pg_edges G (forest l) - removed_edges (forest l) st) \<union> inserted_edges n st"
proof -
  let ?g = "forest l"
  let ?keep = "\<lambda>r. node_index r \<notin> set (demoted_leaves st)"
  obtain g1 n where add: "pg_add_node G (Some added) ?g = (g1, n)" by (cases "pg_add_node G (Some added) ?g")
  have ok: "ok ?g" "pg_simple G ?g" using inv by (auto simp: lattice_inv_def)
  from graph_insert_spec[OF ok search add] obtain g4 where
    g4: "remove_redundant G (redundant_edges st)
           (add_parent_edges G n (parents st) (add_child_edges G n (children st) g1)) = Some g4"
      "ok g4" "pg_simple G g4" and n: "pg_node_weight G ?g n = None"
      and wt: "pg_node_weight G g4 = (pg_node_weight G ?g)(n \<mapsto> Some added)"
      and edges: "pg_edges G g4 = (pg_edges G ?g - removed_edges ?g st) \<union> inserted_edges n st"
    by auto
  define ls where "ls = filter ?keep (leaves l)"
  define rq where "rq = (if length (demoted_leaves st) > 0
      then fold (\<lambda>r q. if ?keep r then heap_push r q else q) (run_queue l) [] else run_queue l)"
  define new where "new = (if preceding_events st = [] then [with_timestamp (ev_timestamp added) (runnable_new n)] else [])"
  define l' where "l' = \<lparr> forest = g4, leaves = ls @ new, run_queue = new @ rq \<rparr>"
  have rq: "mset rq = mset (filter ?keep (run_queue l))"
    unfolding rq_def using fold_push_filter[of ?keep "run_queue l" "[]"] by (cases "demoted_leaves st") auto
  have "ls = (if length (demoted_leaves st) > 0 then filter ?keep (leaves l) else leaves l)"
    unfolding ls_def by (cases "demoted_leaves st") auto
  then have ins: "insert_event G added st l = Some l'"
    using g4(1) unfolding insert_event_def add l'_def new_def rq_def by (simp add: Let_def heap_push_def)
  have leaf: "leaf_nodes G g4 = (leaf_nodes G ?g - set (demoted_leaves st)) \<union> (if preceding_events st = [] then {n} else {})"
    by (rule leaf_nodes_insert[OF ok(1) search n wt edges])
  have pend: "pending_nodes G g4 = insert n (pending_nodes G ?g)" by (rule pending_nodes_insert[OF n wt])
  have nodes: "pg_nodes G g4 = insert n (pg_nodes G ?g)" "n \<notin> pg_nodes G ?g" using wt n by (auto simp: pg_nodes_def)
  have dem: "set (demoted_leaves st) \<subseteq> pending_nodes G ?g" using search by (auto simp: search_inv_def)
  have set_new: "node_index ` set new = (if preceding_events st = [] then {n} else {})" "distinct (map node_index new)"
    by (auto simp: new_def with_timestamp_def runnable_new_def)
  have old_n: "n \<notin> leaf_nodes G ?g" using nodes(2) by (simp add: leaf_nodes_def)
  have set_rq: "set rq = {r \<in> set (run_queue l). ?keep r}" by (metis rq set_filter set_mset_mset)
  have "mset (map node_index rq) = mset (map node_index (filter ?keep (run_queue l)))" using rq by simp
  then have dist_rq: "distinct (map node_index rq)"
    using inv distinct_map_filter mset_eq_imp_distinct_iff unfolding lattice_inv_def by metis
  have set_ls: "node_index ` set ls = leaf_nodes G ?g - set (demoted_leaves st)"
    using inv unfolding lattice_inv_def ls_def by auto
  have "lattice_inv G ok l'"
    unfolding l'_def
  proof (rule lattice_inv_extend[OF g4(2,3) _ _ dist_rq set_new(2)])
    show "distinct (map node_index ls)" using inv by (simp add: lattice_inv_def ls_def distinct_map_filter)
    show "pg_nodes G g4 \<subseteq> leaf_nodes G g4 \<union> pending_nodes G g4"
      unfolding leaf pend nodes(1) using inv dem unfolding lattice_inv_def by blast
    show "node_index ` set rq = node_index ` set ls \<inter> pending_nodes G g4"
    proof -
      have "node_index ` set rq = node_index ` set (run_queue l) - set (demoted_leaves st)" unfolding set_rq by auto
      then show ?thesis unfolding set_ls pend using inv old_n by (auto simp: lattice_inv_def)
    qed
    show "node_index ` set ls \<inter> node_index ` set new = {}" "node_index ` set new \<subseteq> pending_nodes G g4"
      "leaf_nodes G g4 = node_index ` set ls \<union> node_index ` set new"
      unfolding set_ls set_new(1) leaf pend using old_n by (auto split: if_splits)
    fix r e assume r: "r \<in> set new \<union> set rq" and e: "pg_node_weight G g4 (node_index r) = Some (Some e)"
    show "re_timestamp r = Some (ev_timestamp e)"
    proof (cases "r \<in> set new")
      case True
      then show ?thesis using e wt by (auto simp: new_def with_timestamp_def runnable_new_def split: if_splits)
    next
      case False
      with r have "r \<in> set (run_queue l)" using set_rq by auto
      moreover from this have "node_index r \<noteq> n" using inv old_n unfolding lattice_inv_def by blast
      ultimately show ?thesis using e wt inv unfolding lattice_inv_def by auto
    qed
  qed simp
  with ins n wt edges show ?thesis unfolding l'_def by auto
qed

lemma add_event_inv:
  assumes "lattice_inv G ok l" "comparable G (forest l) added"
  shows "\<exists>l' n. add_event G added l = Some l' \<and> lattice_inv G ok l' \<and>
           pg_node_weight G (forest l') = (pg_node_weight G (forest l))(n \<mapsto> Some added) \<and>
           pg_node_weight G (forest l) n = None"
proof -
  let ?g = "forest l"
  have graph: "ok ?g" "pg_simple G ?g" "pg_nodes G ?g \<subseteq> leaf_nodes G ?g \<union> pending_nodes G ?g"
    and rq: "node_index ` set (run_queue l) = leaf_nodes G ?g \<inter> pending_nodes G ?g"
    and ls: "distinct (map node_index (leaves l))" "node_index ` set (leaves l) \<subseteq> leaf_nodes G ?g"
    using assms(1) by (auto simp: lattice_inv_def)
  have "\<exists>st. dfs_leaves G ?g (run_queue l) added (leaves l) (search_init G ?g) = Some st \<and> True \<and>
      searched ?g {} (node_index ` set (leaves l)) st"
    by (rule search_rule[where B = "\<lambda>_. True" and C = "\<lambda>_ _. True", OF graph rq assms(2) ls]) auto
  then obtain st where st: "dfs_leaves G ?g (run_queue l) added (leaves l) (search_init G ?g) = Some st"
    "search_inv G ?g (finished (dfs_from_leaf st)) st" by (auto simp: searched_def)
  with insert_event_inv[OF assms(1) st(2), of added] show ?thesis by (auto simp: add_event_def)
qed

section \<open>Handing out and completing events\<close>

lemma get_event_inv:
  assumes inv: "lattice_inv G ok l"
  shows "(run_queue l = [] \<longrightarrow> get_event G l = Some (l, None)) \<and>
    (run_queue l \<noteq> [] \<longrightarrow> (\<exists>l' n e. get_event G l = Some (l', Some (e, n)) \<and> lattice_inv G ok l' \<and>
       pg_node_weight G (forest l) n = Some (Some e) \<and> n \<in> leaf_nodes G (forest l) \<and>
       pg_node_weight G (forest l') = (pg_node_weight G (forest l))(n \<mapsto> None) \<and>
       pg_edges G (forest l') = pg_edges G (forest l)))"
proof (cases "heap_pop runnable_cmp (run_queue l)")
  case None
  then show ?thesis by (auto simp: get_event_def)
next
  case (Some p)
  let ?g = "forest l"
  obtain r q where p: "p = (r, q)" by (cases p)
  with Some have "heap_pop runnable_cmp (run_queue l) = Some (r, q)" by simp
  note pop = heap_pop_Some[OF this, THEN conjunct1] heap_pop_Some[OF this, THEN conjunct2, THEN conjunct1]
  let ?n = "node_index r" and ?g' = "pg_set_weight G (node_index r) None (forest l)"
  have "?n \<in> leaf_nodes G ?g \<inter> pending_nodes G ?g" using pop(1) inv unfolding lattice_inv_def by blast
  then obtain e where e: "pg_node_weight G ?g ?n = Some (Some e)" and leaf: "?n \<in> leaf_nodes G ?g"
    by (auto simp: pending_nodes_def)
  have ok: "ok ?g" using inv by (simp add: lattice_inv_def)
  have law: "ok ?g'" "pg_node_weight G ?g' = (pg_node_weight G ?g)(?n \<mapsto> None)"
    "pg_edge_endpoints G ?g' = pg_edge_endpoints G ?g"
    using set_weight[OF ok, of ?n None] e by auto
  then have edges: "pg_edges G ?g' = pg_edges G ?g" and simple: "pg_simple G ?g' = pg_simple G ?g"
    by (simp_all add: pg_edges_def pg_simple_def)
  have nodes: "pg_nodes G ?g' = pg_nodes G ?g" using law(2) e by (auto simp: pg_nodes_def)
  then have leaves': "leaf_nodes G ?g' = leaf_nodes G ?g" using edges by (simp add: leaf_nodes_def)
  have pend: "pending_nodes G ?g' = pending_nodes G ?g - {?n}" using law(2) by (auto simp: pending_nodes_def)
  have "mset (map node_index (run_queue l)) = add_mset ?n (mset (map node_index q))" using pop(2) by simp
  then have dist: "distinct (map node_index q)" "?n \<notin> node_index ` set q"
    using inv mset_eq_imp_distinct_iff[of "map node_index (run_queue l)" "?n # map node_index q"]
    by (auto simp: lattice_inv_def)
  have set_q: "set (run_queue l) = insert r (set q)" using pop(2) by (metis set_mset_add_mset_insert set_mset_mset)
  have queue: "node_index ` set q = leaf_nodes G ?g \<inter> (pending_nodes G ?g - {?n})"
  proof -
    have "insert ?n (node_index ` set q) = leaf_nodes G ?g \<inter> pending_nodes G ?g"
      using inv set_q by (simp add: lattice_inv_def)
    with dist(2) show ?thesis by blast
  qed
  have times: "re_timestamp s = Some (ev_timestamp f)"
    if "s \<in> set q" "pg_node_weight G ?g' (node_index s) = Some (Some f)" for s f
  proof -
    have "node_index s \<noteq> ?n" using that(1) dist(2) by (metis imageI)
    with that set_q law(2) inv show ?thesis by (simp add: lattice_inv_def)
  qed
  have "pg_nodes G ?g \<subseteq> leaf_nodes G ?g \<union> (pending_nodes G ?g - {?n})"
    using inv leaf unfolding lattice_inv_def by blast
  then have inv': "lattice_inv G ok (l \<lparr> forest := ?g', run_queue := q \<rparr>)"
    using inv law(1) edges simple leaves' pend dist(1) queue times nodes unfolding lattice_inv_def by simp
  have "get_event G l = Some (l \<lparr> forest := ?g', run_queue := q \<rparr>, Some (e, ?n))"
    by (simp add: get_event_def Some p e)
  moreover have "run_queue l \<noteq> []" using pop(1) by auto
  ultimately show ?thesis using inv' e leaf law(2) edges by simp
qed

text \<open>The run-queue entry of a pending node.\<close>

definition runnable_of :: "'g \<Rightarrow> nat \<Rightarrow> RunnableEvent" where
  "runnable_of g n = with_timestamp (ev_timestamp (the (pending_event G g n))) (runnable_new n)"

lemma node_index_runnable_of [simp]: "node_index (runnable_of g n) = n"
  by (simp add: runnable_of_def with_timestamp_def runnable_new_def)

lemma promote_parents_spec:
  assumes "ok g" "set ps \<subseteq> pending_nodes G g"
  shows "promote_parents G g ps (ls, rq) =
    Some (ls @ map (runnable_of g) (filter (\<lambda>p. p \<in> leaf_nodes G g) ps),
          rev (map (runnable_of g) (filter (\<lambda>p. p \<in> leaf_nodes G g) ps)) @ rq)"
  using assms(2)
proof (induction ps arbitrary: ls rq)
  case (Cons p ps)
  then obtain e where e: "pg_node_weight G g p = Some (Some e)" by (auto simp: pending_nodes_def)
  then have pe: "pending_event G g p = Some e" by (simp add: pending_event_iff)
  have p: "p \<in> pg_nodes G g" using e by (auto simp: pg_nodes_def)
  show ?case
    using Cons outgoing_leaf[OF assms(1) p] pe
    by (cases "p \<in> leaf_nodes G g") (auto simp: runnable_of_def heap_push_def Let_def)
qed simp

lemma runnable_eq_new [simp]: "runnable_eq r (runnable_new i) \<longleftrightarrow> node_index r = i"
  by (auto simp: runnable_eq_def runnable_new_def prim_cmp_def)

text \<open>Removing a leaf turns those of its parents into leaves that depended on nothing else.\<close>

lemma remove_leaf_graph:
  assumes g: "ok g" "pg_simple G g" and i: "i \<in> leaf_nodes G g"
    and g': "g' = fst (pg_remove_node G i g)"
  shows "ok g' \<and> pg_simple G g' \<and> pg_node_weight G g' = (pg_node_weight G g)(i := None) \<and>
         pg_edges G g' = {x \<in> pg_edges G g. snd x \<noteq> i} \<and>
         leaf_nodes G g' = (leaf_nodes G g - {i}) \<union> {p \<in> set (pg_incoming G g i). p \<in> leaf_nodes G g'}"
proof -
  obtain r where r: "pg_remove_node G i g = (g', r)" using g' by (metis prod.collapse)
  note law = remove_node[OF g(1) r]
  have out: "(i, b) \<notin> pg_edges G g" for b using i by (simp add: leaf_nodes_def)
  have le: "pg_edge_endpoints G g' \<subseteq>\<^sub>m pg_edge_endpoints G g"
    using law by (auto simp: map_le_def dom_def split: option.splits prod.splits if_splits)
  have edge: "pg_edge_endpoints G g' e = Some (a, b) \<longleftrightarrow> pg_edge_endpoints G g e = Some (a, b) \<and> a \<noteq> i \<and> b \<noteq> i" for e a b
    using law by (auto split: option.splits prod.splits if_splits)
  have edges: "pg_edges G g' = {x \<in> pg_edges G g. snd x \<noteq> i}"
    using out edge by (auto simp: edges_iff)
  have nodes: "pg_nodes G g' = pg_nodes G g - {i}" using law by (auto simp: pg_nodes_def)
  have "leaf_nodes G g' = (leaf_nodes G g - {i}) \<union> {p \<in> set (pg_incoming G g i). p \<in> leaf_nodes G g'}"
    unfolding set_incoming[OF g(1)] leaf_nodes_def nodes edges using edges_nodes[OF g(1)] by auto
  with law edges simple_restrict[OF g(2) le] show ?thesis by blast
qed

lemma mark_as_completed_inv:
  assumes inv: "lattice_inv G ok l" and i: "pg_node_weight G (forest l) i = Some None"
  shows "\<exists>l'. mark_as_completed G i l = Some l' \<and> lattice_inv G ok l' \<and>
           pg_node_weight G (forest l') = (pg_node_weight G (forest l))(i := None) \<and>
           pg_edges G (forest l') = {x \<in> pg_edges G (forest l). snd x \<noteq> i}"
proof -
  let ?g = "forest l"
  have graph: "ok ?g" "pg_simple G ?g" "pg_nodes G ?g \<subseteq> leaf_nodes G ?g \<union> pending_nodes G ?g"
    using inv by (auto simp: lattice_inv_def)
  have leaf: "i \<in> leaf_nodes G ?g" "i \<notin> pending_nodes G ?g"
    using graph(3) i by (auto simp: pg_nodes_def pending_nodes_def)
  define g' where "g' = fst (pg_remove_node G i ?g)"
  note rm = remove_leaf_graph[OF graph(1,2) leaf(1) g'_def]
  let ?ps = "pg_incoming G ?g i"
  let ?new = "map (runnable_of g') (filter (\<lambda>p. p \<in> leaf_nodes G g') ?ps)"
  have pend: "pending_nodes G g' = pending_nodes G ?g" using rm leaf(2) by (auto simp: pending_nodes_def)
  have ps: "set ?ps \<subseteq> pending_nodes G g'" "set ?ps \<inter> leaf_nodes G ?g = {}"
    using incoming_pending[OF graph(1,3)] unfolding pend by auto
  have "i \<in> node_index ` set (leaves l)" using leaf(1) inv by (simp add: lattice_inv_def)
  then obtain k where k: "position (\<lambda>e. runnable_eq e (runnable_new i)) (leaves l) = Some k"
    by (cases "position (\<lambda>e. runnable_eq e (runnable_new i)) (leaves l)") (auto simp: position_None_iff)
  then have k': "k < length (leaves l)" "node_index (leaves l ! k) = i" using position_SomeD by fastforce+
  define ls where "ls = vec_remove k (leaves l)"
  define l' where "l' = \<lparr> forest = g', leaves = ls @ ?new, run_queue = rev ?new @ run_queue l \<rparr>"
  have step: "mark_as_completed G i l = Some l'"
    using rm ps(1) k promote_parents_spec[of g' ?ps]
    by (simp add: mark_as_completed_def Let_def g'_def[symmetric] l'_def ls_def)
  have dist_leaves: "distinct (map node_index (leaves l))" using inv by (simp add: lattice_inv_def)
  have set_ls: "node_index ` set ls = leaf_nodes G ?g - {i}" "distinct (map node_index ls)"
  proof -
    have "map node_index ls = vec_remove k (map node_index (leaves l))" unfolding ls_def by (rule map_vec_remove)
    then show "distinct (map node_index ls)" "node_index ` set ls = leaf_nodes G ?g - {i}"
      using set_vec_remove[OF dist_leaves, of k] k' distinct_vec_remove[OF dist_leaves] inv
      unfolding lattice_inv_def by (metis, metis length_map list.set_map nth_map)
  qed
  have new: "node_index ` set ?new = {p \<in> set ?ps. p \<in> leaf_nodes G g'}" "distinct (map node_index ?new)"
    using distinct_incoming[OF graph(1,2), of i] by (force, simp add: comp_def)
  have leaves': "leaf_nodes G g' = (leaf_nodes G ?g - {i}) \<union> node_index ` set ?new" using rm new(1) by blast
  have disj: "node_index ` set ?new \<inter> leaf_nodes G ?g = {}" using new(1) ps(2) by blast
  have "lattice_inv G ok l'"
    unfolding l'_def
  proof (rule lattice_inv_extend[OF _ _ _ set_ls(2) _ new(2)])
    show "ok g'" "pg_simple G g'" using rm by blast+
    show "pg_nodes G g' \<subseteq> leaf_nodes G g' \<union> pending_nodes G g'"
      using rm graph(3) leaves' unfolding pend by (auto simp: pg_nodes_def split: if_splits)
    show "distinct (map node_index (run_queue l))" using inv by (simp add: lattice_inv_def)
    show "node_index ` set (run_queue l) = node_index ` set ls \<inter> pending_nodes G g'"
      unfolding set_ls(1) pend using inv leaf(2) by (auto simp: lattice_inv_def)
    show "node_index ` set ls \<inter> node_index ` set ?new = {}" "leaf_nodes G g' = node_index ` set ls \<union> node_index ` set ?new"
      using disj leaves' unfolding set_ls(1) by blast+
    show "node_index ` set ?new \<subseteq> pending_nodes G g'" using new(1) ps(1) by blast
    fix r e assume r: "r \<in> set ?new \<union> set (run_queue l)" and e: "pg_node_weight G g' (node_index r) = Some (Some e)"
    then show "re_timestamp r = Some (ev_timestamp e)"
      using rm inv unfolding lattice_inv_def
      by (auto simp: runnable_of_def with_timestamp_def runnable_new_def pending_event_def split: if_splits)
  qed (simp add: rev_map[symmetric])
  with step rm show ?thesis by (auto simp: l'_def)
qed

end

end
