(* ===== verification/Lattice_Order.thy ===== *)
theory Lattice_Order
  imports Lattice_Invariant
begin

text \<open>
  The order in which the execution lattice hands out events. A watermark event has to wait for the
  message events with a timestamp that is not greater, for the watermark events with a smaller
  one, and for those with its own timestamp that the conflicts and priorities put first. The theory shows that the search of \<^verbatim>\<open>add_events\<close>, which gives up a traversal as soon as it
  meets a node below one that is known to precede the added event, still finds enough dependencies:
  every pending event reaches in the graph every pending event that it has to wait for.
\<close>

section \<open>Who has to wait for whom\<close>

definition must_precede :: "'cb OperatorEvent \<Rightarrow> 'cb OperatorEvent \<Rightarrow> bool" where
  "must_precede x y \<longleftrightarrow> is_watermark_callback y \<and>
     (if is_watermark_callback x
      then ts_lt (ev_timestamp x) (ev_timestamp y) \<or>
           ts_cmp (ev_timestamp x) (ev_timestamp y) = Equal \<and> resolve_access_conflicts x y = Some Less
      else ts_le (ev_timestamp x) (ev_timestamp y))"

text \<open>
  Pairs of events on which the comparison is antisymmetric: two messages compare \<^verbatim>\<open>Equal\<close>, and of two
  watermark events with the same timestamp (those of several callbacks of an operator) one comes
  first by the conflicts and priorities. Two watermark events that tie are excluded: each of them
  compares \<^verbatim>\<open>Greater\<close> to the other one.
\<close>

definition well_timed_pair :: "'cb OperatorEvent \<Rightarrow> 'cb OperatorEvent \<Rightarrow> bool" where
  "well_timed_pair x y \<longleftrightarrow>
     (\<not> is_watermark_callback x \<and> \<not> is_watermark_callback y \<longrightarrow> event_cmp x y = Some Equal) \<and>
     (is_watermark_callback x \<and> is_watermark_callback y \<and> ts_cmp (ev_timestamp x) (ev_timestamp y) = Equal \<longrightarrow>
        resolve_access_conflicts x y = Some Less \<or> resolve_access_conflicts x y = Some Greater)"

lemma must_precede_irrefl [simp]: "\<not> must_precede x x"
  by (simp add: must_precede_def resolve_self)

lemma must_precede_asym: "must_precede x y \<Longrightarrow> \<not> must_precede y x"
  using resolve_swap[of y x] ts_ord.cmp_swap[of "ev_timestamp y" "ev_timestamp x"]
  by (auto simp: must_precede_def ts_lt_iff split: if_splits)

lemma must_precede_le: "must_precede x y \<Longrightarrow> ts_le (ev_timestamp x) (ev_timestamp y)"
  by (auto simp: must_precede_def ts_lt_iff ts_le_iff split: if_splits)

text \<open>Precedence is transitive, except perhaps among watermark events with one timestamp.\<close>

lemma must_precede_trans:
  assumes "must_precede x y" "must_precede y z"
    and "is_watermark_callback x \<Longrightarrow> ts_cmp (ev_timestamp x) (ev_timestamp y) = Equal \<Longrightarrow>
      ts_cmp (ev_timestamp y) (ev_timestamp z) = Equal \<Longrightarrow> resolve_access_conflicts x z = Some Less"
  shows "must_precede x z"
proof -
  let ?x = "ev_timestamp x" and ?y = "ev_timestamp y" and ?z = "ev_timestamp z"
  have le: "ts_le ?x ?y" "ts_le ?y ?z" by (rule must_precede_le[OF assms(1)], rule must_precede_le[OF assms(2)])
  have w: "is_watermark_callback y" "is_watermark_callback z" using assms(1,2) by (auto simp: must_precede_def)
  show ?thesis
  proof (cases "is_watermark_callback x \<and> ts_cmp ?x ?y = Equal \<and> ts_cmp ?y ?z = Equal")
    case True
    then have "ts_cmp ?x ?z = Equal" using ts_ord.equal_trans[of ?x ?y ?z] by blast
    with True assms(3) w show ?thesis by (simp add: must_precede_def)
  next
    case False
    have "ts_lt ?x ?z" if "is_watermark_callback x"
      using False that le ts_lt_le_trans[of ?x ?y ?z] ts_le_lt_trans[of ?x ?y ?z]
      by (cases "ts_cmp ?x ?y"; cases "ts_cmp ?y ?z") (auto simp: ts_lt_iff ts_le_iff)
    with ts_le_trans[OF le] w show ?thesis by (simp add: must_precede_def)
  qed
qed

lemma well_timed_pair_sym: "well_timed_pair x y \<Longrightarrow> well_timed_pair y x"
  using resolve_swap[of y x] ts_ord.equal_sym[of "ev_timestamp y" "ev_timestamp x"]
  by (auto simp: well_timed_pair_def event_cmp_def split: if_splits)

lemma well_timed_cmp:
  assumes "well_timed_pair x y"
  shows "event_cmp x y \<noteq> None" "event_cmp x y = Some Less \<longleftrightarrow> must_precede x y"
    "event_cmp x y = Some Greater \<longleftrightarrow> must_precede y x"
proof (atomize (full), cases "is_watermark_callback x \<and> is_watermark_callback y")
  case True
  let ?c = "ts_cmp (ev_timestamp x) (ev_timestamp y)" and ?r = "resolve_access_conflicts x y"
  have swap: "ts_cmp (ev_timestamp y) (ev_timestamp x) = reverse ?c" "resolve_access_conflicts y x = map_option reverse ?r"
    by (rule ts_ord.cmp_swap, rule resolve_swap)
  have "?c = Equal \<Longrightarrow> ?r = Some Less \<or> ?r = Some Greater" using assms True by (simp add: well_timed_pair_def)
  then show "event_cmp x y \<noteq> None \<and> (event_cmp x y = Some Less \<longleftrightarrow> must_precede x y) \<and>
      (event_cmp x y = Some Greater \<longleftrightarrow> must_precede y x)"
    using True by (cases ?c) (auto simp: event_cmp_def must_precede_def ts_lt_iff swap)
next
  case False
  then show "event_cmp x y \<noteq> None \<and> (event_cmp x y = Some Less \<longleftrightarrow> must_precede x y) \<and>
      (event_cmp x y = Some Greater \<longleftrightarrow> must_precede y x)"
    using assms ts_ord.cmp_swap[of "ev_timestamp y" "ev_timestamp x"] unfolding well_timed_pair_def must_precede_def
    by (cases "is_watermark_callback x"; cases "is_watermark_callback y";
        auto simp: event_cmp_def watermark_message_cmp_def ts_lt_iff ts_le_iff split: ordering.splits)
qed

lemma well_timed_total:
  "well_timed_pair x y \<Longrightarrow> is_watermark_callback x \<Longrightarrow> is_watermark_callback y \<Longrightarrow>
     must_precede x y \<or> must_precede y x"
  using ts_ord.cmp_swap[of "ev_timestamp y" "ev_timestamp x"] resolve_swap[of y x]
  by (cases "ts_cmp (ev_timestamp x) (ev_timestamp y)") (auto simp: well_timed_pair_def must_precede_def ts_lt_iff)

text \<open>Precedence among three events has no gap.\<close>

definition chained :: "'cb OperatorEvent \<Rightarrow> 'cb OperatorEvent \<Rightarrow> 'cb OperatorEvent \<Rightarrow> bool" where
  "chained x y z \<longleftrightarrow> (must_precede x y \<and> must_precede y z \<longrightarrow> must_precede x z)"

text \<open>The accesses of two events do not conflict; then their priorities decide.\<close>

definition no_conflict :: "'cb OperatorEvent \<Rightarrow> 'cb OperatorEvent \<Rightarrow> bool" where
  "no_conflict x y \<longleftrightarrow> is_disjoint (write_ids x) (write_ids y) \<and> is_disjoint (read_ids x) (write_ids y) \<and>
     is_disjoint (write_ids x) (read_ids y)"

lemma resolve_no_conflict: "no_conflict x y \<Longrightarrow> resolve_access_conflicts x y = Some (i8_cmp (priority x) (priority y))"
  by (simp add: no_conflict_def resolve_access_conflicts_def)

lemma no_conflict_sym: "no_conflict x y \<Longrightarrow> no_conflict y x"
  by (auto simp: no_conflict_def is_disjoint_def)

section \<open>The order on the nodes of a graph\<close>

definition before :: "('g, 'd, 'cb) lattice_graph \<Rightarrow> 'g \<Rightarrow> nat \<Rightarrow> nat \<Rightarrow> bool" where
  "before G g a b \<longleftrightarrow> (\<exists>x y. pg_node_weight G g a = Some (Some x) \<and> pg_node_weight G g b = Some (Some y) \<and>
     must_precede x y)"

text \<open>
  The events that can be added without a cycle: the new event and the pending ones compare like
  the elements of a strict order in which the watermark events are linearly ordered. The condition
  only concerns events that are pending together.
\<close>

definition well_timed :: "('g, 'd, 'cb) lattice_graph \<Rightarrow> 'g \<Rightarrow> 'cb OperatorEvent \<Rightarrow> bool" where
  "well_timed G g x \<longleftrightarrow>
     (\<forall>n e. pg_node_weight G g n = Some (Some e) \<longrightarrow> well_timed_pair x e) \<and>
     (\<forall>m n y z. pg_node_weight G g m = Some (Some y) \<longrightarrow> pg_node_weight G g n = Some (Some z) \<longrightarrow>
        chained x y z \<and> chained y x z \<and> chained y z x)"

definition earlier :: "('g, 'd, 'cb) lattice_graph \<Rightarrow> 'g \<Rightarrow> 'cb OperatorEvent \<Rightarrow> nat set" where
  "earlier G g x = {n. \<exists>e. pg_node_weight G g n = Some (Some e) \<and> must_precede e x}"

definition later :: "('g, 'd, 'cb) lattice_graph \<Rightarrow> 'g \<Rightarrow> 'cb OperatorEvent \<Rightarrow> nat set" where
  "later G g x = {n. \<exists>e. pg_node_weight G g n = Some (Some e) \<and> must_precede x e}"

definition watermark_nodes :: "('g, 'd, 'cb) lattice_graph \<Rightarrow> 'g \<Rightarrow> nat set" where
  "watermark_nodes G g = {n. \<exists>e. pg_node_weight G g n = Some (Some e) \<and> is_watermark_callback e}"

text \<open>
  Edges go from pending watermarks to events that precede them or are running, every pending event
  reaches those that have to precede it, and the pending watermarks are linearly ordered.
\<close>

definition order_inv :: "('g, 'd, 'cb) lattice_graph \<Rightarrow> 'g \<Rightarrow> bool" where
  "order_inv G g \<longleftrightarrow>
     (\<forall>b a. (b, a) \<in> pg_edges G g \<longrightarrow> b \<in> watermark_nodes G g \<and> (before G g a b \<or> pg_node_weight G g a = Some None)) \<and>
     (\<forall>a b. before G g a b \<longrightarrow> (b, a) \<in> (pg_edges G g)\<^sup>+) \<and>
     (\<forall>m n x y. pg_node_weight G g m = Some (Some x) \<and> pg_node_weight G g n = Some (Some y) \<and> m \<noteq> n \<longrightarrow>
        well_timed_pair x y) \<and>
     (\<forall>a b c. before G g a b \<longrightarrow> before G g b c \<longrightarrow> before G g a c)"

lemma before_trans: "order_inv G g \<Longrightarrow> before G g a b \<Longrightarrow> before G g b c \<Longrightarrow> before G g a c"
  unfolding order_inv_def by blast

lemma before_irrefl [simp]: "\<not> before G g a a"
  unfolding before_def by auto

lemma before_asym: "before G g a b \<Longrightarrow> \<not> before G g b a"
  unfolding before_def using must_precede_asym by fastforce

lemma before_pending: "before G g a b \<Longrightarrow> a \<in> pending_nodes G g \<and> b \<in> pending_nodes G g"
  unfolding before_def pending_nodes_def by auto

lemma well_timed_chained:
  assumes "well_timed G g x" "pg_node_weight G g m = Some (Some y)" "pg_node_weight G g n = Some (Some z)"
  shows "must_precede x y \<Longrightarrow> must_precede y z \<Longrightarrow> must_precede x z"
    "must_precede y x \<Longrightarrow> must_precede x z \<Longrightarrow> must_precede y z"
    "must_precede y z \<Longrightarrow> must_precede z x \<Longrightarrow> must_precede y x"
  using assms unfolding well_timed_def chained_def by blast+

lemma earlier_trans:
  assumes "well_timed G g x" "before G g a b" "b \<in> earlier G g x"
  shows "a \<in> earlier G g x"
proof -
  obtain y z where yz: "pg_node_weight G g a = Some (Some y)" "pg_node_weight G g b = Some (Some z)"
    "must_precede y z" "must_precede z x" using assms(2,3) by (auto simp: before_def earlier_def)
  from well_timed_chained(3)[OF assms(1) yz(1,2) yz(3,4)] show ?thesis using yz(1,2) by (auto simp: earlier_def)
qed

lemma later_trans:
  assumes "well_timed G g x" "before G g a b" "a \<in> later G g x"
  shows "b \<in> later G g x"
proof -
  obtain y z where yz: "pg_node_weight G g a = Some (Some y)" "pg_node_weight G g b = Some (Some z)"
    "must_precede y z" "must_precede x y" using assms(2,3) by (auto simp: before_def later_def)
  from well_timed_chained(1)[OF assms(1) yz(1,2) yz(4,3)] show ?thesis using yz(1,2) by (auto simp: later_def)
qed

lemma earlier_later_before:
  assumes "well_timed G g x" "a \<in> earlier G g x" "b \<in> later G g x"
  shows "before G g a b"
proof -
  obtain y z where yz: "pg_node_weight G g a = Some (Some y)" "pg_node_weight G g b = Some (Some z)"
    "must_precede y x" "must_precede x z" using assms(2,3) by (auto simp: earlier_def later_def)
  from well_timed_chained(2)[OF assms(1) yz(1,2) yz(3,4)] show ?thesis using yz(1,2) by (auto simp: before_def)
qed

lemma earlier_later_disjoint: "earlier G g x \<inter> later G g x = {}"
  unfolding earlier_def later_def using must_precede_asym by fastforce

text \<open>
  A sufficient condition: messages do not conflict, and watermark events with one timestamp have
  no conflicting accesses and different priorities, as the event of a watermark callback of the
  user and the event of the callback that lets watermarks flow, whose priority is 127.
\<close>

lemma well_timed_by_priority:
  assumes x: "\<And>n e. pg_node_weight G g n = Some (Some e) \<Longrightarrow>
      (\<not> is_watermark_callback x \<and> \<not> is_watermark_callback e \<longrightarrow> event_cmp x e = Some Equal) \<and>
      (is_watermark_callback x \<and> is_watermark_callback e \<and> ts_cmp (ev_timestamp x) (ev_timestamp e) = Equal \<longrightarrow>
         no_conflict x e \<and> priority x \<noteq> priority e)"
    and p: "\<And>m n y z. m \<noteq> n \<Longrightarrow> pg_node_weight G g m = Some (Some y) \<Longrightarrow> pg_node_weight G g n = Some (Some z) \<Longrightarrow>
      is_watermark_callback y \<Longrightarrow> is_watermark_callback z \<Longrightarrow> ts_cmp (ev_timestamp y) (ev_timestamp z) = Equal \<Longrightarrow>
      no_conflict y z"
  shows "well_timed G g x"
proof -
  let ?pending = "\<lambda>e. \<exists>n. pg_node_weight G g n = Some (Some e)"
  have pair: "well_timed_pair x e" if "?pending e" for e
    using x that i8_ord.cmp_Equal[of "priority x" "priority e"] unfolding well_timed_pair_def
    by (cases "i8_cmp (priority x) (priority e)") (auto simp: resolve_no_conflict)
  have less: "i8_cmp (priority a) (priority b) = Less"
    if "must_precede a b" "is_watermark_callback a" "ts_cmp (ev_timestamp a) (ev_timestamp b) = Equal" "no_conflict a b" for a b
    using that by (simp add: must_precede_def resolve_no_conflict ts_lt_iff)
  have chain: "chained a b c"
    if "\<And>u v. (u, v) \<in> {(a, b), (b, c), (a, c)} \<Longrightarrow> is_watermark_callback u \<Longrightarrow> is_watermark_callback v \<Longrightarrow>
         ts_cmp (ev_timestamp u) (ev_timestamp v) = Equal \<Longrightarrow> no_conflict u v" for a b c
    unfolding chained_def
  proof (intro impI, elim conjE)
    assume ab: "must_precede a b" and bc: "must_precede b c"
    have w: "is_watermark_callback b" "is_watermark_callback c" using ab bc by (auto simp: must_precede_def)
    show "must_precede a c"
    proof (rule must_precede_trans[OF ab bc])
      assume a: "is_watermark_callback a" and eq: "ts_cmp (ev_timestamp a) (ev_timestamp b) = Equal"
        "ts_cmp (ev_timestamp b) (ev_timestamp c) = Equal"
      have ac: "ts_cmp (ev_timestamp a) (ev_timestamp c) = Equal" using ts_ord.equal_trans[OF eq] .
      have "i8_cmp (priority a) (priority b) = Less" "i8_cmp (priority b) (priority c) = Less"
        using less[OF ab a eq(1)] less[OF bc w(1) eq(2)] that a w eq by auto
      then have "i8_cmp (priority a) (priority c) = Less" using i8_ord.less_le_trans by fastforce
      moreover have "no_conflict a c" using that a w ac by auto
      ultimately show "resolve_access_conflicts a c = Some Less" by (simp add: resolve_no_conflict)
    qed
  qed
  have xe: "no_conflict x e" if "?pending e" "is_watermark_callback x" "is_watermark_callback e"
    "ts_cmp (ev_timestamp x) (ev_timestamp e) = Equal" for e using x that by blast
  have ex: "no_conflict e x" if "?pending e" "is_watermark_callback e" "is_watermark_callback x"
    "ts_cmp (ev_timestamp e) (ev_timestamp x) = Equal" for e
    by (rule no_conflict_sym[OF xe[OF that(1,3,2) ts_ord.equal_sym[OF that(4)]]])
  have "chained x y z \<and> chained y x z \<and> chained y z x"
    if yz: "pg_node_weight G g m = Some (Some y)" "pg_node_weight G g n = Some (Some z)" for m n y z
  proof (cases "m = n")
    case True
    then have "y = z" using yz by simp
    then show ?thesis using must_precede_asym[of x z] by (auto simp: chained_def)
  next
    case False
    have "no_conflict y z" if "is_watermark_callback y" "is_watermark_callback z"
      "ts_cmp (ev_timestamp y) (ev_timestamp z) = Equal" by (rule p[OF False yz that])
    then show ?thesis using yz by (intro conjI chain) (auto intro: xe ex)
  qed
  with pair show ?thesis unfolding well_timed_def by blast
qed

lemma well_timed_comparable: "well_timed G g x \<Longrightarrow> comparable G g x"
  unfolding well_timed_def comparable_def using well_timed_cmp(1) by blast

lemma follows_later: "well_timed G g x \<Longrightarrow> follows G g x n \<longleftrightarrow> n \<in> later G g x"
  unfolding well_timed_def follows_def later_def using well_timed_cmp(3)[OF well_timed_pair_sym] by fastforce

lemma earlier_watermark: "a \<in> earlier G g x \<Longrightarrow> is_watermark_callback x"
  by (auto simp: earlier_def must_precede_def)

context lattice_library
begin

lemma edge_source: "order_inv G g \<Longrightarrow> (b, a) \<in> pg_edges G g \<Longrightarrow> b \<in> watermark_nodes G g"
  by (simp add: order_inv_def)

lemma edge_before: "order_inv G g \<Longrightarrow> (b, a) \<in> pg_edges G g \<Longrightarrow> a \<in> pending_nodes G g \<Longrightarrow> before G g a b"
  unfolding order_inv_def pending_nodes_def by fastforce

lemma watermark_pending: "n \<in> watermark_nodes G g \<Longrightarrow> n \<in> pending_nodes G g"
  by (auto simp: watermark_nodes_def pending_nodes_def)

lemma path_before:
  assumes "order_inv G g" "(b, a) \<in> (pg_edges G g)\<^sup>+" "a \<in> pending_nodes G g"
  shows "before G g a b"
  using assms(2,3)
proof (induction rule: trancl_induct)
  case (base y)
  then show ?case using edge_before[OF assms(1)] by blast
next
  case (step y z)
  have "y \<in> pending_nodes G g" using watermark_pending[OF edge_source[OF assms(1) step(2)]] .
  then show ?case using before_trans[OF assms(1) edge_before[OF assms(1) step(2) step(4)] step(3)] by blast
qed

lemma path_source: "order_inv G g \<Longrightarrow> (b, a) \<in> (pg_edges G g)\<^sup>+ \<Longrightarrow> b \<in> watermark_nodes G g"
  using edge_source by (metis tranclD)

lemma order_acyclic: "order_inv G g \<Longrightarrow> acyclic (pg_edges G g)"
  unfolding acyclic_def using path_before path_source watermark_pending before_irrefl by metis

lemma finite_edges: "ok g \<Longrightarrow> finite (pg_edges G g)"
  using edges_nodes finite_nodes[of g] unfolding pg_nodes_def[symmetric]
  by (intro finite_subset[of "pg_edges G g" "pg_nodes G g \<times> pg_nodes G g"]) auto

lemma edges_wf: "ok g \<Longrightarrow> order_inv G g \<Longrightarrow> wf ((pg_edges G g)\<inverse>)"
  by (intro finite_acyclic_wf_converse finite_edges order_acyclic)

lemma reaches_leaf:
  assumes "ok g" "order_inv G g" "n \<in> pg_nodes G g"
  shows "\<exists>l \<in> leaf_nodes G g. (n, l) \<in> (pg_edges G g)\<^sup>*"
  using edges_wf[OF assms(1,2)] assms(3)
proof (induction n rule: wf_induct_rule)
  case (less n)
  show ?case
  proof (cases "n \<in> leaf_nodes G g")
    case False
    then obtain m where m: "(n, m) \<in> pg_edges G g" using less.prems by (auto simp: leaf_nodes_def)
    then obtain l where "l \<in> leaf_nodes G g" "(m, l) \<in> (pg_edges G g)\<^sup>*"
      using less.IH[of m] edges_nodes[OF assms(1) m] by auto
    with m show ?thesis by (meson converse_rtrancl_into_rtrancl)
  qed blast
qed

section \<open>What the search knows\<close>

text \<open>
  \<open>closed\<close> are the nodes whose traversal is over: visited, or given up. A given-up node lies below an
  event that is known to precede the added one. A visited node whose traversal was not given up has
  contributed its parents.
\<close>

definition knows :: "'g \<Rightarrow> 'cb OperatorEvent \<Rightarrow> nat set \<Rightarrow> 'd search_state \<Rightarrow> bool" where
  "knows g x op st \<longleftrightarrow>
     (let E = pg_edges G g; D = discovered (dfs_from_leaf st); F = finished (dfs_from_leaf st);
          pre = set (preceding_events st); ps = set (parents st) in
      F \<subseteq> D \<and> pre \<subseteq> F \<and> pre \<subseteq> earlier G g x \<union> {n. pg_node_weight G g n = Some None} \<and>
      set (children st) \<subseteq> earlier G g x \<and> ps \<subseteq> later G g x \<and>
      (\<forall>v \<in> pre. \<exists>c \<in> set (children st). (c, v) \<in> E\<^sup>*) \<and>
      F \<inter> earlier G g x \<subseteq> pre \<and>
      (\<forall>z \<in> D - F - op. \<exists>p \<in> pre. (p, z) \<in> E\<^sup>+) \<and>
      (\<forall>v \<in> F. \<forall>u. (u, v) \<in> E \<longrightarrow> u \<in> D) \<and>
      (\<forall>v \<in> F. (\<exists>p \<in> pre. (p, v) \<in> E) \<or>
         (if v \<in> later G g x then v \<in> leaf_nodes G g \<longrightarrow> v \<in> ps else \<forall>u \<in> later G g x. (u, v) \<in> E \<longrightarrow> u \<in> ps)))"

lemma knows_init: "ok g \<Longrightarrow> knows g x {} (search_init G g)"
  using empty[of g] by (simp add: knows_def search_init_def Let_def)

text \<open>The effect of a visit, in terms of the sets.\<close>

lemma visit_abandons:
  assumes "ok g" "visit_node G g rq x v st = Some (True, st')"
  shows "\<exists>p \<in> set (preceding_events st). (p, v) \<in> pg_edges G g"
    "st' = st \<lparr> preceding_events := set_add v (preceding_events st) \<rparr>"
proof -
  have "\<exists>parent \<in> set (pg_incoming G g v). parent \<in> set (preceding_events st)"
    using assms(2) by (auto simp: visit_node_def split: if_splits option.splits ordering.splits)
  with assms set_incoming[OF assms(1)] show "\<exists>p \<in> set (preceding_events st). (p, v) \<in> pg_edges G g"
    "st' = st \<lparr> preceding_events := set_add v (preceding_events st) \<rparr>"
    by (auto simp: visit_node_def)
qed

lemma visit_continues:
  assumes g: "ok g" "pg_nodes G g \<subseteq> leaf_nodes G g \<union> pending_nodes G g" and wt: "well_timed G g x"
    and v: "v \<in> pg_nodes G g" and visit: "visit_node G g rq x v st = Some (False, st')"
  shows "(\<forall>p \<in> set (preceding_events st). (p, v) \<notin> pg_edges G g) \<and>
    set (preceding_events st') = set (preceding_events st) \<union> ({v} \<inter> earlier G g x) \<and>
    set (children st') = set (children st) \<union> ({v} \<inter> earlier G g x) \<and>
    set (parents st') = set (parents st) \<union>
       (if v \<in> later G g x then {v} \<inter> leaf_nodes G g else {u \<in> later G g x. (u, v) \<in> pg_edges G g})"
proof -
  have comp: "comparable G g x" by (rule well_timed_comparable[OF wt])
  have inc: "set (pg_incoming G g v) = {u. (u, v) \<in> pg_edges G g}" by (rule set_incoming[OF g(1)])
  have par: "set (pg_incoming G g v) \<subseteq> pending_nodes G g" using incoming_pending[OF g] by blast
  have no: "\<not> (\<exists>parent \<in> set (pg_incoming G g v). parent \<in> set (preceding_events st))"
    using visit by (auto simp: visit_node_def split: if_splits)
  note body = visit[unfolded visit_node_def if_not_P[OF no]]
  have new: "{n \<in> set (pg_incoming G g v). follows G g x n} = {u \<in> later G g x. (u, v) \<in> pg_edges G g}"
    using inc follows_later[OF wt] by auto
  obtain ps where ps: "add_parents G g x (pg_incoming G g v) (parents st) = Some ps"
    "set ps = set (parents st) \<union> {u \<in> later G g x. (u, v) \<in> pg_edges G g}"
    using add_parents_Some[OF comp par, of "parents st"] new by auto
  obtain w where w: "pg_node_weight G g v = Some w" using v by (auto simp: pg_nodes_def)
  show ?thesis
  proof (cases w)
    case None
    then have "v \<notin> later G g x" "v \<notin> earlier G g x" using w by (auto simp: later_def earlier_def)
    then show ?thesis using body no w None ps inc by auto
  next
    case (Some e)
    have "well_timed_pair x e" using wt w Some by (auto simp: well_timed_def)
    note cmp = well_timed_cmp[OF this]
    have ab: "v \<in> later G g x \<longleftrightarrow> must_precede x e" "v \<in> earlier G g x \<longleftrightarrow> must_precede e x"
      using w Some by (auto simp: later_def earlier_def)
    obtain c where c: "event_cmp x e = Some c" using cmp(1) by blast
    show ?thesis
    proof (cases c)
      case Less
      with c cmp(2,3) ab have "v \<in> later G g x" "v \<notin> earlier G g x" by auto
      then show ?thesis
        using body no w Some c Less inc outgoing_leaf[OF g(1) v] by (auto split: if_splits)
    next
      case Equal
      with c cmp(2,3) ab have "v \<notin> later G g x" "v \<notin> earlier G g x" by auto
      then show ?thesis using body no w Some c Equal ps inc by auto
    next
      case Greater
      with c cmp(2,3) ab have ba: "v \<notin> later G g x" "v \<in> earlier G g x" by auto
      have "\<forall>n \<in> set (pg_incoming G g v). pg_find_edge G g n v \<noteq> None"
        using find_edge_None[OF g(1)] inc edges_iff by fastforce
      from add_parents_redundant_Some[OF comp par this, of "parents st" "redundant_edges st"] new
      show ?thesis using body no w Some c Greater ba inc by auto
    qed
  qed
qed

lemma knowsD:
  assumes "knows g x op st"
  shows "finished (dfs_from_leaf st) \<subseteq> discovered (dfs_from_leaf st)"
    "set (preceding_events st) \<subseteq> finished (dfs_from_leaf st)"
    "set (preceding_events st) \<subseteq> earlier G g x \<union> {n. pg_node_weight G g n = Some None}"
    "set (children st) \<subseteq> earlier G g x" "set (parents st) \<subseteq> later G g x"
    "v \<in> set (preceding_events st) \<Longrightarrow> \<exists>c \<in> set (children st). (c, v) \<in> (pg_edges G g)\<^sup>*"
    "finished (dfs_from_leaf st) \<inter> earlier G g x \<subseteq> set (preceding_events st)"
    "z \<in> discovered (dfs_from_leaf st) \<Longrightarrow> z \<notin> finished (dfs_from_leaf st) \<Longrightarrow> z \<notin> op \<Longrightarrow>
       \<exists>p \<in> set (preceding_events st). (p, z) \<in> (pg_edges G g)\<^sup>+"
    "v \<in> finished (dfs_from_leaf st) \<Longrightarrow> (u, v) \<in> pg_edges G g \<Longrightarrow> u \<in> discovered (dfs_from_leaf st)"
    "v \<in> finished (dfs_from_leaf st) \<Longrightarrow> (\<exists>p \<in> set (preceding_events st). (p, v) \<in> pg_edges G g) \<or>
       (if v \<in> later G g x then v \<in> leaf_nodes G g \<longrightarrow> v \<in> set (parents st)
        else \<forall>u \<in> later G g x. (u, v) \<in> pg_edges G g \<longrightarrow> u \<in> set (parents st))"
  using assms unfolding knows_def Let_def by (blast, blast, blast, blast, blast, blast, blast, blast, blast, meson)

lemma knowsI:
  assumes "finished (dfs_from_leaf st) \<subseteq> discovered (dfs_from_leaf st)"
    "set (preceding_events st) \<subseteq> finished (dfs_from_leaf st)"
    "set (preceding_events st) \<subseteq> earlier G g x \<union> {n. pg_node_weight G g n = Some None}"
    "set (children st) \<subseteq> earlier G g x" "set (parents st) \<subseteq> later G g x"
    "\<And>v. v \<in> set (preceding_events st) \<Longrightarrow> \<exists>c \<in> set (children st). (c, v) \<in> (pg_edges G g)\<^sup>*"
    "finished (dfs_from_leaf st) \<inter> earlier G g x \<subseteq> set (preceding_events st)"
    "\<And>z. z \<in> discovered (dfs_from_leaf st) \<Longrightarrow> z \<notin> finished (dfs_from_leaf st) \<Longrightarrow> z \<notin> op \<Longrightarrow>
       \<exists>p \<in> set (preceding_events st). (p, z) \<in> (pg_edges G g)\<^sup>+"
    "\<And>u v. v \<in> finished (dfs_from_leaf st) \<Longrightarrow> (u, v) \<in> pg_edges G g \<Longrightarrow> u \<in> discovered (dfs_from_leaf st)"
    "\<And>v. v \<in> finished (dfs_from_leaf st) \<Longrightarrow> (\<exists>p \<in> set (preceding_events st). (p, v) \<in> pg_edges G g) \<or>
       (if v \<in> later G g x then v \<in> leaf_nodes G g \<longrightarrow> v \<in> set (parents st)
        else \<forall>u \<in> later G g x. (u, v) \<in> pg_edges G g \<longrightarrow> u \<in> set (parents st))"
  shows "knows g x op st"
  using assms(1-5,7) unfolding knows_def Let_def
  by (intro conjI) (assumption | use assms(6,8-10) in blast)+

lemma preceding_source:
  assumes "order_inv G g" "knows g x op st" "p \<in> set (preceding_events st)" "(p, v) \<in> (pg_edges G g)\<^sup>+"
  shows "p \<in> earlier G g x \<inter> watermark_nodes G g"
  using path_source[OF assms(1,4)] knowsD(3)[OF assms(2)] assms(3) by (auto simp: watermark_nodes_def)

lemma knows_abandon:
  assumes ok: "ok g" and inv: "order_inv G g" and wt: "well_timed G g x"
    and kn: "knows g x (opened (dfs_from_leaf st)) st"
    and val: "valid g (dfs_from_leaf st)" and nxt: "dfs_next G g (dfs_from_leaf st) = (Some v, d)"
    and p: "p \<in> set (preceding_events st)" "(p, v) \<in> pg_edges G g"
  shows "knows g x {} (st \<lparr> dfs_from_leaf := d, preceding_events := set_add v (preceding_events st) \<rparr>)"
proof -
  note law = next_basic[OF val ok nxt] and k = knowsD[OF kn]
  have pe: "p \<in> earlier G g x" using preceding_source[OF inv kn p(1)] p(2) by auto
  have v: "v \<in> earlier G g x \<union> {n. pg_node_weight G g n = Some None}"
    using inv p(2) earlier_trans[OF wt _ pe] unfolding order_inv_def by blast
  have below: "(p, z) \<in> (pg_edges G g)\<^sup>+" if "z \<in> opened d" for z
    using next_opened(1)[OF val ok nxt that] p(2) by auto
  have z: "\<exists>p \<in> set (preceding_events st). (p, z) \<in> (pg_edges G g)\<^sup>+"
    if "z \<in> discovered d" "z \<notin> insert v (finished (dfs_from_leaf st))" for z
  proof (cases "z \<in> opened d")
    case False
    then have "z \<notin> opened (dfs_from_leaf st)" using next_opened(2)[OF val ok nxt] that(2) by auto
    moreover have "z \<in> discovered (dfs_from_leaf st)" using next_discovers(1)[OF val ok nxt that(1)] that(2) False by auto
    ultimately show ?thesis using k(8)[of z] that(2) by auto
  qed (use below p(1) in auto)
  have cv: "\<exists>c \<in> set (children st). (c, v) \<in> (pg_edges G g)\<^sup>*"
    using k(6)[OF p(1)] p(2) by (meson rtrancl_into_rtrancl)
  have par: "u \<in> discovered d" if "(u, w) \<in> pg_edges G g" "w \<in> insert v (finished (dfs_from_leaf st))" for u w
    using that next_parents[OF val ok nxt] k(9) law(7) by blast
  let ?st = "st \<lparr> dfs_from_leaf := d, preceding_events := set_add v (preceding_events st) \<rparr>"
  have fields: "dfs_from_leaf ?st = d" "set (preceding_events ?st) = insert v (set (preceding_events st))"
    "children ?st = children st" "parents ?st = parents st" by simp_all
  show ?thesis
  proof (rule knowsI; (simp only: fields law(5))?)
    show "insert v (finished (dfs_from_leaf st)) \<subseteq> discovered d" using law(4,7) k(1) by blast
    show "insert v (set (preceding_events st)) \<subseteq> insert v (finished (dfs_from_leaf st))" using k(2) by blast
    show "insert v (set (preceding_events st)) \<subseteq> earlier G g x \<union> {n. pg_node_weight G g n = Some None}"
      using k(3) v by blast
    show "set (children st) \<subseteq> earlier G g x" "set (parents st) \<subseteq> later G g x" by (fact k(4), fact k(5))
    show "insert v (finished (dfs_from_leaf st)) \<inter> earlier G g x \<subseteq> insert v (set (preceding_events st))"
      using k(7) by blast
  next
    fix w assume "w \<in> insert v (set (preceding_events st))"
    then show "\<exists>c \<in> set (children st). (c, w) \<in> (pg_edges G g)\<^sup>*" using cv k(6) by blast
  next
    fix w assume "w \<in> discovered d" "w \<notin> insert v (finished (dfs_from_leaf st))"
    from z[OF this] show "\<exists>p \<in> insert v (set (preceding_events st)). (p, w) \<in> (pg_edges G g)\<^sup>+" by blast
  next
    fix u w assume "w \<in> insert v (finished (dfs_from_leaf st))" "(u, w) \<in> pg_edges G g"
    then show "u \<in> discovered d" using par by blast
  next
    fix w assume "w \<in> insert v (finished (dfs_from_leaf st))"
    then show "(\<exists>p \<in> insert v (set (preceding_events st)). (p, w) \<in> pg_edges G g) \<or>
       (if w \<in> later G g x then w \<in> leaf_nodes G g \<longrightarrow> w \<in> set (parents st)
        else \<forall>u \<in> later G g x. (u, w) \<in> pg_edges G g \<longrightarrow> u \<in> set (parents st))"
      using k(10)[of w] p by auto
  qed
qed

lemma knows_continue:
  assumes g: "ok g" "pg_nodes G g \<subseteq> leaf_nodes G g \<union> pending_nodes G g" and wt: "well_timed G g x"
    and kn: "knows g x (opened (dfs_from_leaf st)) st"
    and val: "valid g (dfs_from_leaf st)" and nxt: "dfs_next G g (dfs_from_leaf st) = (Some v, d)"
    and visit: "visit_node G g rq x v (st \<lparr> dfs_from_leaf := d \<rparr>) = Some (False, st')"
    and st': "dfs_from_leaf st' = d"
  shows "knows g x (opened d) st'"
proof -
  note law = next_basic[OF val g(1) nxt] and k = knowsD[OF kn]
  have vis: "set (preceding_events st') = set (preceding_events st) \<union> ({v} \<inter> earlier G g x)"
    "set (children st') = set (children st) \<union> ({v} \<inter> earlier G g x)"
    and vis_parents: "set (parents st') = set (parents st) \<union>
       (if v \<in> later G g x then {v} \<inter> leaf_nodes G g else {u \<in> later G g x. (u, v) \<in> pg_edges G g})"
    using visit_continues[OF g wt law(2) visit] by simp_all
  have "z \<in> discovered (dfs_from_leaf st) \<and> z \<notin> opened (dfs_from_leaf st)"
    if "z \<in> discovered d" "z \<notin> insert v (finished (dfs_from_leaf st))" "z \<notin> opened d" for z
    using next_opened(2)[OF val g(1) nxt] next_discovers(1)[OF val g(1) nxt that(1)] that by blast
  then have z: "\<exists>p \<in> set (preceding_events st). (p, z) \<in> (pg_edges G g)\<^sup>+"
    if "z \<in> discovered d" "z \<notin> insert v (finished (dfs_from_leaf st))" "z \<notin> opened d" for z
    using k(8)[of z] that by blast
  show ?thesis
  proof (rule knowsI; (simp only: st' law(5))?)
    show "insert v (finished (dfs_from_leaf st)) \<subseteq> discovered d" using law(4,7) k(1) by blast
    show "set (preceding_events st') \<subseteq> insert v (finished (dfs_from_leaf st))" using k(2) vis by blast
    show "set (preceding_events st') \<subseteq> earlier G g x \<union> {n. pg_node_weight G g n = Some None}" using k(3) vis by blast
    show "set (children st') \<subseteq> earlier G g x" using k(4) vis by blast
    show "set (parents st') \<subseteq> later G g x" using k(5) unfolding vis_parents by auto
    show "insert v (finished (dfs_from_leaf st)) \<inter> earlier G g x \<subseteq> set (preceding_events st')" using k(7) vis by blast
  next
    fix w assume "w \<in> set (preceding_events st')"
    then show "\<exists>c \<in> set (children st'). (c, w) \<in> (pg_edges G g)\<^sup>*" using k(6)[of w] unfolding vis by blast
  next
    fix w assume "w \<in> discovered d" "w \<notin> insert v (finished (dfs_from_leaf st))" "w \<notin> opened d"
    from z[OF this] show "\<exists>p \<in> set (preceding_events st'). (p, w) \<in> (pg_edges G g)\<^sup>+" using vis by blast
  next
    fix u w assume "w \<in> insert v (finished (dfs_from_leaf st))" "(u, w) \<in> pg_edges G g"
    then show "u \<in> discovered d" using next_parents[OF val g(1) nxt] k(9) law(7) by blast
  next
    fix w assume "w \<in> insert v (finished (dfs_from_leaf st))"
    then show "(\<exists>p \<in> set (preceding_events st'). (p, w) \<in> pg_edges G g) \<or>
       (if w \<in> later G g x then w \<in> leaf_nodes G g \<longrightarrow> w \<in> set (parents st')
        else \<forall>u \<in> later G g x. (u, w) \<in> pg_edges G g \<longrightarrow> u \<in> set (parents st'))"
      using k(10)[of w] unfolding vis(1) vis_parents by (cases "w = v") (auto split: if_splits)
  qed
qed

text \<open>The knowledge at the end of the search over all leaves.\<close>

lemma search_knows:
  assumes inv: "lattice_inv G ok l" and ord: "order_inv G (forest l)" and wt: "well_timed G (forest l) x"
  shows "\<exists>st. dfs_leaves G (forest l) (run_queue l) x (leaves l) (search_init G (forest l)) = Some st \<and>
           knows (forest l) x {} st \<and> search_inv G (forest l) (finished (dfs_from_leaf st)) st \<and>
           leaf_nodes G (forest l) \<subseteq> discovered (dfs_from_leaf st)"
proof -
  let ?g = "forest l"
  have graph: "ok ?g" "pg_simple G ?g" "pg_nodes G ?g \<subseteq> leaf_nodes G ?g \<union> pending_nodes G ?g"
    and rq: "node_index ` set (run_queue l) = leaf_nodes G ?g \<inter> pending_nodes G ?g"
    and ls: "distinct (map node_index (leaves l))" "node_index ` set (leaves l) \<subseteq> leaf_nodes G ?g"
    and all: "node_index ` set (leaves l) = leaf_nodes G ?g"
    using inv by (auto simp: lattice_inv_def)
  let ?B = "knows ?g x {}" and ?C = "\<lambda>n st. knows ?g x (opened (dfs_from_leaf st)) st"
  have "\<exists>st. dfs_leaves G ?g (run_queue l) x (leaves l) (search_init G ?g) = Some st \<and> ?B st \<and>
      searched ?g {} (node_index ` set (leaves l)) st"
  proof (rule search_rule[where B = ?B and C = ?C, OF graph rq well_timed_comparable[OF wt] ls])
    show "knows ?g x {} (search_init G ?g)" by (rule knows_init[OF graph(1)])
  next
    fix st n
    assume k: "?B st" and val: "valid ?g (dfs_from_leaf st)" and n: "n \<in> leaf_nodes G ?g" "n \<notin> discovered (dfs_from_leaf st)"
    from n(1) have "n \<in> pg_nodes G ?g" by (simp add: leaf_nodes_def)
    from move_to[OF val graph(1) this n(2)] k
    show "?C n (st \<lparr> dfs_from_leaf := dfs_move_to G n (dfs_from_leaf st) \<rparr>)" by (simp add: knows_def)
  next
    fix n st v d b st'
    assume a: "?C n st" "valid ?g (dfs_from_leaf st)" "dfs_next G ?g (dfs_from_leaf st) = (Some v, d)"
      "visit_node G ?g (run_queue l) x v (st \<lparr> dfs_from_leaf := d \<rparr>) = Some (b, st')" "dfs_from_leaf st' = d"
    show "if b then ?B st' else ?C n st'"
    proof (cases b)
      case True
      with a(4) have "visit_node G ?g (run_queue l) x v (st \<lparr> dfs_from_leaf := d \<rparr>) = Some (True, st')" by simp
      from visit_abandons[OF graph(1) this] obtain p where
        "p \<in> set (preceding_events st)" "(p, v) \<in> pg_edges G ?g"
        "st' = st \<lparr> dfs_from_leaf := d, preceding_events := set_add v (preceding_events st) \<rparr>" by auto
      with knows_abandon[OF graph(1) ord wt a(1,2,3)] True show ?thesis by simp
    next
      case False
      with a(4) have "visit_node G ?g (run_queue l) x v (st \<lparr> dfs_from_leaf := d \<rparr>) = Some (False, st')" by simp
      from knows_continue[OF graph(1,3) wt a(1,2,3) this a(5)] False a(5) show ?thesis by simp
    qed
  next
    fix n st d
    assume "?C n st" and val: "valid ?g (dfs_from_leaf st)" and nxt: "dfs_next G ?g (dfs_from_leaf st) = (None, d)"
    with next_None[OF val graph(1) nxt] show "?B (st \<lparr> dfs_from_leaf := d \<rparr>)" by (simp add: knows_def)
  qed
  then show ?thesis using all unfolding searched_def by auto
qed

section \<open>The search finds enough dependencies\<close>

lemma watermarks_total:
  assumes "order_inv G g" "m \<in> watermark_nodes G g" "n \<in> watermark_nodes G g"
  shows "m = n \<or> before G g m n \<or> before G g n m"
proof -
  obtain x y where xy: "pg_node_weight G g m = Some (Some x)" "is_watermark_callback x"
    "pg_node_weight G g n = Some (Some y)" "is_watermark_callback y"
    using assms(2,3) by (auto simp: watermark_nodes_def)
  show ?thesis
  proof (cases "m = n")
    case False
    with assms(1) xy have "well_timed_pair x y" unfolding order_inv_def by blast
    from well_timed_total[OF this] xy show ?thesis by (auto simp: before_def)
  qed simp
qed

lemma last_watermark:
  assumes "order_inv G g" "finite S" "S \<noteq> {}" "S \<subseteq> watermark_nodes G g"
  shows "\<exists>P \<in> S. \<forall>Q \<in> S. Q = P \<or> before G g Q P"
  using assms(2-4)
proof (induction S rule: finite_ne_induct)
  case (insert n S)
  then obtain P where P: "P \<in> S" "\<forall>Q \<in> S. Q = P \<or> before G g Q P" by auto
  have "P = n \<or> before G g P n \<or> before G g n P"
    using watermarks_total[OF assms(1), of P n] P(1) insert.prems by blast
  then show ?case
  proof (elim disjE)
    assume "before G g P n"
    then have "\<forall>Q \<in> insert n S. Q = n \<or> before G g Q n" using P(2) before_trans[OF assms(1), of _ P n] by auto
    then show ?case by blast
  qed (use P in auto)
qed simp

text \<open>The watermarks that are known to precede the added event and have not started.\<close>

abbreviation known_watermarks :: "'g \<Rightarrow> 'cb OperatorEvent \<Rightarrow> 'd search_state \<Rightarrow> nat set" where
  "known_watermarks g x st \<equiv> set (preceding_events st) \<inter> earlier G g x \<inter> watermark_nodes G g"

lemma last_earlier:
  assumes ord: "order_inv G g" and wt: "well_timed G g x" and kn: "knows g x {} st" and ne: "known_watermarks g x st \<noteq> {}"
  shows "\<exists>P \<in> known_watermarks g x st. \<forall>v \<in> earlier G g x \<inter> watermark_nodes G g. v = P \<or> before G g v P"
proof -
  note k = knowsD[OF kn]
  obtain P where P: "P \<in> known_watermarks g x st" "\<forall>Q \<in> known_watermarks g x st. Q = P \<or> before G g Q P"
    using last_watermark[OF ord _ ne] by auto
  have notafter: "\<not> before G g P Q" if "Q \<in> known_watermarks g x st" for Q
    using P(2) that before_asym[of G g P Q] before_irrefl[of G g P] by metis
  have "v = P \<or> before G g v P" if v: "v \<in> earlier G g x \<inter> watermark_nodes G g" for v
  proof (rule ccontr)
    assume "\<not> ?thesis"
    then have "before G g P v" using watermarks_total[OF ord, of v P] v P(1) by blast
    then have "(v, P) \<in> (pg_edges G g)\<^sup>+" using ord unfolding order_inv_def by blast
    then obtain q where q: "(v, q) \<in> (pg_edges G g)\<^sup>*" "(q, P) \<in> pg_edges G g" by (metis tranclD2)
    have qw: "q \<in> watermark_nodes G g" by (rule edge_source[OF ord q(2)])
    have Pq: "before G g P q" using edge_before[OF ord q(2)] P(1) watermark_pending by blast
    have "q = v \<or> before G g q v"
      using q(1) path_before[OF ord, of v q] watermark_pending[OF qw] by (metis rtranclD)
    then have qe: "q \<in> earlier G g x" using v earlier_trans[OF wt, of q v] by auto
    have "P \<in> finished (dfs_from_leaf st)" using P(1) k(2) by blast
    then have "q \<in> discovered (dfs_from_leaf st)" using k(9) q(2) by blast
    then consider "q \<in> set (preceding_events st)"
      | p where "p \<in> set (preceding_events st)" "(p, q) \<in> (pg_edges G g)\<^sup>+"
      using k(7) k(8)[of q] qe by blast
    then show False
    proof cases
      case 1
      with qe qw notafter Pq show False by blast
    next
      case 2
      then have "p \<in> known_watermarks g x st" using preceding_source[OF ord kn] by blast
      moreover have "before G g P p"
        using before_trans[OF ord Pq path_before[OF ord 2(2) watermark_pending[OF qw]]] .
      ultimately show False using notafter by blast
    qed
  qed
  with P(1) show ?thesis by blast
qed

lemma all_finished:
  assumes ok: "ok g" and ord: "order_inv G g" and kn: "knows g x {} st"
    and leaf: "leaf_nodes G g \<subseteq> discovered (dfs_from_leaf st)" and none: "known_watermarks g x st = {}"
  shows "pg_nodes G g \<subseteq> finished (dfs_from_leaf st)"
proof
  note k = knowsD[OF kn]
  have disc: "z \<in> finished (dfs_from_leaf st)" if "z \<in> discovered (dfs_from_leaf st)" for z
    using k(8)[OF that] preceding_source[OF ord kn] none by blast
  fix n assume "n \<in> pg_nodes G g"
  from reaches_leaf[OF ok ord this] obtain l where l: "l \<in> leaf_nodes G g" "(n, l) \<in> (pg_edges G g)\<^sup>*" by blast
  from l(2) show "n \<in> finished (dfs_from_leaf st)"
  proof (induction rule: converse_rtrancl_induct)
    case base
    then show ?case using disc leaf l(1) by blast
  next
    case (step y z)
    then show ?case using disc k(9) by blast
  qed
qed

lemma covers_earlier:
  assumes ok: "ok g" and ord: "order_inv G g" and wt: "well_timed G g x" and kn: "knows g x {} st"
    and leaf: "leaf_nodes G g \<subseteq> discovered (dfs_from_leaf st)" and v: "v \<in> earlier G g x"
  shows "\<exists>c \<in> set (children st). (c, v) \<in> (pg_edges G g)\<^sup>*"
proof -
  note k = knowsD[OF kn]
  have vn: "v \<in> pg_nodes G g" using v by (auto simp: earlier_def pg_nodes_def)
  have fin: ?thesis if "v \<in> finished (dfs_from_leaf st)" using k(6)[of v] k(7) v that by blast
  show ?thesis
  proof (cases "known_watermarks g x st = {}")
    case True
    then show ?thesis using fin all_finished[OF ok ord kn leaf] vn by blast
  next
    case False
    from last_earlier[OF ord wt kn False] obtain P where P: "P \<in> known_watermarks g x st"
      "\<forall>v \<in> earlier G g x \<inter> watermark_nodes G g. v = P \<or> before G g v P" by blast
    have below: ?thesis if "p \<in> set (preceding_events st)" "(p, v) \<in> (pg_edges G g)\<^sup>*" for p
      using k(6)[OF that(1)] that(2) by (meson rtrancl_trans)
    show ?thesis
    proof (cases "v \<in> watermark_nodes G g")
      case True
      then have "v = P \<or> (P, v) \<in> (pg_edges G g)\<^sup>+" using P(2) v ord unfolding order_inv_def by blast
      then show ?thesis using below[of P] P(1) by (auto dest: trancl_into_rtrancl)
    next
      case message: False
      then have "v \<in> leaf_nodes G g" using vn edge_source[OF ord] by (auto simp: leaf_nodes_def)
      then have "v \<in> discovered (dfs_from_leaf st)" using leaf by blast
      then show ?thesis using fin k(8)[of v] below by (meson empty_iff trancl_into_rtrancl)
    qed
  qed
qed

lemma path_later:
  assumes ord: "order_inv G g" and wt: "well_timed G g x" and q: "q \<in> later G g x" and path: "(u, q) \<in> (pg_edges G g)\<^sup>*"
  shows "u \<in> later G g x \<and> (u, q) \<in> (pg_edges G g \<inter> later G g x \<times> later G g x)\<^sup>*"
  using path
proof (induction rule: converse_rtrancl_induct)
  case (step y z)
  have "z \<in> pending_nodes G g" using step.IH by (auto simp: later_def pending_nodes_def)
  then have "y \<in> later G g x" using later_trans[OF wt edge_before[OF ord step.hyps(1)]] step.IH by blast
  with step show ?case by (meson IntI SigmaI converse_rtrancl_into_rtrancl)
qed (use q in simp)

lemma covers_later:
  assumes ok: "ok g" and ord: "order_inv G g" and wt: "well_timed G g x" and kn: "knows g x {} st"
    and leaf: "leaf_nodes G g \<subseteq> discovered (dfs_from_leaf st)" and u: "u \<in> later G g x"
  shows "\<exists>q \<in> set (parents st). (u, q) \<in> (pg_edges G g \<inter> later G g x \<times> later G g x)\<^sup>*"
proof (cases "known_watermarks g x st = {}")
  case True
  note k = knowsD[OF kn] and fin = all_finished[OF ok ord kn leaf True]
  have noparent: "\<not> (\<exists>p \<in> set (preceding_events st). (p, v) \<in> pg_edges G g)" for v
    using preceding_source[OF ord kn] True by blast
  from u edges_wf[OF ok ord] show ?thesis
  proof (induction u rule: wf_induct_rule[OF edges_wf[OF ok ord]])
    case (1 u)
    have un: "u \<in> pg_nodes G g" using 1(2) by (auto simp: later_def pg_nodes_def)
    show ?case
    proof (cases "u \<in> leaf_nodes G g")
      case True
      then show ?thesis using k(10)[of u] noparent[of u] fin un 1(2) by auto
    next
      case False
      then obtain v where v: "(u, v) \<in> pg_edges G g" using un by (auto simp: leaf_nodes_def)
      show ?thesis
      proof (cases "v \<in> later G g x")
        case True
        with 1 v show ?thesis by (meson IntI SigmaI converseI converse_rtrancl_into_rtrancl)
      next
        case False
        then show ?thesis using k(10)[of v] noparent[of v] fin edges_nodes[OF ok v] v 1(2) by auto
      qed
    qed
  qed
next
  case False
  note k = knowsD[OF kn]
  from last_earlier[OF ord wt kn False] obtain P where P: "P \<in> known_watermarks g x st"
    "\<forall>v \<in> earlier G g x \<inter> watermark_nodes G g. v = P \<or> before G g v P" by blast
  have notafter: "q \<notin> earlier G g x" if "before G g P q" "q \<in> watermark_nodes G g" for q
    using P(2) that before_asym[of G g P q] before_irrefl[of G g P] by (metis IntI)
  have "(u, P) \<in> (pg_edges G g)\<^sup>+" using earlier_later_before[OF wt, of P u] P(1) u ord unfolding order_inv_def by blast
  then obtain q where q: "(u, q) \<in> (pg_edges G g)\<^sup>*" "(q, P) \<in> pg_edges G g" by (metis tranclD2)
  have qw: "q \<in> watermark_nodes G g" by (rule edge_source[OF ord q(2)])
  have Pq: "before G g P q" using edge_before[OF ord q(2)] P(1) watermark_pending by blast
  have "q \<in> later G g x"
  proof -
    obtain y where y: "pg_node_weight G g q = Some (Some y)" "is_watermark_callback y" using qw by (auto simp: watermark_nodes_def)
    have "is_watermark_callback x" using P(1) earlier_watermark[of P G g x] by blast
    moreover have "well_timed_pair x y" using wt y(1) by (auto simp: well_timed_def)
    ultimately have "must_precede x y \<or> must_precede y x" using well_timed_total y(2) by blast
    then show ?thesis using notafter[OF Pq qw] y(1) by (auto simp: later_def earlier_def)
  qed
  moreover have "q \<in> set (parents st)"
  proof -
    have "\<not> (\<exists>p \<in> set (preceding_events st). (p, P) \<in> pg_edges G g)"
    proof
      assume "\<exists>p \<in> set (preceding_events st). (p, P) \<in> pg_edges G g"
      then obtain p where p: "p \<in> set (preceding_events st)" "(p, P) \<in> pg_edges G g" by blast
      then have "p \<in> earlier G g x \<inter> watermark_nodes G g" using preceding_source[OF ord kn] by blast
      moreover have "before G g P p" using edge_before[OF ord p(2)] P(1) watermark_pending by blast
      ultimately show False using notafter by blast
    qed
    moreover have "P \<notin> later G g x" using P(1) earlier_later_disjoint[of G g x] by blast
    ultimately show ?thesis using k(10)[of P] k(2) P(1) q(2) \<open>q \<in> later G g x\<close> by auto
  qed
  ultimately show ?thesis using path_later[OF ord wt _ q(1)] by blast
qed

section \<open>The order is kept\<close>

text \<open>A removed edge is replaced by the way through the new node.\<close>

lemma old_paths_kept:
  assumes "search_inv G g fin st"
    and E': "E' = (pg_edges G g - removed_edges g st) \<union> inserted_edges n st"
    and "(b, a) \<in> (pg_edges G g)\<^sup>+"
  shows "(b, a) \<in> E'\<^sup>+"
proof -
  have "pg_edges G g \<subseteq> E'\<^sup>+"
  proof (clarify)
    fix p v assume e: "(p, v) \<in> pg_edges G g"
    show "(p, v) \<in> E'\<^sup>+"
    proof (cases "(p, v) \<in> removed_edges g st")
      case True
      then have "p \<in> set (parents st)" "v \<in> set (children st)" using removed_edges_between[OF assms(1)] by auto
      then have "(p, n) \<in> E'" "(n, v) \<in> E'" unfolding E' inserted_edges_def by auto
      then show ?thesis by (meson trancl.simps)
    qed (use e E' in auto)
  qed
  from trancl_mono[OF assms(3) this] show ?thesis by (simp add: trancl_id[OF trans_trancl])
qed

lemma order_inv_insert:
  assumes ok: "ok g" and ord: "order_inv G g" and wt: "well_timed G g x"
    and kn: "knows g x {} st" and search: "search_inv G g fin st"
    and leaf: "leaf_nodes G g \<subseteq> discovered (dfs_from_leaf st)"
    and n: "pg_node_weight G g n = None" "pg_node_weight G g' = (pg_node_weight G g)(n \<mapsto> Some x)"
    and E': "pg_edges G g' = (pg_edges G g - removed_edges g st) \<union> inserted_edges n st"
  shows "order_inv G g'"
proof -
  note k = knowsD[OF kn]
  have R: "removed_edges g st \<subseteq> later G g x \<times> earlier G g x"
    using removed_edges_between[OF search] k(4,5) by blast
  have before_old: "before G g' a b \<longleftrightarrow> before G g a b" if "a \<noteq> n" "b \<noteq> n" for a b
    using that n by (auto simp: before_def)
  have before_new: "before G g' n b \<longleftrightarrow> b \<in> later G g x" "before G g' b n \<longleftrightarrow> b \<in> earlier G g x" for b
    using n by (auto simp: before_def later_def earlier_def)
  have wm: "watermark_nodes G g \<subseteq> watermark_nodes G g'" using n by (auto simp: watermark_nodes_def)
  have nodes: "a \<noteq> n \<and> b \<noteq> n" if "(b, a) \<in> pg_edges G g" for a b
    using edges_nodes[OF ok that] n(1) by (auto simp: pg_nodes_def)
  have new_down: "(n, a) \<in> (pg_edges G g')\<^sup>+" if "a \<in> earlier G g x" for a
  proof -
    from covers_earlier[OF ok ord wt kn leaf that] obtain c where
      c: "c \<in> set (children st)" "(c, a) \<in> (pg_edges G g)\<^sup>*" by blast
    have "(c, a) \<in> (pg_edges G g')\<^sup>* \<and> (a \<in> pending_nodes G g \<longrightarrow> a \<in> earlier G g x)"
      using c(2)
    proof (induction rule: rtrancl_induct)
      case base
      then show ?case using c(1) k(4) by blast
    next
      case (step y z)
      have y: "y \<in> earlier G g x" using step.IH watermark_pending[OF edge_source[OF ord step.hyps(2)]] by blast
      then have "(y, z) \<notin> removed_edges g st" using R earlier_later_disjoint[of G g x] by blast
      then have "(y, z) \<in> pg_edges G g'" using step.hyps(2) E' by blast
      moreover have "z \<in> pending_nodes G g \<longrightarrow> z \<in> earlier G g x"
        using earlier_trans[OF wt edge_before[OF ord step.hyps(2)] y] by blast
      ultimately show ?case using step.IH by auto
    qed
    moreover have "(n, c) \<in> pg_edges G g'" using c(1) E' by (simp add: inserted_edges_def)
    ultimately show ?thesis by (meson rtrancl_into_trancl2)
  qed
  have new_up: "(b, n) \<in> (pg_edges G g')\<^sup>+" if "b \<in> later G g x" for b
  proof -
    from covers_later[OF ok ord wt kn leaf that] obtain q where
      q: "q \<in> set (parents st)" "(b, q) \<in> (pg_edges G g \<inter> later G g x \<times> later G g x)\<^sup>*" by blast
    have "pg_edges G g \<inter> later G g x \<times> later G g x \<subseteq> pg_edges G g'"
      using R earlier_later_disjoint[of G g x] E' by blast
    with q(2) have "(b, q) \<in> (pg_edges G g')\<^sup>*" using rtrancl_mono by blast
    moreover have "(q, n) \<in> pg_edges G g'" using q(1) E' by (simp add: inserted_edges_def)
    ultimately show ?thesis by (meson rtrancl_into_trancl1)
  qed
  show ?thesis
    unfolding order_inv_def
  proof (intro conjI allI impI; (elim conjE)?)
    fix b a assume e: "(b, a) \<in> pg_edges G g'"
    then consider (old) "(b, a) \<in> pg_edges G g" | (down) "b = n" "a \<in> earlier G g x" | (up) "a = n" "b \<in> later G g x"
      using E' k(4,5) unfolding inserted_edges_def by blast
    then show "b \<in> watermark_nodes G g'" "before G g' a b \<or> pg_node_weight G g' a = Some None"
    proof (atomize (full), cases)
      case old
      then show "b \<in> watermark_nodes G g' \<and> (before G g' a b \<or> pg_node_weight G g' a = Some None)"
        using ord wm nodes[OF old] before_old n(2) unfolding order_inv_def by auto
    qed (use before_new n in \<open>auto simp: watermark_nodes_def later_def must_precede_def earlier_def\<close>)
  next
    fix a b assume "before G g' a b"
    then show "(b, a) \<in> (pg_edges G g')\<^sup>+"
      using new_down[of a] new_up[of b] before_new old_paths_kept[OF search E'] before_old[of a b] ord
        before_irrefl[of G g' n]
      unfolding order_inv_def by (cases "a = n"; cases "b = n") auto
  next
    fix m i y z assume "pg_node_weight G g' m = Some (Some y)" "pg_node_weight G g' i = Some (Some z)" "m \<noteq> i"
    then show "well_timed_pair y z"
      using n ord wt well_timed_pair_sym[of x] unfolding order_inv_def well_timed_def by (auto split: if_splits)
  next
    fix a b c assume bef: "before G g' a b" "before G g' b c"
    have "a \<noteq> n \<and> b \<noteq> n \<and> c \<noteq> n \<Longrightarrow> before G g' a c"
      using bef before_old before_trans[OF ord, of a b c] by auto
    moreover have "c \<noteq> a" using bef before_asym[of G g' a b] by auto
    ultimately show "before G g' a c"
      using bef before_new before_old later_trans[OF wt, of b c] earlier_trans[OF wt, of a b]
        earlier_later_before[OF wt, of a c] before_irrefl[of G g' n] by (cases "a = n"; cases "b = n"; cases "c = n") auto
  qed
qed

end

end
