(* ===== verification/Petgraph_Ref.thy ===== *)
theory Petgraph_Ref
  imports Petgraph
begin

text \<open>
  A small executable graph library that meets the laws of \<open>stable_graph\<close> and \<open>dfs_post_order\<close>:
  nodes and edges are association lists with increasing indices, and the traversal is the usual one
  with a stack and the sets of discovered and finished nodes. It shows that the laws can be met
  together, and lets the lattice be evaluated on concrete inputs.
\<close>

section \<open>The graph\<close>

record 'w ref_graph =
  rg_nodes :: "(nat \<times> 'w) list"
  rg_edges :: "(nat \<times> nat \<times> nat) list"
  rg_next_node :: nat
  rg_next_edge :: nat

definition rg_ok :: "'w ref_graph \<Rightarrow> bool" where
  "rg_ok g \<longleftrightarrow> distinct (map fst (rg_nodes g)) \<and> distinct (map fst (rg_edges g)) \<and>
     (\<forall>n \<in> fst ` set (rg_nodes g). n < rg_next_node g) \<and> (\<forall>e \<in> fst ` set (rg_edges g). e < rg_next_edge g) \<and>
     (\<forall>(e, a, b) \<in> set (rg_edges g). a \<in> fst ` set (rg_nodes g) \<and> b \<in> fst ` set (rg_nodes g))"

definition rg_new :: "'w ref_graph" where
  "rg_new = \<lparr> rg_nodes = [], rg_edges = [], rg_next_node = 0, rg_next_edge = 0 \<rparr>"

definition rg_add_node :: "'w \<Rightarrow> 'w ref_graph \<Rightarrow> 'w ref_graph \<times> nat" where
  "rg_add_node w g =
     (g \<lparr> rg_nodes := (rg_next_node g, w) # rg_nodes g, rg_next_node := Suc (rg_next_node g) \<rparr>, rg_next_node g)"

definition rg_add_edge :: "nat \<Rightarrow> nat \<Rightarrow> 'w ref_graph \<Rightarrow> 'w ref_graph \<times> nat" where
  "rg_add_edge a b g =
     (g \<lparr> rg_edges := (rg_next_edge g, a, b) # rg_edges g, rg_next_edge := Suc (rg_next_edge g) \<rparr>, rg_next_edge g)"

definition rg_remove_edge :: "nat \<Rightarrow> 'w ref_graph \<Rightarrow> 'w ref_graph \<times> unit option" where
  "rg_remove_edge e g =
     (g \<lparr> rg_edges := filter (\<lambda>x. fst x \<noteq> e) (rg_edges g) \<rparr>, map_option (\<lambda>_. ()) (map_of (rg_edges g) e))"

definition rg_remove_node :: "nat \<Rightarrow> 'w ref_graph \<Rightarrow> 'w ref_graph \<times> 'w option" where
  "rg_remove_node n g =
     (g \<lparr> rg_nodes := filter (\<lambda>x. fst x \<noteq> n) (rg_nodes g),
          rg_edges := filter (\<lambda>(e, a, b). a \<noteq> n \<and> b \<noteq> n) (rg_edges g) \<rparr>, map_of (rg_nodes g) n)"

definition rg_set_weight :: "nat \<Rightarrow> 'w \<Rightarrow> 'w ref_graph \<Rightarrow> 'w ref_graph" where
  "rg_set_weight n w g = g \<lparr> rg_nodes := map (\<lambda>(i, v). (i, if i = n then w else v)) (rg_nodes g) \<rparr>"

definition rg_find_edge :: "'w ref_graph \<Rightarrow> nat \<Rightarrow> nat \<Rightarrow> nat option" where
  "rg_find_edge g a b = map_option fst (List.find (\<lambda>(e, p). p = (a, b)) (rg_edges g))"

definition rg_incoming :: "'w ref_graph \<Rightarrow> nat \<Rightarrow> nat list" where
  "rg_incoming g n = map (\<lambda>(e, a, b). a) (filter (\<lambda>(e, a, b). b = n) (rg_edges g))"

definition rg_outgoing :: "'w ref_graph \<Rightarrow> nat \<Rightarrow> nat list" where
  "rg_outgoing g n = map (\<lambda>(e, a, b). b) (filter (\<lambda>(e, a, b). a = n) (rg_edges g))"

section \<open>The traversal\<close>

record ref_dfs =
  rd_stack :: "nat list"
  rd_disc :: "nat list"
  rd_fin :: "nat list"
  rd_base :: "nat list"
  rd_target :: "nat option"

definition rd_empty :: "'w ref_graph \<Rightarrow> ref_dfs" where
  "rd_empty g = \<lparr> rd_stack = [], rd_disc = [], rd_fin = [], rd_base = [], rd_target = None \<rparr>"

definition rd_move_to :: "nat \<Rightarrow> ref_dfs \<Rightarrow> ref_dfs" where
  "rd_move_to n d = d \<lparr> rd_stack := [n], rd_base := rd_disc d, rd_target := Some n \<rparr>"

lemma incoming_sources: "set (rg_incoming g n) \<subseteq> fst ` snd ` set (rg_edges g)"
  by (force simp: rg_incoming_def)

function rd_next :: "'w ref_graph \<Rightarrow> ref_dfs \<Rightarrow> nat option \<times> ref_dfs" where
  "rd_next g d =
     (case rd_stack d of
        [] \<Rightarrow> (None, d)
      | nx # st \<Rightarrow>
          if nx \<notin> set (rd_disc d)
          then rd_next g (d \<lparr> rd_disc := nx # rd_disc d,
                              rd_stack := filter (\<lambda>s. s \<notin> set (nx # rd_disc d)) (rg_incoming g nx) @ nx # st \<rparr>)
          else if nx \<notin> set (rd_fin d)
          then (Some nx, d \<lparr> rd_fin := nx # rd_fin d, rd_stack := st \<rparr>)
          else rd_next g (d \<lparr> rd_stack := st \<rparr>))"
  by pat_completeness auto

termination
proof (relation "(\<lambda>(g, d). card ((fst ` snd ` set (rg_edges g) \<union> set (rd_stack d)) - set (rd_disc d)))
    <*mlex*> measure (\<lambda>(g, d). length (rd_stack d))")
  show "wf ((\<lambda>(g, d). card ((fst ` snd ` set (rg_edges g) \<union> set (rd_stack d)) - set (rd_disc d)))
    <*mlex*> measure (\<lambda>(g, d). length (rd_stack d)))"
    by (intro wf_mlex) simp
next
  fix g :: "'w ref_graph" and d nx st
  assume s: "rd_stack d = nx # st" "nx \<notin> set (rd_disc d)"
  let ?d = "d \<lparr> rd_disc := nx # rd_disc d,
      rd_stack := filter (\<lambda>s. s \<notin> set (nx # rd_disc d)) (rg_incoming g nx) @ nx # st \<rparr>"
  have "(fst ` snd ` set (rg_edges g) \<union> set (rd_stack ?d)) - set (rd_disc ?d) \<subset>
        (fst ` snd ` set (rg_edges g) \<union> set (rd_stack d)) - set (rd_disc d)"
    using s incoming_sources[of g nx] by auto
  then have "card ((fst ` snd ` set (rg_edges g) \<union> set (rd_stack ?d)) - set (rd_disc ?d)) <
        card ((fst ` snd ` set (rg_edges g) \<union> set (rd_stack d)) - set (rd_disc d))"
    by (rule psubset_card_mono[rotated]) simp
  then show "((g, ?d), (g, d)) \<in> (\<lambda>(g, d). card ((fst ` snd ` set (rg_edges g) \<union> set (rd_stack d)) - set (rd_disc d)))
    <*mlex*> measure (\<lambda>(g, d). length (rd_stack d))"
    by (intro mlex_less) (simp only: prod.case)
next
  fix g :: "'w ref_graph" and d nx st
  assume s: "rd_stack d = nx # st" "\<not> nx \<notin> set (rd_disc d)" "\<not> nx \<notin> set (rd_fin d)"
  have "((fst ` snd ` set (rg_edges g) \<union> set st) - set (rd_disc d)) =
        ((fst ` snd ` set (rg_edges g) \<union> set (rd_stack d)) - set (rd_disc d))"
    using s by auto
  then show "((g, d \<lparr> rd_stack := st \<rparr>), (g, d)) \<in>
    (\<lambda>(g, d). card ((fst ` snd ` set (rg_edges g) \<union> set (rd_stack d)) - set (rd_disc d)))
    <*mlex*> measure (\<lambda>(g, d). length (rd_stack d))"
    using s by (intro mlex_leq) auto
qed

declare rd_next.simps [simp del]

definition ref_petgraph :: "('w ref_graph, ref_dfs, 'w) petgraph" where
  "ref_petgraph =
     \<lparr> pg_new = rg_new, pg_add_node = rg_add_node, pg_add_edge = rg_add_edge, pg_remove_edge = rg_remove_edge,
       pg_remove_node = rg_remove_node, pg_find_edge = rg_find_edge, pg_incoming = rg_incoming,
       pg_outgoing = rg_outgoing, pg_node_weight = (\<lambda>g. map_of (rg_nodes g)), pg_set_weight = rg_set_weight,
       pg_edge_endpoints = (\<lambda>g. map_of (rg_edges g)), dfs_empty = rd_empty, dfs_move_to = rd_move_to,
       dfs_next = rd_next \<rparr>"

section \<open>The laws of the graph\<close>

lemma map_of_filter_key: "map_of (filter (\<lambda>x. fst x \<noteq> k) xs) = (map_of xs)(k := None)"
  by (induction xs) (auto simp: fun_eq_iff)

lemma map_of_filter_value:
  "distinct (map fst xs) \<Longrightarrow>
     map_of (filter (\<lambda>(k, v). P v) xs) k = (case map_of xs k of None \<Rightarrow> None | Some v \<Rightarrow> if P v then Some v else None)"
  by (induction xs) (auto simp: map_of_eq_None_iff image_iff split: option.splits)

lemma map_of_map_upd: "map_of (map (\<lambda>(i, v). (i, if i = n then w else v)) xs) =
    (if n \<in> fst ` set xs then (map_of xs)(n \<mapsto> w) else map_of xs)"
  by (induction xs) (auto simp: fun_eq_iff)

lemma next_fresh:
  assumes "rg_ok g"
  shows "rg_next_node g \<notin> fst ` set (rg_nodes g)" "rg_next_edge g \<notin> fst ` set (rg_edges g)"
  using assms by (auto simp: rg_ok_def)

lemma rg_ok_add_node: "rg_ok g \<Longrightarrow> rg_ok (fst (rg_add_node w g))"
  using next_fresh(1)[of g] by (auto simp: rg_ok_def rg_add_node_def intro: less_SucI)

lemma rg_ok_add_edge:
  "rg_ok g \<Longrightarrow> a \<in> fst ` set (rg_nodes g) \<Longrightarrow> b \<in> fst ` set (rg_nodes g) \<Longrightarrow> rg_ok (fst (rg_add_edge a b g))"
  using next_fresh(2)[of g] by (auto simp: rg_ok_def rg_add_edge_def intro: less_SucI)

lemma rg_ok_remove_edge: "rg_ok g \<Longrightarrow> rg_ok (fst (rg_remove_edge e g))"
  unfolding rg_ok_def rg_remove_edge_def by (simp add: distinct_map_filter)

interpretation ref_stable: stable_graph "ref_petgraph :: ('w ref_graph, ref_dfs, 'w) petgraph" rg_ok
proof
  fix g g' :: "'w ref_graph" and w :: 'w and w' n e a b and r :: "unit option"
  show "rg_ok (pg_new ref_petgraph :: 'w ref_graph)"
    "pg_node_weight ref_petgraph (pg_new ref_petgraph :: 'w ref_graph) n = None"
    "pg_edge_endpoints ref_petgraph (pg_new ref_petgraph :: 'w ref_graph) e = None"
    by (simp_all add: ref_petgraph_def rg_new_def rg_ok_def)
  assume ok: "rg_ok g"
  show "finite (dom (pg_node_weight ref_petgraph g))" by (simp add: ref_petgraph_def finite_dom_map_of)
  show "pg_edge_endpoints ref_petgraph g e = Some (a, b) \<Longrightarrow>
      pg_node_weight ref_petgraph g a \<noteq> None \<and> pg_node_weight ref_petgraph g b \<noteq> None"
    using ok by (fastforce simp: ref_petgraph_def rg_ok_def map_of_eq_None_iff dest!: map_of_SomeD)
  show "pg_add_node ref_petgraph w g = (g', n) \<Longrightarrow>
      rg_ok g' \<and> pg_node_weight ref_petgraph g n = None \<and>
      pg_node_weight ref_petgraph g' = (pg_node_weight ref_petgraph g)(n \<mapsto> w) \<and>
      pg_edge_endpoints ref_petgraph g' = pg_edge_endpoints ref_petgraph g"
    using next_fresh(1)[OF ok] rg_ok_add_node[OF ok] by (auto simp: ref_petgraph_def rg_add_node_def map_of_eq_None_iff)
  show "pg_node_weight ref_petgraph g a \<noteq> None \<Longrightarrow> pg_node_weight ref_petgraph g b \<noteq> None \<Longrightarrow>
      pg_add_edge ref_petgraph a b g = (g', e) \<Longrightarrow>
      rg_ok g' \<and> pg_node_weight ref_petgraph g' = pg_node_weight ref_petgraph g \<and>
      pg_edge_endpoints ref_petgraph g e = None \<and>
      pg_edge_endpoints ref_petgraph g' = (pg_edge_endpoints ref_petgraph g)(e \<mapsto> (a, b))"
    using next_fresh(2)[OF ok] rg_ok_add_edge[OF ok, of a b]
    by (auto simp: ref_petgraph_def rg_add_edge_def map_of_eq_None_iff)
  show "pg_remove_edge ref_petgraph e g = (g', r) \<Longrightarrow>
      rg_ok g' \<and> pg_node_weight ref_petgraph g' = pg_node_weight ref_petgraph g \<and>
      pg_edge_endpoints ref_petgraph g' = (pg_edge_endpoints ref_petgraph g)(e := None) \<and>
      r = map_option (\<lambda>_. ()) (pg_edge_endpoints ref_petgraph g e)"
    using rg_ok_remove_edge[OF ok, of e] by (auto simp: ref_petgraph_def rg_remove_edge_def map_of_filter_key)
  show "pg_remove_node ref_petgraph n g = (g', w') \<Longrightarrow>
      rg_ok g' \<and> pg_node_weight ref_petgraph g' = (pg_node_weight ref_petgraph g)(n := None) \<and>
      pg_edge_endpoints ref_petgraph g' = (\<lambda>e. case pg_edge_endpoints ref_petgraph g e of None \<Rightarrow> None
        | Some (a, b) \<Rightarrow> if a = n \<or> b = n then None else Some (a, b))"
  proof -
    assume r: "pg_remove_node ref_petgraph n g = (g', w')"
    have eq: "(\<lambda>(e, a, b). a \<noteq> n \<and> b \<noteq> n) = (\<lambda>(e, p). fst p \<noteq> n \<and> snd p \<noteq> (n::nat))" by auto
    have "rg_ok g'"
      using r ok by (fastforce simp: ref_petgraph_def rg_remove_node_def rg_ok_def distinct_map_filter)
    moreover have g': "rg_edges g' = filter (\<lambda>(e, p). fst p \<noteq> n \<and> snd p \<noteq> n) (rg_edges g)"
      using r by (auto simp: ref_petgraph_def rg_remove_node_def eq)
    moreover have dist: "distinct (map fst (rg_edges g))" using ok by (simp add: rg_ok_def)
    have "map_of (rg_edges g') e = (case map_of (rg_edges g) e of None \<Rightarrow> None
        | Some (a, b) \<Rightarrow> if a = n \<or> b = n then None else Some (a, b))" for e
      unfolding g' map_of_filter_value[OF dist] by (cases "map_of (rg_edges g) e") auto
    ultimately show ?thesis using r by (auto simp: ref_petgraph_def rg_remove_node_def map_of_filter_key)
  qed
  show "pg_node_weight ref_petgraph g n \<noteq> None \<Longrightarrow>
      rg_ok (pg_set_weight ref_petgraph n w g) \<and>
      pg_node_weight ref_petgraph (pg_set_weight ref_petgraph n w g) = (pg_node_weight ref_petgraph g)(n \<mapsto> w) \<and>
      pg_edge_endpoints ref_petgraph (pg_set_weight ref_petgraph n w g) = pg_edge_endpoints ref_petgraph g"
    using ok by (auto simp: ref_petgraph_def rg_set_weight_def rg_ok_def map_of_map_upd map_of_eq_None_iff
        comp_def split_beta image_image)
  show "pg_find_edge ref_petgraph g a b = Some e \<Longrightarrow> pg_edge_endpoints ref_petgraph g e = Some (a, b)"
    using ok by (auto simp: ref_petgraph_def rg_find_edge_def rg_ok_def find_Some_iff) (metis nth_mem)
  show "pg_find_edge ref_petgraph g a b = None \<Longrightarrow> pg_edge_endpoints ref_petgraph g e \<noteq> Some (a, b)"
    by (auto simp: ref_petgraph_def rg_find_edge_def find_None_iff dest: map_of_SomeD)
  show "\<exists>es. distinct es \<and> set es = {e. \<exists>a. pg_edge_endpoints ref_petgraph g e = Some (a, n)} \<and>
      map (\<lambda>e. fst (the (pg_edge_endpoints ref_petgraph g e))) es = pg_incoming ref_petgraph g n"
    using ok
    by (intro exI[of _ "map fst (filter (\<lambda>(e, a, b). b = n) (rg_edges g))"])
       (force simp: ref_petgraph_def rg_incoming_def rg_ok_def distinct_map_filter image_iff)
  show "\<exists>es. distinct es \<and> set es = {e. \<exists>b. pg_edge_endpoints ref_petgraph g e = Some (n, b)} \<and>
      map (\<lambda>e. snd (the (pg_edge_endpoints ref_petgraph g e))) es = pg_outgoing ref_petgraph g n"
    using ok
    by (intro exI[of _ "map fst (filter (\<lambda>(e, a, b). a = n) (rg_edges g))"])
       (force simp: ref_petgraph_def rg_outgoing_def rg_ok_def distinct_map_filter image_iff)
qed

section \<open>The laws of the traversal\<close>

definition rd_opened :: "ref_dfs \<Rightarrow> nat set" where
  "rd_opened d = set (rd_disc d) - set (rd_fin d) - set (rd_base d)"

abbreviation rg_rel :: "'w ref_graph \<Rightarrow> (nat \<times> nat) set" where
  "rg_rel g \<equiv> snd ` set (rg_edges g)"

text \<open>
  The shape of the stack: what lies above the first occurrence of an opened node depends on it, and
  the nodes that depend directly on an opened node are discovered or lie above it.
\<close>

definition rd_valid :: "'w ref_graph \<Rightarrow> ref_dfs \<Rightarrow> bool" where
  "rd_valid g d \<longleftrightarrow>
     set (rd_fin d) \<subseteq> set (rd_disc d) \<and> set (rd_base d) \<subseteq> set (rd_disc d) \<and>
     set (rd_stack d) \<inter> set (rd_base d) = {} \<and> rd_opened d \<subseteq> set (rd_stack d) \<and>
     set (rd_stack d) \<subseteq> fst ` set (rg_nodes g) \<and>
     (\<forall>u \<in> set (rd_stack d). rd_target d = Some u \<or> u \<in> fst ` rg_rel g) \<and>
     (\<forall>n. rd_target d = Some n \<longrightarrow> n \<notin> set (rd_base d) \<and> (n \<in> set (rd_disc d) \<or> rd_stack d = [n])) \<and>
     (\<forall>xs z ys. rd_stack d = xs @ z # ys \<and> z \<in> rd_opened d \<and> z \<notin> set xs \<longrightarrow>
        (\<forall>x \<in> set xs. (x, z) \<in> (rg_rel g)\<^sup>*) \<and>
        (\<forall>u. (u, z) \<in> rg_rel g \<longrightarrow> u \<in> set (rd_disc d) \<or> u \<in> set xs))"

lemma set_rg_incoming: "set (rg_incoming g n) = {u. (u, n) \<in> rg_rel g}"
  by (force simp: rg_incoming_def)

lemma rg_rel_nodes: "rg_ok g \<Longrightarrow> (u, n) \<in> rg_rel g \<Longrightarrow> u \<in> fst ` set (rg_nodes g)"
  by (fastforce simp: rg_ok_def)

lemma first_occurrence: "z \<notin> set xs \<Longrightarrow> z \<notin> set as \<Longrightarrow> xs @ z # ys = as @ z # bs \<Longrightarrow> xs = as"
  by (induction xs arbitrary: as) (auto simp: Cons_eq_append_conv)

lemma split_after:
  "as @ b # bs = xs @ z # ys \<Longrightarrow> z \<notin> set as \<Longrightarrow> z \<noteq> b \<Longrightarrow> \<exists>xs'. xs = as @ b # xs' \<and> bs = xs' @ z # ys"
  by (induction as arbitrary: xs) (auto simp: Cons_eq_append_conv)

text \<open>Entering a node.\<close>

lemma rd_valid_discover:
  assumes ok: "rg_ok g" and v: "rd_valid g d" and s: "rd_stack d = nx # st" "nx \<notin> set (rd_disc d)"
    and d': "d' = d \<lparr> rd_disc := nx # rd_disc d,
        rd_stack := filter (\<lambda>s. s \<notin> set (nx # rd_disc d)) (rg_incoming g nx) @ nx # st \<rparr>"
  shows "rd_valid g d'"
proof -
  let ?new = "filter (\<lambda>s. s \<notin> set (nx # rd_disc d)) (rg_incoming g nx)"
  have new: "\<And>u. u \<in> set ?new \<longleftrightarrow> (u, nx) \<in> rg_rel g \<and> u \<noteq> nx \<and> u \<notin> set (rd_disc d)"
    using set_rg_incoming[of g nx] by auto
  have op: "rd_opened d' = insert nx (rd_opened d)"
    using v s unfolding rd_opened_def rd_valid_def d' by auto
  have stack: "(\<forall>x \<in> set xs. (x, z) \<in> (rg_rel g)\<^sup>*) \<and> (\<forall>u. (u, z) \<in> rg_rel g \<longrightarrow> u \<in> set (rd_disc d') \<or> u \<in> set xs)"
    if split: "rd_stack d' = xs @ z # ys" and z: "z \<in> rd_opened d'" "z \<notin> set xs" for xs z ys
  proof (cases "z = nx")
    case True
    have "xs = ?new"
      by (rule first_occurrence[of nx _ _ ys st]) (use split z(2) new[of nx] in \<open>auto simp: d' True\<close>)
    then show ?thesis unfolding True using new d' by auto
  next
    case False
    then have zo: "z \<in> rd_opened d" using z(1) op by simp
    then have "z \<notin> set ?new" unfolding rd_opened_def by auto
    moreover have "?new @ nx # st = xs @ z # ys" using split d' by simp
    ultimately obtain xs' where "xs = ?new @ nx # xs'" "st = xs' @ z # ys"
      using split_after[OF _ _ False] by blast
    then have xs': "xs = ?new @ nx # xs'" "rd_stack d = (nx # xs') @ z # ys" using s(1) by auto
    have old: "\<forall>x \<in> set (nx # xs'). (x, z) \<in> (rg_rel g)\<^sup>*"
      "\<forall>u. (u, z) \<in> rg_rel g \<longrightarrow> u \<in> set (rd_disc d) \<or> u \<in> set (nx # xs')"
      using v zo z(2) xs' unfolding rd_valid_def by (metis Un_iff set_append)+
    moreover have "(x, z) \<in> (rg_rel g)\<^sup>*" if "x \<in> set ?new" for x
      using new[THEN iffD1, OF that] old(1) by (meson converse_rtrancl_into_rtrancl list.set_intros(1))
    ultimately show ?thesis using xs' d' by auto
  qed
  have basic: "set (rd_fin d) \<subseteq> set (rd_disc d)" "set (rd_base d) \<subseteq> set (rd_disc d)"
    "set (rd_stack d) \<inter> set (rd_base d) = {}" "rd_opened d \<subseteq> set (rd_stack d)"
    "set (rd_stack d) \<subseteq> fst ` set (rg_nodes g)"
    "\<forall>u \<in> set (rd_stack d). rd_target d = Some u \<or> u \<in> fst ` rg_rel g"
    "\<forall>n. rd_target d = Some n \<longrightarrow> n \<notin> set (rd_base d) \<and> (n \<in> set (rd_disc d) \<or> rd_stack d = [n])"
    using v unfolding rd_valid_def by blast+
  have stack': "set (rd_stack d') = set ?new \<union> set (rd_stack d)" unfolding d' s(1) by simp
  show ?thesis
    unfolding rd_valid_def
  proof (intro conjI)
    show "set (rd_fin d') \<subseteq> set (rd_disc d')" "set (rd_base d') \<subseteq> set (rd_disc d')" using basic(1,2) d' by auto
    show "set (rd_stack d') \<inter> set (rd_base d') = {}" "rd_opened d' \<subseteq> set (rd_stack d')"
      unfolding stack' op using basic(2-4) s(1) d' by auto
    show "set (rd_stack d') \<subseteq> fst ` set (rg_nodes g)"
      unfolding stack' using basic(5) new rg_rel_nodes[OF ok] by blast
    show "\<forall>u \<in> set (rd_stack d'). rd_target d' = Some u \<or> u \<in> fst ` rg_rel g"
      unfolding stack' using basic(6) new d' by (metis (no_types, lifting) Un_iff fst_conv image_eqI ref_dfs.select_convs(5) ref_dfs.surjective ref_dfs.update_convs(1,2))
    show "\<forall>n. rd_target d' = Some n \<longrightarrow> n \<notin> set (rd_base d') \<and> (n \<in> set (rd_disc d') \<or> rd_stack d' = [n])"
      using basic(7) s d' by auto
  qed (use stack in blast)
qed

text \<open>Popping the top of the stack, as long as it is not an opened node afterwards.\<close>

lemma rd_valid_pop:
  assumes v: "rd_valid g d" and s: "rd_stack d = nx # st" "nx \<in> set (rd_disc d)"
    and d': "rd_stack d' = st" "rd_disc d' = rd_disc d" "rd_base d' = rd_base d" "rd_target d' = rd_target d"
      "set (rd_fin d') = insert nx (set (rd_fin d))"
  shows "rd_valid g d'"
proof -
  have op: "rd_opened d' = rd_opened d - {nx}" using d' by (auto simp: rd_opened_def)
  have "(\<forall>x \<in> set xs. (x, z) \<in> (rg_rel g)\<^sup>*) \<and> (\<forall>u. (u, z) \<in> rg_rel g \<longrightarrow> u \<in> set (rd_disc d') \<or> u \<in> set xs)"
    if "rd_stack d' = xs @ z # ys" "z \<in> rd_opened d'" "z \<notin> set xs" for xs z ys
  proof -
    have "rd_stack d = (nx # xs) @ z # ys" "z \<in> rd_opened d" "z \<notin> set (nx # xs)"
      using that s(1) d'(1) op by auto
    then have "\<forall>x \<in> set (nx # xs). (x, z) \<in> (rg_rel g)\<^sup>*"
      "\<forall>u. (u, z) \<in> rg_rel g \<longrightarrow> u \<in> set (rd_disc d) \<or> u \<in> set (nx # xs)"
      using v unfolding rd_valid_def by blast+
    then show ?thesis using s(2) d'(2) by auto
  qed
  then show ?thesis using v s d' op unfolding rd_valid_def by auto
qed

lemma rd_next_spec:
  assumes "rg_ok g" "rd_valid g d" "rd_next g d = (r, d')"
  shows "rd_valid g d' \<and> rd_target d' = rd_target d \<and> rd_base d' = rd_base d \<and>
    set (rd_disc d) \<subseteq> set (rd_disc d') \<and> (rd_stack d \<noteq> [] \<longrightarrow> hd (rd_stack d) \<in> set (rd_disc d')) \<and>
    (\<forall>u \<in> set (rd_disc d') - set (rd_disc d). rd_target d = Some u \<or> u \<in> fst ` rg_rel g) \<and>
    (case r of
       None \<Rightarrow> rd_stack d' = [] \<and> set (rd_fin d') = set (rd_fin d)
     | Some v \<Rightarrow> v \<in> fst ` set (rg_nodes g) \<and> v \<in> set (rd_disc d') \<and> v \<notin> set (rd_fin d) \<and>
         set (rd_fin d') = insert v (set (rd_fin d)) \<and>
         (\<forall>u. (u, v) \<in> rg_rel g \<longrightarrow> u \<in> set (rd_disc d')) \<and> (\<forall>z \<in> rd_opened d'. (v, z) \<in> (rg_rel g)\<^sup>*))"
  using assms
proof (induction g d arbitrary: r d' rule: rd_next.induct)
  case (1 g d)
  show ?case
  proof (cases "rd_stack d")
    case Nil
    then show ?thesis using 1(4,5) by (auto simp: rd_next.simps[of g d])
  next
    case (Cons nx st)
    let ?d1 = "d \<lparr> rd_disc := nx # rd_disc d,
        rd_stack := filter (\<lambda>s. s \<notin> set (nx # rd_disc d)) (rg_incoming g nx) @ nx # st \<rparr>"
    show ?thesis
    proof (cases "nx \<in> set (rd_disc d)")
      case False
      have nxt: "rd_next g ?d1 = (r, d')" using 1(5) Cons False by (simp add: rd_next.simps[of g d])
      have tgt: "rd_target d = Some nx \<or> nx \<in> fst ` rg_rel g" using 1(4) Cons by (simp add: rd_valid_def)
      show ?thesis
        using 1(1)[OF Cons _ 1(3) rd_valid_discover[OF 1(3,4) Cons False refl] nxt] False tgt Cons by (cases r) auto
    next
      case True
      show ?thesis
      proof (cases "nx \<in> set (rd_fin d)")
        case fin: True
        have nxt: "rd_next g (d \<lparr> rd_stack := st \<rparr>) = (r, d')"
          using 1(5) Cons True fin by (simp add: rd_next.simps[of g d])
        have "rd_valid g (d \<lparr> rd_stack := st \<rparr>)" by (rule rd_valid_pop[OF 1(4) Cons True]) (use fin in auto)
        then show ?thesis using 1(2)[OF Cons _ _ 1(3) _ nxt] True fin Cons by (cases r) auto
      next
        case False
        then have r: "r = Some nx" "d' = d \<lparr> rd_fin := nx # rd_fin d, rd_stack := st \<rparr>"
          using 1(5) Cons True by (auto simp: rd_next.simps[of g d])
        have "rd_valid g d'" by (rule rd_valid_pop[OF 1(4) Cons True]) (use r in auto)
        moreover have nx: "nx \<in> rd_opened d" using 1(4) Cons True False by (auto simp: rd_valid_def rd_opened_def)
        then have "\<forall>u. (u, nx) \<in> rg_rel g \<longrightarrow> u \<in> set (rd_disc d)"
          using 1(4) Cons unfolding rd_valid_def by (metis append_Nil empty_iff empty_set)
        moreover have "(nx, z) \<in> (rg_rel g)\<^sup>*" if "z \<in> rd_opened d'" for z
        proof -
          have z: "z \<in> rd_opened d" "z \<noteq> nx" using that r(2) by (auto simp: rd_opened_def)
          then have "z \<in> set st" using 1(4) Cons by (auto simp: rd_valid_def)
          then obtain xs ys where "st = xs @ z # ys" "z \<notin> set xs" by (metis split_list_first)
          then have "rd_stack d = (nx # xs) @ z # ys" "z \<notin> set (nx # xs)" using Cons z(2) by auto
          then show ?thesis using 1(4) z(1) unfolding rd_valid_def by (meson list.set_intros(1))
        qed
        moreover have "nx \<in> fst ` set (rg_nodes g)" using 1(4) Cons by (auto simp: rd_valid_def)
        ultimately show ?thesis using r True False Cons by auto
      qed
    qed
  qed
qed

lemma ref_edges: "rg_ok g \<Longrightarrow> pg_edges ref_petgraph g = rg_rel g"
  by (force simp: pg_edges_def ref_petgraph_def rg_ok_def ran_def)

lemma ref_nodes: "pg_nodes ref_petgraph g = fst ` set (rg_nodes g)"
  by (simp add: pg_nodes_def ref_petgraph_def dom_map_of_conv_image_fst)

interpretation ref_dfs: dfs_post_order "ref_petgraph :: ('w ref_graph, ref_dfs, 'w) petgraph" rg_ok rd_valid
  "\<lambda>d. set (rd_disc d)" "\<lambda>d. set (rd_fin d)" rd_opened rd_target
proof
  fix g :: "'w ref_graph" and d d' n v
  assume ok: "rg_ok g"
  show "rd_valid g (dfs_empty ref_petgraph g) \<and> set (rd_disc (dfs_empty ref_petgraph g)) = {} \<and>
      set (rd_fin (dfs_empty ref_petgraph g)) = {} \<and> rd_opened (dfs_empty ref_petgraph g) = {} \<and>
      rd_target (dfs_empty ref_petgraph g) = None"
    by (simp add: ref_petgraph_def rd_empty_def rd_valid_def rd_opened_def)
  assume v: "rd_valid g d"
  show "n \<in> pg_nodes ref_petgraph g \<Longrightarrow> n \<notin> set (rd_disc d) \<Longrightarrow>
      rd_valid g (dfs_move_to ref_petgraph n d) \<and> set (rd_disc (dfs_move_to ref_petgraph n d)) = set (rd_disc d) \<and>
      set (rd_fin (dfs_move_to ref_petgraph n d)) = set (rd_fin d) \<and> rd_opened (dfs_move_to ref_petgraph n d) = {} \<and>
      rd_target (dfs_move_to ref_petgraph n d) = Some n"
    using v unfolding ref_nodes
    by (auto simp: ref_petgraph_def rd_move_to_def rd_valid_def rd_opened_def Cons_eq_append_conv)
  show "rd_valid g d' \<and> v \<in> pg_nodes ref_petgraph g \<and> v \<notin> set (rd_fin d) \<and> v \<in> set (rd_disc d') \<and>
      set (rd_fin d') = insert v (set (rd_fin d)) \<and> rd_target d' = rd_target d \<and>
      set (rd_disc d) \<subseteq> set (rd_disc d') \<and> set (rd_disc d') \<subseteq> set (rd_disc d) \<union> rd_opened d' \<union> {v} \<and>
      (\<forall>u. (u, v) \<in> pg_edges ref_petgraph g \<longrightarrow> u \<in> set (rd_disc d')) \<and>
      (\<forall>u \<in> set (rd_disc d') - set (rd_disc d). Some u = rd_target d \<or> (\<exists>x. (u, x) \<in> pg_edges ref_petgraph g)) \<and>
      (\<forall>z \<in> rd_opened d'. z \<in> set (rd_disc d') \<and> z \<notin> set (rd_fin d') \<and> (v, z) \<in> (pg_edges ref_petgraph g)\<^sup>*) \<and>
      rd_opened d - {v} \<subseteq> rd_opened d' \<and> (\<forall>n. rd_target d = Some n \<longrightarrow> n \<in> set (rd_disc d'))"
    if nxt: "dfs_next ref_petgraph g d = (Some v, d')"
  proof -
    have nxt': "rd_next g d = (Some v, d')" using nxt by (simp add: ref_petgraph_def)
    note sp = rd_next_spec[OF ok v nxt', simplified]
    have base: "set (rd_base d) \<subseteq> set (rd_disc d)" "set (rd_fin d) \<subseteq> set (rd_disc d)" using v by (auto simp: rd_valid_def)
    have tgt: "n \<in> set (rd_disc d')" if "rd_target d = Some n" for n
      using v that sp unfolding rd_valid_def by (metis list.distinct(1) list.sel(1) subsetD)
    have sub: "set (rd_disc d') \<subseteq> set (rd_disc d) \<union> rd_opened d' \<union> {v}" "rd_opened d - {v} \<subseteq> rd_opened d'"
      using sp base by (auto simp: rd_opened_def)
    have new: "\<forall>u \<in> set (rd_disc d') - set (rd_disc d). Some u = rd_target d \<or> (\<exists>x. (u, x) \<in> rg_rel g)"
    proof
      fix u assume "u \<in> set (rd_disc d') - set (rd_disc d)"
      with sp have "rd_target d = Some u \<or> u \<in> fst ` rg_rel g" by blast
      then show "Some u = rd_target d \<or> (\<exists>x. (u, x) \<in> rg_rel g)" by (force simp: image_iff)
    qed
    have op: "\<forall>z \<in> rd_opened d'. z \<in> set (rd_disc d') \<and> z \<notin> set (rd_fin d') \<and> (v, z) \<in> (rg_rel g)\<^sup>*"
      using sp by (simp add: rd_opened_def)
    show ?thesis
      unfolding ref_edges[OF ok] ref_nodes
      by (intro conjI; (rule sub new op)?) (use sp tgt in simp_all)
  qed
  show "dfs_next ref_petgraph g d = (None, d') \<Longrightarrow>
      rd_valid g d' \<and> set (rd_disc d') = set (rd_disc d) \<and> set (rd_fin d') = set (rd_fin d) \<and> rd_opened d = {} \<and>
      rd_opened d' = {} \<and> rd_target d' = rd_target d \<and>
      (\<forall>n. rd_target d = Some n \<longrightarrow> n \<in> set (rd_fin d) \<and> n \<in> set (rd_disc d))"
  proof -
    assume "dfs_next ref_petgraph g d = (None, d')"
    then have "rd_next g d = (None, d')" by (simp add: ref_petgraph_def)
    note sp = rd_next_spec[OF ok v this, simplified]
    have base: "set (rd_base d) \<subseteq> set (rd_disc d)" "set (rd_fin d) \<subseteq> set (rd_disc d)" using v by (auto simp: rd_valid_def)
    have op: "rd_opened d' = {}" using sp by (auto simp: rd_valid_def)
    then have disc: "set (rd_disc d') = set (rd_disc d)" using sp base by (auto simp: rd_opened_def)
    then have "rd_opened d = rd_opened d'" using sp by (simp add: rd_opened_def)
    moreover have "n \<in> set (rd_disc d) \<and> n \<in> set (rd_fin d)" if "rd_target d = Some n" for n
    proof -
      have "n \<in> set (rd_disc d')" "n \<notin> set (rd_base d')" using sp that by (auto simp: rd_valid_def)
      with op disc sp show ?thesis by (auto simp: rd_opened_def)
    qed
    ultimately show ?thesis using sp op disc by blast
  qed
qed

end
