(* ===== verification/Lattice_Properties.thy ===== *)
theory Lattice_Properties
  imports Lattice_Order Petgraph_Ref
begin

text \<open>
  The execution lattice as a state machine, and its main properties. For events whose comparisons
  do not panic: no operation panics, the run queue is exact, and an event that is already running is
  not waited for by events added later. For events that are also \<^verbatim>\<open>well_timed\<close> (pending messages do
  not conflict, pending watermark events with one timestamp are linearly ordered): events are
  handed out in an order that respects timestamps, a watermark waits for the completion of the
  events before it, and the lattice is never stuck. Two runs show that both halves of the condition
  are needed.
\<close>

section \<open>Steps\<close>

text \<open>The operations that the executors perform; the argument \<open>adm\<close> says which events may be
  added in which graph.\<close>

datatype 'cb lattice_label = Added "'cb OperatorEvent" | HandedOut nat "'cb OperatorEvent" | Idle | Completed nat

inductive lattice_step ::
    "('g, 'd, 'cb) lattice_graph \<Rightarrow> ('g \<Rightarrow> 'cb OperatorEvent \<Rightarrow> bool) \<Rightarrow> 'g ExecutionLattice \<Rightarrow>
     'cb lattice_label \<Rightarrow> 'g ExecutionLattice \<Rightarrow> bool"
  for G adm where
  step_add: "adm (forest l) x \<Longrightarrow> add_event G x l = Some l' \<Longrightarrow> lattice_step G adm l (Added x) l'"
| step_get: "get_event G l = Some (l', Some (e, n)) \<Longrightarrow> lattice_step G adm l (HandedOut n e) l'"
| step_idle: "get_event G l = Some (l', None) \<Longrightarrow> lattice_step G adm l Idle l'"
| step_done: "pg_node_weight G (forest l) i = Some None \<Longrightarrow> mark_as_completed G i l = Some l' \<Longrightarrow>
    lattice_step G adm l (Completed i) l'"

inductive_cases step_cases: "lattice_step G adm l lab l'"

inductive lattice_trace ::
    "('g, 'd, 'cb) lattice_graph \<Rightarrow> ('g \<Rightarrow> 'cb OperatorEvent \<Rightarrow> bool) \<Rightarrow> 'g ExecutionLattice \<Rightarrow>
     'cb lattice_label list \<Rightarrow> 'g ExecutionLattice \<Rightarrow> bool"
  for G adm where
  trace_nil: "lattice_trace G adm l [] l"
| trace_cons: "lattice_step G adm l lab l1 \<Longrightarrow> lattice_trace G adm l1 labs l2 \<Longrightarrow>
    lattice_trace G adm l (lab # labs) l2"

text \<open>The states that the lattice can be in.\<close>

definition lattice_reachable ::
    "('g, 'd, 'cb) lattice_graph \<Rightarrow> ('g \<Rightarrow> 'cb OperatorEvent \<Rightarrow> bool) \<Rightarrow> 'g ExecutionLattice \<Rightarrow> bool" where
  "lattice_reachable G adm l \<longleftrightarrow> (\<exists>labs. lattice_trace G adm (lattice_new G) labs l)"

lemma lattice_new_inv: "stable_graph G ok \<Longrightarrow> lattice_inv G ok (lattice_new G)"
proof -
  assume g: "stable_graph G ok"
  have "ok (pg_new G)" "pg_node_weight G (pg_new G) = Map.empty" "pg_edge_endpoints G (pg_new G) = Map.empty"
    using stable_graph.new_ok[OF g] stable_graph.new_nodes[OF g] stable_graph.new_edges[OF g] by auto
  then show ?thesis
    by (auto simp: lattice_inv_def lattice_new_def pg_simple_def leaf_nodes_def pg_nodes_def pending_nodes_def)
qed

context lattice_library
begin

lemma step_inv:
  assumes "lattice_step G adm l lab l'" "lattice_inv G ok l" "\<And>g x. adm g x \<Longrightarrow> comparable G g x"
  shows "lattice_inv G ok l'"
  using assms(1)
proof (cases rule: lattice_step.cases)
  case (step_add x)
  then show ?thesis using add_event_inv[OF assms(2), of x] assms(3) by auto
next
  case (step_get e n)
  then show ?thesis using get_event_inv[OF assms(2)] by (cases "run_queue l = []") auto
next
  case step_idle
  then show ?thesis using get_event_inv[OF assms(2)] assms(2) by (cases "run_queue l = []") auto
next
  case (step_done i)
  then show ?thesis using mark_as_completed_inv[OF assms(2), of i] by auto
qed

lemma trace_inv:
  assumes "lattice_trace G adm l labs l'" "lattice_inv G ok l" "\<And>g x. adm g x \<Longrightarrow> comparable G g x"
  shows "lattice_inv G ok l'"
  using assms by (induction rule: lattice_trace.induct) (auto dest: step_inv)

lemma reachable_inv:
  "lattice_reachable G adm l \<Longrightarrow> (\<And>g x. adm g x \<Longrightarrow> comparable G g x) \<Longrightarrow> lattice_inv G ok l"
  using trace_inv[OF _ lattice_new_inv[OF stable_graph_axioms]] unfolding lattice_reachable_def by blast

lemma add_event_order:
  assumes inv: "lattice_inv G ok l" and ord: "order_inv G (forest l)" and wt: "well_timed G (forest l) x"
    and add: "add_event G x l = Some l'"
  shows "order_inv G (forest l') \<and> (\<forall>p \<in> (pg_edges G (forest l))\<^sup>+. p \<in> (pg_edges G (forest l'))\<^sup>+)"
proof -
  have ok: "ok (forest l)" using inv by (simp add: lattice_inv_def)
  from search_knows[OF inv ord wt] obtain st where
    st: "dfs_leaves G (forest l) (run_queue l) x (leaves l) (search_init G (forest l)) = Some st"
      "knows (forest l) x {} st" "search_inv G (forest l) (finished (dfs_from_leaf st)) st"
      "leaf_nodes G (forest l) \<subseteq> discovered (dfs_from_leaf st)" by blast
  from insert_event_inv[OF inv st(3), of x] obtain n where
    n: "pg_node_weight G (forest l) n = None" "pg_node_weight G (forest l') = (pg_node_weight G (forest l))(n \<mapsto> Some x)"
      "pg_edges G (forest l') = (pg_edges G (forest l) - removed_edges (forest l) st) \<union> inserted_edges n st"
    using add st(1) by (auto simp: add_event_def)
  show ?thesis
    using order_inv_insert[OF ok ord wt st(2,3,4) n] old_paths_kept[OF st(3) n(3)] by auto
qed

lemma get_event_handed_out:
  assumes "lattice_inv G ok l" "get_event G l = Some (l', Some (e, n))"
  shows "pg_node_weight G (forest l) n = Some (Some e)" "n \<in> leaf_nodes G (forest l)"
    "pg_node_weight G (forest l') = (pg_node_weight G (forest l))(n \<mapsto> None)"
    "pg_edges G (forest l') = pg_edges G (forest l)"
  using get_event_inv[OF assms(1)] assms(2) by (cases "run_queue l = []"; auto)+

lemma get_event_order:
  assumes inv: "lattice_inv G ok l" and ord: "order_inv G (forest l)" and get: "get_event G l = Some (l', Some (e, n))"
  shows "order_inv G (forest l')"
proof -
  note n = get_event_handed_out[OF inv get]
  have "before G (forest l) a b" if "before G (forest l') a b" for a b
    using that n(3) by (auto simp: before_def split: if_splits)
  moreover have "before G (forest l') a b \<or> pg_node_weight G (forest l') a = Some None"
    if e: "(b, a) \<in> pg_edges G (forest l)" for a b
  proof -
    have "before G (forest l) a b \<or> pg_node_weight G (forest l) a = Some None" using ord e unfolding order_inv_def by blast
    then show ?thesis using e n(2,3) by (auto simp: before_def leaf_nodes_def)
  qed
  moreover have "b \<in> watermark_nodes G (forest l')" if "(b, a) \<in> pg_edges G (forest l)" for a b
    using edge_source[OF ord that] that n(2,3) by (auto simp: watermark_nodes_def leaf_nodes_def)
  moreover have "well_timed_pair x y"
    if "pg_node_weight G (forest l') m = Some (Some x)" "pg_node_weight G (forest l') i = Some (Some y)" "m \<noteq> i" for m i x y
    using that n(3) ord unfolding order_inv_def by (auto split: if_splits)
  moreover have "before G (forest l') a c" if "before G (forest l') a b" "before G (forest l') b c" for a b c
  proof -
    have "before G (forest l) a b" "before G (forest l) b c" using that n(3) by (auto simp: before_def split: if_splits)
    from before_trans[OF ord this] show ?thesis using that n(3) by (auto simp: before_def split: if_splits)
  qed
  moreover have "(b, a) \<in> (pg_edges G (forest l))\<^sup>+" if "before G (forest l) a b" for a b
    using ord that unfolding order_inv_def by blast
  ultimately show ?thesis unfolding order_inv_def n(4) by (intro conjI allI impI; blast)
qed

lemma mark_as_completed_order:
  assumes inv: "lattice_inv G ok l" and ord: "order_inv G (forest l)"
    and i: "pg_node_weight G (forest l) i = Some None" and don: "mark_as_completed G i l = Some l'"
  shows "order_inv G (forest l') \<and>
    (\<forall>a b. (b, a) \<in> (pg_edges G (forest l))\<^sup>+ \<and> a \<noteq> i \<longrightarrow> (b, a) \<in> (pg_edges G (forest l'))\<^sup>+)"
proof -
  from mark_as_completed_inv[OF inv i] don have
    n: "pg_node_weight G (forest l') = (pg_node_weight G (forest l))(i := None)"
      "pg_edges G (forest l') = {x \<in> pg_edges G (forest l). snd x \<noteq> i}" by auto
  have out: "(i, a) \<notin> pg_edges G (forest l)" for a
    using edge_source[OF ord, of i a] i by (auto simp: watermark_nodes_def)
  have path: "(b, a) \<in> (pg_edges G (forest l'))\<^sup>+" if "(b, a) \<in> (pg_edges G (forest l))\<^sup>+" "a \<noteq> i" for a b
    using that
  proof (induction rule: trancl_induct)
    case (step y z)
    then have "y \<noteq> i" "(y, z) \<in> pg_edges G (forest l')" using n(2) out by auto
    with step.IH show ?case by (meson trancl.trancl_into_trancl)
  qed (use n(2) in auto)
  have bef: "before G (forest l') a b \<longleftrightarrow> before G (forest l) a b" for a b
    using n(1) i by (auto simp: before_def)
  have wm: "watermark_nodes G (forest l') = watermark_nodes G (forest l)" using n(1) i by (auto simp: watermark_nodes_def)
  have "a \<noteq> i" if "before G (forest l) a b" for a b using that i by (auto simp: before_def)
  then have "order_inv G (forest l')"
    using ord path n unfolding order_inv_def bef wm by (auto split: if_splits)
  with path show ?thesis by blast
qed

text \<open>One step keeps the order, and keeps every path whose end is not completed.\<close>

lemma step_order:
  assumes step: "lattice_step G (well_timed G) l lab l'" and inv: "lattice_inv G ok l" and ord: "order_inv G (forest l)"
  shows "order_inv G (forest l')"
    "(b, a) \<in> (pg_edges G (forest l))\<^sup>+ \<Longrightarrow> lab \<noteq> Completed a \<Longrightarrow> (b, a) \<in> (pg_edges G (forest l'))\<^sup>+"
  using step
proof (atomize (full), cases rule: lattice_step.cases)
  case (step_add x)
  then show "order_inv G (forest l') \<and> ((b, a) \<in> (pg_edges G (forest l))\<^sup>+ \<longrightarrow> lab \<noteq> Completed a \<longrightarrow>
      (b, a) \<in> (pg_edges G (forest l'))\<^sup>+)"
    using add_event_order[OF inv ord] by blast
next
  case (step_get e n)
  then show "order_inv G (forest l') \<and> ((b, a) \<in> (pg_edges G (forest l))\<^sup>+ \<longrightarrow> lab \<noteq> Completed a \<longrightarrow>
      (b, a) \<in> (pg_edges G (forest l'))\<^sup>+)"
    using get_event_order[OF inv ord step_get(2)] get_event_handed_out(4)[OF inv step_get(2)] by simp
next
  case step_idle
  then show "order_inv G (forest l') \<and> ((b, a) \<in> (pg_edges G (forest l))\<^sup>+ \<longrightarrow> lab \<noteq> Completed a \<longrightarrow>
      (b, a) \<in> (pg_edges G (forest l'))\<^sup>+)"
    using get_event_inv[OF inv] ord by (cases "run_queue l = []") auto
next
  case (step_done i)
  then show "order_inv G (forest l') \<and> ((b, a) \<in> (pg_edges G (forest l))\<^sup>+ \<longrightarrow> lab \<noteq> Completed a \<longrightarrow>
      (b, a) \<in> (pg_edges G (forest l'))\<^sup>+)"
    using mark_as_completed_order[OF inv ord step_done(2,3)] by blast
qed

lemma trace_order:
  assumes "lattice_trace G (well_timed G) l labs l'" "lattice_inv G ok l" "order_inv G (forest l)"
  shows "lattice_inv G ok l' \<and> order_inv G (forest l') \<and>
    ((b, a) \<in> (pg_edges G (forest l))\<^sup>+ \<longrightarrow> Completed a \<notin> set labs \<longrightarrow>
       (b, a) \<in> (pg_edges G (forest l'))\<^sup>+ \<and> (\<forall>e. HandedOut b e \<notin> set labs))"
  using assms
proof (induction rule: lattice_trace.induct)
  case (trace_cons l lab l1 labs l2)
  have comp: "comparable G g x" if "well_timed G g x" for g x by (rule well_timed_comparable[OF that])
  have inv1: "lattice_inv G ok l1" by (rule step_inv[OF trace_cons(1,4) comp])
  note so = step_order[OF trace_cons(1,4,5)]
  have "lab \<noteq> HandedOut b e" if path: "(b, a) \<in> (pg_edges G (forest l))\<^sup>+" for e
  proof
    assume "lab = HandedOut b e"
    with trace_cons(1) have get: "get_event G l = Some (l1, Some (e, b))" by (auto elim: step_cases)
    from path obtain c where "(b, c) \<in> pg_edges G (forest l)" by (metis tranclD)
    then show False using get_event_handed_out(2)[OF trace_cons(4) get] by (auto simp: leaf_nodes_def)
  qed
  with trace_cons.IH[OF inv1 so(1)] so(2) show ?case by auto
qed simp

lemma order_inv_new: "order_inv G (forest (lattice_new G))"
  using new_nodes new_edges
  by (auto simp: order_inv_def lattice_new_def pg_edges_def ran_def before_def)

lemma reachable_order: "lattice_reachable G (well_timed G) l \<Longrightarrow> lattice_inv G ok l \<and> order_inv G (forest l)"
  using trace_order[OF _ lattice_new_inv[OF stable_graph_axioms] order_inv_new] unfolding lattice_reachable_def by blast

lemma add_events_inv:
  assumes "lattice_inv G ok l" "\<forall>x \<in> set evs. comparable G (forest l) x"
    "\<forall>x \<in> set evs. \<forall>y \<in> set evs. event_cmp x y \<noteq> None"
  shows "\<exists>l'. add_events G evs l = Some l' \<and> lattice_inv G ok l'"
  using assms
proof (induction evs arbitrary: l)
  case (Cons x evs)
  from add_event_inv[OF Cons.prems(1), of x] Cons.prems(2) obtain l1 n where
    l1: "add_event G x l = Some l1" "lattice_inv G ok l1"
      "pg_node_weight G (forest l1) = (pg_node_weight G (forest l))(n \<mapsto> Some x)" by auto
  have "\<forall>y \<in> set evs. comparable G (forest l1) y"
    using Cons.prems(2,3) l1(3) by (simp add: comparable_def)
  with Cons.IH[OF l1(2)] Cons.prems(3) l1(1) show ?case by simp
qed simp

end

section \<open>An event that is already running\<close>

text \<open>The nodes of the pending events that the search makes the added event wait for.\<close>

definition preceders :: "('g, 'd, 'cb) lattice_graph \<Rightarrow> 'g \<Rightarrow> 'cb OperatorEvent \<Rightarrow> nat set" where
  "preceders G g x = {n. \<exists>e. pg_node_weight G g n = Some (Some e) \<and> event_cmp x e = Some Greater}"

lemma visit_node_children:
  assumes "visit_node G g rq x v st = Some (b, st')"
  shows "set (children st') \<subseteq> set (children st) \<union> preceders G g x"
  using assms unfolding visit_node_def preceders_def
  by (auto split: if_splits option.splits ordering.splits)

context lattice_library
begin

lemma add_event_edges:
  assumes inv: "lattice_inv G ok l" and comp: "comparable G (forest l) x"
  shows "\<exists>l' n. add_event G x l = Some l' \<and> lattice_inv G ok l' \<and> pg_node_weight G (forest l) n = None \<and>
    pg_node_weight G (forest l') = (pg_node_weight G (forest l))(n \<mapsto> Some x) \<and>
    leaf_nodes G (forest l') \<subseteq> insert n (leaf_nodes G (forest l)) \<and>
    (\<forall>k. (n, k) \<in> pg_edges G (forest l') \<longrightarrow> k \<in> preceders G (forest l) x)"
proof -
  let ?g = "forest l" and ?B = "\<lambda>st :: 'd search_state. set (children st) \<subseteq> preceders G (forest l) x"
  have graph: "ok ?g" "pg_simple G ?g" "pg_nodes G ?g \<subseteq> leaf_nodes G ?g \<union> pending_nodes G ?g"
    and rq: "node_index ` set (run_queue l) = leaf_nodes G ?g \<inter> pending_nodes G ?g"
    and ls: "distinct (map node_index (leaves l))" "node_index ` set (leaves l) \<subseteq> leaf_nodes G ?g"
    using inv by (auto simp: lattice_inv_def)
  have "\<exists>st. dfs_leaves G ?g (run_queue l) x (leaves l) (search_init G ?g) = Some st \<and> ?B st \<and>
      searched ?g {} (node_index ` set (leaves l)) st"
  proof (rule search_rule[where B = ?B and C = "\<lambda>_. ?B", OF graph rq comp ls])
    fix st v d b st' and n :: nat
    assume "?B st" "visit_node G ?g (run_queue l) x v (st \<lparr> dfs_from_leaf := d \<rparr>) = Some (b, st')"
    with visit_node_children[OF this(2)] show "if b then ?B st' else ?B st'" by auto
  qed (simp_all add: search_init_def)
  then obtain st where st: "dfs_leaves G ?g (run_queue l) x (leaves l) (search_init G ?g) = Some st" "?B st"
    "search_inv G ?g (finished (dfs_from_leaf st)) st" by (auto simp: searched_def)
  from insert_event_inv[OF inv st(3), of x] obtain l' n where
    n: "insert_event G x st l = Some l'" "lattice_inv G ok l'" "pg_node_weight G ?g n = None"
      "pg_node_weight G (forest l') = (pg_node_weight G ?g)(n \<mapsto> Some x)"
      "pg_edges G (forest l') = (pg_edges G ?g - removed_edges ?g st) \<union> inserted_edges n st" by blast
  have "k \<in> preceders G ?g x" if "(n, k) \<in> pg_edges G (forest l')" for k
  proof -
    have "(n, k) \<notin> pg_edges G ?g" using edges_nodes[OF graph(1), of n k] n(3) by (auto simp: pg_nodes_def)
    moreover have "n \<notin> set (parents st)" using st(3) n(3) by (auto simp: search_inv_def pending_nodes_def)
    ultimately show ?thesis using that n(5) st(2) by (auto simp: inserted_edges_def)
  qed
  moreover have "leaf_nodes G (forest l') \<subseteq> insert n (leaf_nodes G ?g)"
    using leaf_nodes_insert[OF graph(1) st(3) n(3,4,5)] by (auto split: if_splits)
  ultimately show ?thesis using n st(1) by (auto simp: add_event_def)
qed

end

section \<open>Which runnable event is handed out\<close>

text \<open>The comparison of runnable events, on entries that all carry a timestamp, as an order.\<close>

definition runnable_ts_cmp :: "RunnableEvent \<Rightarrow> RunnableEvent \<Rightarrow> ordering" where
  "runnable_ts_cmp a b =
     (case ts_cmp (the (re_timestamp a)) (the (re_timestamp b)) of
        Equal \<Rightarrow> reverse (prim_cmp (node_index a) (node_index b)) | ord \<Rightarrow> reverse ord)"

interpretation runnable_heap: binary_heap runnable_ts_cmp
proof
  fix x y z
  show "runnable_ts_cmp x x = Equal" by (simp add: runnable_ts_cmp_def)
  show "runnable_ts_cmp y x = reverse (runnable_ts_cmp x y)"
    unfolding runnable_ts_cmp_def ts_ord.cmp_swap[of "the (re_timestamp x)" "the (re_timestamp y)"]
    by (auto simp: prim_cmp_def split: ordering.split)
  let ?t = "\<lambda>r. the (re_timestamp r)"
  assume le: "runnable_ts_cmp x y \<noteq> Greater" "runnable_ts_cmp y z \<noteq> Greater"
  then have ge: "ts_cmp (?t y) (?t x) \<noteq> Greater" "ts_cmp (?t z) (?t y) \<noteq> Greater"
    unfolding runnable_ts_cmp_def ts_ord.greater_iff_less by (auto split: ordering.splits)
  show "runnable_ts_cmp x z \<noteq> Greater"
  proof
    assume gt: "runnable_ts_cmp x z = Greater"
    then have "ts_cmp (?t x) (?t z) \<noteq> Greater" unfolding runnable_ts_cmp_def by (auto split: ordering.splits)
    then have "ts_cmp (?t x) (?t y) \<noteq> Greater" "ts_cmp (?t y) (?t z) \<noteq> Greater"
      using ge ts_ord.cmp_le_trans by blast+
    then have "ts_cmp (?t x) (?t y) = Equal \<and> ts_cmp (?t y) (?t z) = Equal"
      using ge ts_ord.le_antisym by blast
    with gt le show False
      using ts_ord.equal_trans[of "?t x" "?t y" "?t z"] unfolding runnable_ts_cmp_def by (auto simp: prim_cmp_def split: if_splits)
  qed
qed

lemma heap_max_cong:
  "(\<And>a b. a \<in> set (x # h) \<Longrightarrow> b \<in> set (x # h) \<Longrightarrow> cmp a b = cmp' a b) \<Longrightarrow> heap_max cmp x h = heap_max cmp' x h"
  unfolding heap_max_def by (induction h arbitrary: x) (auto simp: split: if_splits)

lemma heap_pop_cong:
  "(\<And>a b. a \<in> set h \<Longrightarrow> b \<in> set h \<Longrightarrow> cmp a b = cmp' a b) \<Longrightarrow> heap_pop cmp h = heap_pop cmp' h"
  using heap_max_cong[of "hd h" "tl h" cmp cmp'] by (cases h) (simp_all add: heap_pop_def)

lemma runnable_cmp_ts:
  "re_timestamp a \<noteq> None \<Longrightarrow> re_timestamp b \<noteq> None \<Longrightarrow> runnable_cmp a b = runnable_ts_cmp a b"
  by (auto simp: runnable_cmp_def runnable_ts_cmp_def split: ordering.split)

context lattice_library
begin

lemma get_event_earliest:
  assumes inv: "lattice_inv G ok l" and get: "get_event G l = Some (l', Some (e, n))"
    and m: "m \<in> leaf_nodes G (forest l)" "pg_node_weight G (forest l) m = Some (Some e')"
  shows "ts_le (ev_timestamp e) (ev_timestamp e')"
proof -
  obtain r q where pop: "heap_pop runnable_cmp (run_queue l) = Some (r, q)" and r: "node_index r = n"
    using get by (auto simp: get_event_def split: option.splits)
  have times: "re_timestamp s = Some (ev_timestamp f)"
    if "s \<in> set (run_queue l)" "pg_node_weight G (forest l) (node_index s) = Some (Some f)" for s f
    using that inv unfolding lattice_inv_def by blast
  have "m \<in> node_index ` set (run_queue l)" using inv m by (auto simp: lattice_inv_def pending_nodes_def)
  then obtain s where s: "s \<in> set (run_queue l)" "node_index s = m" by blast
  have "node_index ` set (run_queue l) \<subseteq> pending_nodes G (forest l)" using inv by (auto simp: lattice_inv_def)
  then have ne: "re_timestamp t \<noteq> None" if "t \<in> set (run_queue l)" for t
    using times[OF that] that by (force simp: pending_nodes_def)
  have pop': "heap_pop runnable_ts_cmp (run_queue l) = Some (r, q)"
    using pop heap_pop_cong[of "run_queue l" runnable_cmp runnable_ts_cmp] runnable_cmp_ts ne by metis
  have rt: "re_timestamp r = Some (ev_timestamp e)"
    using times[of r e] heap_pop_in[OF pop] r get_event_handed_out(1)[OF inv get] by simp
  have st: "re_timestamp s = Some (ev_timestamp e')" using times[of s e'] s m(2) by simp
  have "runnable_ts_cmp s r \<noteq> Greater" by (rule runnable_heap.pop_ge[OF pop' s(1)])
  then show ?thesis
    unfolding runnable_ts_cmp_def rt st ts_le_iff ts_ord.le_iff[of "ev_timestamp e"] by auto
qed

lemma not_stuck:
  assumes inv: "lattice_inv G ok l" and ord: "order_inv G (forest l)" and ne: "pending_nodes G (forest l) \<noteq> {}"
  shows "run_queue l \<noteq> [] \<or> (\<exists>i. pg_node_weight G (forest l) i = Some None)"
proof -
  obtain n where "n \<in> pg_nodes G (forest l)" using ne pending_subset_nodes by blast
  moreover have "ok (forest l)" using inv by (simp add: lattice_inv_def)
  ultimately obtain m where m: "m \<in> leaf_nodes G (forest l)" using reaches_leaf[OF _ ord] by blast
  show ?thesis
  proof (cases "m \<in> pending_nodes G (forest l)")
    case True
    then have "m \<in> node_index ` set (run_queue l)" using inv m by (simp add: lattice_inv_def)
    then show ?thesis by auto
  next
    case False
    then have "pg_node_weight G (forest l) m = Some None"
      using m by (auto simp: leaf_nodes_def pg_nodes_def pending_nodes_def)
    then show ?thesis by blast
  qed
qed

end

interpretation ref_lattice: lattice_library "ref_petgraph :: ('cb OperatorEvent option ref_graph, ref_dfs, 'cb OperatorEvent option) petgraph"
  rg_ok rd_valid "\<lambda>d. set (rd_disc d)" "\<lambda>d. set (rd_fin d)" rd_opened rd_target
  by unfold_locales

section \<open>Concrete runs\<close>

text \<open>A message and a watermark with the same timestamp, on the reference graph library.\<close>

definition example_message :: "unit OperatorEvent" where
  "example_message = operator_event_new (ts_new [1]) False 0 {} {} ()"

definition example_watermark :: "unit OperatorEvent" where
  "example_watermark = operator_event_new (ts_new [1]) True 0 {} {} ()"

text \<open>The event of the callback that lets watermarks flow, which every operator has by default.\<close>

definition example_flow :: "unit OperatorEvent" where
  "example_flow = operator_event_new (ts_new [1]) True 127 {} {} ()"

definition example_one :: "unit OperatorEvent option ref_graph ExecutionLattice" where
  "example_one = the (add_event ref_petgraph example_message (lattice_new ref_petgraph))"

definition example_both :: "unit OperatorEvent option ref_graph ExecutionLattice" where
  "example_both = the (add_event ref_petgraph example_watermark example_one)"

definition example_three :: "unit OperatorEvent option ref_graph ExecutionLattice" where
  "example_three = the (add_event ref_petgraph example_flow example_both)"

definition example_started :: "unit OperatorEvent option ref_graph ExecutionLattice" where
  "example_started = fst (the (get_event ref_petgraph example_three))"

definition example_ready :: "unit OperatorEvent option ref_graph ExecutionLattice" where
  "example_ready = the (mark_as_completed ref_petgraph 0 example_started)"

lemma example_one_add: "add_event ref_petgraph example_message (lattice_new ref_petgraph) = Some example_one"
proof -
  have "add_event ref_petgraph example_message (lattice_new ref_petgraph) \<noteq> None" by code_simp
  then show ?thesis by (simp add: example_one_def)
qed

lemma example_both_add: "add_event ref_petgraph example_watermark example_one = Some example_both"
proof -
  have "add_event ref_petgraph example_watermark example_one \<noteq> None" by code_simp
  then show ?thesis by (simp add: example_both_def)
qed

lemma example_three_add: "add_event ref_petgraph example_flow example_both = Some example_three"
proof -
  have "add_event ref_petgraph example_flow example_both \<noteq> None" by code_simp
  then show ?thesis by (simp add: example_three_def)
qed

lemma example_started_get: "get_event ref_petgraph example_three = Some (example_started, Some (example_message, 0))"
proof -
  have "map_option snd (get_event ref_petgraph example_three) = Some (Some (example_message, 0))" by code_simp
  then show ?thesis by (auto simp: example_started_def)
qed

lemma example_ready_completed: "mark_as_completed ref_petgraph 0 example_started = Some example_ready"
proof -
  have "mark_as_completed ref_petgraph 0 example_started \<noteq> None" by code_simp
  then show ?thesis by (simp add: example_ready_def)
qed

lemma example_nodes:
  "rg_nodes (forest example_one) = [(0, Some example_message)]"
  "rg_nodes (forest example_both) = [(1, Some example_watermark), (0, Some example_message)]"
  "rg_nodes (forest example_three) = [(2, Some example_flow), (1, Some example_watermark), (0, Some example_message)]"
  "rg_nodes (forest example_started) = [(2, Some example_flow), (1, Some example_watermark), (0, None)]"
  "rg_nodes (forest example_ready) = [(2, Some example_flow), (1, Some example_watermark)]"
  by code_simp+

lemmas example_event_defs = example_message_def example_watermark_def example_flow_def operator_event_new_def
  no_conflict_def is_disjoint_def

lemma example_well_timed:
  "well_timed ref_petgraph (forest (lattice_new ref_petgraph)) example_message"
  "well_timed ref_petgraph (forest example_one) example_watermark"
  "well_timed ref_petgraph (forest example_both) example_flow"
proof -
  show "well_timed ref_petgraph (forest (lattice_new ref_petgraph)) example_message"
    by (simp add: well_timed_def lattice_new_def ref_petgraph_def rg_new_def)
  show "well_timed ref_petgraph (forest example_one) example_watermark"
    using example_nodes(1) by (intro well_timed_by_priority) (auto simp: ref_petgraph_def example_event_defs split: if_splits)
  show "well_timed ref_petgraph (forest example_both) example_flow"
    using example_nodes(2) by (intro well_timed_by_priority) (auto simp: ref_petgraph_def example_event_defs split: if_splits)
qed

lemma example_reachable:
  "lattice_reachable ref_petgraph (well_timed ref_petgraph) example_three"
  "lattice_reachable ref_petgraph (well_timed ref_petgraph) example_ready"
proof -
  note adds = trace_cons[OF step_add[where adm = "well_timed ref_petgraph", OF example_well_timed(1) example_one_add]
      trace_cons[OF step_add[where adm = "well_timed ref_petgraph", OF example_well_timed(2) example_both_add]
        trace_cons[OF step_add[where adm = "well_timed ref_petgraph", OF example_well_timed(3) example_three_add]]]]
  have "pg_node_weight ref_petgraph (forest example_started) 0 = Some None"
    using example_nodes(4) by (simp add: ref_petgraph_def)
  note ends = trace_cons[OF step_get[OF example_started_get] trace_cons[OF step_done[OF this example_ready_completed] trace_nil]]
  show "lattice_reachable ref_petgraph (well_timed ref_petgraph) example_three"
    "lattice_reachable ref_petgraph (well_timed ref_petgraph) example_ready"
    unfolding lattice_reachable_def using adds[OF trace_nil] adds[OF ends] by blast+
qed

lemma example_reachable_comparable: "lattice_reachable ref_petgraph (comparable ref_petgraph) example_both"
  unfolding lattice_reachable_def
  using trace_cons[OF step_add[where adm = "comparable ref_petgraph",
        OF well_timed_comparable[OF example_well_timed(1)] example_one_add]
      trace_cons[OF step_add[where adm = "comparable ref_petgraph",
        OF well_timed_comparable[OF example_well_timed(2)] example_both_add] trace_nil]] by blast

lemma example_weights:
  "pg_node_weight ref_petgraph (forest example_both) 0 = Some (Some example_message)"
  "pg_node_weight ref_petgraph (forest example_both) 1 = Some (Some example_watermark)"
  using example_nodes(2) by (simp_all add: ref_petgraph_def)

lemma example_later_weights:
  "pg_node_weight ref_petgraph (forest example_three) 1 = Some (Some example_watermark)"
  "pg_node_weight ref_petgraph (forest example_three) 2 = Some (Some example_flow)"
  "pg_node_weight ref_petgraph (forest example_ready) 2 = Some (Some example_flow)"
  using example_nodes(3,5) by (simp_all add: ref_petgraph_def)

section \<open>Why the events have to be well timed\<close>

text \<open>
  A run of the lattice on the reference graph library, as a function: \<open>None\<close> when a step is not
  possible, or when an added event cannot be compared with a pending one.
\<close>

fun ref_run ::
    "'cb lattice_label list \<Rightarrow> 'cb OperatorEvent option ref_graph ExecutionLattice \<Rightarrow>
     'cb OperatorEvent option ref_graph ExecutionLattice option" where
  "ref_run [] l = Some l"
| "ref_run (Added x # labs) l =
     (if \<exists>(n, w) \<in> set (rg_nodes (forest l)). (case w of Some e \<Rightarrow> event_cmp x e = None | None \<Rightarrow> False) then None
      else Option.bind (add_event ref_petgraph x l) (ref_run labs))"
| "ref_run (HandedOut n e # labs) l =
     (case get_event ref_petgraph l of
        Some (l', Some (e', n')) \<Rightarrow> if e' = e \<and> n' = n then ref_run labs l' else None
      | _ \<Rightarrow> None)"
| "ref_run (Idle # labs) l =
     (case get_event ref_petgraph l of Some (l', None) \<Rightarrow> ref_run labs l' | _ \<Rightarrow> None)"
| "ref_run (Completed i # labs) l =
     (if map_of (rg_nodes (forest l)) i = Some None
      then Option.bind (mark_as_completed ref_petgraph i l) (ref_run labs) else None)"

lemma ref_run_trace:
  "ref_run labs l = Some l' \<Longrightarrow> lattice_trace ref_petgraph (comparable ref_petgraph) l labs l'"
proof (induction labs l rule: ref_run.induct)
  case (2 x labs l)
  have "comparable ref_petgraph (forest l) x"
    using 2(2) by (fastforce simp: comparable_def ref_petgraph_def split: if_splits dest: map_of_SomeD)
  moreover obtain l1 where l1: "add_event ref_petgraph x l = Some l1" "ref_run labs l1 = Some l'"
    using 2(2) by (auto split: if_splits simp: bind_eq_Some_conv)
  moreover have "lattice_trace ref_petgraph (comparable ref_petgraph) l1 labs l'"
    using 2(1)[OF _ l1] 2(2) by (auto split: if_splits)
  ultimately show ?case using trace_cons[OF step_add] by blast
next
  case (3 n e labs l)
  from 3(2) obtain l1 where l1: "get_event ref_petgraph l = Some (l1, Some (e, n))" "ref_run labs l1 = Some l'"
    by (auto split: if_splits option.splits)
  with 3(1)[OF l1(1) refl refl refl] show ?case using trace_cons[OF step_get[OF l1(1)]] by blast
next
  case (4 labs l)
  from 4(2) obtain l1 where l1: "get_event ref_petgraph l = Some (l1, None)" "ref_run labs l1 = Some l'"
    by (auto split: option.splits)
  with 4(1)[OF l1(1) refl refl] show ?case using trace_cons[OF step_idle[OF l1(1)]] by blast
next
  case (5 i labs l)
  then have i: "pg_node_weight ref_petgraph (forest l) i = Some None" "map_of (rg_nodes (forest l)) i = Some None"
    by (auto simp: ref_petgraph_def split: if_splits)
  with 5(2) obtain l1 where l1: "mark_as_completed ref_petgraph i l = Some l1" "ref_run labs l1 = Some l'"
    by (auto simp: bind_eq_Some_conv)
  with 5(1)[OF i(2) l1] show ?case using trace_cons[OF step_done[OF i(1) l1(1)]] by blast
qed (simp add: trace_nil)

text \<open>
  Ties. Two messages and four watermark events, all with one timestamp, where the watermark events
  have the same priority and no conflicts: all can be compared with each other. After the messages
  were handed out and completed, the four watermark events wait for each other in a cycle: nothing
  runs, nothing can be handed out, and four events are pending.
\<close>

definition tied_run :: "unit lattice_label list" where
  "tied_run = [Added example_message, Added example_message] @ replicate 4 (Added example_watermark) @
     [HandedOut 0 example_message, HandedOut 1 example_message, Completed 0, Completed 1]"

lemma lattice_stuck_with_ties:
  "\<exists>l. lattice_trace ref_petgraph (comparable ref_petgraph) (lattice_new ref_petgraph) tied_run l \<and>
     get_event ref_petgraph l = Some (l, None) \<and>
     (\<forall>n \<in> {2, 3, 4, 5}. pg_node_weight ref_petgraph (forest l) n = Some (Some example_watermark)) \<and>
     (\<forall>i. pg_node_weight ref_petgraph (forest l) i \<noteq> Some None)"
proof -
  define l where "l = the (ref_run tied_run (lattice_new ref_petgraph))"
  have "ref_run tied_run (lattice_new ref_petgraph) \<noteq> None" by code_simp
  then have 1: "ref_run tied_run (lattice_new ref_petgraph) = Some l" by (auto simp: l_def)
  have nodes: "rg_nodes (forest l) = map (\<lambda>n. (n, Some example_watermark)) [5, 4, 3, 2]" "run_queue l = []"
    unfolding l_def by code_simp+
  then have "get_event ref_petgraph l = Some (l, None)" by (simp add: get_event_def heap_pop_def)
  with ref_run_trace[OF 1] nodes(1) show ?thesis
    by (intro exI[of _ l]) (auto simp: ref_petgraph_def split: if_splits)
qed

text \<open>
  Conflicts between messages. The watermark event and two of the messages have timestamp 0; the
  third message has timestamp 1 and reads what the first one writes, and the last message reads what
  the third one writes. The last message is pending when the watermark is handed out.
\<close>

definition zero_watermark :: "unit OperatorEvent" where
  "zero_watermark = operator_event_new (ts_new [0]) True 0 {} {} ()"

definition zero_message :: "unit OperatorEvent" where
  "zero_message = operator_event_new (ts_new [0]) False 0 {2} {3} ()"

definition conflict_run :: "unit lattice_label list" where
  "conflict_run =
     [Added zero_watermark, Added (operator_event_new (ts_new [0]) False 0 {} {1} ()),
      Added (operator_event_new (ts_new [1]) False 0 {1} {2} ()), Added zero_message,
      HandedOut 1 (operator_event_new (ts_new [0]) False 0 {} {1} ()), Completed 1, HandedOut 0 zero_watermark]"

lemma watermark_early_with_conflicts:
  "\<exists>l. lattice_trace ref_petgraph (comparable ref_petgraph) (lattice_new ref_petgraph) conflict_run l \<and>
     pg_node_weight ref_petgraph (forest l) 3 = Some (Some zero_message) \<and> must_precede zero_message zero_watermark"
proof -
  define l where "l = the (ref_run conflict_run (lattice_new ref_petgraph))"
  have "ref_run conflict_run (lattice_new ref_petgraph) \<noteq> None" by code_simp
  then have 1: "ref_run conflict_run (lattice_new ref_petgraph) = Some l" by (auto simp: l_def)
  have "map_of (rg_nodes (forest l)) 3 = Some (Some zero_message)" unfolding l_def by code_simp
  with ref_run_trace[OF 1] show ?thesis
    by (intro exI[of _ l]) (simp add: ref_petgraph_def must_precede_def zero_message_def zero_watermark_def
        operator_event_new_def)
qed

section \<open>Properties\<close>

text \<open>C3. The lattice never panics: in every state that adding, handing out and completing events
  can produce, a batch of events whose comparisons do not panic can be added (the search ends and
  no \<^verbatim>\<open>unwrap\<close> fails), an event can be asked for, and every event that was handed out can be marked
  as completed.\<close>

theorem lattice_never_panics:
  assumes "lattice_library G ok valid discovered finished opened target"
    and "lattice_reachable G (comparable G) l"
  shows "(\<forall>evs. (\<forall>x \<in> set evs. comparable G (forest l) x \<and> (\<forall>y \<in> set evs. event_cmp x y \<noteq> None)) \<longrightarrow>
            (\<exists>l'. add_events G evs l = Some l')) \<and>
         (\<exists>r. get_event G l = Some r) \<and>
         (\<forall>i. pg_node_weight G (forest l) i = Some None \<longrightarrow> (\<exists>l'. mark_as_completed G i l = Some l'))"
proof -
  have inv: "lattice_inv G ok l" by (rule lattice_library.reachable_inv[OF assms])
  show ?thesis
    using lattice_library.add_events_inv[OF assms(1) inv] lattice_library.get_event_inv[OF assms(1) inv]
      lattice_library.mark_as_completed_inv[OF assms(1) inv] by (cases "run_queue l = []") blast+
qed

theorem lattice_never_panics_witness:
  "\<exists>r. get_event ref_petgraph example_both = Some r"
  using lattice_never_panics[OF ref_lattice.lattice_library_axioms example_reachable_comparable] by blast

text \<open>C4. The leaves are exactly the events without a dependency, the run queue holds exactly those
  of them that were not handed out yet, neither has an entry twice, and an event that runs depends
  on nothing.\<close>

theorem lattice_run_queue_exact:
  assumes "lattice_library G ok valid discovered finished opened target"
    and "lattice_reachable G (comparable G) l"
  shows "node_index ` set (leaves l) = {n \<in> pg_nodes G (forest l). \<forall>m. (n, m) \<notin> pg_edges G (forest l)} \<and>
         node_index ` set (run_queue l) =
           {n. (\<exists>e. pg_node_weight G (forest l) n = Some (Some e)) \<and> (\<forall>m. (n, m) \<notin> pg_edges G (forest l))} \<and>
         distinct (map node_index (leaves l)) \<and> distinct (map node_index (run_queue l)) \<and>
         (\<forall>n m. pg_node_weight G (forest l) n = Some None \<longrightarrow> (n, m) \<notin> pg_edges G (forest l))"
proof -
  have inv: "lattice_inv G ok l" by (rule lattice_library.reachable_inv[OF assms])
  then have "n \<in> leaf_nodes G (forest l)" if "pg_node_weight G (forest l) n = Some None" for n
    using that unfolding lattice_inv_def by (auto simp: pg_nodes_def pending_nodes_def)
  with inv show ?thesis
    unfolding lattice_inv_def leaf_nodes_def pending_nodes_def pg_nodes_def by auto
qed

theorem lattice_run_queue_exact_witness: "node_index ` set (run_queue example_both) = {0}"
proof -
  have edges: "pg_edges ref_petgraph (forest example_both) = {(1, 0)}"
  proof -
    have "rg_edges (forest example_both) = [(0, 1, 0)]" by code_simp
    then show ?thesis by (simp add: pg_edges_def ref_petgraph_def)
  qed
  have "pg_node_weight ref_petgraph (forest example_both) n = Some (Some e) \<Longrightarrow> n = 0 \<or> n = 1" for n e
    using example_nodes(2) by (auto simp: ref_petgraph_def split: if_splits)
  then show ?thesis
    using lattice_run_queue_exact[OF ref_lattice.lattice_library_axioms example_reachable_comparable] example_weights
    unfolding edges by auto
qed

text \<open>C1. Watermarks run in order, for operators whose events satisfy \<^verbatim>\<open>well_timed\<close>: messages that are
  pending together compare \<^verbatim>\<open>Equal\<close> (they do not conflict), and pending watermark events with one
  timestamp are linearly ordered by their conflicts and priorities, without ties. Then the event
  that is handed out is a watermark only if no message with a timestamp that is not greater, no
  watermark with a smaller one and no watermark with the same one that compares \<^verbatim>\<open>Less\<close> is pending,
  and it has the smallest timestamp of all runnable events.\<close>

theorem watermark_handed_out_last:
  assumes lib: "lattice_library G ok valid discovered finished opened target"
    and reach: "lattice_reachable G (well_timed G) l"
    and get: "get_event G l = Some (l', Some (e, n))"
    and pending: "pg_node_weight G (forest l) m = Some (Some e')"
  shows "(is_watermark_callback e \<and> is_watermark_callback e' \<longrightarrow>
            \<not> ts_lt (ev_timestamp e') (ev_timestamp e) \<and> event_cmp e' e \<noteq> Some Less) \<and>
         (is_watermark_callback e \<and> \<not> is_watermark_callback e' \<longrightarrow> ts_lt (ev_timestamp e) (ev_timestamp e')) \<and>
         ((\<forall>k. (m, k) \<notin> pg_edges G (forest l)) \<longrightarrow> ts_le (ev_timestamp e) (ev_timestamp e'))"
proof -
  have inv: "lattice_inv G ok l" and ord: "order_inv G (forest l)"
    using lattice_library.reachable_order[OF lib reach] by auto
  note n = lattice_library.get_event_handed_out[OF lib inv get]
  have prec: "\<not> must_precede e' e"
  proof
    assume "must_precede e' e"
    then have "before G (forest l) m n" using n(1) pending by (auto simp: before_def)
    then have "(n, m) \<in> (pg_edges G (forest l))\<^sup>+" using ord unfolding order_inv_def by blast
    then show False using n(2) by (metis (no_types, lifting) leaf_nodes_def mem_Collect_eq tranclD)
  qed
  have "event_cmp e' e \<noteq> Some Less" if "is_watermark_callback e"
  proof (cases "m = n")
    case True
    then have "e' = e" using pending n(1) by simp
    then show ?thesis using that by (simp add: event_cmp_def resolve_self)
  next
    case False
    then have "well_timed_pair e' e" using ord pending n(1) unfolding order_inv_def by blast
    then show ?thesis using well_timed_cmp(2) prec by blast
  qed
  moreover have "(\<forall>k. (m, k) \<notin> pg_edges G (forest l)) \<longrightarrow> ts_le (ev_timestamp e) (ev_timestamp e')"
    using lattice_library.get_event_earliest[OF lib inv get _ pending] pending
    by (auto simp: leaf_nodes_def pg_nodes_def)
  ultimately show ?thesis
    using prec not_ts_lt_iff[of "ev_timestamp e" "ev_timestamp e'"] by (auto simp: must_precede_def)
qed

theorem watermark_handed_out_last_witness:
  "\<exists>l'. get_event ref_petgraph example_ready = Some (l', Some (example_watermark, 1)) \<and>
     event_cmp example_flow example_watermark \<noteq> Some Less"
proof -
  have "map_option snd (get_event ref_petgraph example_ready) = Some (Some (example_watermark, 1))" by code_simp
  then obtain l' where l': "get_event ref_petgraph example_ready = Some (l', Some (example_watermark, 1))" by auto
  have "is_watermark_callback example_watermark" "is_watermark_callback example_flow"
    by (simp_all add: example_event_defs)
  with watermark_handed_out_last[OF ref_lattice.lattice_library_axioms example_reachable(2) l' example_later_weights(3)] l'
  show ?thesis by blast
qed

text \<open>C2. A watermark waits for completion, for operators whose events satisfy \<^verbatim>\<open>well_timed\<close> (messages
  that are pending together do not conflict, and pending watermark events with one timestamp are
  linearly ordered, without ties): if in some state the message or watermark at \<open>a\<close> has to run
  before the watermark at \<open>b\<close>, by timestamp or, for watermarks with one timestamp, by conflict and
  priority, and both are still pending, then however the run continues, \<open>b\<close> is not handed out
  before \<open>a\<close> was marked as completed.\<close>

theorem watermark_waits_for_completion:
  assumes lib: "lattice_library G ok valid discovered finished opened target"
    and reach: "lattice_reachable G (well_timed G) l"
    and a: "pg_node_weight G (forest l) a = Some (Some x)" and b: "pg_node_weight G (forest l) b = Some (Some y)"
    and order: "must_precede x y"
    and trace: "lattice_trace G (well_timed G) l labs l'" and not_done: "Completed a \<notin> set labs"
  shows "HandedOut b e \<notin> set labs"
proof -
  have inv: "lattice_inv G ok l" and ord: "order_inv G (forest l)"
    using lattice_library.reachable_order[OF lib reach] by auto
  have "before G (forest l) a b" using a b order by (auto simp: before_def)
  then have "(b, a) \<in> (pg_edges G (forest l))\<^sup>+" using ord unfolding order_inv_def by blast
  then show ?thesis using lattice_library.trace_order[OF lib trace inv ord] not_done by blast
qed

theorem watermark_waits_for_completion_witness:
  "HandedOut 2 example_flow \<notin> set [HandedOut 0 example_message]"
proof -
  have "lattice_trace ref_petgraph (well_timed ref_petgraph) example_three [HandedOut 0 example_message] example_started"
    by (rule trace_cons[OF step_get[OF example_started_get] trace_nil])
  moreover have "must_precede example_watermark example_flow"
    by (simp add: must_precede_def resolve_no_conflict example_event_defs i8_cmp_def)
  ultimately show ?thesis
    by (intro watermark_waits_for_completion[OF ref_lattice.lattice_library_axioms example_reachable(1)
          example_later_weights(1,2)]) simp_all
qed

text \<open>C5. Progress, for operators whose events satisfy \<^verbatim>\<open>well_timed\<close> (messages that are pending together
  do not conflict, and pending watermark events with one timestamp are linearly ordered, without
  ties): while some event is pending, either an event can be handed out or one is running.\<close>

theorem lattice_not_stuck:
  assumes "lattice_library G ok valid discovered finished opened target"
    and "lattice_reachable G (well_timed G) l" and "pg_node_weight G (forest l) n = Some (Some e)"
  shows "(\<exists>l' e n. get_event G l = Some (l', Some (e, n))) \<or> (\<exists>i. pg_node_weight G (forest l) i = Some None)"
proof -
  have inv: "lattice_inv G ok l" and ord: "order_inv G (forest l)"
    using lattice_library.reachable_order[OF assms(1,2)] by auto
  have "pending_nodes G (forest l) \<noteq> {}" using assms(3) by (auto simp: pending_nodes_def)
  from lattice_library.not_stuck[OF assms(1) inv ord this] lattice_library.get_event_inv[OF assms(1) inv]
  show ?thesis by blast
qed

theorem lattice_not_stuck_witness:
  "(\<exists>l' e n. get_event ref_petgraph example_three = Some (l', Some (e, n))) \<or>
   (\<exists>i. pg_node_weight ref_petgraph (forest example_three) i = Some None)"
  by (rule lattice_not_stuck[OF ref_lattice.lattice_library_axioms example_reachable(1) example_later_weights(2)])

text \<open>C32. A running event is not waited for. Let an event \<open>e\<close> be handed out and, while it runs, an
  event \<open>x\<close> be added, even one that has to wait for \<open>e\<close>, as a watermark for a message with its
  timestamp. The new event never depends on a running one; if no pending event precedes it, it is
  runnable at once, and it is handed out next if nothing else is runnable, all before \<open>e\<close> is marked
  as completed.\<close>

theorem watermark_overtakes_running_message:
  assumes lib: "lattice_library G ok valid discovered finished opened target"
    and reach: "lattice_reachable G (comparable G) l0"
    and running: "get_event G l0 = Some (l, Some (e, r))"
    and comp: "comparable G (forest l) x"
  shows "\<exists>l' n. add_event G x l = Some l' \<and>
    pg_node_weight G (forest l) n = None \<and> pg_node_weight G (forest l') n = Some (Some x) \<and>
    (\<forall>i. pg_node_weight G (forest l) i = Some None \<longrightarrow>
       pg_node_weight G (forest l') i = Some None \<and> (n, i) \<notin> pg_edges G (forest l')) \<and>
    pg_node_weight G (forest l') r = Some None \<and>
    ((\<forall>i y. pg_node_weight G (forest l) i = Some (Some y) \<longrightarrow> event_cmp x y \<noteq> Some Greater) \<longrightarrow>
       n \<in> node_index ` set (run_queue l') \<and>
       (run_queue l = [] \<longrightarrow> (\<exists>l''. get_event G l' = Some (l'', Some (x, n)) \<and>
          pg_node_weight G (forest l'') r = Some None)))"
proof -
  have inv0: "lattice_inv G ok l0" by (rule lattice_library.reachable_inv[OF lib reach])
  note got = lattice_library.get_event_handed_out[OF lib inv0 running]
  have inv: "lattice_inv G ok l"
    using lattice_library.get_event_inv[OF lib inv0] running by (cases "run_queue l0 = []") auto
  from lattice_library.add_event_edges[OF lib inv comp] obtain l' n where
    l': "add_event G x l = Some l'" "lattice_inv G ok l'" "pg_node_weight G (forest l) n = None"
      "pg_node_weight G (forest l') = (pg_node_weight G (forest l))(n \<mapsto> Some x)"
      "leaf_nodes G (forest l') \<subseteq> insert n (leaf_nodes G (forest l))"
    and edge: "(n, k) \<in> pg_edges G (forest l') \<Longrightarrow> k \<in> preceders G (forest l) x" for k by blast
  have r: "pg_node_weight G (forest l') r = Some None" "r \<noteq> n" using got(3) l'(3,4) by auto
  have runs: "pg_node_weight G (forest l') i = Some None \<and> (n, i) \<notin> pg_edges G (forest l')"
    if "pg_node_weight G (forest l) i = Some None" for i
    using that edge[of i] l'(3,4) by (auto simp: preceders_def)
  have first: "n \<in> node_index ` set (run_queue l')"
    if "\<forall>i y. pg_node_weight G (forest l) i = Some (Some y) \<longrightarrow> event_cmp x y \<noteq> Some Greater"
  proof -
    have "preceders G (forest l) x = {}" using that by (auto simp: preceders_def)
    then have "n \<in> leaf_nodes G (forest l') \<inter> pending_nodes G (forest l')"
      using edge l'(4) by (auto simp: leaf_nodes_def pending_nodes_def pg_nodes_def)
    then show ?thesis using l'(2) by (simp add: lattice_inv_def)
  qed
  have next_one: "\<exists>l''. get_event G l' = Some (l'', Some (x, n)) \<and> pg_node_weight G (forest l'') r = Some None"
    if new: "n \<in> node_index ` set (run_queue l')" and empty: "run_queue l = []"
  proof -
    have "leaf_nodes G (forest l) \<inter> pending_nodes G (forest l) = {}" using inv empty by (simp add: lattice_inv_def)
    then have only: "k = n" if "k \<in> leaf_nodes G (forest l')" "pg_node_weight G (forest l') k = Some (Some y)" for k y
      using that l'(4,5) by (auto simp: pending_nodes_def split: if_splits)
    from new have "run_queue l' \<noteq> []" by auto
    with lattice_library.get_event_inv[OF lib l'(2)] obtain l'' k y where
      k: "get_event G l' = Some (l'', Some (y, k))" "pg_node_weight G (forest l') k = Some (Some y)"
        "k \<in> leaf_nodes G (forest l')" "pg_node_weight G (forest l'') = (pg_node_weight G (forest l'))(k \<mapsto> None)" by auto
    then show ?thesis using only[OF k(3,2)] l'(4) r by auto
  qed
  show ?thesis using l'(1,3,4) r runs first next_one by (intro exI[of _ l'] exI[of _ n]) auto
qed

theorem watermark_overtakes_running_message_witness:
  "\<exists>l1 l2 l3 n. get_event ref_petgraph example_one = Some (l1, Some (example_message, 0)) \<and>
     add_event ref_petgraph example_watermark l1 = Some l2 \<and>
     get_event ref_petgraph l2 = Some (l3, Some (example_watermark, n)) \<and>
     pg_node_weight ref_petgraph (forest l3) 0 = Some None \<and> must_precede example_message example_watermark"
proof -
  define l1 where "l1 = fst (the (get_event ref_petgraph example_one))"
  have "map_option snd (get_event ref_petgraph example_one) = Some (Some (example_message, 0))" by code_simp
  then have 1: "get_event ref_petgraph example_one = Some (l1, Some (example_message, 0))" by (auto simp: l1_def)
  have "rg_nodes (forest (fst (the (get_event ref_petgraph example_one)))) = [(0, None)]"
    "run_queue (fst (the (get_event ref_petgraph example_one))) = []" by code_simp+
  then have 2: "pg_node_weight ref_petgraph (forest l1) i \<noteq> Some (Some y)" "run_queue l1 = []" for i y
    by (auto simp: l1_def ref_petgraph_def)
  have 3: "must_precede example_message example_watermark" by (simp add: must_precede_def example_event_defs)
  have "lattice_reachable ref_petgraph (comparable ref_petgraph) example_one"
    unfolding lattice_reachable_def
    using trace_cons[OF step_add[where adm = "comparable ref_petgraph",
        OF well_timed_comparable[OF example_well_timed(1)] example_one_add] trace_nil] by blast
  moreover have "comparable ref_petgraph (forest l1) example_watermark" using 2(1) by (simp add: comparable_def)
  ultimately show ?thesis
    using watermark_overtakes_running_message[OF ref_lattice.lattice_library_axioms _ 1, of example_watermark] 1 2 3
    by blast
qed

end
