(* ===== verification/Comm_Errors.thy ===== *)
theory Comm_Errors
  imports Erdos_Prelude
begin

text \<open>
  The error types of the communication layer and of the streams, with the conversions between
  them: \<^verbatim>\<open>src/src/communication/errors.rs\<close> and \<^verbatim>\<open>src/src/dataflow/stream/errors.rs\<close>.

  An error value that a foreign library or the operating system made is a value of the type
  parameter \<open>'e\<close>. The two kinds of foreign error that the sources build themselves have
  constructors of their own.
\<close>

section \<open>Errors of other libraries\<close>

datatype 'e foreign_error =
    Foreign 'e
  | IoOther string
  | BincodeCustom string

text \<open>\<^verbatim>\<open>tokio::sync::mpsc::error\<close> and \<^verbatim>\<open>std::sync::mpsc::SendError\<close>.\<close>

datatype 'm SendError = SendError 'm
datatype 'm TrySendError = TrySend_Full 'm | TrySend_Closed 'm
datatype mpsc_TryRecvError = Mpsc_Empty | Mpsc_Closed

section \<open>The communication layer\<close>

datatype 'e CommunicationError =
    NoCapacity
  | Disconnected
  | SerializeNotImplemented
  | DeserializeNotImplemented
  | AbomonationError "'e foreign_error"
  | BincodeError "'e foreign_error"
  | IoError "'e foreign_error"
  | ZenohError "'e foreign_error"
  | SharedMemoryError "'e foreign_error"
  | ZenohSharedMemoryError string

datatype 'e CodecError =
    Codec_IoError "'e foreign_error"
  | Codec_BincodeError "'e foreign_error"
  | Codec_SharedMemoryError "'e foreign_error"
  | Codec_ZenohSharedMemoryError string

datatype 'e TryRecvError =
    TryRecv_Empty
  | TryRecv_Disconnected
  | TryRecv_BincodeError "'e foreign_error"

fun comm_from_bincode :: "'e foreign_error \<Rightarrow> 'e CommunicationError" where
  "comm_from_bincode e = BincodeError e"

fun comm_from_io :: "'e foreign_error \<Rightarrow> 'e CommunicationError" where
  "comm_from_io e = IoError e"

fun comm_from_std_send :: "'m SendError \<Rightarrow> 'e CommunicationError" where
  "comm_from_std_send _ = Disconnected"

fun comm_from_send :: "'m SendError \<Rightarrow> 'e CommunicationError" where
  "comm_from_send _ = Disconnected"

fun comm_from_try_send :: "'m TrySendError \<Rightarrow> 'e CommunicationError" where
  "comm_from_try_send (TrySend_Closed _) = Disconnected"
| "comm_from_try_send (TrySend_Full _) = NoCapacity"

fun comm_from_codec :: "'e CodecError \<Rightarrow> 'e CommunicationError" where
  "comm_from_codec (Codec_IoError e) = IoError e"
| "comm_from_codec (Codec_BincodeError e) = BincodeError e"
| "comm_from_codec (Codec_SharedMemoryError e) = SharedMemoryError e"
| "comm_from_codec (Codec_ZenohSharedMemoryError e) = ZenohSharedMemoryError e"

fun comm_from_zenoh :: "'e foreign_error \<Rightarrow> 'e CommunicationError" where
  "comm_from_zenoh e = ZenohError e"

fun comm_from_shmem :: "'e foreign_error \<Rightarrow> 'e CommunicationError" where
  "comm_from_shmem e = SharedMemoryError e"

fun codec_from_io :: "'e foreign_error \<Rightarrow> 'e CodecError" where
  "codec_from_io e = Codec_IoError e"

fun codec_from_bincode :: "'e foreign_error \<Rightarrow> 'e CodecError" where
  "codec_from_bincode e = Codec_BincodeError e"

fun codec_from_shmem :: "'e foreign_error \<Rightarrow> 'e CodecError" where
  "codec_from_shmem e = Codec_SharedMemoryError e"

fun try_recv_from_mpsc :: "mpsc_TryRecvError \<Rightarrow> 'e TryRecvError" where
  "try_recv_from_mpsc Mpsc_Closed = TryRecv_Disconnected"
| "try_recv_from_mpsc Mpsc_Empty = TryRecv_Empty"

section \<open>The streams\<close>

datatype ReadError = Read_SerializationError | Read_Disconnected | Read_Closed

datatype TryReadError =
    TryRead_Empty
  | TryRead_Disconnected
  | TryRead_SerializationError
  | TryRead_Closed

fun try_read_from_try_recv :: "'e TryRecvError \<Rightarrow> TryReadError" where
  "try_read_from_try_recv TryRecv_Empty = TryRead_Empty"
| "try_read_from_try_recv TryRecv_Disconnected = TryRead_Disconnected"
| "try_read_from_try_recv (TryRecv_BincodeError _) = TryRead_SerializationError"

datatype WriteStreamError = Write_SerializationError | Write_IOError | TimestampError | Write_Closed

fun write_error_from_comm :: "'e CommunicationError \<Rightarrow> WriteStreamError" where
  "write_error_from_comm NoCapacity = Write_IOError"
| "write_error_from_comm Disconnected = Write_IOError"
| "write_error_from_comm SerializeNotImplemented = Write_SerializationError"
| "write_error_from_comm DeserializeNotImplemented = Write_SerializationError"
| "write_error_from_comm (AbomonationError _) = Write_SerializationError"
| "write_error_from_comm (BincodeError _) = Write_SerializationError"
| "write_error_from_comm (IoError _) = Write_IOError"
| "write_error_from_comm (ZenohError _) = Write_IOError"
| "write_error_from_comm (SharedMemoryError _) = Write_IOError"
| "write_error_from_comm (ZenohSharedMemoryError _) = Write_IOError"

text \<open>Sending never turns a communication error into one of the two errors that the write stream
  itself raises.\<close>

lemma write_error_from_comm_origin [simp]:
  "write_error_from_comm e \<noteq> TimestampError"
  "write_error_from_comm e \<noteq> Write_Closed"
  by (cases e; simp)+

end
