(* ===== verification/Serialization.thy ===== *)
theory Serialization
  imports Comm_Errors
begin

text \<open>
  Serialization of messages: \<^verbatim>\<open>src/src/communication/serializable.rs\<close>.

  Bincode and Abomonation are parameters: a record of the functions the sources call, for one
  type of data. Which of the two serializes a type is decided by whether the type derives
  \<^verbatim>\<open>Abomonation\<close>, so the second one is optional. The locale \<open>serializer\<close> states what the
  documentation of the two promises, and the round trip through \<^verbatim>\<open>encode\<close> and \<^verbatim>\<open>decode\<close> is proved
  from it once. A boxed \<^verbatim>\<open>dyn Serializable\<close> is the record of its four methods.
\<close>

section \<open>Library functions\<close>

type_synonym bytes = "u8 list"

record ('d, 'e) bincode =
  bincode_serialize :: "'d \<Rightarrow> 'e foreign_error + bytes"
  bincode_serialize_into :: "'d \<Rightarrow> bytes \<Rightarrow> ('e foreign_error + unit) \<times> bytes"
  bincode_serialized_size :: "'d \<Rightarrow> 'e foreign_error + u64"
  bincode_deserialize :: "bytes \<Rightarrow> 'e foreign_error + 'd"

record ('d, 'e) abomonation =
  abom_encode :: "'d \<Rightarrow> bytes \<Rightarrow> ('e foreign_error + unit) \<times> bytes"
  abom_decode :: "bytes \<Rightarrow> ('d \<times> bytes) option"
  abom_measure :: "'d \<Rightarrow> u64"

record ('d, 'e) serde =
  sd_bincode :: "('d, 'e) bincode"
  sd_abomonation :: "('d, 'e) abomonation option"

definition map_err :: "('e \<Rightarrow> 'f) \<Rightarrow> 'e + 'a \<Rightarrow> 'f + 'a" where
  "map_err f r = map_sum f id r"

lemma map_err_simps [simp]: "map_err f (Inl e) = Inl (f e)" "map_err f (Inr x) = Inr x"
  by (simp_all add: map_err_def)

lemma map_err_Inr_iff [simp]: "map_err f r = Inr x \<longleftrightarrow> r = Inr x"
  by (cases r) simp_all

section \<open>Encoding\<close>

definition encode :: "('d, 'e) serde \<Rightarrow> 'd \<Rightarrow> 'e CommunicationError + bytes" where
  "encode L d =
     (case sd_abomonation L of
        None \<Rightarrow> map_err comm_from_bincode (bincode_serialize (sd_bincode L) d)
      | Some a \<Rightarrow>
          (case abom_encode a d [] of
             (Inl e, _) \<Rightarrow> Inl (AbomonationError e)
           | (Inr _, serialized_msg) \<Rightarrow> Inr serialized_msg))"

definition encode_into :: "('d, 'e) serde \<Rightarrow> 'd \<Rightarrow> bytes \<Rightarrow> ('e CommunicationError + unit) \<times> bytes" where
  "encode_into L d buffer =
     (case sd_abomonation L of
        None \<Rightarrow> (case bincode_serialize_into (sd_bincode L) d buffer of
                   (r, b) \<Rightarrow> (map_err comm_from_bincode r, b))
      | Some a \<Rightarrow> (case abom_encode a d buffer of (r, b) \<Rightarrow> (map_err AbomonationError r, b)))"

text \<open>The parameter \<open>fmt\<close> is the \<^verbatim>\<open>Debug\<close> formatting of an error.\<close>

definition encode_into_vec ::
    "('e CommunicationError \<Rightarrow> string) \<Rightarrow> ('d, 'e) serde \<Rightarrow> 'd \<Rightarrow> 'e CodecError + bytes" where
  "encode_into_vec fmt L d =
     (case sd_abomonation L of
        None \<Rightarrow> map_err codec_from_bincode (bincode_serialize (sd_bincode L) d)
      | Some a \<Rightarrow>
          (case abom_encode a d [] of
             (Inl e, _) \<Rightarrow> Inl (Codec_BincodeError (BincodeCustom (fmt (AbomonationError e))))
           | (Inr _, serialized_msg) \<Rightarrow> Inr serialized_msg))"

definition serialized_size :: "('d, 'e) serde \<Rightarrow> 'd \<Rightarrow> 'e CommunicationError + nat" where
  "serialized_size L d =
     (case sd_abomonation L of
        None \<Rightarrow> map_sum comm_from_bincode unat (bincode_serialized_size (sd_bincode L) d)
      | Some a \<Rightarrow> Inr (unat (abom_measure a d)))"

record 'e Serializable =
  dyn_encode :: "'e CommunicationError + bytes"
  dyn_encode_into :: "bytes \<Rightarrow> ('e CommunicationError + unit) \<times> bytes"
  dyn_serialized_size :: "'e CommunicationError + nat"
  dyn_encode_into_vec :: "'e CodecError + bytes"

text \<open>The trait object of a value: \<^verbatim>\<open>Arc<dyn Serializable + Send + Sync>\<close>.\<close>

definition serializable ::
    "('e CommunicationError \<Rightarrow> string) \<Rightarrow> ('d, 'e) serde \<Rightarrow> 'd \<Rightarrow> 'e Serializable" where
  "serializable fmt L d =
     \<lparr> dyn_encode = encode L d, dyn_encode_into = encode_into L d,
       dyn_serialized_size = serialized_size L d, dyn_encode_into_vec = encode_into_vec fmt L d \<rparr>"

section \<open>Decoding\<close>

datatype 'd DeserializedMessage = Ref 'd | Owned 'd

definition decode_msg :: "('d, 'e) serde \<Rightarrow> bytes \<Rightarrow> 'e CommunicationError + 'd DeserializedMessage" where
  "decode_msg L buf =
     (case sd_abomonation L of
        None \<Rightarrow> map_sum comm_from_bincode Owned (bincode_deserialize (sd_bincode L) buf)
      | Some a \<Rightarrow>
          (case abom_decode a buf of
             Some (msg, _) \<Rightarrow> Inr (Ref msg)
           | None \<Rightarrow> Inl (AbomonationError (IoOther ''Deserialization failed''))))"

text \<open>
  \<^verbatim>\<open>decode_from_vec\<close>: with the Zenoh transports the specializations for Abomonation are compiled
  out, so that every type has \<open>sd_abomonation L = None\<close> and bincode serves all of them.
\<close>

definition decode_from_vec_tcp :: "('d, 'e) serde \<Rightarrow> bytes \<Rightarrow> 'e CodecError + 'd DeserializedMessage" where
  "decode_from_vec_tcp L buf =
     (case sd_abomonation L of
        None \<Rightarrow> map_sum codec_from_bincode Owned (bincode_deserialize (sd_bincode L) buf)
      | Some a \<Rightarrow>
          (case abom_decode a buf of
             Some (msg, _) \<Rightarrow> Inr (Ref msg)
           | None \<Rightarrow> Inl (Codec_BincodeError (BincodeCustom ''Malformed message''))))"

definition decode_from_vec_zenoh :: "('d, 'e) serde \<Rightarrow> bytes \<Rightarrow> 'e CodecError + 'd DeserializedMessage" where
  "decode_from_vec_zenoh L buf =
     map_sum codec_from_bincode Owned (bincode_deserialize (sd_bincode L) buf)"

text \<open>The message in either wrapper, as the pushers clone it out.\<close>

fun deserialized :: "'d DeserializedMessage \<Rightarrow> 'd" where
  "deserialized (Owned msg) = msg"
| "deserialized (Ref msg) = msg"

section \<open>What the libraries promise\<close>

text \<open>
  Bincode: serializing into a writer appends the bytes that \<^verbatim>\<open>serialize\<close> returns,
  \<^verbatim>\<open>serialized_size\<close> is their number, and deserializing them gives the value back. The law
  is about values bincode can serialize; a type it refuses satisfies it vacuously, which is why the
  properties below carry the hypothesis that serialization succeeds.
\<close>

locale bincode_format =
  fixes B :: "('d, 'e) bincode"
  assumes serialize_into: "bincode_serialize B d = Inr bs \<Longrightarrow> bincode_serialize_into B d buf = (Inr (), buf @ bs)"
    and serialized_size: "bincode_serialize B d = Inr bs \<Longrightarrow> bincode_serialized_size B d = Inr n \<Longrightarrow> unat n = length bs"
    and serialized_size_ok: "bincode_serialize B d = Inr bs \<Longrightarrow> \<exists>n. bincode_serialized_size B d = Inr n"
    and deserialize: "bincode_serialize B d = Inr bs \<Longrightarrow> bincode_deserialize B bs = Inr d"
begin

lemma size_eq: "bincode_serialize B d = Inr bs \<Longrightarrow> \<exists>n. bincode_serialized_size B d = Inr n \<and> unat n = length bs"
  using serialized_size serialized_size_ok by blast

end

locale abomonation_format =
  fixes A :: "('d, 'e) abomonation"
  assumes encode_append: "abom_encode A d [] = (Inr (), bs) \<Longrightarrow> abom_encode A d buf = (Inr (), buf @ bs)"
    and measure: "abom_encode A d [] = (Inr (), bs) \<Longrightarrow> unat (abom_measure A d) = length bs"
    and decode: "abom_encode A d [] = (Inr (), bs) \<Longrightarrow> \<exists>rest. abom_decode A bs = Some (d, rest)"

text \<open>The contract a serializable type offers to its clients, whichever library serves it.\<close>

locale serializer =
  fixes L :: "('d, 'e) serde"
  assumes bincode: "bincode_format (sd_bincode L)"
    and abomonation: "sd_abomonation L = Some A \<Longrightarrow> abomonation_format A"
begin

lemma decode_encode: "encode L d = Inr bs \<Longrightarrow> map_sum id deserialized (decode_msg L bs) = Inr d"
  using bincode_format.deserialize[OF bincode, of d bs] abomonation_format.decode[OF abomonation, of _ d bs]
  by (auto simp: encode_def decode_msg_def split: option.splits sum.splits prod.splits)

lemma encode_into_eq: "encode L d = Inr bs \<Longrightarrow> encode_into L d buf = (Inr (), buf @ bs)"
  using bincode_format.serialize_into[OF bincode, of d bs buf]
    abomonation_format.encode_append[OF abomonation, of _ d bs buf]
  by (auto simp: encode_def encode_into_def split: option.splits sum.splits prod.splits)

lemma encode_into_vec_eq: "encode L d = Inr bs \<Longrightarrow> encode_into_vec fmt L d = Inr bs"
  by (auto simp: encode_def encode_into_vec_def split: option.splits sum.splits prod.splits)

lemma serialized_size_eq: "encode L d = Inr bs \<Longrightarrow> serialized_size L d = Inr (length bs)"
  using bincode_format.size_eq[OF bincode, of d bs] abomonation_format.measure[OF abomonation, of _ d bs]
  by (auto simp: encode_def serialized_size_def split: option.splits sum.splits prod.splits)

end

section \<open>A reference format\<close>

text \<open>
  An instance that shows the laws can hold: strings of bytes stand for themselves. Data of up to
  \<open>2 ^ 64 - 1\<close> bytes can be serialized, as its size has to fit the result of \<^verbatim>\<open>serialized_size\<close>.
\<close>

definition ref_bincode :: "('d \<Rightarrow> bytes) \<Rightarrow> (bytes \<Rightarrow> 'd option) \<Rightarrow> 'e \<Rightarrow> ('d, 'e) bincode" where
  "ref_bincode to_bytes from_bytes err =
     (let ser = (\<lambda>d. if length (to_bytes d) < 2 ^ 64 \<and> from_bytes (to_bytes d) = Some d
                     then Inr (to_bytes d) else Inl (Foreign err))
      in \<lparr> bincode_serialize = ser,
           bincode_serialize_into = (\<lambda>d buf. case ser d of Inl e \<Rightarrow> (Inl e, buf) | Inr bs \<Rightarrow> (Inr (), buf @ bs)),
           bincode_serialized_size = (\<lambda>d. map_sum id (\<lambda>bs. of_nat (length bs)) (ser d)),
           bincode_deserialize = (\<lambda>bs. case from_bytes bs of None \<Rightarrow> Inl (Foreign err) | Some d \<Rightarrow> Inr d) \<rparr>)"

interpretation ref_bincode: bincode_format "ref_bincode to_bytes from_bytes err"
  by unfold_locales
    (auto simp: ref_bincode_def Let_def unat_of_nat split: if_splits)

definition ref_abomonation :: "('d \<Rightarrow> bytes) \<Rightarrow> (bytes \<Rightarrow> 'd option) \<Rightarrow> 'e \<Rightarrow> ('d, 'e) abomonation" where
  "ref_abomonation to_bytes from_bytes err =
     \<lparr> abom_encode = (\<lambda>d buf. if length (to_bytes d) < 2 ^ 64 \<and> from_bytes (to_bytes d) = Some d
                              then (Inr (), buf @ to_bytes d) else (Inl (Foreign err), buf)),
       abom_decode = (\<lambda>bs. map_option (\<lambda>d. (d, [])) (from_bytes bs)),
       abom_measure = (\<lambda>d. of_nat (length (to_bytes d))) \<rparr>"

interpretation ref_abomonation: abomonation_format "ref_abomonation to_bytes from_bytes err"
  by unfold_locales (auto simp: ref_abomonation_def unat_of_nat split: if_splits)

definition ref_serde :: "bool \<Rightarrow> ('d \<Rightarrow> bytes) \<Rightarrow> (bytes \<Rightarrow> 'd option) \<Rightarrow> 'e \<Rightarrow> ('d, 'e) serde" where
  "ref_serde abom to_bytes from_bytes err =
     \<lparr> sd_bincode = ref_bincode to_bytes from_bytes err,
       sd_abomonation = (if abom then Some (ref_abomonation to_bytes from_bytes err) else None) \<rparr>"

interpretation ref_serde: serializer "ref_serde abom to_bytes from_bytes err"
proof (rule serializer.intro)
  show "bincode_format (sd_bincode (ref_serde abom to_bytes from_bytes err))"
    by (simp add: ref_serde_def ref_bincode.bincode_format_axioms)
  show "sd_abomonation (ref_serde abom to_bytes from_bytes err) = Some A \<Longrightarrow> abomonation_format A" for A
    using ref_abomonation.abomonation_format_axioms[of to_bytes from_bytes err]
    by (simp add: ref_serde_def split: if_splits)
qed

end
