(* ===== verification/Codec.thy ===== *)
theory Codec
  imports Serialization
begin

text \<open>
  What crosses the network and how it is framed: the messages of \<^verbatim>\<open>src/src/communication/mod.rs\<close>
  with their Zenoh encodings, \<^verbatim>\<open>message_codec.rs\<close> and \<^verbatim>\<open>control_message_codec.rs\<close>.

  The functions of \<^verbatim>\<open>byteorder\<close> and \<^verbatim>\<open>bincode\<close> that the codecs call are fields of the record
  \<open>wire\<close>; the buffers of Zenoh are parameters of a second record. Both TCP codecs are
  decoders in the sense of \<^verbatim>\<open>tokio_util\<close>: they are fed bytes as these arrive. The locale
  \<open>decoder\<close> states that where the bytes are cut makes no difference to a decoder and derives
  from it that every cutting of a sequence of frames gives back the sequence of messages; both codecs
  are instances.
\<close>

section \<open>Messages\<close>

datatype ControlMessage =
    AllOperatorsInitializedOnNode NodeId
  | OperatorInitialized OperatorId
  | RunOperator OperatorId
  | DataSenderInitialized NodeId
  | DataReceiverInitialized NodeId
  | ControlSenderInitialized NodeId
  | ControlReceiverInitialized NodeId

datatype MessageMetadata = MessageMetadata (md_stream_id: StreamId)

datatype 'e InterProcessMessage =
    Serialized MessageMetadata bytes
  | Deserialized MessageMetadata "'e Serializable"

definition new_serialized :: "bytes \<Rightarrow> MessageMetadata \<Rightarrow> 'e InterProcessMessage" where
  "new_serialized bs metadata = Serialized metadata bs"

definition new_deserialized :: "'e Serializable \<Rightarrow> StreamId \<Rightarrow> 'e InterProcessMessage" where
  "new_deserialized data sid = Deserialized (MessageMetadata sid) data"

record 'e wire =
  w_write_u32 :: "u32 \<Rightarrow> bytes \<Rightarrow> ('e foreign_error + unit) \<times> bytes"
  w_read_u32 :: "bytes \<Rightarrow> u32"
  w_metadata :: "(MessageMetadata, 'e) bincode"
  w_control :: "(ControlMessage, 'e) bincode"

definition HEADER_SIZE :: nat where
  "HEADER_SIZE = 8"

section \<open>The codec of data messages\<close>

datatype DecodeStatus = Header | Metadata nat nat | Data nat

record MessageCodec =
  status :: DecodeStatus
  msg_metadata :: "MessageMetadata option"

definition message_codec_new :: MessageCodec where
  "message_codec_new = \<lparr> status = Header, msg_metadata = None \<rparr>"

text \<open>The outer option is the panic of \<^verbatim>\<open>self.msg_metadata.take().unwrap()\<close>.\<close>

function codec_decode ::
    "'e wire \<Rightarrow> MessageCodec \<Rightarrow> bytes \<Rightarrow>
       ((MessageCodec \<times> bytes) \<times> ('e CodecError + 'e InterProcessMessage option)) option" where
  "codec_decode W self buf =
     (case status self of
        Header \<Rightarrow>
          if HEADER_SIZE \<le> length buf
          then let header = take HEADER_SIZE buf;
                   metadata_size = unat (w_read_u32 W (take 4 header));
                   data_size = unat (w_read_u32 W (take 4 (drop 4 header)))
               in codec_decode W (self \<lparr> status := Metadata metadata_size data_size \<rparr>) (drop HEADER_SIZE buf)
          else Some ((self, buf), Inr None)
      | Metadata metadata_size data_size \<Rightarrow>
          if metadata_size \<le> length buf
          then (case bincode_deserialize (w_metadata W) (take metadata_size buf) of
                  Inl e \<Rightarrow> Some ((self, drop metadata_size buf), Inl (Codec_BincodeError e))
                | Inr metadata \<Rightarrow>
                    codec_decode W (self \<lparr> msg_metadata := Some metadata, status := Data data_size \<rparr>)
                      (drop metadata_size buf))
          else Some ((self, buf), Inr None)
      | Data data_size \<Rightarrow>
          if data_size \<le> length buf
          then (case msg_metadata self of
                  None \<Rightarrow> None
                | Some metadata \<Rightarrow>
                    Some ((self \<lparr> msg_metadata := None, status := Header \<rparr>, drop data_size buf),
                          Inr (Some (new_serialized (take data_size buf) metadata))))
          else Some ((self, buf), Inr None))"
  by pat_completeness auto
termination
  by (relation "measure (\<lambda>(W, self, buf). case status self of Header \<Rightarrow> 2 | Metadata _ _ \<Rightarrow> 1 | Data _ \<Rightarrow> 0)")
    auto

declare codec_decode.simps [simp del]

text \<open>The two sizes and the metadata, as \<^verbatim>\<open>encode\<close> and the Zenoh encodings write them.\<close>

definition write_header ::
    "'e wire \<Rightarrow> u64 \<Rightarrow> nat \<Rightarrow> MessageMetadata \<Rightarrow> bytes \<Rightarrow> bytes \<times> ('e CodecError + unit)" where
  "write_header W metadata_size data_size metadata buf =
     (case w_write_u32 W (ucast metadata_size) buf of
        (Inl e, buf) \<Rightarrow> (buf, Inl (codec_from_io e))
      | (Inr _, buf) \<Rightarrow>
          (case w_write_u32 W (of_nat data_size) buf of
             (Inl e, buf) \<Rightarrow> (buf, Inl (codec_from_io e))
           | (Inr _, buf) \<Rightarrow>
               (case bincode_serialize_into (w_metadata W) metadata buf of
                  (Inl e, buf) \<Rightarrow> (buf, Inl (codec_from_bincode e))
                | (Inr _, buf) \<Rightarrow> (buf, Inr ()))))"

text \<open>\<open>None\<close> is a panic: \<^verbatim>\<open>unreachable!()\<close> or one of the two \<^verbatim>\<open>unwrap\<close>s.\<close>

definition codec_encode ::
    "'e wire \<Rightarrow> 'e InterProcessMessage \<Rightarrow> bytes \<Rightarrow> (bytes \<times> ('e CodecError + unit)) option" where
  "codec_encode W msg buf =
     (case msg of
        Serialized _ _ \<Rightarrow> None
      | Deserialized metadata data \<Rightarrow>
          (case bincode_serialized_size (w_metadata W) metadata of
             Inl e \<Rightarrow> Some (buf, Inl (codec_from_bincode e))
           | Inr metadata_size \<Rightarrow>
               (case dyn_serialized_size data of
                  Inl _ \<Rightarrow> None
                | Inr data_size \<Rightarrow>
                    (case write_header W metadata_size data_size metadata buf of
                       (buf, Inl e) \<Rightarrow> Some (buf, Inl e)
                     | (buf, Inr _) \<Rightarrow>
                         (case dyn_encode_into data buf of
                            (Inl _, _) \<Rightarrow> None
                          | (Inr _, buf) \<Rightarrow> Some (buf, Inr ()))))))"

section \<open>The codec of control messages\<close>

record ControlMessageCodec =
  msg_size :: "nat option"

definition control_codec_new :: ControlMessageCodec where
  "control_codec_new = \<lparr> msg_size = None \<rparr>"

definition try_read_msg_size :: "'e wire \<Rightarrow> bytes \<Rightarrow> bytes \<times> nat option" where
  "try_read_msg_size W buf =
     (if 4 \<le> length buf then (drop 4 buf, Some (unat (w_read_u32 W (take 4 buf)))) else (buf, None))"

definition try_read_message ::
    "'e wire \<Rightarrow> ControlMessageCodec \<Rightarrow> bytes \<Rightarrow> ((ControlMessageCodec \<times> bytes) \<times> ControlMessage option) option" where
  "try_read_message W self buf =
     (case msg_size self of
        None \<Rightarrow> None
      | Some n \<Rightarrow>
          if n \<le> length buf
          then (case bincode_deserialize (w_control W) (take n buf) of
                  Inl _ \<Rightarrow> None
                | Inr msg \<Rightarrow> Some ((self \<lparr> msg_size := None \<rparr>, drop n buf), Some msg))
          else Some ((self, buf), None))"

definition control_decode ::
    "'e wire \<Rightarrow> ControlMessageCodec \<Rightarrow> bytes \<Rightarrow>
       ((ControlMessageCodec \<times> bytes) \<times> ('e CodecError + ControlMessage option)) option" where
  "control_decode W self buf =
     (case msg_size self of
        Some _ \<Rightarrow> map_option (map_prod id Inr) (try_read_message W self buf)
      | None \<Rightarrow>
          (case try_read_msg_size W buf of
             (buf, Some n) \<Rightarrow> map_option (map_prod id Inr) (try_read_message W (self \<lparr> msg_size := Some n \<rparr>) buf)
           | (buf, None) \<Rightarrow> Some ((self, buf), Inr None)))"

definition control_encode :: "'e wire \<Rightarrow> ControlMessage \<Rightarrow> bytes \<Rightarrow> bytes \<times> ('e CodecError + unit)" where
  "control_encode W msg buf =
     (case bincode_serialized_size (w_control W) msg of
        Inl e \<Rightarrow> (buf, Inl (codec_from_bincode e))
      | Inr sz \<Rightarrow>
          (case w_write_u32 W (ucast sz) [] of
             (Inl e, _) \<Rightarrow> (buf, Inl (codec_from_io e))
           | (Inr _, size_buffer) \<Rightarrow>
               let buf = buf @ size_buffer
               in (case bincode_serialize (w_control W) msg of
                     Inl e \<Rightarrow> (buf, Inl (codec_from_bincode e))
                   | Inr serialized_msg \<Rightarrow> (buf @ serialized_msg, Inr ()))))"

section \<open>The Zenoh encodings\<close>

text \<open>Zenoh's buffers and its shared memory, and the \<^verbatim>\<open>Display\<close> text of its errors.\<close>

record ('r, 'sb, 'shm, 'e) zenoh_buf =
  rbuf_from :: "bytes \<Rightarrow> 'r"
  rbuf_as_slices :: "'r \<Rightarrow> bytes list"
  rbuf_get_slice :: "'r \<Rightarrow> nat \<Rightarrow> bytes option"
  rbuf_to_vec :: "'r \<Rightarrow> bytes"
  rbuf_into_shm :: "'r \<Rightarrow> 'shm \<Rightarrow> ('e foreign_error + 'sb) \<times> 'shm"
  shm_alloc :: "nat \<Rightarrow> 'shm \<Rightarrow> 'sb option \<times> 'shm"
  sbuf_as_slice :: "'sb \<Rightarrow> bytes"
  sbuf_write :: "'sb \<Rightarrow> bytes \<Rightarrow> 'sb"
  zerror_display :: "'e foreign_error \<Rightarrow> string"

definition malformed :: "'e CodecError" where
  "malformed = Codec_BincodeError (BincodeCustom ''Malformed message'')"

definition control_into_rbuf :: "('r, 'sb, 'shm, 'e) zenoh_buf \<Rightarrow> 'e wire \<Rightarrow> ControlMessage \<Rightarrow> 'e CodecError + 'r" where
  "control_into_rbuf Z W msg =
     map_sum codec_from_bincode (rbuf_from Z) (bincode_serialize (w_control W) msg)"

definition control_from_rbuf :: "('r, 'sb, 'shm, 'e) zenoh_buf \<Rightarrow> 'e wire \<Rightarrow> 'r \<Rightarrow> 'e CodecError + ControlMessage" where
  "control_from_rbuf Z W buf = map_err codec_from_bincode (bincode_deserialize (w_control W) (rbuf_to_vec Z buf))"

text \<open>
  The bytes both \<^verbatim>\<open>into_rbuf\<close> and \<^verbatim>\<open>into_sbuf\<close> lay out in a vector, with the length they reserve;
  \<open>fmt\<close> is the \<^verbatim>\<open>Debug\<close> formatting of errors.
\<close>

definition message_sizes ::
    "('e CommunicationError \<Rightarrow> string) \<Rightarrow> 'e wire \<Rightarrow> 'e InterProcessMessage \<Rightarrow> 'e CodecError + u64 \<times> nat" where
  "message_sizes fmt W msg =
     (case msg of
        Deserialized metadata data \<Rightarrow>
          (case bincode_serialized_size (w_metadata W) metadata of
             Inl e \<Rightarrow> Inl (codec_from_bincode e)
           | Inr metadata_size \<Rightarrow>
               (case dyn_serialized_size data of
                  Inl e \<Rightarrow> Inl (Codec_BincodeError (BincodeCustom (fmt e)))
                | Inr data_size \<Rightarrow> Inr (metadata_size, data_size)))
      | Serialized metadata bs \<Rightarrow>
          (case bincode_serialized_size (w_metadata W) metadata of
             Inl e \<Rightarrow> Inl (codec_from_bincode e)
           | Inr metadata_size \<Rightarrow> Inr (metadata_size, length bs)))"

definition message_bytes :: "'e wire \<Rightarrow> u64 \<Rightarrow> nat \<Rightarrow> 'e InterProcessMessage \<Rightarrow> 'e CodecError + bytes" where
  "message_bytes W metadata_size data_size msg =
     (case msg of
        Deserialized metadata data \<Rightarrow>
          (case write_header W metadata_size data_size metadata [] of
             (_, Inl e) \<Rightarrow> Inl e
           | (buf, Inr _) \<Rightarrow> map_sum id (\<lambda>enc_data. buf @ enc_data) (dyn_encode_into_vec data))
      | Serialized metadata bs \<Rightarrow>
          (case write_header W metadata_size data_size metadata [] of
             (_, Inl e) \<Rightarrow> Inl e
           | (buf, Inr _) \<Rightarrow> Inr (buf @ bs)))"

definition into_rbuf ::
    "('e CommunicationError \<Rightarrow> string) \<Rightarrow> ('r, 'sb, 'shm, 'e) zenoh_buf \<Rightarrow> 'e wire \<Rightarrow> 'e InterProcessMessage \<Rightarrow>
       'e CodecError + 'r" where
  "into_rbuf fmt Z W msg =
     (case message_sizes fmt W msg of
        Inl e \<Rightarrow> Inl e
      | Inr (metadata_size, data_size) \<Rightarrow>
          map_sum id (rbuf_from Z) (message_bytes W metadata_size data_size msg))"

text \<open>
  \<^verbatim>\<open>slice[0..tot_len].copy_from_slice(&buf)\<close> panics when the slice is shorter than \<^verbatim>\<open>tot_len\<close> or
  the vector does not have that length.
\<close>

definition into_sbuf ::
    "('e CommunicationError \<Rightarrow> string) \<Rightarrow> ('r, 'sb, 'shm, 'e) zenoh_buf \<Rightarrow> 'e wire \<Rightarrow> 'e InterProcessMessage \<Rightarrow>
       'shm \<Rightarrow> ('shm \<times> ('e CodecError + 'sb)) option" where
  "into_sbuf fmt Z W msg shm =
     (case message_sizes fmt W msg of
        Inl e \<Rightarrow> Some (shm, Inl e)
      | Inr (metadata_size, data_size) \<Rightarrow>
          let tot_len = HEADER_SIZE + unat metadata_size + data_size
          in (case shm_alloc Z tot_len shm of
                (None, shm) \<Rightarrow> Some (shm, Inl (Codec_ZenohSharedMemoryError ''Unable to allocate Buffer''))
              | (Some sbuf, shm) \<Rightarrow>
                  (case message_bytes W metadata_size data_size msg of
                     Inl e \<Rightarrow> Some (shm, Inl e)
                   | Inr buf \<Rightarrow>
                       if tot_len \<le> length (sbuf_as_slice Z sbuf) \<and> length buf = tot_len
                       then Some (shm, Inr (sbuf_write Z sbuf (buf @ drop tot_len (sbuf_as_slice Z sbuf))))
                       else None)))"

text \<open>A range of a slice; \<open>None\<close> is the panic of an index out of bounds.\<close>

definition slice :: "nat \<Rightarrow> nat \<Rightarrow> 'a list \<Rightarrow> 'a list option" where
  "slice i j xs = (if i \<le> j \<and> j \<le> length xs then Some (take (j - i) (drop i xs)) else None)"

definition from_slice :: "'e wire \<Rightarrow> bytes \<Rightarrow> ('e CodecError + 'e InterProcessMessage) option" where
  "from_slice W buf =
     (if HEADER_SIZE \<le> length buf
      then let header = take HEADER_SIZE buf;
               metadata_size = unat (w_read_u32 W (take 4 header));
               data_size = unat (w_read_u32 W (take 4 (drop 4 header)))
           in (case slice HEADER_SIZE (HEADER_SIZE + metadata_size) buf of
                 None \<Rightarrow> None
               | Some metadata_buf \<Rightarrow>
                   if length metadata_buf < metadata_size then Some (Inl malformed)
                   else (case bincode_deserialize (w_metadata W) metadata_buf of
                           Inl e \<Rightarrow> Some (Inl (Codec_BincodeError e))
                         | Inr metadata \<Rightarrow>
                             (let data_buf = drop (HEADER_SIZE + metadata_size) buf
                              in if length data_buf < data_size then Some (Inl malformed)
                                 else map_option (\<lambda>bs. Inr (new_serialized bs metadata))
                                        (slice (HEADER_SIZE + metadata_size)
                                           (HEADER_SIZE + metadata_size + data_size) buf))))
      else Some (Inl malformed))"

definition from_rbuf :: "('r, 'sb, 'shm, 'e) zenoh_buf \<Rightarrow> 'e wire \<Rightarrow> 'r \<Rightarrow> ('e CodecError + 'e InterProcessMessage) option" where
  "from_rbuf Z W rbuf =
     (if length (rbuf_as_slices Z rbuf) = 1
      then (case rbuf_get_slice Z rbuf 0 of
              None \<Rightarrow> Some (Inl malformed)
            | Some buf \<Rightarrow> from_slice W buf)
      else from_slice W (rbuf_to_vec Z rbuf))"

definition from_sbuf ::
    "('r, 'sb, 'shm, 'e) zenoh_buf \<Rightarrow> 'e wire \<Rightarrow> 'r \<Rightarrow> 'shm \<Rightarrow>
       ('shm \<times> ('e CodecError + 'e InterProcessMessage)) option" where
  "from_sbuf Z W buf shm =
     (case rbuf_into_shm Z buf shm of
        (Inl e, shm) \<Rightarrow>
          Some (shm, Inl (Codec_ZenohSharedMemoryError (''Unable to allocate Buffer: '' @ zerror_display Z e)))
      | (Inr sbuf, shm) \<Rightarrow> map_option (Pair shm) (from_slice W (sbuf_as_slice Z sbuf)))"

end
