(* ===== verification/Codec_Properties.thy ===== *)
theory Codec_Properties
  imports Codec
begin

text \<open>
  What the codecs guarantee. The locales state what is relied on: \<open>wire_format\<close> is the
  documented behaviour of \<^verbatim>\<open>byteorder\<close> and \<^verbatim>\<open>bincode\<close>, \<open>decoder\<close> that a decoder does not depend on
  where its input is cut, \<open>framing\<close> that it inverts an encoding frame by frame. Both codecs of the
  sources are shown to be instances of the last two.
\<close>

section \<open>Decoders\<close>

text \<open>
  How \<^verbatim>\<open>FramedRead\<close> drives a decoder, over the bytes that are buffered and the chunks still to be
  received: it decodes until the decoder asks for more bytes, then appends the next chunk.
\<close>

inductive reads ::
    "('s \<Rightarrow> bytes \<Rightarrow> (('s \<times> bytes) \<times> ('e + 'm option)) option) \<Rightarrow> 's \<Rightarrow> bytes \<Rightarrow> bytes list \<Rightarrow> 'm list \<Rightarrow> bool"
  for dec where
  reads_item: "dec st buf = Some ((st', buf'), Inr (Some m)) \<Longrightarrow> reads dec st' buf' chunks ms \<Longrightarrow>
    reads dec st buf chunks (m # ms)"
| reads_more: "dec st buf = Some ((st', buf'), Inr None) \<Longrightarrow> reads dec st' (buf' @ c) chunks ms \<Longrightarrow>
    reads dec st buf (c # chunks) ms"
| reads_done: "dec st buf = Some ((st', buf'), Inr None) \<Longrightarrow> reads dec st buf [] []"

inductive_cases readsE: "reads dec st buf chunks ms"

lemma reads_cong: "reads dec st1 b1 [] ms \<Longrightarrow> dec st1 b1 = dec st2 b2 \<Longrightarrow> reads dec st2 b2 [] ms"
  by (erule readsE) (auto intro: reads_item[OF sym] reads_done[OF sym])

locale decoder =
  fixes dec :: "'s \<Rightarrow> bytes \<Rightarrow> (('s \<times> bytes) \<times> ('e + 'm option)) option"
  assumes dec_item: "dec st buf = Some ((st', buf'), Inr (Some m)) \<Longrightarrow>
      dec st (buf @ ext) = Some ((st', buf' @ ext), Inr (Some m))"
    and dec_more: "dec st buf = Some ((st', buf'), Inr None) \<Longrightarrow> dec st (buf @ ext) = dec st' (buf' @ ext)"
    and dec_err: "dec st buf = Some ((st', buf'), Inl e) \<Longrightarrow> dec st (buf @ ext) = Some ((st', buf' @ ext), Inl e)"
    and dec_panic: "dec st buf = None \<Longrightarrow> dec st (buf @ ext) = None"
begin

lemma reads_step:
  assumes cut: "\<And>st buf ms. reads dec st (buf @ concat chunks) [] ms \<Longrightarrow> reads dec st buf chunks ms"
  shows "reads dec st (buf @ c @ concat chunks) [] ms \<Longrightarrow> reads dec st buf (c # chunks) ms"
proof (induction ms arbitrary: st buf rule: length_induct)
  case (1 ms)
  let ?ext = "c @ concat chunks"
  consider "dec st buf = None" | st' buf' e where "dec st buf = Some ((st', buf'), Inl e)"
    | st' buf' where "dec st buf = Some ((st', buf'), Inr None)"
    | st' buf' m where "dec st buf = Some ((st', buf'), Inr (Some m))"
    by (metis option.exhaust prod.exhaust sum.exhaust)
  then show ?case
  proof cases
    case 1
    with dec_panic[of st buf ?ext] "1.prems" show ?thesis by (auto elim: readsE)
  next
    case 2
    with dec_err[of st buf st' buf' e ?ext] "1.prems" show ?thesis by (auto elim: readsE)
  next
    case 3
    with dec_more[of st buf st' buf' ?ext] "1.prems" have "reads dec st' ((buf' @ c) @ concat chunks) [] ms"
      by (auto intro: reads_cong)
    from cut[OF this] 3 show ?thesis by (rule reads_more[rotated])
  next
    case 4
    with dec_item[of st buf st' buf' m ?ext] have "dec st (buf @ ?ext) = Some ((st', buf' @ ?ext), Inr (Some m))"
      by simp
    with "1.prems" obtain ms' where ms: "ms = m # ms'" "reads dec st' (buf' @ ?ext) [] ms'"
      by (auto elim: readsE)
    from "1.IH" ms have "reads dec st' buf' (c # chunks) ms'" by simp
    with 4 ms(1) show ?thesis by (auto intro: reads_item)
  qed
qed

lemma reads_chunks: "reads dec st (buf @ concat chunks) [] ms \<Longrightarrow> reads dec st buf chunks ms"
proof (induction chunks arbitrary: st buf ms)
  case Nil
  then show ?case by simp
next
  case (Cons c chunks)
  from Cons.prems have "reads dec st (buf @ c @ concat chunks) [] ms" by simp
  with reads_step[of chunks st buf c ms] Cons.IH show ?case by blast
qed

lemma reads_determined: "reads dec st buf chunks ms \<Longrightarrow> reads dec st buf chunks ms' \<Longrightarrow> ms = ms'"
proof (induction arbitrary: ms' rule: reads.induct)
  case (reads_item st buf st' buf' m chunks ms)
  from reads_item.prems show ?case
    by cases (use reads_item.hyps(1) reads_item.IH in auto)
next
  case (reads_more st buf st' buf' c chunks ms)
  from reads_more.prems show ?case
    by cases (use reads_more.hyps(1) reads_more.IH in auto)
next
  case (reads_done st buf st' buf')
  from reads_done.prems show ?case
    by cases (use reads_done.hyps(1) in auto)
qed

end

text \<open>A decoder that inverts an encoding of the items \<open>ok\<close> holds of.\<close>

locale framing = decoder dec for dec :: "'s \<Rightarrow> bytes \<Rightarrow> (('s \<times> bytes) \<times> ('e + 'm option)) option" +
  fixes start :: 's and ok :: "'x \<Rightarrow> bool" and frame :: "'x \<Rightarrow> bytes" and item :: "'x \<Rightarrow> 'm"
  assumes dec_empty: "dec start [] = Some ((start, []), Inr None)"
    and dec_frame: "ok x \<Longrightarrow> dec start (frame x @ ext) = Some ((start, ext), Inr (Some (item x)))"
begin

lemma reads_frames: "list_all ok xs \<Longrightarrow> reads dec start (concat (map frame xs)) [] (map item xs)"
proof (induction xs)
  case Nil
  show ?case using reads_done[of dec start "[]"] dec_empty by simp
next
  case (Cons x xs)
  then show ?case using dec_frame[of x "concat (map frame xs)"] by (auto intro: reads_item)
qed

lemma reads_cut_frames:
  "list_all ok xs \<Longrightarrow> concat chunks = concat (map frame xs) \<Longrightarrow> reads dec start [] chunks (map item xs)"
  using reads_chunks[of start "[]" chunks "map item xs"] reads_frames[of xs] by simp

end

section \<open>The libraries\<close>

text \<open>Node identifiers are of type \<^verbatim>\<open>usize\<close>, a natural number here that has to fit 64 bits on the wire.\<close>

fun control_wf :: "ControlMessage \<Rightarrow> bool" where
  "control_wf (AllOperatorsInitializedOnNode n) = (n < 2 ^ 64)"
| "control_wf (DataSenderInitialized n) = (n < 2 ^ 64)"
| "control_wf (DataReceiverInitialized n) = (n < 2 ^ 64)"
| "control_wf (ControlSenderInitialized n) = (n < 2 ^ 64)"
| "control_wf (ControlReceiverInitialized n) = (n < 2 ^ 64)"
| "control_wf _ = True"

locale wire_format =
  fixes W :: "'e wire"
  assumes u32: "\<exists>bs. length bs = 4 \<and> w_read_u32 W bs = n \<and> (\<forall>buf. w_write_u32 W n buf = (Inr (), buf @ bs))"
    and metadata: "bincode_format (w_metadata W)"
    and metadata_ok: "\<exists>bs. bincode_serialize (w_metadata W) md = Inr bs \<and> length bs < 2 ^ 32"
    and control: "bincode_format (w_control W)"
    and control_ok: "control_wf c \<Longrightarrow> \<exists>bs. bincode_serialize (w_control W) c = Inr bs \<and> length bs < 2 ^ 32"

text \<open>The bytes a number, the metadata and a control message are written as.\<close>

definition u32_bytes :: "'e wire \<Rightarrow> u32 \<Rightarrow> bytes" where
  "u32_bytes W n = snd (w_write_u32 W n [])"

definition metadata_bytes :: "'e wire \<Rightarrow> MessageMetadata \<Rightarrow> bytes" where
  "metadata_bytes W md = projr (bincode_serialize (w_metadata W) md)"

definition control_bytes :: "'e wire \<Rightarrow> ControlMessage \<Rightarrow> bytes" where
  "control_bytes W c = projr (bincode_serialize (w_control W) c)"

definition message_frame :: "'e wire \<Rightarrow> MessageMetadata \<Rightarrow> bytes \<Rightarrow> bytes" where
  "message_frame W md payload =
     u32_bytes W (of_nat (length (metadata_bytes W md))) @ u32_bytes W (of_nat (length payload)) @
     metadata_bytes W md @ payload"

definition control_frame :: "'e wire \<Rightarrow> ControlMessage \<Rightarrow> bytes" where
  "control_frame W c = u32_bytes W (of_nat (length (control_bytes W c))) @ control_bytes W c"

context wire_format
begin

lemma u32_bytes:
  "length (u32_bytes W n) = 4" "w_read_u32 W (u32_bytes W n) = n"
  "w_write_u32 W n buf = (Inr (), buf @ u32_bytes W n)"
  using u32[of n] by (auto simp: u32_bytes_def)

lemma metadata_bytes:
  "bincode_serialize (w_metadata W) md = Inr (metadata_bytes W md)" "length (metadata_bytes W md) < 2 ^ 32"
  using metadata_ok[of md] by (auto simp: metadata_bytes_def)

lemma metadata_laws:
  "bincode_deserialize (w_metadata W) (metadata_bytes W md) = Inr md"
  "bincode_serialize_into (w_metadata W) md buf = (Inr (), buf @ metadata_bytes W md)"
  "\<exists>n. bincode_serialized_size (w_metadata W) md = Inr n \<and> unat n = length (metadata_bytes W md)"
  using metadata_bytes(1)[of md] bincode_format.deserialize[OF metadata] bincode_format.serialize_into[OF metadata]
    bincode_format.size_eq[OF metadata] by auto

lemma control_bytes:
  "control_wf c \<Longrightarrow> bincode_serialize (w_control W) c = Inr (control_bytes W c)"
  "control_wf c \<Longrightarrow> length (control_bytes W c) < 2 ^ 32"
  using control_ok[of c] by (auto simp: control_bytes_def)

lemma control_laws:
  "control_wf c \<Longrightarrow> bincode_deserialize (w_control W) (control_bytes W c) = Inr c"
  "control_wf c \<Longrightarrow> \<exists>n. bincode_serialized_size (w_control W) c = Inr n \<and> unat n = length (control_bytes W c)"
  using control_bytes(1)[of c] bincode_format.deserialize[OF control] bincode_format.size_eq[OF control] by auto

lemma unat_of_nat_u32: "n < 2 ^ 32 \<Longrightarrow> unat (of_nat n :: u32) = n"
  by (simp add: unat_of_nat)

lemma ucast_size: "unat n = length bs \<Longrightarrow> (ucast n :: u32) = of_nat (length bs)" for n :: u64
  by (metis of_nat_unat)

lemma write_header_eq:
  "bincode_serialized_size (w_metadata W) md = Inr n \<Longrightarrow> write_header W n len md buf =
     (buf @ u32_bytes W (of_nat (length (metadata_bytes W md))) @ u32_bytes W (of_nat len) @ metadata_bytes W md, Inr ())"
  using metadata_laws(3)[of md] ucast_size[of n "metadata_bytes W md"]
  by (auto simp: write_header_def u32_bytes metadata_laws)

end

section \<open>The codec of data messages\<close>

text \<open>One unfolding per state of the codec.\<close>

lemma decode_Data:
  "codec_decode W \<lparr> status = Data n, msg_metadata = md \<rparr> buf =
     (if n \<le> length buf
      then map_option (\<lambda>md. ((message_codec_new, drop n buf), Inr (Some (Serialized md (take n buf))))) md
      else Some ((\<lparr> status = Data n, msg_metadata = md \<rparr>, buf), Inr None))"
  by (subst codec_decode.simps) (simp add: message_codec_new_def new_serialized_def split: option.split)

lemma decode_Metadata:
  "codec_decode W \<lparr> status = Metadata m n, msg_metadata = md \<rparr> buf =
     (if m \<le> length buf
      then (case bincode_deserialize (w_metadata W) (take m buf) of
              Inl e \<Rightarrow> Some ((\<lparr> status = Metadata m n, msg_metadata = md \<rparr>, drop m buf), Inl (Codec_BincodeError e))
            | Inr md' \<Rightarrow> codec_decode W \<lparr> status = Data n, msg_metadata = Some md' \<rparr> (drop m buf))
      else Some ((\<lparr> status = Metadata m n, msg_metadata = md \<rparr>, buf), Inr None))"
  by (subst codec_decode.simps) (simp split: sum.split)

lemma decode_Header:
  "codec_decode W \<lparr> status = Header, msg_metadata = md \<rparr> buf =
     (if 8 \<le> length buf
      then codec_decode W \<lparr> status = Metadata (unat (w_read_u32 W (take 4 buf))) (unat (w_read_u32 W (take 4 (drop 4 buf)))),
             msg_metadata = md \<rparr> (drop 8 buf)
      else Some ((\<lparr> status = Header, msg_metadata = md \<rparr>, buf), Inr None))"
  by (subst codec_decode.simps) (simp add: HEADER_SIZE_def Let_def drop_take)

lemmas decode_simps = decode_Header decode_Metadata decode_Data

text \<open>The locale's laws as one statement about a codec and a buffer, proved state by state.\<close>

definition cut_insensitive ::
    "('s \<Rightarrow> bytes \<Rightarrow> (('s \<times> bytes) \<times> ('e + 'm option)) option) \<Rightarrow> 's \<Rightarrow> bytes \<Rightarrow> bytes \<Rightarrow> bool" where
  "cut_insensitive dec st buf ext \<longleftrightarrow>
     dec st (buf @ ext) =
       (case dec st buf of
          None \<Rightarrow> None
        | Some ((st', buf'), Inl e) \<Rightarrow> Some ((st', buf' @ ext), Inl e)
        | Some ((st', buf'), Inr None) \<Rightarrow> dec st' (buf' @ ext)
        | Some ((st', buf'), Inr (Some m)) \<Rightarrow> Some ((st', buf' @ ext), Inr (Some m)))"

lemma decoderI: "(\<And>st buf ext. cut_insensitive dec st buf ext) \<Longrightarrow> decoder dec"
  by unfold_locales (simp_all add: cut_insensitive_def)

lemma cut_Data: "cut_insensitive (codec_decode W) \<lparr> status = Data n, msg_metadata = md \<rparr> buf ext"
  by (cases md) (auto simp: cut_insensitive_def decode_Data)

lemma cut_Metadata: "cut_insensitive (codec_decode W) \<lparr> status = Metadata m n, msg_metadata = md \<rparr> buf ext"
proof (cases "m \<le> length buf")
  case True
  then show ?thesis
    using cut_Data[of W n "Some (projr (bincode_deserialize (w_metadata W) (take m buf)))" "drop m buf" ext]
    by (auto simp: cut_insensitive_def decode_Metadata split: sum.splits)
next
  case False
  then show ?thesis by (simp add: cut_insensitive_def decode_Metadata)
qed

lemma cut_Header: "cut_insensitive (codec_decode W) \<lparr> status = Header, msg_metadata = md \<rparr> buf ext"
proof (cases "8 \<le> length buf")
  case True
  then show ?thesis
    using cut_Metadata[of W "unat (w_read_u32 W (take 4 buf))" "unat (w_read_u32 W (take 4 (drop 4 buf)))" md "drop 8 buf" ext]
    by (simp add: cut_insensitive_def decode_Header)
next
  case False
  then show ?thesis by (simp add: cut_insensitive_def decode_Header)
qed

interpretation message_decoder: decoder "codec_decode W"
proof (rule decoderI)
  fix st :: MessageCodec and buf ext :: bytes
  obtain s md where "st = \<lparr> status = s, msg_metadata = md \<rparr>" by (cases st) simp
  then show "cut_insensitive (codec_decode W) st buf ext"
    by (cases s) (simp_all add: cut_Header cut_Metadata cut_Data)
qed

lemma decode_message_frame:
  assumes "wire_format W" "length payload < 2 ^ 32"
  shows "codec_decode W message_codec_new (message_frame W md payload @ ext) =
     Some ((message_codec_new, ext), Inr (Some (Serialized md payload)))"
  using assms(2) wire_format.metadata_bytes(2)[OF assms(1), of md]
  by (simp add: message_codec_new_def message_frame_def decode_simps wire_format.u32_bytes[OF assms(1)]
      wire_format.unat_of_nat_u32[OF assms(1)] wire_format.metadata_bytes[OF assms(1)] wire_format.metadata_laws[OF assms(1)])

lemma decode_nothing: "codec_decode W message_codec_new [] = Some ((message_codec_new, []), Inr None)"
  by (simp add: message_codec_new_def decode_Header)

lemma encode_message_frame:
  assumes "wire_format W" "serializer L" "encode L d = Inr payload"
  shows "codec_encode W (new_deserialized (serializable fmt L d) sid) buf =
     Some (buf @ message_frame W (MessageMetadata sid) payload, Inr ())"
  using wire_format.metadata_laws(3)[OF assms(1), of "MessageMetadata sid"]
  by (auto simp: codec_encode_def new_deserialized_def serializable_def message_frame_def
      serializer.serialized_size_eq[OF assms(2,3)] serializer.encode_into_eq[OF assms(2,3)]
      wire_format.write_header_eq[OF assms(1)])

lemma message_framing:
  "wire_format W \<Longrightarrow> framing (codec_decode W) message_codec_new (\<lambda>(md, payload). length payload < 2 ^ 32)
     (\<lambda>(md, payload). message_frame W md payload) (\<lambda>(md, payload). Serialized md payload)"
  by unfold_locales (auto simp: decode_message_frame decode_nothing)

section \<open>The codec of control messages\<close>

interpretation control_decoder: decoder "control_decode W"
proof (rule decoderI)
  fix st :: ControlMessageCodec and buf ext :: bytes
  obtain s where "st = \<lparr> msg_size = s \<rparr>" by (cases st) simp
  then show "cut_insensitive (control_decode W) st buf ext"
    by (cases s)
      (auto simp: cut_insensitive_def control_decode_def try_read_message_def try_read_msg_size_def split: sum.splits)
qed

lemma decode_control_frame:
  assumes "wire_format W" "control_wf c"
  shows "control_decode W control_codec_new (control_frame W c @ ext) = Some ((control_codec_new, ext), Inr (Some c))"
  using wire_format.control_bytes(2)[OF assms]
  by (simp add: control_codec_new_def control_frame_def control_decode_def try_read_msg_size_def
      try_read_message_def wire_format.u32_bytes[OF assms(1)] wire_format.unat_of_nat_u32[OF assms(1)]
      wire_format.control_laws(1)[OF assms])

lemma decode_control_nothing: "control_decode W control_codec_new [] = Some ((control_codec_new, []), Inr None)"
  by (simp add: control_codec_new_def control_decode_def try_read_msg_size_def)

lemma encode_control_frame:
  assumes "wire_format W" "control_wf c"
  shows "control_encode W c buf = (buf @ control_frame W c, Inr ())"
  using wire_format.control_laws(2)[OF assms] wire_format.ucast_size[OF assms(1), of _ "control_bytes W c"]
  by (auto simp: control_encode_def control_frame_def wire_format.u32_bytes[OF assms(1)] wire_format.control_bytes(1)[OF assms])

lemma control_framing:
  "wire_format W \<Longrightarrow> framing (control_decode W) control_codec_new control_wf (control_frame W) id"
  by unfold_locales (auto simp: decode_control_frame decode_control_nothing)

section \<open>The Zenoh encodings\<close>

text \<open>What is relied on of Zenoh's buffers: a buffer made of bytes holds these bytes, its slices are its
  contents in order, and an allocated shared-memory buffer has at least the requested length.\<close>

locale zenoh_buffers =
  fixes Z :: "('r, 'sb, 'shm, 'e) zenoh_buf"
  assumes to_vec_from: "rbuf_to_vec Z (rbuf_from Z bs) = bs"
    and slices: "concat (rbuf_as_slices Z r) = rbuf_to_vec Z r"
    and get_slice: "rbuf_get_slice Z r i = (if i < length (rbuf_as_slices Z r) then Some (rbuf_as_slices Z r ! i) else None)"
    and alloc: "shm_alloc Z n shm = (Some sb, shm') \<Longrightarrow> n \<le> length (sbuf_as_slice Z sb)"
    and slice_write: "length bs = length (sbuf_as_slice Z sb) \<Longrightarrow> sbuf_as_slice Z (sbuf_write Z sb bs) = bs"
begin

lemma from_rbuf_eq: "from_rbuf Z W r = from_slice W (rbuf_to_vec Z r)"
proof (cases "length (rbuf_as_slices Z r) = 1")
  case True
  then obtain bs where "rbuf_as_slices Z r = [bs]" by (cases "rbuf_as_slices Z r") auto
  with slices[of r] show ?thesis by (simp add: from_rbuf_def get_slice)
qed (simp add: from_rbuf_def)

end

lemma message_bytes_frame:
  assumes "wire_format W" "serializer L" "encode L d = Inr payload"
  shows "\<exists>n. message_sizes fmt W (new_deserialized (serializable fmt L d) sid) = Inr (n, length payload) \<and>
    unat n = length (metadata_bytes W (MessageMetadata sid)) \<and>
    message_bytes W n (length payload) (new_deserialized (serializable fmt L d) sid) =
      Inr (message_frame W (MessageMetadata sid) payload)"
  using wire_format.metadata_laws(3)[OF assms(1), of "MessageMetadata sid"]
  by (auto simp: message_sizes_def message_bytes_def new_deserialized_def serializable_def message_frame_def
      serializer.serialized_size_eq[OF assms(2,3)] serializer.encode_into_vec_eq[OF assms(2,3)]
      wire_format.write_header_eq[OF assms(1)])

lemma length_message_frame:
  "wire_format W \<Longrightarrow> length (message_frame W md payload) = 8 + length (metadata_bytes W md) + length payload"
  by (simp add: message_frame_def wire_format.u32_bytes)

lemma from_slice_frame:
  assumes "wire_format W" "length payload < 2 ^ 32"
  shows "from_slice W (message_frame W md payload @ ext) = Some (Inr (Serialized md payload))"
  using assms(2) wire_format.metadata_bytes(2)[OF assms(1), of md]
  by (simp add: from_slice_def slice_def HEADER_SIZE_def message_frame_def new_serialized_def Let_def drop_take
      wire_format.u32_bytes[OF assms(1)] wire_format.unat_of_nat_u32[OF assms(1)] wire_format.metadata_laws[OF assms(1)])

section \<open>A reference wire format\<close>

text \<open>Big-endian numbers, and fixed encodings of metadata and control messages.\<close>

definition be_bytes :: "nat \<Rightarrow> nat \<Rightarrow> bytes" where
  "be_bytes k n = rev (map (\<lambda>i. of_nat (n div 256 ^ i mod 256)) [0..<k])"

definition be_value :: "bytes \<Rightarrow> nat" where
  "be_value bs = foldl (\<lambda>n b. 256 * n + unat b) 0 bs"

lemma be_value_append: "be_value (bs @ [b]) = 256 * be_value bs + unat b"
  by (simp add: be_value_def)

lemma be_bytes_Suc: "be_bytes (Suc k) n = be_bytes k (n div 256) @ [of_nat (n mod 256)]"
proof -
  have "map (\<lambda>i. of_nat (n div 256 ^ i mod 256) :: u8) [0..<Suc k] =
     of_nat (n mod 256) # map (\<lambda>i. of_nat (n div 256 div 256 ^ i mod 256)) [0..<k]"
    unfolding upt_conv_Cons[OF zero_less_Suc] map_Suc_upt[symmetric]
    by (simp add: div_mult2_eq comp_def)
  then show ?thesis by (simp add: be_bytes_def)
qed

lemma be_value_bytes: "be_value (be_bytes k n) = n mod 256 ^ k"
proof (induction k arbitrary: n)
  case 0
  show ?case by (simp add: be_value_def be_bytes_def)
next
  case (Suc k)
  show ?case
    by (simp add: be_bytes_Suc be_value_append Suc.IH unat_of_nat mod_mult2_eq)
qed

lemma length_be_bytes [simp]: "length (be_bytes k n) = k"
  by (simp add: be_bytes_def)

definition ref_metadata :: "(MessageMetadata, unit) bincode" where
  "ref_metadata =
     ref_bincode (\<lambda>md. be_bytes 16 (unat (md_stream_id md))) (\<lambda>bs. Some (MessageMetadata (of_nat (be_value bs)))) ()"

text \<open>A control message is a tag and an identifier.\<close>

fun control_tag :: "ControlMessage \<Rightarrow> nat \<times> nat" where
  "control_tag (AllOperatorsInitializedOnNode n) = (0, n)"
| "control_tag (OperatorInitialized i) = (1, unat i)"
| "control_tag (RunOperator i) = (2, unat i)"
| "control_tag (DataSenderInitialized n) = (3, n)"
| "control_tag (DataReceiverInitialized n) = (4, n)"
| "control_tag (ControlSenderInitialized n) = (5, n)"
| "control_tag (ControlReceiverInitialized n) = (6, n)"

definition control_untag :: "nat \<times> nat \<Rightarrow> ControlMessage option" where
  "control_untag = (\<lambda>(t, n).
     if t = 0 then Some (AllOperatorsInitializedOnNode n)
     else if t = 1 then Some (OperatorInitialized (of_nat n))
     else if t = 2 then Some (RunOperator (of_nat n))
     else if t = 3 then Some (DataSenderInitialized n)
     else if t = 4 then Some (DataReceiverInitialized n)
     else if t = 5 then Some (ControlSenderInitialized n)
     else if t = 6 then Some (ControlReceiverInitialized n)
     else None)"

definition ref_control :: "(ControlMessage, unit) bincode" where
  "ref_control =
     ref_bincode (\<lambda>c. be_bytes 1 (fst (control_tag c)) @ be_bytes 16 (snd (control_tag c)))
       (\<lambda>bs. control_untag (be_value (take 1 bs), be_value (drop 1 bs))) ()"

definition ref_wire :: "unit wire" where
  "ref_wire = \<lparr> w_write_u32 = (\<lambda>n buf. (Inr (), buf @ be_bytes 4 (unat n))), w_read_u32 = (\<lambda>bs. of_nat (be_value bs)),
     w_metadata = ref_metadata, w_control = ref_control \<rparr>"

lemma unat_less_256: "unat (x :: 128 word) < 256 ^ 16" "unat (y :: u32) < 256 ^ 4"
  using unsigned_less[of x] unsigned_less[of y] by simp_all

lemma control_untag_tag:
  "control_wf c \<Longrightarrow> fst (control_tag c) < 256 \<and> snd (control_tag c) < 256 ^ 16 \<and> control_untag (control_tag c) = Some c"
  using unat_less_256(1) by (cases c) (auto simp: control_untag_def)

interpretation ref_wire: wire_format ref_wire
proof (rule wire_format.intro)
  fix n :: u32 and md :: MessageMetadata and c :: ControlMessage
  show "\<exists>bs. length bs = 4 \<and> w_read_u32 ref_wire bs = n \<and> (\<forall>buf. w_write_u32 ref_wire n buf = (Inr (), buf @ bs))"
    using unat_less_256(2)[of n]
    by (intro exI[of _ "be_bytes 4 (unat n)"]) (simp add: ref_wire_def be_value_bytes)
  show "bincode_format (w_metadata ref_wire)" "bincode_format (w_control ref_wire)"
    by (simp_all add: ref_wire_def ref_metadata_def ref_control_def ref_bincode.bincode_format_axioms)
  show "\<exists>bs. bincode_serialize (w_metadata ref_wire) md = Inr bs \<and> length bs < 2 ^ 32"
    using unat_less_256(1)[of "md_stream_id md"]
    by (simp add: ref_wire_def ref_metadata_def ref_bincode_def be_value_bytes)
  show "\<exists>bs. bincode_serialize (w_control ref_wire) c = Inr bs \<and> length bs < 2 ^ 32" if "control_wf c"
    using control_untag_tag[OF that]
    by (simp add: ref_wire_def ref_control_def ref_bincode_def be_value_bytes)
qed

interpretation ref_message_framing: framing "codec_decode ref_wire" message_codec_new
    "\<lambda>(md, payload). length payload < 2 ^ 32" "\<lambda>(md, payload). message_frame ref_wire md payload"
    "\<lambda>(md, payload). Serialized md payload"
  by (rule message_framing[OF ref_wire.wire_format_axioms])

interpretation ref_control_framing: framing "control_decode ref_wire" control_codec_new control_wf "control_frame ref_wire" id
  by (rule control_framing[OF ref_wire.wire_format_axioms])

definition ref_zenoh :: "(bytes, bytes, unit, unit) zenoh_buf" where
  "ref_zenoh = \<lparr> rbuf_from = id, rbuf_as_slices = (\<lambda>r. [r]), rbuf_get_slice = (\<lambda>r i. if i = 0 then Some r else None),
     rbuf_to_vec = id, rbuf_into_shm = (\<lambda>r shm. (Inr r, shm)), shm_alloc = (\<lambda>n shm. (Some (replicate n 0), shm)),
     sbuf_as_slice = id, sbuf_write = (\<lambda>_ bs. bs), zerror_display = (\<lambda>_. []) \<rparr>"

interpretation ref_zenoh: zenoh_buffers ref_zenoh
  by unfold_locales (auto simp: ref_zenoh_def)

text \<open>A type of data for the examples: vectors of bytes, serialized as they are.\<close>

definition ref_bytes :: "(bytes, unit) serde" where
  "ref_bytes = ref_serde False id Some ()"

lemma ref_bytes_serializer: "serializer ref_bytes"
  unfolding ref_bytes_def by (rule ref_serde.serializer_axioms)

lemma ref_bytes_encode: "length bs < 2 ^ 64 \<Longrightarrow> encode ref_bytes bs = Inr bs"
  by (simp add: encode_def ref_bytes_def ref_serde_def ref_bincode_def)

section \<open>Properties\<close>

text \<open>Encoding a sequence of messages into one buffer, as a sender does.\<close>

fun codec_encode_all :: "'e wire \<Rightarrow> 'e InterProcessMessage list \<Rightarrow> bytes \<Rightarrow> bytes option" where
  "codec_encode_all W [] buf = Some buf"
| "codec_encode_all W (m # ms) buf =
     (case codec_encode W m buf of Some (buf', Inr _) \<Rightarrow> codec_encode_all W ms buf' | _ \<Rightarrow> None)"

fun control_encode_all :: "'e wire \<Rightarrow> ControlMessage list \<Rightarrow> bytes \<Rightarrow> bytes option" where
  "control_encode_all W [] buf = Some buf"
| "control_encode_all W (m # ms) buf =
     (case control_encode W m buf of (buf', Inr _) \<Rightarrow> control_encode_all W ms buf' | _ \<Rightarrow> None)"

text \<open>What a receiver makes of a decoded message.\<close>

fun received :: "('d, 'e) serde \<Rightarrow> 'e InterProcessMessage \<Rightarrow> (StreamId \<times> 'd) option" where
  "received L (Serialized md bs) =
     (case decode_msg L bs of Inr m \<Rightarrow> Some (md_stream_id md, deserialized m) | Inl _ \<Rightarrow> None)"
| "received L (Deserialized _ _) = None"

lemma codec_encode_all_frames:
  assumes "wire_format W" "serializer L"
  shows "list_all2 (\<lambda>(sid, d) (md, p). md = MessageMetadata sid \<and> encode L d = Inr p) xs ps \<Longrightarrow>
    codec_encode_all W (map (\<lambda>(sid, d). new_deserialized (serializable fmt L d) sid) xs) buf =
      Some (buf @ concat (map (\<lambda>(md, p). message_frame W md p) ps))"
  by (induction xs ps arbitrary: buf rule: list_all2_induct)
    (auto simp: encode_message_frame[OF assms])

lemma received_serialized:
  assumes "serializer L" "encode L d = Inr p"
  shows "received L (Serialized (MessageMetadata sid) p) = Some (sid, d)"
  using serializer.decode_encode[OF assms] by (cases "decode_msg L p") auto

lemma control_encode_all_frames:
  assumes "wire_format W"
  shows "list_all control_wf ms \<Longrightarrow> control_encode_all W ms buf = Some (buf @ concat (map (control_frame W) ms))"
  by (induction ms arbitrary: buf) (auto simp: encode_control_frame[OF assms])

text \<open>C27. Over TCP every sequence of data messages arrives as it was sent. Encoding the messages one
  after the other into a buffer succeeds, and however the network cuts the bytes into chunks, the
  decoder, driven chunk by chunk, returns for each message in order a serialized message that carries
  the stream the message was sent on and bytes that deserialize to its data. Relied on: the
  documented behaviour of byteorder, bincode and Abomonation; that the data serializes, in less
  than \<open>2 ^ 32\<close> bytes.\<close>

theorem message_codec_roundtrip:
  assumes wire: "wire_format W" and ser: "serializer L"
    and ok: "list_all (\<lambda>(sid, d). \<exists>p. encode L d = Inr p \<and> length p < 2 ^ 32) xs"
  shows "\<exists>buf. codec_encode_all W (map (\<lambda>(sid, d). new_deserialized (serializable fmt L d) sid) xs) [] = Some buf \<and>
    (\<forall>chunks. concat chunks = buf \<longrightarrow>
      (\<exists>ms. reads (codec_decode W) message_codec_new [] chunks ms \<and> map (received L) ms = map Some xs))"
proof -
  define ps where "ps = map (\<lambda>(sid, d). (MessageMetadata sid, projr (encode L d))) xs"
  let ?buf = "concat (map (\<lambda>(md, p). message_frame W md p) ps)"
  let ?ms = "map (\<lambda>(md, p). Serialized md p :: 'a InterProcessMessage) ps"
  have "list_all2 (\<lambda>(sid, d) (md, p). md = MessageMetadata sid \<and> encode L d = Inr p) xs ps"
    using ok unfolding ps_def list_all2_map2 by (induction xs) auto
  from codec_encode_all_frames[OF wire ser this, of fmt "[]"]
  have enc: "codec_encode_all W (map (\<lambda>(sid, d). new_deserialized (serializable fmt L d) sid) xs) [] = Some ?buf"
    by simp
  have "list_all (\<lambda>(md, payload). length payload < 2 ^ 32) ps"
    using ok unfolding ps_def by (auto simp: list_all_iff)
  with framing.reads_cut_frames[OF message_framing[OF wire]]
  have "concat chunks = ?buf \<Longrightarrow> reads (codec_decode W) message_codec_new [] chunks ?ms" for chunks by blast
  moreover have "map (received L) ?ms = map Some xs"
    using ok unfolding ps_def by (induction xs) (auto simp: received_serialized[OF ser] simp del: received.simps)
  ultimately show ?thesis using enc by blast
qed

theorem message_codec_roundtrip_witness:
  "\<exists>buf. codec_encode_all ref_wire (map (\<lambda>(sid, d). new_deserialized (serializable (\<lambda>_. []) ref_bytes d) sid)
      [(7, [1, 2, 3]), (8, [])]) [] = Some buf \<and>
    (\<forall>chunks. concat chunks = buf \<longrightarrow>
      (\<exists>ms. reads (codec_decode ref_wire) message_codec_new [] chunks ms \<and>
        map (received ref_bytes) ms = [Some (7, [1, 2, 3]), Some (8, [])]))"
  using message_codec_roundtrip[OF ref_wire.wire_format_axioms ref_bytes_serializer,
      of "[(7, [1, 2, 3]), (8, [])]" "\<lambda>_. []"]
  by (simp add: ref_bytes_encode)

text \<open>The control channel is framed the same way: a sequence of control messages is encoded without
  error, and every cutting of the bytes into chunks gives the same sequence back.\<close>

theorem control_codec_roundtrip:
  assumes "wire_format W" and "list_all control_wf ms"
  shows "\<exists>buf. control_encode_all W ms [] = Some buf \<and>
    (\<forall>chunks. concat chunks = buf \<longrightarrow> reads (control_decode W) control_codec_new [] chunks ms)"
  using control_encode_all_frames[OF assms, of "[]"]
    framing.reads_cut_frames[OF control_framing[OF assms(1)] assms(2)]
  by simp

theorem control_codec_roundtrip_witness:
  "\<exists>buf. control_encode_all ref_wire [RunOperator 3, DataSenderInitialized 1] [] = Some buf \<and>
    (\<forall>chunks. concat chunks = buf \<longrightarrow>
       reads (control_decode ref_wire) control_codec_new [] chunks [RunOperator 3, DataSenderInitialized 1])"
  using control_codec_roundtrip[OF ref_wire.wire_format_axioms, of "[RunOperator 3, DataSenderInitialized 1]"] by simp

lemma zenoh_encodings:
  assumes "wire_format W" "serializer L" "zenoh_buffers Z" "encode L d = Inr p" "length p < 2 ^ 32"
  shows "\<exists>r m. into_rbuf fmt Z W (new_deserialized (serializable fmt L d) sid) = Inr r \<and>
      from_rbuf Z W r = Some (Inr m) \<and> received L m = Some (sid, d)"
    and "\<exists>shm' res. into_sbuf fmt Z W (new_deserialized (serializable fmt L d) sid) shm = Some (shm', res) \<and>
      (\<forall>sb. res = Inr sb \<longrightarrow>
         (\<exists>m. from_slice W (sbuf_as_slice Z sb) = Some (Inr m) \<and> received L m = Some (sid, d)))"
proof -
  let ?frame = "message_frame W (MessageMetadata sid) p"
  note frame = from_slice_frame[OF assms(1,5), of "MessageMetadata sid"] received_serialized[OF assms(2,4), of sid]
  obtain n where n: "message_sizes fmt W (new_deserialized (serializable fmt L d) sid) = Inr (n, length p)"
      "unat n = length (metadata_bytes W (MessageMetadata sid))"
      "message_bytes W n (length p) (new_deserialized (serializable fmt L d) sid) = Inr ?frame"
    using message_bytes_frame[OF assms(1,2,4), of fmt sid] by blast
  show "\<exists>r m. into_rbuf fmt Z W (new_deserialized (serializable fmt L d) sid) = Inr r \<and>
      from_rbuf Z W r = Some (Inr m) \<and> received L m = Some (sid, d)"
    using n frame frame(1)[of "[]"]
    by (simp add: into_rbuf_def zenoh_buffers.from_rbuf_eq[OF assms(3)] zenoh_buffers.to_vec_from[OF assms(3)])
  show "\<exists>shm' res. into_sbuf fmt Z W (new_deserialized (serializable fmt L d) sid) shm = Some (shm', res) \<and>
      (\<forall>sb. res = Inr sb \<longrightarrow>
         (\<exists>m. from_slice W (sbuf_as_slice Z sb) = Some (Inr m) \<and> received L m = Some (sid, d)))"
  proof (cases "shm_alloc Z (length ?frame) shm")
    case (Pair r shm')
    then show ?thesis
      using n frame zenoh_buffers.alloc[OF assms(3), of "length ?frame" shm]
      by (cases r)
        (auto simp: into_sbuf_def length_message_frame[OF assms(1)] HEADER_SIZE_def
          zenoh_buffers.slice_write[OF assms(3)])
  qed
qed

text \<open>The Zenoh encodings round-trip as well, through a plain buffer and through shared memory: the
  buffer decodes to the serialized message with the same stream and with bytes that deserialize to
  the data, and laying the message out in an allocated shared-memory buffer never panics.\<close>

theorem zenoh_roundtrip:
  assumes "wire_format W" "serializer L" "zenoh_buffers Z" "encode L d = Inr p" "length p < 2 ^ 32"
  shows "(\<exists>r m. into_rbuf fmt Z W (new_deserialized (serializable fmt L d) sid) = Inr r \<and>
      from_rbuf Z W r = Some (Inr m) \<and> received L m = Some (sid, d)) \<and>
    (\<exists>shm' res. into_sbuf fmt Z W (new_deserialized (serializable fmt L d) sid) shm = Some (shm', res) \<and>
      (\<forall>sb. res = Inr sb \<longrightarrow>
         (\<exists>m. from_slice W (sbuf_as_slice Z sb) = Some (Inr m) \<and> received L m = Some (sid, d))))"
  using zenoh_encodings[OF assms] by (rule conjI)

theorem zenoh_roundtrip_witness:
  "\<exists>r m. into_rbuf (\<lambda>_. []) ref_zenoh ref_wire (new_deserialized (serializable (\<lambda>_. []) ref_bytes [5, 6]) 7) = Inr r \<and>
      from_rbuf ref_zenoh ref_wire r = Some (Inr m) \<and> received ref_bytes m = Some (7, [5, 6])"
  using zenoh_roundtrip[OF ref_wire.wire_format_axioms ref_bytes_serializer ref_zenoh.zenoh_buffers_axioms,
      of "[5, 6]" "[5, 6]" "\<lambda>_. []" 7, THEN conjunct1]
  by (simp add: ref_bytes_encode)

text \<open>A Zenoh message that is cut inside its metadata panics the receiver: \<^verbatim>\<open>from_slice\<close> takes the
  range of the metadata before it compares lengths, so the comparison with its ``Malformed message''
  error is never reached. A message cut inside its data is reported as malformed.\<close>

theorem from_slice_truncated:
  assumes "8 \<le> length buf"
  shows "(length buf < 8 + unat (w_read_u32 W (take 4 buf)) \<longrightarrow> from_slice W buf = None) \<and>
    (8 + unat (w_read_u32 W (take 4 buf)) \<le> length buf \<longrightarrow>
      length buf < 8 + unat (w_read_u32 W (take 4 buf)) + unat (w_read_u32 W (take 4 (drop 4 buf))) \<longrightarrow>
      (\<exists>e. from_slice W buf = Some (Inl e)))"
  using assms by (auto simp: from_slice_def slice_def HEADER_SIZE_def Let_def drop_take split: sum.split)

theorem from_slice_truncated_witness:
  "from_slice ref_wire (be_bytes 4 16 @ be_bytes 4 0 @ [1, 2, 3]) = None"
  by (rule from_slice_truncated[THEN conjunct1, rule_format]) (simp_all add: ref_wire_def be_value_bytes unat_of_nat)

text \<open>C33. The header holds the length of the data modulo \<open>2 ^ 32\<close>. A message with more data is cut to that
  many bytes, and the rest of its data is taken for the next header.\<close>

theorem message_codec_truncates:
  assumes "wire_format W" "serializer L" "encode L d = Inr p"
  shows "\<exists>buf. codec_encode W (new_deserialized (serializable fmt L d) sid) [] = Some (buf, Inr ()) \<and>
    codec_decode W message_codec_new buf =
      Some ((message_codec_new, drop (length p mod 2 ^ 32) p),
            Inr (Some (Serialized (MessageMetadata sid) (take (length p mod 2 ^ 32) p))))"
  using wire_format.metadata_bytes(2)[OF assms(1), of "MessageMetadata sid"]
  by (auto simp: encode_message_frame[OF assms] message_codec_new_def message_frame_def decode_simps
      wire_format.u32_bytes[OF assms(1)] wire_format.unat_of_nat_u32[OF assms(1)] unat_of_nat
      wire_format.metadata_laws[OF assms(1)])

theorem message_codec_truncates_witness:
  "\<exists>buf. codec_encode ref_wire (new_deserialized (serializable (\<lambda>_. []) ref_bytes (replicate (2 ^ 32) 0)) 7) [] =
      Some (buf, Inr ()) \<and>
    codec_decode ref_wire message_codec_new buf =
      Some ((message_codec_new, replicate (2 ^ 32) 0), Inr (Some (Serialized (MessageMetadata 7) [])))"
  using message_codec_truncates[OF ref_wire.wire_format_axioms ref_bytes_serializer,
      of "replicate (2 ^ 32) 0" "replicate (2 ^ 32) 0" "\<lambda>_. []" 7]
  by (simp add: ref_bytes_encode)

end
