(* ===== verification/Channels.thy ===== *)
theory Channels
  imports Comm_Errors
begin

text \<open>
  The unbounded channels of \<^verbatim>\<open>tokio::sync::mpsc\<close>, on which all components talk to each other. They are
  a parameter: a record of the three calls the sources make, on a state \<open>'w\<close> that holds all channels
  of a process, with handles of type \<open>'h\<close> for the two ends of a channel. The locale states
  their documented behaviour: first in first out, sending fails exactly when the receiver is gone,
  receiving reports a closed channel only once it is drained. An executable instance closes the theory.
\<close>

record ('w, 'h, 'm) mpsc =
  mpsc_send :: "'h \<Rightarrow> 'm \<Rightarrow> 'w \<Rightarrow> 'w \<times> ('m SendError + unit)"
  mpsc_try_recv :: "'h \<Rightarrow> 'w \<Rightarrow> 'w \<times> (mpsc_TryRecvError + 'm)"
  mpsc_recv :: "'h \<Rightarrow> 'w \<Rightarrow> ('w \<times> 'm option) option"

text \<open>A \<^verbatim>\<open>recv\<close> that has to wait is \<open>None\<close>: in this state the future is pending.\<close>

locale unbounded_channel =
  fixes C :: "('w, 'h, 'm) mpsc" and contents :: "'w \<Rightarrow> 'h \<Rightarrow> 'm list"
    and rx_open :: "'w \<Rightarrow> 'h \<Rightarrow> bool" and tx_open :: "'w \<Rightarrow> 'h \<Rightarrow> bool"
  assumes send_open: "rx_open w h \<Longrightarrow> \<exists>w'. mpsc_send C h m w = (w', Inr ()) \<and>
      contents w' = (contents w)(h := contents w h @ [m]) \<and> rx_open w' = rx_open w \<and> tx_open w' = tx_open w"
    and send_closed: "\<not> rx_open w h \<Longrightarrow> mpsc_send C h m w = (w, Inl (SendError m))"
    and try_recv_item: "contents w h = m # ms \<Longrightarrow> \<exists>w'. mpsc_try_recv C h w = (w', Inr m) \<and>
      contents w' = (contents w)(h := ms) \<and> rx_open w' = rx_open w \<and> tx_open w' = tx_open w"
    and try_recv_empty: "contents w h = [] \<Longrightarrow>
      mpsc_try_recv C h w = (w, Inl (if tx_open w h then Mpsc_Empty else Mpsc_Closed))"
    and recv_item: "contents w h = m # ms \<Longrightarrow> \<exists>w'. mpsc_recv C h w = Some (w', Some m) \<and>
      contents w' = (contents w)(h := ms) \<and> rx_open w' = rx_open w \<and> tx_open w' = tx_open w"
    and recv_empty: "contents w h = [] \<Longrightarrow>
      mpsc_recv C h w = (if tx_open w h then None else Some (w, None))"
begin

lemma send_flags:
  assumes "mpsc_send C h m w = (w', r)"
  shows "rx_open w' = rx_open w" "tx_open w' = tx_open w" "r = Inr () \<longleftrightarrow> rx_open w h"
    "contents w' = (if rx_open w h then (contents w)(h := contents w h @ [m]) else contents w)"
  using assms send_open[of w h m] send_closed[of w h m] by (cases "rx_open w h"; auto)+

lemma try_recv_result:
  "\<exists>w'. mpsc_try_recv C h w =
      (w', case contents w h of m # _ \<Rightarrow> Inr m | [] \<Rightarrow> Inl (if tx_open w h then Mpsc_Empty else Mpsc_Closed)) \<and>
    contents w' = (contents w)(h := tl (contents w h)) \<and> rx_open w' = rx_open w \<and> tx_open w' = tx_open w"
  using try_recv_item[of w h] try_recv_empty[of w h] fun_upd_triv[of "contents w" h]
  by (cases "contents w h") auto

end

section \<open>A reference instance\<close>

text \<open>A channel is its contents and whether each of its ends is alive; the state maps handles to channels.\<close>

record 'm chan =
  ch_items :: "'m list"
  ch_rx :: bool
  ch_tx :: bool

type_synonym ('h, 'm) chans = "'h \<Rightarrow> 'm chan"

definition chan_new :: "'m chan" where
  "chan_new = \<lparr> ch_items = [], ch_rx = True, ch_tx = True \<rparr>"

definition chans_send :: "'h \<Rightarrow> 'm \<Rightarrow> ('h, 'm) chans \<Rightarrow> ('h, 'm) chans \<times> ('m SendError + unit)" where
  "chans_send h m w =
     (if ch_rx (w h) then (w(h := (w h) \<lparr> ch_items := ch_items (w h) @ [m] \<rparr>), Inr ()) else (w, Inl (SendError m)))"

definition chans_try_recv :: "'h \<Rightarrow> ('h, 'm) chans \<Rightarrow> ('h, 'm) chans \<times> (mpsc_TryRecvError + 'm)" where
  "chans_try_recv h w =
     (case ch_items (w h) of
        m # ms \<Rightarrow> (w(h := (w h) \<lparr> ch_items := ms \<rparr>), Inr m)
      | [] \<Rightarrow> (w, Inl (if ch_tx (w h) then Mpsc_Empty else Mpsc_Closed)))"

definition chans_recv :: "'h \<Rightarrow> ('h, 'm) chans \<Rightarrow> (('h, 'm) chans \<times> 'm option) option" where
  "chans_recv h w =
     (case ch_items (w h) of
        m # ms \<Rightarrow> Some (w(h := (w h) \<lparr> ch_items := ms \<rparr>), Some m)
      | [] \<Rightarrow> if ch_tx (w h) then None else Some (w, None))"

text \<open>The channels inside a larger state, reached by \<open>get\<close> and written by \<open>put\<close>.\<close>

definition chans_in :: "('w \<Rightarrow> ('h, 'm) chans) \<Rightarrow> (('h, 'm) chans \<Rightarrow> 'w \<Rightarrow> 'w) \<Rightarrow> ('w, 'h, 'm) mpsc" where
  "chans_in get put =
     \<lparr> mpsc_send = (\<lambda>h m w. case chans_send h m (get w) of (c, r) \<Rightarrow> (put c w, r)),
       mpsc_try_recv = (\<lambda>h w. case chans_try_recv h (get w) of (c, r) \<Rightarrow> (put c w, r)),
       mpsc_recv = (\<lambda>h w. map_option (\<lambda>(c, r). (put c w, r)) (chans_recv h (get w))) \<rparr>"

lemma chans_in_unbounded:
  assumes "\<And>c w. get (put c w) = c" "\<And>w. put (get w) w = w"
  shows "unbounded_channel (chans_in get put)
    (\<lambda>w h. ch_items (get w h)) (\<lambda>w h. ch_rx (get w h)) (\<lambda>w h. ch_tx (get w h))"
  by unfold_locales
    (auto simp: chans_in_def chans_send_def chans_try_recv_def chans_recv_def assms)

definition ref_mpsc :: "(('h, 'm) chans, 'h, 'm) mpsc" where
  "ref_mpsc = chans_in id (\<lambda>c _. c)"

interpretation ref_mpsc: unbounded_channel ref_mpsc
    "\<lambda>w h. ch_items (w h)" "\<lambda>w h. ch_rx (w h)" "\<lambda>w h. ch_tx (w h)"
  unfolding ref_mpsc_def using chans_in_unbounded[of id "\<lambda>c _. c"] by simp

end
