(* ===== verification/Endpoints.thy ===== *)
theory Endpoints
  imports Channels Codec Timestamps
begin

text \<open>
  Endpoints and pushers: \<^verbatim>\<open>src/src/communication/endpoints.rs\<close> and \<^verbatim>\<open>pusher.rs\<close>.

  A send endpoint leads either to an operator on the same node, over a channel of messages, or to the
  data sender of another node, over a channel of inter-process messages. Both kinds of channel live in
  one state \<open>'w\<close>. The locale \<open>network\<close> joins two channel interfaces that do not interfere; from it follow
  the effect of one send and of a broadcast over a vector of endpoints.
\<close>

section \<open>Operations\<close>

text \<open>The channels, the serialization of the message type, and the \<^verbatim>\<open>Debug\<close> format of errors.\<close>

record ('w, 'h, 'i, 'm, 'e) net =
  net_thread :: "('w, 'h, 'm) mpsc"
  net_process :: "('w, 'i, 'e InterProcessMessage) mpsc"
  net_serde :: "('m, 'e) serde"
  net_fmt :: "'e CommunicationError \<Rightarrow> string"

datatype ('h, 'i) SendEndpoint = InterThread 'h | InterProcess StreamId 'i

datatype 'h RecvEndpoint = Recv_InterThread 'h

definition endpoint_send ::
    "('w, 'h, 'i, 'm, 'e) net \<Rightarrow> ('h, 'i) SendEndpoint \<Rightarrow> 'm \<Rightarrow> 'w \<Rightarrow> 'w \<times> ('e CommunicationError + unit)" where
  "endpoint_send N self msg w =
     (case self of
        InterThread sender \<Rightarrow>
          (case mpsc_send (net_thread N) sender msg w of (w', r) \<Rightarrow> (w', map_err comm_from_send r))
      | InterProcess sid sender \<Rightarrow>
          (case mpsc_send (net_process N) sender
                  (new_deserialized (serializable (net_fmt N) (net_serde N) msg) sid) w of
             (w', r) \<Rightarrow> (w', map_err comm_from_send r)))"

definition endpoint_read ::
    "('w, 'h, 'i, 'm, 'e) net \<Rightarrow> 'h RecvEndpoint \<Rightarrow> 'w \<Rightarrow> ('w \<times> ('e CommunicationError + 'm)) option" where
  "endpoint_read N self w =
     (case self of Recv_InterThread receiver \<Rightarrow>
        map_option (\<lambda>(w', r). (w', case r of Some m \<Rightarrow> Inr m | None \<Rightarrow> Inl Disconnected))
          (mpsc_recv (net_thread N) receiver w))"

definition endpoint_try_read ::
    "('w, 'h, 'i, 'm, 'e) net \<Rightarrow> 'h RecvEndpoint \<Rightarrow> 'w \<Rightarrow> 'w \<times> ('e TryRecvError + 'm)" where
  "endpoint_try_read N self w =
     (case self of Recv_InterThread receiver \<Rightarrow>
        (case mpsc_try_recv (net_thread N) receiver w of (w', r) \<Rightarrow> (w', map_err try_recv_from_mpsc r)))"

record ('h, 'i) Pusher =
  endpoints :: "('h, 'i) SendEndpoint list"

definition pusher_new :: "('h, 'i) Pusher" where
  "pusher_new = \<lparr> endpoints = [] \<rparr>"

definition pusher_add_endpoint :: "('h, 'i) SendEndpoint \<Rightarrow> ('h, 'i) Pusher \<Rightarrow> ('h, 'i) Pusher" where
  "pusher_add_endpoint endpoint self = self \<lparr> endpoints := endpoints self @ [endpoint] \<rparr>"

text \<open>The loop of \<^verbatim>\<open>Pusher::send\<close>: the first error ends it.\<close>

fun send_all ::
    "('w, 'h, 'i, 'm, 'e) net \<Rightarrow> 'm \<Rightarrow> ('h, 'i) SendEndpoint list \<Rightarrow> 'w \<Rightarrow> 'w \<times> ('e CommunicationError + unit)" where
  "send_all N msg [] w = (w, Inr ())"
| "send_all N msg (endpoint # eps) w =
     (case endpoint_send N endpoint msg w of
        (w', Inl e) \<Rightarrow> (w', Inl e)
      | (w', Inr _) \<Rightarrow> send_all N msg eps w')"

definition pusher_send ::
    "('w, 'h, 'i, 'm, 'e) net \<Rightarrow> ('h, 'i) Pusher \<Rightarrow> 'm \<Rightarrow> 'w \<Rightarrow> 'w \<times> ('e CommunicationError + unit)" where
  "pusher_send N self msg w = send_all N msg (endpoints self) w"

text \<open>The two compiled variants of \<^verbatim>\<open>send_from_bytes\<close>.\<close>

definition send_from_bytes_tcp ::
    "('w, 'h, 'i, 'm, 'e) net \<Rightarrow> ('h, 'i) Pusher \<Rightarrow> bytes \<Rightarrow> 'w \<Rightarrow> 'w \<times> ('e CommunicationError + unit)" where
  "send_from_bytes_tcp N self buf w =
     (if endpoints self \<noteq> []
      then (case decode_msg (net_serde N) buf of
              Inl e \<Rightarrow> (w, Inl e)
            | Inr m \<Rightarrow> pusher_send N self (deserialized m) w)
      else (w, Inr ()))"

definition send_from_bytes_zenoh ::
    "('w, 'h, 'i, 'm, 'e) net \<Rightarrow> ('h, 'i) Pusher \<Rightarrow> bytes \<Rightarrow> 'w \<Rightarrow> 'w \<times> ('e CommunicationError + unit)" where
  "send_from_bytes_zenoh N self buf w =
     (if endpoints self \<noteq> []
      then (case decode_from_vec_zenoh (net_serde N) buf of
              Inl e \<Rightarrow> (w, Inl (comm_from_codec e))
            | Inr m \<Rightarrow> pusher_send N self (deserialized m) w)
      else (w, Inr ()))"

section \<open>The network\<close>

text \<open>Which channel an endpoint sends on, and what arrives there.\<close>

fun ep_channel :: "('h, 'i) SendEndpoint \<Rightarrow> 'h + 'i" where
  "ep_channel (InterThread h) = Inl h"
| "ep_channel (InterProcess _ i) = Inr i"

fun ep_item :: "('w, 'h, 'i, 'm, 'e) net \<Rightarrow> ('h, 'i) SendEndpoint \<Rightarrow> 'm \<Rightarrow> 'm + 'e InterProcessMessage" where
  "ep_item N (InterThread _) m = Inl m"
| "ep_item N (InterProcess sid _) m = Inr (new_deserialized (serializable (net_fmt N) (net_serde N) m) sid)"

locale network =
  thread: unbounded_channel "net_thread N" tc trx ttx + process: unbounded_channel "net_process N" pc prx ptx
  for N :: "('w, 'h, 'i, 'm, 'e) net" and tc trx ttx pc prx ptx +
  assumes thread_frame: "mpsc_send (net_thread N) h m w = (w', r) \<Longrightarrow> pc w' = pc w \<and> prx w' = prx w \<and> ptx w' = ptx w"
    and process_frame: "mpsc_send (net_process N) i p w = (w', r') \<Longrightarrow> tc w' = tc w \<and> trx w' = trx w \<and> ttx w' = ttx w"

text \<open>What has been put on a channel and not been received yet, and whether it has a receiver.\<close>

definition queued :: "('w \<Rightarrow> 'h \<Rightarrow> 'm list) \<Rightarrow> ('w \<Rightarrow> 'i \<Rightarrow> 'p list) \<Rightarrow> 'w \<Rightarrow> 'h + 'i \<Rightarrow> ('m + 'p) list" where
  "queued tc pc w c = (case c of Inl h \<Rightarrow> map Inl (tc w h) | Inr i \<Rightarrow> map Inr (pc w i))"

definition receiver_alive :: "('w \<Rightarrow> 'h \<Rightarrow> bool) \<Rightarrow> ('w \<Rightarrow> 'i \<Rightarrow> bool) \<Rightarrow> 'w \<Rightarrow> 'h + 'i \<Rightarrow> bool" where
  "receiver_alive trx prx w c = (case c of Inl h \<Rightarrow> trx w h | Inr i \<Rightarrow> prx w i)"

context network
begin

abbreviation "sent \<equiv> queued tc pc"
abbreviation "alive \<equiv> receiver_alive trx prx"

lemma endpoint_send_effect:
  assumes "endpoint_send N ep m w = (w', r)"
  shows "alive w' = alive w"
    and "r = (if alive w (ep_channel ep) then Inr () else Inl Disconnected)"
    and "sent w' = (if alive w (ep_channel ep)
           then (sent w)(ep_channel ep := sent w (ep_channel ep) @ [ep_item N ep m]) else sent w)"
proof -
  have "alive w' = alive w \<and> r = (if alive w (ep_channel ep) then Inr () else Inl Disconnected) \<and>
     sent w' = (if alive w (ep_channel ep)
           then (sent w)(ep_channel ep := sent w (ep_channel ep) @ [ep_item N ep m]) else sent w)"
  proof (cases ep)
    case (InterThread h)
    with assms obtain q where q: "mpsc_send (net_thread N) h m w = (w', q)" "r = map_err comm_from_send q"
      by (auto simp: endpoint_send_def split: prod.splits)
    then show ?thesis
      using thread.send_flags[OF q(1)] thread_frame[OF q(1)] InterThread thread.send_closed[of w h m]
      by (auto simp: receiver_alive_def queued_def fun_eq_iff split: sum.splits)
  next
    case (InterProcess sid i)
    let ?p = "new_deserialized (serializable (net_fmt N) (net_serde N) m) sid"
    from InterProcess assms obtain q where q: "mpsc_send (net_process N) i ?p w = (w', q)" "r = map_err comm_from_send q"
      by (auto simp: endpoint_send_def split: prod.splits)
    then show ?thesis
      using process.send_flags[OF q(1)] process_frame[OF q(1)] InterProcess process.send_closed[of w i ?p]
      by (auto simp: receiver_alive_def queued_def fun_eq_iff split: sum.splits)
  qed
  then show "alive w' = alive w" "r = (if alive w (ep_channel ep) then Inr () else Inl Disconnected)"
    "sent w' = (if alive w (ep_channel ep)
           then (sent w)(ep_channel ep := sent w (ep_channel ep) @ [ep_item N ep m]) else sent w)"
    by blast+
qed

text \<open>A loop over endpoints reaches those before the first one whose receiver is gone.\<close>

lemma send_all_effect:
  "send_all N m eps w = (w', r) \<Longrightarrow>
     alive w' = alive w \<and>
     r = (if \<forall>ep \<in> set eps. alive w (ep_channel ep) then Inr () else Inl Disconnected) \<and>
     sent w' c = sent w c @ map (\<lambda>ep. ep_item N ep m)
       (filter (\<lambda>ep. ep_channel ep = c) (takeWhile (\<lambda>ep. alive w (ep_channel ep)) eps))"
proof (induction eps arbitrary: w)
  case Nil
  then show ?case by simp
next
  case (Cons ep eps)
  obtain w1 r1 where s: "endpoint_send N ep m w = (w1, r1)" by fastforce
  note effect = endpoint_send_effect[OF s]
  show ?case
  proof (cases "alive w (ep_channel ep)")
    case True
    with effect(2) have "r1 = Inr ()" by simp
    with Cons.prems s have "send_all N m eps w1 = (w', r)" by simp
    from Cons.IH[OF this] effect True show ?thesis by auto
  next
    case False
    with effect Cons.prems s show ?thesis by auto
  qed
qed

end

section \<open>A reference network\<close>

definition ref_net ::
    "('m, 'e) serde \<Rightarrow> (('h, 'm) chans \<times> ('i, 'e InterProcessMessage) chans, 'h, 'i, 'm, 'e) net" where
  "ref_net L = \<lparr> net_thread = chans_in fst (\<lambda>c w. (c, snd w)), net_process = chans_in snd (\<lambda>c w. (fst w, c)),
     net_serde = L, net_fmt = (\<lambda>_. []) \<rparr>"

interpretation ref_net: network "ref_net L"
    "\<lambda>w h. ch_items (fst w h)" "\<lambda>w h. ch_rx (fst w h)" "\<lambda>w h. ch_tx (fst w h)"
    "\<lambda>w i. ch_items (snd w i)" "\<lambda>w i. ch_rx (snd w i)" "\<lambda>w i. ch_tx (snd w i)"
proof (intro network.intro network_axioms.intro)
  show "unbounded_channel (net_thread (ref_net L)) (\<lambda>w h. ch_items (fst w h)) (\<lambda>w h. ch_rx (fst w h)) (\<lambda>w h. ch_tx (fst w h))"
    using chans_in_unbounded[of fst "\<lambda>c w. (c, snd w)"] by (simp add: ref_net_def)
  show "unbounded_channel (net_process (ref_net L)) (\<lambda>w i. ch_items (snd w i)) (\<lambda>w i. ch_rx (snd w i)) (\<lambda>w i. ch_tx (snd w i))"
    using chans_in_unbounded[of snd "\<lambda>c w. (fst w, c)"] by (simp add: ref_net_def)
qed (auto simp: ref_net_def chans_in_def split: prod.splits)

section \<open>Properties\<close>

text \<open>Sending a message through a pusher succeeds exactly when every endpoint has a receiver. Each
  channel then has the message once per endpoint that leads to it, plain for an operator on the same
  node and tagged with the stream for another node. If a receiver is gone the endpoints before it
  have the message and those after it do not, and the error says that the channel is disconnected.\<close>

theorem pusher_send_broadcast:
  assumes "network N tc trx ttx pc prx ptx" and "pusher_send N self m w = (w', r)"
  shows "r = (if \<forall>ep \<in> set (endpoints self). receiver_alive trx prx w (ep_channel ep) then Inr () else Inl Disconnected) \<and>
    (\<forall>c. queued tc pc w' c = queued tc pc w c @ map (\<lambda>ep. ep_item N ep m)
      (filter (\<lambda>ep. ep_channel ep = c) (takeWhile (\<lambda>ep. receiver_alive trx prx w (ep_channel ep)) (endpoints self))))"
  using network.send_all_effect[OF assms(1), of m "endpoints self" w w' r] assms(2)
  by (simp add: pusher_send_def)

definition example_chans :: "(nat, bytes) chans \<times> (nat, unit InterProcessMessage) chans" where
  "example_chans = ((\<lambda>h. chan_new \<lparr> ch_rx := h \<noteq> 1 \<rparr>), (\<lambda>_. chan_new))"

theorem pusher_send_broadcast_witness:
  "queued (\<lambda>w h. ch_items (fst w h)) (\<lambda>w i. ch_items (snd w i))
     (fst (pusher_send (ref_net (ref_serde False id Some ())) \<lparr> endpoints = [InterThread 0, InterThread 1, InterThread 2] \<rparr>
        [42] example_chans)) (Inl 0) = [Inl [42]]"
  using pusher_send_broadcast[OF ref_net.network_axioms surjective_pairing, where m = "[42]" and
      self = "\<lparr> endpoints = [InterThread 0, InterThread 1, InterThread 2] \<rparr>" and w = example_chans,
      THEN conjunct2, THEN spec[of _ "Inl 0"]]
  by (simp add: example_chans_def chan_new_def queued_def receiver_alive_def)

end
