(* ===== verification/Ids.thy ===== *)
theory Ids
  imports Erdos_Prelude
begin

text \<open>
  Identifiers: the generator of \<^verbatim>\<open>src/src/lib.rs\<close>. The random number generator is a parameter,
  \<open>fill_bytes\<close> on a state \<open>'g\<close>, as is the formatting of identifiers by the \<^verbatim>\<open>uuid\<close> library.
\<close>

record 'g id_source =
  fill_bytes :: "nat \<Rightarrow> 'g \<Rightarrow> u8 list \<times> 'g"
  from_seed :: "nat list \<Rightarrow> 'g"
  uuid_display :: "Uuid \<Rightarrow> string"

text \<open>A \<^verbatim>\<open>Uuid\<close> is an array of 16 bytes, kept as the number they spell, most significant byte first; the
  derived order of arrays is then the order of these numbers.\<close>

definition uuid_of_bytes :: "u8 list \<Rightarrow> Uuid" where
  "uuid_of_bytes bs = of_nat (foldl (\<lambda>n b. 256 * n + unat b) 0 bs)"

definition generate_id :: "'g id_source \<Rightarrow> 'g \<Rightarrow> Uuid \<times> 'g" where
  "generate_id I rng = (case fill_bytes I 16 rng of (bs, rng') \<Rightarrow> (uuid_of_bytes bs, rng'))"

definition new_deterministic :: "'g id_source \<Rightarrow> 'g \<Rightarrow> Uuid \<times> 'g" where
  "new_deterministic I rng = generate_id I rng"

text \<open>\<open>random_v4\<close> draws the bytes of a random identifier.\<close>

definition new_v4 :: "('w \<Rightarrow> u8 list \<times> 'w) \<Rightarrow> 'w \<Rightarrow> Uuid \<times> 'w" where
  "new_v4 random_v4 w = apfst uuid_of_bytes (random_v4 w)"

definition uuid_nil :: Uuid where
  "uuid_nil = uuid_of_bytes (replicate 16 0)"

definition initial_rng :: "'g id_source \<Rightarrow> 'g" where
  "initial_rng I = from_seed I [1913, 03, 26]"

text \<open>A counter as a generator, for examples.\<close>

definition ref_ids :: "nat id_source" where
  "ref_ids = \<lparr> fill_bytes = (\<lambda>k g. (replicate (k - 1) 0 @ [of_nat (g mod 256)], Suc g)),
     from_seed = (\<lambda>_. 0), uuid_display = (\<lambda>_. ''id'') \<rparr>"

end
