(* ===== verification/Write_Stream.thy ===== *)
theory Write_Stream
  imports Endpoints Ids
begin

text \<open>
  Write streams: \<^verbatim>\<open>src/src/dataflow/stream/write_stream.rs\<close>.

  A write stream keeps the last watermark it accepted and refuses messages below it. The operations are
  translated over an arbitrary network; the theorems show which messages are accepted, that what
  arrives at each receiver respects the watermarks sent before it, and when a stream closes.
\<close>

section \<open>Operations\<close>

record ('h, 'i) WriteStream =
  ws_id :: StreamId
  ws_name :: string
  ws_pusher :: "('h, 'i) Pusher option"
  low_watermark :: Timestamp
  stream_closed :: bool

definition ws_new_internal :: "StreamId \<Rightarrow> string \<Rightarrow> ('h, 'i) WriteStream" where
  "ws_new_internal sid name =
     \<lparr> ws_id = sid, ws_name = name, ws_pusher = Some pusher_new,
       low_watermark = ts_new [0], stream_closed = False \<rparr>"

definition ws_new :: "'g id_source \<Rightarrow> 'g \<Rightarrow> ('h, 'i) WriteStream \<times> 'g" where
  "ws_new I rng = (case new_deterministic I rng of (sid, rng') \<Rightarrow> (ws_new_internal sid (uuid_display I sid), rng'))"

definition ws_new_with_name :: "'g id_source \<Rightarrow> string \<Rightarrow> 'g \<Rightarrow> ('h, 'i) WriteStream \<times> 'g" where
  "ws_new_with_name I name rng = (case new_deterministic I rng of (sid, rng') \<Rightarrow> (ws_new_internal sid name, rng'))"

definition ws_new_with_id :: "'g id_source \<Rightarrow> StreamId \<Rightarrow> ('h, 'i) WriteStream" where
  "ws_new_with_id I sid = ws_new_internal sid (uuid_display I sid)"

text \<open>\<open>None\<close> is the panic of \<^verbatim>\<open>expect\<close> on a stream without pusher.\<close>

definition ws_add_endpoint :: "('h, 'i) SendEndpoint \<Rightarrow> ('h, 'i) WriteStream \<Rightarrow> ('h, 'i) WriteStream option" where
  "ws_add_endpoint endpoint self =
     (case ws_pusher self of
        None \<Rightarrow> None
      | Some p \<Rightarrow> Some (self \<lparr> ws_pusher := Some (pusher_add_endpoint endpoint p) \<rparr>))"

fun ws_add_endpoints :: "('h, 'i) SendEndpoint list \<Rightarrow> ('h, 'i) WriteStream \<Rightarrow> ('h, 'i) WriteStream option" where
  "ws_add_endpoints [] self = Some self"
| "ws_add_endpoints (endpoint # eps) self = Option.bind (ws_add_endpoint endpoint self) (ws_add_endpoints eps)"

definition ws_from_endpoints :: "'g id_source \<Rightarrow> ('h, 'i) SendEndpoint list \<Rightarrow> StreamId \<Rightarrow> ('h, 'i) WriteStream option" where
  "ws_from_endpoints I eps sid = ws_add_endpoints eps (ws_new_with_id I sid)"

definition ws_is_closed :: "('h, 'i) WriteStream \<Rightarrow> bool" where
  "ws_is_closed self = stream_closed self"

definition close_stream :: "('h, 'i) WriteStream \<Rightarrow> ('h, 'i) WriteStream" where
  "close_stream self = self \<lparr> stream_closed := True, ws_pusher := None \<rparr>"

definition update_watermark ::
    "'d Message \<Rightarrow> ('h, 'i) WriteStream \<Rightarrow> ('h, 'i) WriteStream \<times> (WriteStreamError + unit)" where
  "update_watermark msg self =
     (case msg of
        TimestampedData td \<Rightarrow>
          (if ts_lt (td_timestamp td) (low_watermark self) then (self, Inl TimestampError) else (self, Inr ()))
      | Watermark msg_watermark \<Rightarrow>
          (if ts_lt msg_watermark (low_watermark self) then (self, Inl TimestampError)
           else (self \<lparr> low_watermark := msg_watermark \<rparr>, Inr ())))"

definition ws_send ::
    "('w, 'h, 'i, 'd Message, 'e) net \<Rightarrow> 'd Message \<Rightarrow> ('h, 'i) WriteStream \<Rightarrow> 'w \<Rightarrow>
       ('w \<times> ('h, 'i) WriteStream) \<times> (WriteStreamError + unit)" where
  "ws_send N msg self w =
     (if stream_closed self then ((w, self), Inl Write_Closed)
      else let close = is_top_watermark msg
           in (case update_watermark msg self of
                 (self, Inl e) \<Rightarrow> ((w, self), Inl e)
               | (self, Inr _) \<Rightarrow>
                   (case (case ws_pusher self of
                            Some p \<Rightarrow> (case pusher_send N p msg w of (w, r) \<Rightarrow> (w, map_err write_error_from_comm r))
                          | None \<Rightarrow> (w, Inr ())) of
                      (w, Inl e) \<Rightarrow> ((w, self), Inl e)
                    | (w, Inr _) \<Rightarrow> ((w, if close then close_stream self else self), Inr ()))))"

section \<open>One send\<close>

text \<open>The endpoints of a stream, none once it is closed.\<close>

definition ws_endpoints :: "('h, 'i) WriteStream \<Rightarrow> ('h, 'i) SendEndpoint list" where
  "ws_endpoints s = (case ws_pusher s of None \<Rightarrow> [] | Some p \<Rightarrow> endpoints p)"

text \<open>A stream is closed exactly when it has no pusher.\<close>

definition ws_inv :: "('h, 'i) WriteStream \<Rightarrow> bool" where
  "ws_inv s \<longleftrightarrow> (stream_closed s \<longleftrightarrow> ws_pusher s = None)"

text \<open>A message passes the check against the low watermark, and the watermark afterwards.\<close>

definition admissible :: "'d Message \<Rightarrow> ('h, 'i) WriteStream \<Rightarrow> bool" where
  "admissible m s \<longleftrightarrow> \<not> stream_closed s \<and> ts_le (low_watermark s) (msg_timestamp m)"

lemma update_watermark_eq:
  "update_watermark m s =
     (if ts_lt (msg_timestamp m) (low_watermark s) then (s, Inl TimestampError)
      else (case m of TimestampedData _ \<Rightarrow> s | Watermark t \<Rightarrow> s \<lparr> low_watermark := t \<rparr>, Inr ()))"
  by (cases m) (auto simp: update_watermark_def)

lemma ws_inv_new [simp]: "ws_inv (ws_new_internal sid name)"
  by (simp add: ws_inv_def ws_new_internal_def)

lemma ws_add_endpoints_eq:
  "ws_pusher s = Some p \<Longrightarrow>
     ws_add_endpoints eps s = Some (s \<lparr> ws_pusher := Some \<lparr> endpoints = endpoints p @ eps \<rparr> \<rparr>)"
  by (induction eps arbitrary: s p) (auto simp: ws_add_endpoint_def pusher_add_endpoint_def)

lemma ws_from_endpoints_eq:
  "ws_from_endpoints I eps sid =
     Some \<lparr> ws_id = sid, ws_name = uuid_display I sid, ws_pusher = Some \<lparr> endpoints = eps \<rparr>,
            low_watermark = ts_new [0], stream_closed = False \<rparr>"
  unfolding ws_from_endpoints_def
  by (subst ws_add_endpoints_eq) (auto simp: ws_new_with_id_def ws_new_internal_def pusher_new_def)

lemma ws_send_not_admissible:
  "\<not> admissible m s \<Longrightarrow> ws_send N m s w = ((w, s), Inl (if stream_closed s then Write_Closed else TimestampError))"
  by (auto simp: ws_send_def admissible_def update_watermark_eq not_ts_lt_iff[symmetric])

lemma ws_send_admissible:
  assumes "admissible m s" "ws_inv s"
  shows "ws_send N m s w =
    (case send_all N m (ws_endpoints s) w of (w', r) \<Rightarrow>
       let s' = (case m of TimestampedData _ \<Rightarrow> s | Watermark t \<Rightarrow> s \<lparr> low_watermark := t \<rparr>)
       in ((w', if r = Inr () \<and> is_top_watermark m then close_stream s' else s'), map_err write_error_from_comm r))"
proof -
  from assms obtain p where p: "ws_pusher s = Some p" "\<not> stream_closed s"
    by (auto simp: admissible_def ws_inv_def)
  from assms(1) have "\<not> ts_lt (msg_timestamp m) (low_watermark s)"
    by (simp add: admissible_def not_ts_lt_iff)
  with p show ?thesis
    by (cases m) (auto simp: ws_send_def ws_endpoints_def pusher_send_def update_watermark_eq Let_def
        split: prod.splits sum.splits)
qed

lemma ws_inv_send: "ws_inv s \<Longrightarrow> ws_send N m s w = ((w', s'), r) \<Longrightarrow> ws_inv s'"
  by (cases "admissible m s")
    (auto simp: ws_send_admissible ws_send_not_admissible Let_def ws_inv_def close_stream_def
      split: prod.splits if_splits Message.splits)

section \<open>A stream over time\<close>

text \<open>
  A sequence of sends on one stream, with the messages that reach one local channel. Between two sends
  the rest of the program may change the channels in any way, so the state a send starts from is
  arbitrary.
\<close>

inductive ws_run ::
    "('w, 'h, 'i, 'd Message, 'e) net \<Rightarrow> ('w \<Rightarrow> 'h \<Rightarrow> 'd Message list) \<Rightarrow> 'h \<Rightarrow>
       ('h, 'i) WriteStream \<Rightarrow> 'd Message list \<Rightarrow> ('h, 'i) WriteStream \<Rightarrow> bool"
  for N tc h s where
  ws_run_start: "ws_run N tc h s [] s"
| ws_run_send: "ws_run N tc h s log s1 \<Longrightarrow> ws_send N m s1 w = ((w', s2), r) \<Longrightarrow> tc w' h = tc w h @ new \<Longrightarrow>
    ws_run N tc h s (log @ new) s2"

text \<open>The watermarks of a sequence bound the timestamps that follow.\<close>

definition bounds :: "'d Message \<Rightarrow> Timestamp \<Rightarrow> bool" where
  "bounds m t \<longleftrightarrow> (case m of Watermark t' \<Rightarrow> ts_le t' t | TimestampedData _ \<Rightarrow> True)"

definition respects_watermarks :: "'d Message list \<Rightarrow> bool" where
  "respects_watermarks ms \<longleftrightarrow> sorted_wrt (\<lambda>m m'. bounds m (msg_timestamp m')) ms"

lemma bounds_trans: "bounds m t \<Longrightarrow> ts_le t t' \<Longrightarrow> bounds m t'"
  by (auto simp: bounds_def intro: ts_le_trans split: Message.splits)

lemma bounds_self: "bounds m (msg_timestamp m)"
  by (simp add: bounds_def split: Message.split)

locale message_network = network N tc trx ttx pc prx ptx
  for N :: "('w, 'h, 'i, 'd Message, 'e) net" and tc trx ttx pc prx ptx
begin

text \<open>What one send adds to a local channel: copies of the message, and none unless it is admissible.\<close>

lemma ws_send_delivers:
  assumes "ws_inv s" "ws_send N m s w = ((w', s'), r)"
  obtains k where "tc w' h = tc w h @ replicate k m" "k = 0 \<or> admissible m s"
proof (cases "admissible m s")
  case True
  obtain w1 r1 where sa: "send_all N m (ws_endpoints s) w = (w1, r1)" by fastforce
  with True assms have w': "w' = w1" by (simp add: ws_send_admissible Let_def)
  let ?eps = "filter (\<lambda>ep. ep_channel ep = Inl h) (takeWhile (\<lambda>ep. alive w (ep_channel ep)) (ws_endpoints s))"
  have "map (\<lambda>ep. ep_item N ep m) ?eps = map Inl (replicate (length ?eps) m)"
    unfolding map_replicate_const[symmetric] map_map
    by (rule map_cong[OF refl]) (auto elim: ep_channel.elims)
  with send_all_effect[OF sa, of "Inl h"]
  have "map Inl (tc w1 h) = (map Inl (tc w h @ replicate (length ?eps) m) :: ('d Message + 'e InterProcessMessage) list)"
    by (simp add: queued_def)
  then have "tc w1 h = tc w h @ replicate (length ?eps) m"
    by (simp only: inj_map_eq_map[OF inj_Inl])
  with w' True that show ?thesis by blast
next
  case False
  with assms have "tc w' h = tc w h @ replicate 0 m" by (simp add: ws_send_not_admissible)
  then show ?thesis using that by blast
qed

lemma ws_send_low_watermark:
  assumes "ws_inv s" "ws_send N m s w = ((w', s'), r)"
  shows "low_watermark s' = (case m of Watermark t \<Rightarrow> if admissible m s then t else low_watermark s | _ \<Rightarrow> low_watermark s)"
  using assms
  by (cases "admissible m s"; cases m)
    (auto simp: ws_send_admissible ws_send_not_admissible Let_def close_stream_def split: prod.splits if_splits)

lemma ws_send_effect:
  assumes inv: "ws_inv s" and send: "ws_send N m s w = ((w', s'), r)"
  shows "r = Inr () \<longleftrightarrow> admissible m s \<and> (\<forall>ep \<in> set (ws_endpoints s). alive w (ep_channel ep))"
    and "\<not> admissible m s \<Longrightarrow> w' = w \<and> s' = s \<and> r = Inl (if stream_closed s then Write_Closed else TimestampError)"
    and "admissible m s \<Longrightarrow> r \<noteq> Inr () \<Longrightarrow> r = Inl Write_IOError"
    and "low_watermark s' = (case m of Watermark t \<Rightarrow> if admissible m s then t else low_watermark s | _ \<Rightarrow> low_watermark s)"
    and "stream_closed s' \<longleftrightarrow> stream_closed s \<or> r = Inr () \<and> is_top_watermark m"
    and "ws_endpoints s' = (if stream_closed s' then [] else ws_endpoints s)"
proof -
  obtain w1 r1 where sa: "send_all N m (ws_endpoints s) w = (w1, r1)" by fastforce
  note effect = send_all_effect[OF sa]
  show "r = Inr () \<longleftrightarrow> admissible m s \<and> (\<forall>ep \<in> set (ws_endpoints s). alive w (ep_channel ep))"
    using effect send inv sa
    by (cases "admissible m s") (auto simp: ws_send_admissible ws_send_not_admissible Let_def split: if_splits)
  show "\<not> admissible m s \<Longrightarrow> w' = w \<and> s' = s \<and> r = Inl (if stream_closed s then Write_Closed else TimestampError)"
    using send by (auto simp: ws_send_not_admissible)
  show "admissible m s \<Longrightarrow> r \<noteq> Inr () \<Longrightarrow> r = Inl Write_IOError"
    using effect send inv sa by (auto simp: ws_send_admissible Let_def split: if_splits)
  show "low_watermark s' = (case m of Watermark t \<Rightarrow> if admissible m s then t else low_watermark s | _ \<Rightarrow> low_watermark s)"
    by (rule ws_send_low_watermark[OF inv send])
  show closed: "stream_closed s' \<longleftrightarrow> stream_closed s \<or> r = Inr () \<and> is_top_watermark m"
    using send inv sa
    by (cases "admissible m s"; cases m)
      (auto simp: ws_send_admissible ws_send_not_admissible Let_def close_stream_def admissible_def split: if_splits)
  show "ws_endpoints s' = (if stream_closed s' then [] else ws_endpoints s)"
    using send inv sa
    by (cases "admissible m s"; cases m)
      (auto simp: ws_send_admissible ws_send_not_admissible Let_def close_stream_def admissible_def ws_endpoints_def
        ws_inv_def split: if_splits)
qed

lemma ws_send_alive:
  assumes "ws_inv s" "ws_send N m s w = ((w', s'), r)"
  shows "alive w' = alive w"
  using assms send_all_effect[of m "ws_endpoints s" w]
  by (cases "admissible m s") (auto simp: ws_send_admissible ws_send_not_admissible Let_def split: prod.splits)

lemma ws_run_invariant:
  assumes "ws_run N tc h s log s'" "ws_inv s"
  shows "ws_inv s' \<and> respects_watermarks log \<and> (\<forall>m \<in> set log. bounds m (low_watermark s')) \<and>
    ts_le (low_watermark s) (low_watermark s')"
  using assms
proof (induction rule: ws_run.induct)
  case ws_run_start
  then show ?case by (simp add: respects_watermarks_def)
next
  case (ws_run_send log s1 m w w' s2 r new)
  then have IH: "ws_inv s1" "respects_watermarks log" "\<forall>m \<in> set log. bounds m (low_watermark s1)"
    "ts_le (low_watermark s) (low_watermark s1)" by blast+
  from IH(1) ws_run_send.hyps(2) obtain k where k: "tc w' h = tc w h @ replicate k m" "k = 0 \<or> admissible m s1"
    by (rule ws_send_delivers)
  with ws_run_send.hyps(3) have new: "new = replicate k m" by simp
  note low = ws_send_low_watermark[OF IH(1) ws_run_send.hyps(2)]
  have mono: "ts_le (low_watermark s1) (low_watermark s2)"
    using low by (cases m) (auto simp: admissible_def)
  have "respects_watermarks (log @ new)"
    unfolding respects_watermarks_def sorted_wrt_append new
    using IH(2,3) k(2) bounds_self
    by (auto simp: respects_watermarks_def sorted_wrt_iff_nth_less admissible_def intro: bounds_trans)
  moreover have "\<forall>m' \<in> set new. bounds m' (low_watermark s2)"
    unfolding new using low k(2) by (cases m) (auto simp: bounds_def)
  ultimately show ?case
    using ws_inv_send[OF IH(1) ws_run_send.hyps(2)] IH(3,4) mono by (auto intro: bounds_trans ts_le_trans)
qed

end

interpretation ref_messages: message_network "ref_net L"
    "\<lambda>w h. ch_items (fst w h)" "\<lambda>w h. ch_rx (fst w h)" "\<lambda>w h. ch_tx (fst w h)"
    "\<lambda>w i. ch_items (snd w i)" "\<lambda>w i. ch_rx (snd w i)" "\<lambda>w i. ch_tx (snd w i)"
  by (rule message_network.intro[OF ref_net.network_axioms])

section \<open>Properties\<close>


text \<open>The example used below: a stream with one local endpoint and the network it sends on.\<close>

definition example_net ::
    "((nat, nat Message) chans \<times> (nat, unit InterProcessMessage) chans, nat, nat, nat Message, unit) net" where
  "example_net = ref_net (ref_serde False (\<lambda>_. []) (\<lambda>_. None) ())"

definition example_stream :: "(nat, nat) WriteStream" where
  "example_stream = the (ws_from_endpoints ref_ids [InterThread 0] 9)"

lemma example_network: "message_network example_net
    (\<lambda>w h. ch_items (fst w h)) (\<lambda>w h. ch_rx (fst w h)) (\<lambda>w h. ch_tx (fst w h))
    (\<lambda>w i. ch_items (snd w i)) (\<lambda>w i. ch_rx (snd w i)) (\<lambda>w i. ch_tx (snd w i))"
  unfolding example_net_def by (rule ref_messages.message_network_axioms)

lemmas example_simps = example_net_def example_stream_def ws_from_endpoints_eq ref_net_def chans_in_def
  chans_send_def chan_new_def ws_send_def pusher_send_def endpoint_send_def update_watermark_def
  new_message_def ts_new_def ts_lt_def ts_le_def ts_partial_cmp_def prim_cmp_def ws_inv_def




text \<open>C30. What one send returns and does. It succeeds exactly when the stream is open, the timestamp is
  not below the low watermark and every endpoint has a receiver; a closed stream and a timestamp that
  is too small have errors of their own and leave channels and stream alone, any other failure is an
  input-output error. The low watermark moves to a watermark that passed the check even if it could not
  be delivered to all. The stream closes exactly with a top watermark that was sent successfully.\<close>

theorem ws_send_outcome:
  assumes net: "message_network N tc trx ttx pc prx ptx" and inv: "ws_inv s" and send: "ws_send N m s w = ((w', s'), r)"
  shows "(r = Inr () \<longleftrightarrow> admissible m s \<and> (\<forall>ep \<in> set (ws_endpoints s). receiver_alive trx prx w (ep_channel ep))) \<and>
    (\<not> admissible m s \<longrightarrow> w' = w \<and> s' = s \<and> r = Inl (if stream_closed s then Write_Closed else TimestampError)) \<and>
    (admissible m s \<longrightarrow> r \<noteq> Inr () \<longrightarrow> r = Inl Write_IOError) \<and>
    low_watermark s' = (case m of Watermark t \<Rightarrow> if admissible m s then t else low_watermark s | _ \<Rightarrow> low_watermark s) \<and>
    (stream_closed s' \<longleftrightarrow> stream_closed s \<or> r = Inr () \<and> is_top_watermark m) \<and>
    ws_endpoints s' = (if stream_closed s' then [] else ws_endpoints s)"
  using message_network.ws_send_effect[OF assms] by (intro conjI impI) blast+

theorem ws_send_outcome_witness:
  "stream_closed (snd (fst (ws_send example_net (Watermark ts_top) example_stream (\<lambda>_. chan_new, \<lambda>_. chan_new))))"
proof -
  obtain w' s' r where send: "ws_send example_net (Watermark ts_top) example_stream (\<lambda>_. chan_new, \<lambda>_. chan_new) = ((w', s'), r)"
    by (metis prod.exhaust)
  then have "r = Inr ()" by (simp add: example_simps ts_top_def)
  moreover have "ws_inv example_stream" by (simp add: example_simps)
  ultimately have "stream_closed s'" using ws_send_outcome[OF example_network _ send] by (simp add: ts_top_def)
  with send show ?thesis by simp
qed

text \<open>After a watermark, a message with the same timestamp is still accepted: only smaller timestamps
  are refused. The top watermark is the exception, as it closes the stream.\<close>

theorem ws_equal_timestamp_accepted:
  assumes net: "message_network N tc trx ttx pc prx ptx" and inv: "ws_inv s"
    and sent: "ws_send N (Watermark t) s w = ((w', s'), Inr ())" and "\<not> ts_is_top t"
    and alive: "\<forall>ep \<in> set (ws_endpoints s). receiver_alive trx prx w'' (ep_channel ep)"
  shows "snd (ws_send N (new_message t d) s' w'') = Inr ()"
proof -
  note outcome = message_network.ws_send_effect[OF net inv sent]
  have s': "\<not> stream_closed s'" "low_watermark s' = t" "ws_endpoints s' = ws_endpoints s"
    using outcome assms(4) by (auto simp: admissible_def)
  obtain w3 s3 r3 where r3: "ws_send N (new_message t d) s' w'' = ((w3, s3), r3)" by (metis prod.exhaust)
  from message_network.ws_send_effect(1)[OF net ws_inv_send[OF inv sent] r3] s' alive r3 show ?thesis
    by (simp add: admissible_def new_message_def)
qed

theorem ws_equal_timestamp_accepted_witness:
  "\<exists>s'. snd (fst (ws_send example_net (Watermark (ts_new [1])) example_stream (\<lambda>_. chan_new, \<lambda>_. chan_new))) = s' \<and>
     snd (ws_send example_net (new_message (ts_new [1]) 5) s' (\<lambda>_. chan_new, \<lambda>_. chan_new)) = Inr ()"
proof -
  obtain w' s' r where send:
      "ws_send example_net (Watermark (ts_new [1])) example_stream (\<lambda>_. chan_new, \<lambda>_. chan_new) = ((w', s'), r)"
    by (metis prod.exhaust)
  then have r: "r = Inr ()" by (simp add: example_simps)
  have "snd (ws_send example_net (new_message (ts_new [1]) 5) s' (\<lambda>_. chan_new, \<lambda>_. chan_new)) = Inr ()"
    by (rule ws_equal_timestamp_accepted[OF example_network _ send[unfolded r]])
      (simp_all add: example_simps ws_endpoints_def receiver_alive_def)
  with send show ?thesis by simp
qed

end
