(* ===== verification/Read_Stream.thy ===== *)
theory Read_Stream
  imports Write_Stream Operator_Event Time_Versioned_State
begin

text \<open>
  Read streams: \<^verbatim>\<open>internal_read_stream.rs\<close>, \<^verbatim>\<open>internal_stateful_read_stream.rs\<close>, \<^verbatim>\<open>read_stream.rs\<close> and
  \<^verbatim>\<open>stateful_read_stream.rs\<close> under \<^verbatim>\<open>src/src/dataflow/stream/\<close>.

  A read stream receives messages and turns each into the events that invoke the registered callbacks.
  Everything that is shared and mutable, the cells behind \<^verbatim>\<open>Rc<RefCell<_>>\<close> and the state behind
  \<^verbatim>\<open>Arc<S>\<close>, lives in a store \<open>'st\<close>; a pointer is a pair of functions that read and write one place of
  the store. A callback is a function on the store that may panic, and a boxed trait object is
  the record of its methods. The bundles of streams that the build generates from a script are the
  parameter \<open>MultiStreamEventMaker\<close>.
\<close>

section \<open>Pointers and trait objects\<close>

datatype ('st, 'a) rc = Rc (rc_get: "'st \<Rightarrow> 'a") (rc_put: "'a \<Rightarrow> 'st \<Rightarrow> 'st")

type_synonym 'st action = "'st \<Rightarrow> 'st option"
type_synonym 'st event = "'st action OperatorEvent"

record ('st, 'd) EventMakerT =
  em_get_id :: "'st \<Rightarrow> StreamId"
  em_make_events :: "'d Message \<Rightarrow> 'st \<Rightarrow> 'st event list \<times> 'st"

record 'st MultiStreamEventMaker =
  receive_watermark :: "StreamId \<Rightarrow> Timestamp \<Rightarrow> 'st \<Rightarrow> 'st event list \<times> 'st"

section \<open>Internal read streams\<close>

record ('st, 'd, 'h) InternalReadStream =
  irs_id :: StreamId
  irs_name :: string
  irs_closed :: bool
  recv_endpoint :: "'h RecvEndpoint option"
  irs_children :: "('st, 'd) EventMakerT list"
  irs_callbacks :: "(Timestamp \<Rightarrow> 'd \<Rightarrow> 'st action) list"
  irs_watermark_cbs :: "(Timestamp \<Rightarrow> 'st action) list"

definition irs_new_with_id_name :: "StreamId \<Rightarrow> string \<Rightarrow> ('st, 'd, 'h) InternalReadStream" where
  "irs_new_with_id_name sid name =
     \<lparr> irs_id = sid, irs_name = name, irs_closed = False, recv_endpoint = None, irs_children = [],
       irs_callbacks = [], irs_watermark_cbs = [] \<rparr>"

definition irs_new :: "'g id_source \<Rightarrow> 'g \<Rightarrow> ('st, 'd, 'h) InternalReadStream \<times> 'g" where
  "irs_new I rng =
     (case new_deterministic I rng of (sid, rng') \<Rightarrow>
        (\<lparr> irs_id = sid, irs_name = uuid_display I sid, irs_closed = False, recv_endpoint = None,
           irs_children = [], irs_callbacks = [], irs_watermark_cbs = [] \<rparr>, rng'))"

definition irs_from_endpoint :: "'g id_source \<Rightarrow> 'h RecvEndpoint \<Rightarrow> StreamId \<Rightarrow> ('st, 'd, 'h) InternalReadStream" where
  "irs_from_endpoint I endpoint sid =
     \<lparr> irs_id = sid, irs_name = uuid_display I sid, irs_closed = False, recv_endpoint = Some endpoint,
       irs_children = [], irs_callbacks = [], irs_watermark_cbs = [] \<rparr>"

definition irs_add_callback ::
    "(Timestamp \<Rightarrow> 'd \<Rightarrow> 'st action) \<Rightarrow> ('st, 'd, 'h) InternalReadStream \<Rightarrow> ('st, 'd, 'h) InternalReadStream" where
  "irs_add_callback cb self = self \<lparr> irs_callbacks := irs_callbacks self @ [cb] \<rparr>"

definition irs_add_watermark_callback ::
    "(Timestamp \<Rightarrow> 'st action) \<Rightarrow> ('st, 'd, 'h) InternalReadStream \<Rightarrow> ('st, 'd, 'h) InternalReadStream" where
  "irs_add_watermark_callback cb self = self \<lparr> irs_watermark_cbs := irs_watermark_cbs self @ [cb] \<rparr>"

definition take_endpoint ::
    "('st, 'd, 'h) InternalReadStream \<Rightarrow> ('st, 'd, 'h) InternalReadStream \<times> 'h RecvEndpoint option" where
  "take_endpoint self = (self \<lparr> recv_endpoint := None \<rparr>, recv_endpoint self)"

text \<open>Both kinds of read end by closing the stream when the message is the top watermark.\<close>

definition close_on_top ::
    "'r + 'd Message \<Rightarrow> ('st, 'd, 'h) InternalReadStream \<Rightarrow> ('st, 'd, 'h) InternalReadStream" where
  "close_on_top result self =
     (case result of
        Inr msg \<Rightarrow> if is_top_watermark msg then self \<lparr> irs_closed := True, recv_endpoint := None \<rparr> else self
      | Inl _ \<Rightarrow> self)"

definition irs_try_read ::
    "('w, 'h, 'i, 'd Message, 'e) net \<Rightarrow> ('st, 'd, 'h) InternalReadStream \<Rightarrow> 'w \<Rightarrow>
       ('w \<times> ('st, 'd, 'h) InternalReadStream) \<times> (TryReadError + 'd Message)" where
  "irs_try_read N self w =
     (if irs_closed self then ((w, self), Inl TryRead_Closed)
      else (case recv_endpoint self of
              None \<Rightarrow> ((w, self), Inl TryRead_Disconnected)
            | Some rx \<Rightarrow>
                (case endpoint_try_read N rx w of (w', r) \<Rightarrow>
                   let result = map_err try_read_from_try_recv r
                   in ((w', close_on_top result self), result))))"

text \<open>
  The loop of the blocking read polls the channel. Between two polls the rest of the program runs:
  the parameter \<open>env\<close> is what it does to the channels. \<open>None\<close> is a loop that never ends.
\<close>

partial_function (option) poll_read ::
    "('w, 'h, 'i, 'd Message, 'e) net \<Rightarrow> ('w \<Rightarrow> 'w) \<Rightarrow> 'h RecvEndpoint \<Rightarrow> 'w \<Rightarrow> ('w \<times> (ReadError + 'd Message)) option" where
  "poll_read N env rx w =
     (case endpoint_try_read N rx w of
        (w', Inr msg) \<Rightarrow> Some (w', Inr msg)
      | (w', Inl TryRecv_Empty) \<Rightarrow> poll_read N env rx (env w')
      | (w', Inl TryRecv_Disconnected) \<Rightarrow> Some (w', Inl Read_Disconnected)
      | (w', Inl (TryRecv_BincodeError _)) \<Rightarrow> Some (w', Inl Read_SerializationError))"

definition irs_read ::
    "('w, 'h, 'i, 'd Message, 'e) net \<Rightarrow> ('w \<Rightarrow> 'w) \<Rightarrow> ('st, 'd, 'h) InternalReadStream \<Rightarrow> 'w \<Rightarrow>
       (('w \<times> ('st, 'd, 'h) InternalReadStream) \<times> (ReadError + 'd Message)) option" where
  "irs_read N env self w =
     (if irs_closed self then Some ((w, self), Inl Read_Closed)
      else (case recv_endpoint self of
              None \<Rightarrow> Some ((w, self), Inl Read_Disconnected)
            | Some rx \<Rightarrow> map_option (\<lambda>(w', result). ((w', close_on_top result self), result)) (poll_read N env rx w)))"

text \<open>The events of the children, one child after the other.\<close>

fun children_events ::
    "('st, 'd) EventMakerT list \<Rightarrow> 'd Message \<Rightarrow> 'st \<Rightarrow> 'st event list \<times> 'st" where
  "children_events [] msg st = ([], st)"
| "children_events (child # cs) msg st =
     (case em_make_events child msg st of (es, st) \<Rightarrow>
        (case children_events cs msg st of (es', st) \<Rightarrow> (es @ es', st)))"

definition irs_make_events ::
    "('st, 'd, 'h) InternalReadStream \<Rightarrow> 'd Message \<Rightarrow> 'st \<Rightarrow> 'st event list \<times> 'st" where
  "irs_make_events self msg st =
     (let events =
        (case msg of
           TimestampedData _ \<Rightarrow>
             map (\<lambda>cb. operator_event_new (msg_timestamp msg) False 0 {} {}
                         (\<lambda>st. Option.bind (msg_data msg) (\<lambda>d. cb (msg_timestamp msg) d st)))
               (irs_callbacks self)
         | Watermark t \<Rightarrow>
             map (\<lambda>cb. operator_event_new t True 0 {} {} (\<lambda>st. cb t st)) (irs_watermark_cbs self))
      in (case children_events (irs_children self) msg st of (es, st) \<Rightarrow> (events @ es, st)))"

section \<open>Internal stateful read streams\<close>

record ('st, 'd, 's) InternalStatefulReadStream =
  srs_id :: StreamId
  srs_state :: "('st, 's) rc"
  srs_state_id :: Uuid
  srs_callbacks :: "(Timestamp \<Rightarrow> 'd \<Rightarrow> 's \<Rightarrow> 'st \<Rightarrow> ('s \<times> 'st) option) list"
  srs_watermark_cbs :: "((Timestamp \<Rightarrow> 's \<Rightarrow> 'st \<Rightarrow> ('s \<times> 'st) option) \<times> i8) list"
  srs_children :: "'st MultiStreamEventMaker list"

text \<open>The new pointer to the state is made by the caller, who allocates it in the store.\<close>

definition srs_new ::
    "'g id_source \<Rightarrow> ('st, 'd, 'h) InternalReadStream \<Rightarrow> ('st, 's) rc \<Rightarrow> 'g \<Rightarrow> ('st, 'd, 's) InternalStatefulReadStream \<times> 'g" where
  "srs_new I stream state rng =
     (case new_deterministic I rng of (uid, rng') \<Rightarrow>
        (\<lparr> srs_id = irs_id stream, srs_state = state, srs_state_id = uid, srs_callbacks = [],
           srs_watermark_cbs = [], srs_children = [] \<rparr>, rng'))"

definition srs_add_callback ::
    "(Timestamp \<Rightarrow> 'd \<Rightarrow> 's \<Rightarrow> 'st \<Rightarrow> ('s \<times> 'st) option) \<Rightarrow>
       ('st, 'd, 's) InternalStatefulReadStream \<Rightarrow> ('st, 'd, 's) InternalStatefulReadStream" where
  "srs_add_callback cb self = self \<lparr> srs_callbacks := srs_callbacks self @ [cb] \<rparr>"

definition srs_add_watermark_callback_with_priority ::
    "(Timestamp \<Rightarrow> 's \<Rightarrow> 'st \<Rightarrow> ('s \<times> 'st) option) \<Rightarrow> i8 \<Rightarrow>
       ('st, 'd, 's) InternalStatefulReadStream \<Rightarrow> ('st, 'd, 's) InternalStatefulReadStream" where
  "srs_add_watermark_callback_with_priority cb prio self =
     self \<lparr> srs_watermark_cbs := srs_watermark_cbs self @ [(cb, prio)] \<rparr>"

definition srs_add_watermark_callback ::
    "(Timestamp \<Rightarrow> 's \<Rightarrow> 'st \<Rightarrow> ('s \<times> 'st) option) \<Rightarrow>
       ('st, 'd, 's) InternalStatefulReadStream \<Rightarrow> ('st, 'd, 's) InternalStatefulReadStream" where
  "srs_add_watermark_callback cb self = srs_add_watermark_callback_with_priority cb 0 self"

definition srs_add_child ::
    "'st MultiStreamEventMaker \<Rightarrow> ('st, 'd, 's) InternalStatefulReadStream \<Rightarrow> ('st, 'd, 's) InternalStatefulReadStream" where
  "srs_add_child child self = self \<lparr> srs_children := srs_children self @ [child] \<rparr>"

text \<open>
  The closure of a stateful event: it borrows the state behind the \<^verbatim>\<open>Arc\<close> without any check
  (\<^verbatim>\<open>Arc::get_mut_unchecked\<close>), tells it the kind of callback and the time, and calls the callback.
\<close>

definition with_state ::
    "'s ManagedState \<Rightarrow> ('st, 's) rc \<Rightarrow> AccessContext \<Rightarrow> Timestamp \<Rightarrow> ('s \<Rightarrow> 'st \<Rightarrow> ('s \<times> 'st) option) \<Rightarrow> 'st action" where
  "with_state MS state ctx t f st =
     (let s = ms_set_current_time MS t (ms_set_access_context MS ctx (rc_get state st))
      in map_option (\<lambda>(s', st'). rc_put state s' st') (f s st))"

fun notify_children ::
    "'st MultiStreamEventMaker list \<Rightarrow> StreamId \<Rightarrow> Timestamp \<Rightarrow> 'st \<Rightarrow> 'st event list \<times> 'st" where
  "notify_children [] sid t st = ([], st)"
| "notify_children (child # cs) sid t st =
     (case receive_watermark child sid t st of (es, st) \<Rightarrow>
        (case notify_children cs sid t st of (es', st) \<Rightarrow> (es @ es', st)))"

definition srs_make_events ::
    "'s ManagedState \<Rightarrow> ('st, 'd, 's) InternalStatefulReadStream \<Rightarrow> 'd Message \<Rightarrow> 'st \<Rightarrow> 'st event list \<times> 'st" where
  "srs_make_events MS self msg st =
     (let wids = {srs_state_id self}
      in (case msg of
            TimestampedData _ \<Rightarrow>
              (map (\<lambda>cb. operator_event_new (msg_timestamp msg) False 0 {} wids
                           (\<lambda>st. Option.bind (msg_data msg)
                              (\<lambda>d. with_state MS (srs_state self) Callback (msg_timestamp msg)
                                     (cb (msg_timestamp msg) d) st)))
                 (srs_callbacks self), st)
          | Watermark t \<Rightarrow>
              (case notify_children (srs_children self) (srs_id self) t st of (es, st) \<Rightarrow>
                 (map (\<lambda>(cb, prio). operator_event_new t True prio {} wids
                          (with_state MS (srs_state self) WatermarkCallback t (cb t)))
                    (srs_watermark_cbs self) @ es, st))))"

text \<open>A stateful stream behind \<^verbatim>\<open>Rc<RefCell<_>>\<close> as an event maker.\<close>

definition srs_event_maker ::
    "'s ManagedState \<Rightarrow> ('st, ('st, 'd, 's) InternalStatefulReadStream) rc \<Rightarrow> ('st, 'd) EventMakerT" where
  "srs_event_maker MS r =
     \<lparr> em_get_id = (\<lambda>st. srs_id (rc_get r st)),
       em_make_events = (\<lambda>msg st. srs_make_events MS (rc_get r st) msg st) \<rparr>"

section \<open>The handles of operators\<close>

text \<open>\<open>alloc\<close> puts a value behind a new pointer: \<^verbatim>\<open>Rc::new(RefCell::new(_))\<close> or \<^verbatim>\<open>Arc::new(_)\<close>.\<close>

type_synonym ('st, 'd, 'h) ReadStream = "('st, ('st, 'd, 'h) InternalReadStream) rc"
type_synonym ('st, 'd, 's) StatefulReadStream = "('st, ('st, 'd, 's) InternalStatefulReadStream) rc"

definition rc_modify :: "('st, 'a) rc \<Rightarrow> ('a \<Rightarrow> 'a) \<Rightarrow> 'st \<Rightarrow> 'st" where
  "rc_modify r f st = rc_put r (f (rc_get r st)) st"

definition rs_from_internal ::
    "('i \<Rightarrow> 'st \<Rightarrow> ('st, 'i) rc \<times> 'st) \<Rightarrow> 'i \<Rightarrow> 'st \<Rightarrow> ('st, 'i) rc \<times> 'st" where
  "rs_from_internal alloc s st = alloc s st"

definition rs_new ::
    "'g id_source \<Rightarrow> (('st, 'd, 'h) InternalReadStream \<Rightarrow> 'st \<Rightarrow> ('st, 'd, 'h) ReadStream \<times> 'st) \<Rightarrow>
       'g \<times> 'st \<Rightarrow> ('st, 'd, 'h) ReadStream \<times> 'g \<times> 'st" where
  "rs_new I alloc = (\<lambda>(rng, st).
     case irs_new I rng of (s, rng) \<Rightarrow> (case alloc s st of (r, st) \<Rightarrow> (r, rng, st)))"

definition rs_new_with_name ::
    "'g id_source \<Rightarrow> (('st, 'd, 'h) InternalReadStream \<Rightarrow> 'st \<Rightarrow> ('st, 'd, 'h) ReadStream \<times> 'st) \<Rightarrow> string \<Rightarrow>
       'g \<times> 'st \<Rightarrow> ('st, 'd, 'h) ReadStream \<times> 'g \<times> 'st" where
  "rs_new_with_name I alloc name = (\<lambda>(rng, st).
     case new_deterministic I rng of (sid, rng) \<Rightarrow>
       (case alloc (irs_new_with_id_name sid name) st of (r, st) \<Rightarrow> (r, rng, st)))"

definition rs_from_write_stream ::
    "(('st, 'd, 'h) InternalReadStream \<Rightarrow> 'st \<Rightarrow> ('st, 'd, 'h) ReadStream \<times> 'st) \<Rightarrow> ('h, 'i) WriteStream \<Rightarrow>
       'st \<Rightarrow> ('st, 'd, 'h) ReadStream \<times> 'st" where
  "rs_from_write_stream alloc ws st = rs_from_internal alloc (irs_new_with_id_name (ws_id ws) (ws_name ws)) st"

definition rs_add_callback :: "(Timestamp \<Rightarrow> 'd \<Rightarrow> 'st action) \<Rightarrow> ('st, 'd, 'h) ReadStream \<Rightarrow> 'st \<Rightarrow> 'st" where
  "rs_add_callback cb self = rc_modify self (irs_add_callback cb)"

definition rs_add_watermark_callback :: "(Timestamp \<Rightarrow> 'st action) \<Rightarrow> ('st, 'd, 'h) ReadStream \<Rightarrow> 'st \<Rightarrow> 'st" where
  "rs_add_watermark_callback cb self = rc_modify self (irs_add_watermark_callback cb)"

definition rs_is_closed :: "('st, 'd, 'h) ReadStream \<Rightarrow> 'st \<Rightarrow> bool" where
  "rs_is_closed self st = irs_closed (rc_get self st)"

definition rs_try_read ::
    "('w, 'h, 'i, 'd Message, 'e) net \<Rightarrow> ('st, 'd, 'h) ReadStream \<Rightarrow> 'w \<times> 'st \<Rightarrow>
       ('w \<times> 'st) \<times> (TryReadError + 'd Message)" where
  "rs_try_read N self = (\<lambda>(w, st).
     case irs_try_read N (rc_get self st) w of ((w', s), r) \<Rightarrow> ((w', rc_put self s st), r))"

definition rs_read ::
    "('w, 'h, 'i, 'd Message, 'e) net \<Rightarrow> ('w \<Rightarrow> 'w) \<Rightarrow> ('st, 'd, 'h) ReadStream \<Rightarrow> 'w \<times> 'st \<Rightarrow>
       (('w \<times> 'st) \<times> (ReadError + 'd Message)) option" where
  "rs_read N env self = (\<lambda>(w, st).
     map_option (\<lambda>((w', s), r). ((w', rc_put self s st), r)) (irs_read N env (rc_get self st) w))"

text \<open>
  \<^verbatim>\<open>InternalReadStream::add_state\<close>, called through \<^verbatim>\<open>ReadStream::add_state\<close> or
  \<^verbatim>\<open>StatefulReadStream::new\<close>: the state and the stateful stream get pointers of their own, and the
  latter becomes a child of the stream.
\<close>

definition rs_add_state ::
    "'g id_source \<Rightarrow> 's ManagedState \<Rightarrow> ('s \<Rightarrow> 'st \<Rightarrow> ('st, 's) rc \<times> 'st) \<Rightarrow>
       (('st, 'd, 's) InternalStatefulReadStream \<Rightarrow> 'st \<Rightarrow> ('st, 'd, 's) StatefulReadStream \<times> 'st) \<Rightarrow>
       's \<Rightarrow> ('st, 'd, 'h) ReadStream \<Rightarrow> 'g \<times> 'st \<Rightarrow> ('st, 'd, 's) StatefulReadStream \<times> 'g \<times> 'st" where
  "rs_add_state I MS alloc_state alloc_stream state self = (\<lambda>(rng, st).
     case alloc_state state st of (arc, st) \<Rightarrow>
       (case srs_new I (rc_get self st) arc rng of (s, rng) \<Rightarrow>
          (case alloc_stream s st of (child, st) \<Rightarrow>
             (child, rng,
              rc_modify self (\<lambda>s. s \<lparr> irs_children := irs_children s @ [srs_event_maker MS child] \<rparr>) st))))"

definition sfs_add_callback ::
    "(Timestamp \<Rightarrow> 'd \<Rightarrow> 's \<Rightarrow> 'st \<Rightarrow> ('s \<times> 'st) option) \<Rightarrow> ('st, 'd, 's) StatefulReadStream \<Rightarrow> 'st \<Rightarrow> 'st" where
  "sfs_add_callback cb self = rc_modify self (srs_add_callback cb)"

definition sfs_add_watermark_callback ::
    "(Timestamp \<Rightarrow> 's \<Rightarrow> 'st \<Rightarrow> ('s \<times> 'st) option) \<Rightarrow> ('st, 'd, 's) StatefulReadStream \<Rightarrow> 'st \<Rightarrow> 'st" where
  "sfs_add_watermark_callback cb self = rc_modify self (srs_add_watermark_callback cb)"

definition sfs_add_watermark_callback_with_priority ::
    "(Timestamp \<Rightarrow> 's \<Rightarrow> 'st \<Rightarrow> ('s \<times> 'st) option) \<Rightarrow> i8 \<Rightarrow> ('st, 'd, 's) StatefulReadStream \<Rightarrow> 'st \<Rightarrow> 'st" where
  "sfs_add_watermark_callback_with_priority cb prio self =
     rc_modify self (srs_add_watermark_callback_with_priority cb prio)"

text \<open>\<^verbatim>\<open>add_read_stream\<close> and \<^verbatim>\<open>add_write_stream\<close>: \<open>builder\<close> is the new bundle, as the object both
  streams notify.\<close>

definition sfs_add_read_stream ::
    "'st MultiStreamEventMaker \<Rightarrow> ('st, 'd1, 's1) StatefulReadStream \<Rightarrow> ('st, 'd, 's) StatefulReadStream \<Rightarrow> 'st \<Rightarrow> 'st" where
  "sfs_add_read_stream builder read_stream self st =
     rc_modify read_stream (srs_add_child builder) (rc_modify self (srs_add_child builder) st)"

definition sfs_add_write_stream ::
    "'st MultiStreamEventMaker \<Rightarrow> ('st, 'd, 's) StatefulReadStream \<Rightarrow> 'st \<Rightarrow> 'st" where
  "sfs_add_write_stream builder self st = rc_modify self (srs_add_child builder) st"

end
