(* ===== verification/Read_Stream_Properties.thy ===== *)
theory Read_Stream_Properties
  imports Read_Stream
begin

text \<open>
  What reading from a stream returns, in which order and when it returns at all, and which events a
  message becomes.
\<close>

section \<open>Reading\<close>

definition irs_open :: "('st, 'd, 'h) InternalReadStream \<Rightarrow> 'h \<Rightarrow> bool" where
  "irs_open s h \<longleftrightarrow> \<not> irs_closed s \<and> recv_endpoint s = Some (Recv_InterThread h)"

text \<open>Results of reading several times in a row.\<close>

fun try_reads ::
    "('w, 'h, 'i, 'd Message, 'e) net \<Rightarrow> nat \<Rightarrow> ('st, 'd, 'h) InternalReadStream \<Rightarrow> 'w \<Rightarrow> (TryReadError + 'd Message) list" where
  "try_reads N 0 s w = []"
| "try_reads N (Suc k) s w = (case irs_try_read N s w of ((w', s'), r) \<Rightarrow> r # try_reads N k s' w')"

text \<open>The messages up to and including the first top watermark.\<close>

fun up_to_top :: "'d Message list \<Rightarrow> 'd Message list" where
  "up_to_top [] = []"
| "up_to_top (m # ms) = (if is_top_watermark m then [m] else m # up_to_top ms)"

text \<open>A read has something to return: a message, or that the senders are gone.\<close>

definition readable :: "('w \<Rightarrow> 'h \<Rightarrow> 'm list) \<Rightarrow> ('w \<Rightarrow> 'h \<Rightarrow> bool) \<Rightarrow> 'w \<Rightarrow> 'h \<Rightarrow> bool" where
  "readable tc ttx w h \<longleftrightarrow> tc w h \<noteq> [] \<or> \<not> ttx w h"

lemma try_reads_closed: "irs_closed s \<Longrightarrow> try_reads N k s w = replicate k (Inl TryRead_Closed)"
  by (induction k arbitrary: w) (simp_all add: irs_try_read_def)

lemma poll_read_polls:
  fixes N :: "('w, 'h, 'i, 'd Message, 'e) net"
  assumes "poll_read N env rx w = Some y"
  shows "\<exists>k. snd (endpoint_try_read N rx (((\<lambda>w. env (fst (endpoint_try_read N rx w))) ^^ k) w)) \<noteq> Inl TryRecv_Empty"
  using assms
proof (rule poll_read.raw_induct[where P = "\<lambda>N env rx w y.
    \<exists>k. snd (endpoint_try_read N rx (((\<lambda>w. env (fst (endpoint_try_read N rx w))) ^^ k) w)) \<noteq> Inl TryRecv_Empty", rotated])
  fix poll and N :: "('w, 'h, 'i, 'd Message, 'e) net" and env :: "'w \<Rightarrow> 'w" and rx w y
  let ?step = "\<lambda>w. env (fst (endpoint_try_read N rx w))"
  assume IH: "\<And>N env rx w y. poll N env rx w = Some y \<Longrightarrow>
      \<exists>k. snd (endpoint_try_read N rx (((\<lambda>w. env (fst (endpoint_try_read N rx w))) ^^ k) w)) \<noteq> Inl TryRecv_Empty"
    and body: "(case endpoint_try_read N rx w of
      (w', Inl TryRecv_Empty) \<Rightarrow> poll N env rx (env w')
      | (w', Inl TryRecv_Disconnected) \<Rightarrow> Some (w', Inl Read_Disconnected)
      | (w', Inl (TryRecv_BincodeError x)) \<Rightarrow> Some (w', Inl Read_SerializationError)
      | (w', Inr msg) \<Rightarrow> Some (w', Inr msg)) = Some y"
  show "\<exists>k. snd (endpoint_try_read N rx ((?step ^^ k) w)) \<noteq> Inl TryRecv_Empty"
  proof (cases "snd (endpoint_try_read N rx w) = Inl TryRecv_Empty")
    case True
    with body have "poll N env rx (?step w) = Some y" by (cases "endpoint_try_read N rx w") simp
    from IH[OF this] obtain k where "snd (endpoint_try_read N rx ((?step ^^ k) (?step w))) \<noteq> Inl TryRecv_Empty" by blast
    then show ?thesis by (intro exI[of _ "Suc k"]) (simp add: funpow_Suc_right del: funpow.simps)
  qed (intro exI[of _ 0], simp)
qed

context message_network
begin

lemma endpoint_try_read_effect:
  "\<exists>w'. endpoint_try_read N (Recv_InterThread h) w =
     (w', case tc w h of m # _ \<Rightarrow> Inr m | [] \<Rightarrow> Inl (if ttx w h then TryRecv_Empty else TryRecv_Disconnected)) \<and>
     tc w' = (tc w)(h := tl (tc w h)) \<and> trx w' = trx w \<and> ttx w' = ttx w"
  using thread.try_recv_result[of h w] by (auto simp: endpoint_try_read_def split: list.splits)

lemma endpoint_try_read_empty:
  "tc w h = [] \<Longrightarrow> endpoint_try_read N (Recv_InterThread h) w =
     (w, Inl (if ttx w h then TryRecv_Empty else TryRecv_Disconnected))"
  by (simp add: endpoint_try_read_def thread.try_recv_empty)

lemma try_read_item:
  assumes "irs_open s h" "tc w h = m # ms"
  obtains w' where "irs_try_read N s w = ((w', close_on_top (Inr m :: TryReadError + 'd Message) s), Inr m)"
    "tc w' h = ms" "ttx w' = ttx w"
proof -
  from endpoint_try_read_effect[of h w] assms(2) obtain w' where
    "endpoint_try_read N (Recv_InterThread h) w = (w', Inr m)" "tc w' h = ms" "ttx w' = ttx w" by auto
  with assms(1) that show ?thesis by (simp add: irs_try_read_def irs_open_def Let_def)
qed

lemma try_read_empty:
  assumes "irs_open s h" "tc w h = []"
  shows "irs_try_read N s w = ((w, s), Inl (if ttx w h then TryRead_Empty else TryRead_Disconnected))"
  using assms by (simp add: irs_try_read_def irs_open_def endpoint_try_read_empty close_on_top_def)

lemma try_reads_empty:
  "irs_open s h \<Longrightarrow> tc w h = [] \<Longrightarrow>
     try_reads N k s w = replicate k (Inl (if ttx w h then TryRead_Empty else TryRead_Disconnected))"
  by (induction k) (simp_all add: try_read_empty)

lemma try_reads_eq:
  "irs_open s h \<Longrightarrow> tc w h = ms \<Longrightarrow>
     try_reads N k s w = map Inr (take k (up_to_top ms)) @
       replicate (k - length (up_to_top ms))
         (Inl (if \<exists>m \<in> set ms. is_top_watermark m then TryRead_Closed
               else if ttx w h then TryRead_Empty else TryRead_Disconnected))"
proof (induction k arbitrary: s w ms)
  case 0
  then show ?case by simp
next
  case (Suc k)
  show ?case
  proof (cases ms)
    case Nil
    with Suc.prems show ?thesis by (simp add: try_read_empty try_reads_empty)
  next
    case (Cons m ms')
    with Suc.prems obtain w' where w':
      "irs_try_read N s w = ((w', close_on_top (Inr m :: TryReadError + 'd Message) s), Inr m)"
      "tc w' h = ms'" "ttx w' = ttx w" by (metis try_read_item)
    show ?thesis
    proof (cases "is_top_watermark m")
      case True
      with w' Cons show ?thesis by (simp add: close_on_top_def try_reads_closed)
    next
      case False
      with w' Cons Suc.IH[OF Suc.prems(1), of w' ms'] show ?thesis by (simp add: close_on_top_def)
    qed
  qed
qed

abbreviation "available \<equiv> readable tc ttx"

text \<open>The polling loop ends in the first state in which the channel has a message or is closed.\<close>

lemma poll_read_waits:
  "\<not> available w h \<Longrightarrow> poll_read N env (Recv_InterThread h) w = poll_read N env (Recv_InterThread h) (env w)"
  by (subst poll_read.simps) (simp add: readable_def endpoint_try_read_empty)

lemma poll_read_ready:
  assumes "available w h"
  shows "\<exists>w'. poll_read N env (Recv_InterThread h) w =
    Some (w', case tc w h of m # _ \<Rightarrow> Inr m | [] \<Rightarrow> Inl Read_Disconnected)"
proof -
  from endpoint_try_read_effect[of h w] obtain w' where w': "endpoint_try_read N (Recv_InterThread h) w =
     (w', case tc w h of m # _ \<Rightarrow> Inr m | [] \<Rightarrow> Inl (if ttx w h then TryRecv_Empty else TryRecv_Disconnected))"
    by blast
  with assms show ?thesis
    by (subst poll_read.simps) (auto simp: readable_def split: list.split)
qed

lemma poll_read_after:
  "(\<And>i. i < k \<Longrightarrow> \<not> available ((env ^^ i) w) h) \<Longrightarrow>
     poll_read N env (Recv_InterThread h) w = poll_read N env (Recv_InterThread h) ((env ^^ k) w)"
  by (induction k) (auto simp: poll_read_waits)

lemma poll_read_never:
  assumes "\<And>k. \<not> available ((env ^^ k) w) h"
  shows "poll_read N env (Recv_InterThread h) w = None"
proof (rule ccontr)
  let ?step = "\<lambda>w. env (fst (endpoint_try_read N (Recv_InterThread h) w))"
  assume "poll_read N env (Recv_InterThread h) w \<noteq> None"
  then obtain k where k: "snd (endpoint_try_read N (Recv_InterThread h) ((?step ^^ k) w)) \<noteq> Inl TryRecv_Empty"
    using poll_read_polls[of N env "Recv_InterThread h" w] by auto
  have "(?step ^^ k) w = (env ^^ k) w"
  proof (induction k)
    case (Suc k)
    with assms[of k] show ?case by (simp add: readable_def endpoint_try_read_empty)
  qed simp
  with k assms[of k] show False by (simp add: readable_def endpoint_try_read_empty)
qed

lemma poll_read_first:
  assumes "available ((env ^^ k) w) h" "\<And>i. i < k \<Longrightarrow> \<not> available ((env ^^ i) w) h"
  shows "\<exists>w'. poll_read N env (Recv_InterThread h) w =
    Some (w', case tc ((env ^^ k) w) h of m # _ \<Rightarrow> Inr m | [] \<Rightarrow> Inl Read_Disconnected)"
  using poll_read_ready[OF assms(1), of env] poll_read_after[of k env w h, OF assms(2)] by simp

lemma irs_read_first:
  assumes "irs_open s h" "available ((env ^^ k) w) h" "\<And>i. i < k \<Longrightarrow> \<not> available ((env ^^ i) w) h"
  shows "\<exists>ws. irs_read N env s w =
    Some (ws, case tc ((env ^^ k) w) h of m # _ \<Rightarrow> Inr m | [] \<Rightarrow> Inl Read_Disconnected)"
  using poll_read_first[OF assms(2,3)] assms(1) by (auto simp: irs_read_def irs_open_def)

lemma irs_read_returns_iff:
  assumes "irs_open s h"
  shows "irs_read N env s w \<noteq> None \<longleftrightarrow> (\<exists>k. available ((env ^^ k) w) h)"
proof
  assume "irs_read N env s w \<noteq> None"
  with assms have "poll_read N env (Recv_InterThread h) w \<noteq> None" by (auto simp: irs_read_def irs_open_def)
  with poll_read_never[of env w h] show "\<exists>k. available ((env ^^ k) w) h" by metis
next
  assume ex: "\<exists>k. available ((env ^^ k) w) h"
  define k where "k = (LEAST k. available ((env ^^ k) w) h)"
  from ex have "available ((env ^^ k) w) h" unfolding k_def by (rule LeastI_ex)
  moreover have "\<not> available ((env ^^ i) w) h" if "i < k" for i using not_less_Least that unfolding k_def by blast
  ultimately show "irs_read N env s w \<noteq> None" using irs_read_first[OF assms, where env = env and k = k and w = w] by auto
qed

end

section \<open>Events\<close>

text \<open>The events a stateful stream makes of one message, those of its bundles apart.\<close>

lemma srs_message_events:
  "srs_make_events MS s (TimestampedData td) st = (es, st') \<Longrightarrow>
     st' = st \<and> length es = length (srs_callbacks s) \<and>
     (\<forall>e \<in> set es. ev_timestamp e = td_timestamp td \<and> \<not> is_watermark_callback e \<and> priority e = 0 \<and>
        read_ids e = {} \<and> write_ids e = {srs_state_id s})"
  by (auto simp: srs_make_events_def operator_event_new_def Let_def)

section \<open>Properties\<close>

text \<open>C28. A read stream returns the messages of its channel in the order in which they were sent, up to
  and including the first top watermark. After that it is closed and every read says so, whatever
  else is in the channel; without a top watermark the next reads say that the channel is
  empty, or disconnected if its senders are gone.\<close>

theorem try_reads_in_order:
  assumes "message_network N tc trx ttx pc prx ptx" and "irs_open s h" and "tc w h = ms"
  shows "try_reads N k s w = map Inr (take k (up_to_top ms)) @
       replicate (k - length (up_to_top ms))
         (Inl (if \<exists>m \<in> set ms. is_top_watermark m then TryRead_Closed
               else if ttx w h then TryRead_Empty else TryRead_Disconnected))"
  by (rule message_network.try_reads_eq[OF assms])

definition example_read_stream :: "(unit, nat, nat) InternalReadStream" where
  "example_read_stream = irs_from_endpoint ref_ids (Recv_InterThread 0) 9"

theorem try_reads_in_order_witness:
  "try_reads example_net 3 example_read_stream
     ((\<lambda>_. chan_new \<lparr> ch_items := [new_message (ts_new [1]) 5, Watermark ts_top, new_message (ts_new [2]) 6] \<rparr>), (\<lambda>_. chan_new)) =
   [Inr (new_message (ts_new [1]) 5), Inr (Watermark ts_top), Inl TryRead_Closed]"
  using try_reads_in_order[OF example_network, of example_read_stream 0
      "((\<lambda>_. chan_new \<lparr> ch_items := [new_message (ts_new [1]) 5, Watermark ts_top, new_message (ts_new [2]) 6] \<rparr>), (\<lambda>_. chan_new))"
      "[new_message (ts_new [1]) 5, Watermark ts_top, new_message (ts_new [2]) 6]" 3]
  by (simp add: irs_open_def example_read_stream_def irs_from_endpoint_def chan_new_def new_message_def ts_top_def
      ts_new_def numeral_3_eq_3)

text \<open>C29. A blocking read returns exactly if, at some point of what the rest of the program does, the
  channel has a message or has lost its senders. It returns what is first then: the first message of
  the channel, or that the channel is disconnected. Until then it polls without end.\<close>

theorem blocking_read_returns:
  assumes "message_network N tc trx ttx pc prx ptx" and "irs_open s h"
  shows "(irs_read N env s w \<noteq> None \<longleftrightarrow> (\<exists>k. readable tc ttx ((env ^^ k) w) h)) \<and>
    (\<forall>k. readable tc ttx ((env ^^ k) w) h \<longrightarrow> (\<forall>i < k. \<not> readable tc ttx ((env ^^ i) w) h) \<longrightarrow>
      (\<exists>ws. irs_read N env s w =
        Some (ws, case tc ((env ^^ k) w) h of m # _ \<Rightarrow> Inr m | [] \<Rightarrow> Inl Read_Disconnected)))"
  using message_network.irs_read_returns_iff[OF assms] message_network.irs_read_first[OF assms] by blast

theorem blocking_read_returns_witness:
  "\<exists>ws. irs_read example_net (\<lambda>w. ((\<lambda>_. chan_new \<lparr> ch_items := [Watermark (ts_new [1])] \<rparr>), snd w)) example_read_stream
     ((\<lambda>_. chan_new), (\<lambda>_. chan_new)) = Some (ws, Inr (Watermark (ts_new [1])))"
  using blocking_read_returns[OF example_network, where s = example_read_stream and h = 0 and
      env = "\<lambda>w. ((\<lambda>_. chan_new \<lparr> ch_items := [Watermark (ts_new [1])] \<rparr>), snd w)" and
      w = "((\<lambda>_. chan_new), (\<lambda>_. chan_new))", THEN conjunct2, rule_format, of 1]
  by (simp add: irs_open_def example_read_stream_def irs_from_endpoint_def chan_new_def readable_def)

end
