(* ===== verification/Graph.thy ===== *)
theory Graph
  imports Write_Stream "HOL-Library.AList"
begin

text \<open>
  The dataflow graph: \<^verbatim>\<open>graph.rs\<close>, \<^verbatim>\<open>edge.rs\<close>, \<^verbatim>\<open>vertex.rs\<close> and \<^verbatim>\<open>default_graph.rs\<close> under
  \<^verbatim>\<open>src/src/dataflow/graph/\<close>, and \<^verbatim>\<open>schedule\<close> of \<^verbatim>\<open>src/src/scheduler/mod.rs\<close>.

  A \<^verbatim>\<open>HashMap\<close> is an association list whose order is the order of iteration, which the code must
  not depend on. The closures a graph holds, operator runners and set-up hooks, and the type
  of the data of a stream are values of type parameters. The thread-local default graph is the
  state that the functions take and return.
\<close>

section \<open>Vertices and edges\<close>

datatype Vertex = Vertex_Driver NodeId | Vertex_Operator OperatorId

record 'hook DriverMetadata =
  drv_id :: NodeId
  ingest_stream_ids :: "StreamId list"
  extract_stream_ids :: "StreamId list"
  setup_hooks :: "'hook list"

definition driver_new :: "NodeId \<Rightarrow> 'hook DriverMetadata" where
  "driver_new n = \<lparr> drv_id = n, ingest_stream_ids = [], extract_stream_ids = [], setup_hooks = [] \<rparr>"

definition driver_add_ingest_stream :: "StreamId \<Rightarrow> 'hook \<Rightarrow> 'hook DriverMetadata \<Rightarrow> 'hook DriverMetadata" where
  "driver_add_ingest_stream sid hook self =
     self \<lparr> ingest_stream_ids := ingest_stream_ids self @ [sid], setup_hooks := setup_hooks self @ [hook] \<rparr>"

definition driver_add_extract_stream :: "StreamId \<Rightarrow> 'hook \<Rightarrow> 'hook DriverMetadata \<Rightarrow> 'hook DriverMetadata" where
  "driver_add_extract_stream sid hook self =
     self \<lparr> extract_stream_ids := extract_stream_ids self @ [sid], setup_hooks := setup_hooks self @ [hook] \<rparr>"

record 'run OperatorMetadata =
  op_id :: OperatorId
  op_name :: "string option"
  op_node_id :: NodeId
  read_stream_ids :: "StreamId list"
  write_stream_ids :: "StreamId list"
  runner :: 'run

definition operator_new ::
    "OperatorId \<Rightarrow> string option \<Rightarrow> NodeId \<Rightarrow> StreamId list \<Rightarrow> StreamId list \<Rightarrow> 'run \<Rightarrow> 'run OperatorMetadata" where
  "operator_new i name node rids wids run =
     \<lparr> op_id = i, op_name = name, op_node_id = node, read_stream_ids = rids, write_stream_ids = wids, runner = run \<rparr>"

record ChannelMetadata =
  cm_stream_id :: StreamId
  cm_source :: Vertex
  cm_sink :: Vertex

definition channel_metadata_new :: "StreamId \<Rightarrow> Vertex \<Rightarrow> Vertex \<Rightarrow> ChannelMetadata" where
  "channel_metadata_new sid source sink = \<lparr> cm_stream_id = sid, cm_source = source, cm_sink = sink \<rparr>"

datatype Channel = Chan_InterThread ChannelMetadata | Chan_InterNode ChannelMetadata | Unscheduled ChannelMetadata

text \<open>\<^verbatim>\<open>StreamMetadata\<close> boxes a \<^verbatim>\<open>TypedStreamMetadata<D>\<close>; \<open>sm_type\<close> is the type \<open>D\<close> at run time.\<close>

record 'ty StreamMetadata =
  sm_id :: StreamId
  sm_source :: Vertex
  sm_channels :: "Channel list"
  sm_type :: 'ty

definition stream_metadata_new :: "'ty \<Rightarrow> StreamId \<Rightarrow> Vertex \<Rightarrow> 'ty StreamMetadata" where
  "stream_metadata_new ty sid source = \<lparr> sm_id = sid, sm_source = source, sm_channels = [], sm_type = ty \<rparr>"

definition add_channel :: "Channel \<Rightarrow> 'ty StreamMetadata \<Rightarrow> 'ty StreamMetadata" where
  "add_channel channel self = self \<lparr> sm_channels := sm_channels self @ [channel] \<rparr>"

definition set_channels :: "Channel list \<Rightarrow> 'ty StreamMetadata \<Rightarrow> 'ty StreamMetadata" where
  "set_channels channels self = self \<lparr> sm_channels := channels \<rparr>"

section \<open>The graph\<close>

record ('run, 'hook, 'ty) Graph =
  operators :: "(OperatorId \<times> 'run OperatorMetadata) list"
  drivers :: "(NodeId \<times> 'hook DriverMetadata) list"
  streams :: "(StreamId \<times> 'ty StreamMetadata) list"
  stream_aliases :: "(StreamId \<times> StreamId) list"

definition graph_new :: "('run, 'hook, 'ty) Graph" where
  "graph_new = \<lparr> operators = [], drivers = [], streams = [], stream_aliases = [] \<rparr>"

definition resolve_stream_id :: "('run, 'hook, 'ty) Graph \<Rightarrow> StreamId \<Rightarrow> StreamId" where
  "resolve_stream_id self sid =
     (case map_of (stream_aliases self) sid of Some fixed_id \<Rightarrow> fixed_id | None \<Rightarrow> sid)"

text \<open>The loop of \<^verbatim>\<open>add_operator\<close>: a channel for each read stream the graph knows.\<close>

fun connect_reads ::
    "OperatorId \<Rightarrow> StreamId list \<Rightarrow> (StreamId \<times> 'ty StreamMetadata) list \<Rightarrow> (StreamId \<times> 'ty StreamMetadata) list" where
  "connect_reads i [] ss = ss"
| "connect_reads i (rid # rids) ss =
     connect_reads i rids
       (case map_of ss rid of
          Some stream \<Rightarrow>
            AList.update rid
              (add_channel (Unscheduled (channel_metadata_new (sm_id stream) (sm_source stream) (Vertex_Operator i))) stream) ss
        | None \<Rightarrow> ss)"

definition add_operator ::
    "OperatorId \<Rightarrow> string option \<Rightarrow> NodeId \<Rightarrow> StreamId list \<Rightarrow> StreamId list \<Rightarrow> 'run \<Rightarrow>
       ('run, 'hook, 'ty) Graph \<Rightarrow> ('run, 'hook, 'ty) Graph" where
  "add_operator i name node rids wids run self =
     (let rids = map (resolve_stream_id self) rids;
          wids = map (resolve_stream_id self) wids
      in self \<lparr> streams := connect_reads i rids (streams self),
                operators := AList.update i (operator_new i name node rids wids run) (operators self) \<rparr>)"

text \<open>\<^verbatim>\<open>add_channels\<close>: a channel per operator and driver that already reads the stream.\<close>

definition operator_channels :: "StreamId \<Rightarrow> Vertex \<Rightarrow> 'run OperatorMetadata \<Rightarrow> Channel list" where
  "operator_channels sid source oper =
     map (\<lambda>_. Unscheduled (channel_metadata_new sid source (Vertex_Operator (op_id oper))))
       (filter (\<lambda>i. sid = i) (read_stream_ids oper))"

definition driver_channels :: "StreamId \<Rightarrow> Vertex \<Rightarrow> 'hook DriverMetadata \<Rightarrow> Channel list" where
  "driver_channels sid source driver =
     map (\<lambda>_. Unscheduled (channel_metadata_new sid source (Vertex_Driver (drv_id driver))))
       (filter (\<lambda>i. sid = i) (extract_stream_ids driver))"

definition add_channels :: "('run, 'hook, 'ty) Graph \<Rightarrow> 'ty StreamMetadata \<Rightarrow> 'ty StreamMetadata" where
  "add_channels self sm =
     fold add_channel
       (concat (map (operator_channels (sm_id sm) (sm_source sm)) (map snd (operators self))) @
        concat (map (driver_channels (sm_id sm) (sm_source sm)) (map snd (drivers self)))) sm"

text \<open>\<open>ty\<close> is the type parameter \<^verbatim>\<open>D\<close> of the stream that is added.\<close>

definition add_operator_stream ::
    "'ty \<Rightarrow> OperatorId \<Rightarrow> StreamId \<Rightarrow> ('run, 'hook, 'ty) Graph \<Rightarrow> ('run, 'hook, 'ty) Graph" where
  "add_operator_stream ty i sid self =
     self \<lparr> streams := AList.update sid (add_channels self (stream_metadata_new ty sid (Vertex_Operator i))) (streams self) \<rparr>"

definition driver_entry :: "NodeId \<Rightarrow> (NodeId \<times> 'hook DriverMetadata) list \<Rightarrow> 'hook DriverMetadata" where
  "driver_entry n ds = (case map_of ds n of Some d \<Rightarrow> d | None \<Rightarrow> driver_new n)"

definition add_ingest_stream ::
    "'ty \<Rightarrow> StreamId \<Rightarrow> NodeId \<Rightarrow> 'hook \<Rightarrow> ('run, 'hook, 'ty) Graph \<Rightarrow> ('run, 'hook, 'ty) Graph" where
  "add_ingest_stream ty sid n hook self =
     (let self = self \<lparr> drivers := AList.update n (driver_add_ingest_stream sid hook (driver_entry n (drivers self))) (drivers self) \<rparr>
      in self \<lparr> streams := AList.update sid (add_channels self (stream_metadata_new ty sid (Vertex_Driver n))) (streams self) \<rparr>)"

definition add_extract_stream ::
    "StreamId \<Rightarrow> NodeId \<Rightarrow> 'hook \<Rightarrow> ('run, 'hook, 'ty) Graph \<Rightarrow> ('run, 'hook, 'ty) Graph" where
  "add_extract_stream sid n hook self =
     (let self = self \<lparr> drivers := AList.update n (driver_add_extract_stream sid hook (driver_entry n (drivers self))) (drivers self) \<rparr>
      in (case map_of (streams self) sid of
            Some sm \<Rightarrow>
              self \<lparr> streams := AList.update sid
                (add_channel (Unscheduled (channel_metadata_new sid (sm_source sm) (Vertex_Driver n))) sm) (streams self) \<rparr>
          | None \<Rightarrow> self))"

definition add_loop_stream :: "'ty \<Rightarrow> StreamId \<Rightarrow> ('run, 'hook, 'ty) Graph \<Rightarrow> ('run, 'hook, 'ty) Graph" where
  "add_loop_stream ty sid self = add_operator_stream ty uuid_nil sid self"

fun channel_metadata :: "Channel \<Rightarrow> ChannelMetadata" where
  "channel_metadata (Chan_InterNode cm) = cm"
| "channel_metadata (Chan_InterThread cm) = cm"
| "channel_metadata (Unscheduled cm) = cm"

text \<open>
  \<open>None\<close> is \<^verbatim>\<open>unreachable!()\<close>; the parameter \<open>display\<close> formats identifiers in the error message.
\<close>

definition add_stream_alias ::
    "(StreamId \<Rightarrow> string) \<Rightarrow> StreamId \<Rightarrow> StreamId \<Rightarrow> ('run, 'hook, 'ty) Graph \<Rightarrow>
       (('run, 'hook, 'ty) Graph \<times> (string + unit)) option" where
  "add_stream_alias display from_id to_id self =
     (if map_of (streams self) to_id = None
      then Some (self, Inl (''Dataflow graph does not contain stream with ID '' @ display to_id))
      else let self = self \<lparr> stream_aliases := AList.update from_id to_id (stream_aliases self) \<rparr>
           in (case map_of (streams self) from_id of
                 None \<Rightarrow> Some (self, Inr ())
               | Some from_stream \<Rightarrow>
                   let ss = AList.delete from_id (streams self)
                   in (case map_of ss to_id of
                         None \<Rightarrow> None
                       | Some to_stream \<Rightarrow>
                           let chans = map (\<lambda>c. Unscheduled ((channel_metadata c)
                                               \<lparr> cm_stream_id := to_id, cm_source := sm_source to_stream \<rparr>))
                                         (sm_channels from_stream)
                           in Some (self \<lparr> streams := AList.update to_id (fold add_channel chans to_stream) ss \<rparr>, Inr ()))))"

definition get_operator :: "('run, 'hook, 'ty) Graph \<Rightarrow> OperatorId \<Rightarrow> 'run OperatorMetadata option" where
  "get_operator self i = map_of (operators self) i"

definition get_operators :: "('run, 'hook, 'ty) Graph \<Rightarrow> 'run OperatorMetadata list" where
  "get_operators self = map snd (operators self)"

definition get_driver :: "('run, 'hook, 'ty) Graph \<Rightarrow> NodeId \<Rightarrow> 'hook DriverMetadata option" where
  "get_driver self n = map_of (drivers self) n"

definition get_stream :: "('run, 'hook, 'ty) Graph \<Rightarrow> StreamId \<Rightarrow> 'ty StreamMetadata option" where
  "get_stream self sid = map_of (streams self) sid"

definition get_streams :: "('run, 'hook, 'ty) Graph \<Rightarrow> 'ty StreamMetadata list" where
  "get_streams self = map snd (streams self)"

definition get_vertices_on :: "('run, 'hook, 'ty) Graph \<Rightarrow> NodeId \<Rightarrow> Vertex list" where
  "get_vertices_on self n =
     map (\<lambda>oper. Vertex_Operator (op_id oper)) (filter (\<lambda>oper. op_node_id oper = n) (map snd (operators self))) @
     map (\<lambda>d. Vertex_Driver (drv_id d)) (filter (\<lambda>d. drv_id d = n) (map snd (drivers self)))"

section \<open>Scheduling\<close>

text \<open>The node of a vertex; \<open>None\<close> is the panic of \<^verbatim>\<open>get_operator(_).unwrap()\<close>.\<close>

definition vertex_node :: "('run, 'hook, 'ty) Graph \<Rightarrow> Vertex \<Rightarrow> NodeId option" where
  "vertex_node graph v =
     (case v of
        Vertex_Driver n \<Rightarrow> Some n
      | Vertex_Operator i \<Rightarrow> map_option op_node_id (get_operator graph i))"

definition schedule_channel :: "('run, 'hook, 'ty) Graph \<Rightarrow> NodeId \<Rightarrow> Channel \<Rightarrow> Channel option" where
  "schedule_channel graph source_node channel =
     (case channel of
        Unscheduled cm \<Rightarrow>
          (case vertex_node graph (cm_sink cm) of
             None \<Rightarrow> None
           | Some sink_node \<Rightarrow>
               Some (if source_node = sink_node then Chan_InterThread cm else Chan_InterNode cm))
      | c \<Rightarrow> Some c)"

definition schedule_stream :: "('run, 'hook, 'ty) Graph \<Rightarrow> 'ty StreamMetadata \<Rightarrow> 'ty StreamMetadata option" where
  "schedule_stream graph stream =
     (case vertex_node graph (sm_source stream) of
        None \<Rightarrow> None
      | Some source_node \<Rightarrow>
          map_option (\<lambda>chans. set_channels chans stream)
            (those (map (schedule_channel graph source_node) (sm_channels stream))))"

definition schedule :: "('run, 'hook, 'ty) Graph \<Rightarrow> ('run, 'hook, 'ty) Graph option" where
  "schedule graph =
     map_option (\<lambda>ss. graph \<lparr> streams := ss \<rparr>)
       (those (map (\<lambda>(sid, stream). map_option (Pair sid) (schedule_stream graph stream)) (streams graph)))"

end
