(* ===== verification/Channel_Manager.thy ===== *)
theory Channel_Manager
  imports Graph
begin

text \<open>
  Transport channels for a scheduled graph: \<^verbatim>\<open>src/src/scheduler/channel_manager.rs\<close> and
  \<^verbatim>\<open>endpoints_manager.rs\<close>.

  \<open>new_channel\<close> is \<^verbatim>\<open>mpsc::unbounded_channel()\<close> on the state of all channels: it returns the handle of a
  new channel. A \<^verbatim>\<open>downcast\<close> compares the type of data stored with an entry with the one
  asked for. Locking is not modelled: each function runs with the lock it takes.
\<close>

section \<open>Channels to the network threads\<close>

record 'r ChannelsToReceivers =
  ctr_senders :: "'r list"

definition ctr_new :: "'r ChannelsToReceivers" where
  "ctr_new = \<lparr> ctr_senders = [] \<rparr>"

definition ctr_add_sender :: "'r \<Rightarrow> 'r ChannelsToReceivers \<Rightarrow> 'r ChannelsToReceivers" where
  "ctr_add_sender sender self = self \<lparr> ctr_senders := ctr_senders self @ [sender] \<rparr>"

text \<open>\<open>None\<close> is the panic of \<^verbatim>\<open>sender.send(msg).unwrap()\<close>.\<close>

fun ctr_send_all :: "('w, 'r, StreamId \<times> 'p) mpsc \<Rightarrow> StreamId \<Rightarrow> 'p \<Rightarrow> 'r list \<Rightarrow> 'w \<Rightarrow> 'w option" where
  "ctr_send_all C sid pusher [] w = Some w"
| "ctr_send_all C sid pusher (sender # senders) w =
     (case mpsc_send C sender (sid, pusher) w of
        (w', Inr _) \<Rightarrow> ctr_send_all C sid pusher senders w'
      | (w', Inl _) \<Rightarrow> None)"

definition ctr_send ::
    "('w, 'r, StreamId \<times> 'p) mpsc \<Rightarrow> 'r ChannelsToReceivers \<Rightarrow> StreamId \<Rightarrow> 'p \<Rightarrow> 'w \<Rightarrow> 'w option" where
  "ctr_send C self sid pusher w = ctr_send_all C sid pusher (ctr_senders self) w"

record 'i ChannelsToSenders =
  cts_senders :: "(NodeId \<times> 'i) list"

definition cts_new :: "'i ChannelsToSenders" where
  "cts_new = \<lparr> cts_senders = [] \<rparr>"

definition cts_add_sender :: "NodeId \<Rightarrow> 'i \<Rightarrow> 'i ChannelsToSenders \<Rightarrow> 'i ChannelsToSenders" where
  "cts_add_sender n sender self = self \<lparr> cts_senders := AList.update n sender (cts_senders self) \<rparr>"

definition clone_channel :: "'i ChannelsToSenders \<Rightarrow> NodeId \<Rightarrow> 'i option" where
  "clone_channel self n = map_of (cts_senders self) n"

section \<open>Endpoints of a stream\<close>

record ('h, 'i, 'ty) StreamEndpoints =
  se_stream_id :: StreamId
  se_type :: 'ty
  recv_endpoints :: "'h RecvEndpoint list"
  send_endpoints :: "('h, 'i) SendEndpoint list"

definition stream_endpoints_new :: "'ty \<Rightarrow> StreamId \<Rightarrow> ('h, 'i, 'ty) StreamEndpoints" where
  "stream_endpoints_new ty sid =
     \<lparr> se_stream_id = sid, se_type = ty, recv_endpoints = [], send_endpoints = [] \<rparr>"

definition to_stream_endpoints_t :: "'ty StreamMetadata \<Rightarrow> ('h, 'i, 'ty) StreamEndpoints" where
  "to_stream_endpoints_t sm = stream_endpoints_new (sm_type sm) (sm_id sm)"

text \<open>\<^verbatim>\<open>Vec::pop\<close> takes the last endpoint.\<close>

definition se_take_recv_endpoint ::
    "('h, 'i, 'ty) StreamEndpoints \<Rightarrow> ('h, 'i, 'ty) StreamEndpoints \<times> (string + 'h RecvEndpoint)" where
  "se_take_recv_endpoint self =
     (if recv_endpoints self = [] then (self, Inl ''No more recv endpoints available'')
      else (self \<lparr> recv_endpoints := butlast (recv_endpoints self) \<rparr>, Inr (last (recv_endpoints self))))"

text \<open>\<^verbatim>\<open>result.append(&mut self.send_endpoints)\<close> moves the endpoints out of the entry.\<close>

definition se_get_send_endpoints ::
    "('h, 'i, 'ty) StreamEndpoints \<Rightarrow> ('h, 'i, 'ty) StreamEndpoints \<times> (string + ('h, 'i) SendEndpoint list)" where
  "se_get_send_endpoints self = (self \<lparr> send_endpoints := [] \<rparr>, Inr (send_endpoints self))"

definition add_send_endpoint :: "('h, 'i) SendEndpoint \<Rightarrow> ('h, 'i, 'ty) StreamEndpoints \<Rightarrow> ('h, 'i, 'ty) StreamEndpoints" where
  "add_send_endpoint endpoint self = self \<lparr> send_endpoints := send_endpoints self @ [endpoint] \<rparr>"

definition add_recv_endpoint :: "'h RecvEndpoint \<Rightarrow> ('h, 'i, 'ty) StreamEndpoints \<Rightarrow> ('h, 'i, 'ty) StreamEndpoints" where
  "add_recv_endpoint endpoint self = self \<lparr> recv_endpoints := recv_endpoints self @ [endpoint] \<rparr>"

definition add_inter_thread_channel ::
    "('w \<Rightarrow> 'h \<times> 'w) \<Rightarrow> ('h, 'i, 'ty) StreamEndpoints \<Rightarrow> 'w \<Rightarrow> ('h, 'i, 'ty) StreamEndpoints \<times> 'w" where
  "add_inter_thread_channel new_channel self w =
     (case new_channel w of (h, w') \<Rightarrow>
        (add_recv_endpoint (Recv_InterThread h) (add_send_endpoint (InterThread h) self), w'))"

text \<open>The parameter \<open>display\<close> of the functions below formats a number in an error message.\<close>

definition add_inter_node_send_endpoint ::
    "(nat \<Rightarrow> string) \<Rightarrow> NodeId \<Rightarrow> 'i ChannelsToSenders \<Rightarrow> ('h, 'i, 'ty) StreamEndpoints \<Rightarrow>
       string + ('h, 'i, 'ty) StreamEndpoints" where
  "add_inter_node_send_endpoint display other cts self =
     (case clone_channel cts other of
        Some tx \<Rightarrow> Inr (add_send_endpoint (InterProcess (se_stream_id self) tx) self)
      | None \<Rightarrow> Inl (''Unable to clone channel to node '' @ display other))"

text \<open>The pushers for the receivers, with the type they were made for.\<close>

type_synonym ('h, 'i, 'ty) pushers = "(StreamId \<times> 'ty \<times> ('h, 'i) Pusher) list"

definition add_inter_node_recv_endpoint ::
    "('w \<Rightarrow> 'h \<times> 'w) \<Rightarrow> (StreamId \<Rightarrow> string) \<Rightarrow> ('h, 'i, 'ty) pushers \<Rightarrow> ('h, 'i, 'ty) StreamEndpoints \<Rightarrow> 'w \<Rightarrow>
       (('h, 'i, 'ty) pushers \<times> ('h, 'i, 'ty) StreamEndpoints \<times> 'w) \<times> (string + unit)" where
  "add_inter_node_recv_endpoint new_channel display pushers self w =
     (let (ty, pusher) = (case map_of pushers (se_stream_id self) of Some p \<Rightarrow> p | None \<Rightarrow> (se_type self, pusher_new))
      in if ty = se_type self
         then (case new_channel w of (h, w') \<Rightarrow>
                 ((AList.update (se_stream_id self) (ty, pusher_add_endpoint (InterThread h) pusher) pushers,
                   add_recv_endpoint (Recv_InterThread h) self, w'), Inr ()))
         else ((AList.update (se_stream_id self) (ty, pusher) pushers, self, w),
               Inl (''Error casting pusher when adding inter node recv endpoint for stream '' @ display (se_stream_id self))))"

section \<open>The channel manager\<close>

record ('h, 'i, 'run, 'hook, 'ty) ChannelManager =
  cm_node_id :: NodeId
  cm_graph :: "('run, 'hook, 'ty) Graph"
  stream_entries :: "(StreamId \<times> ('h, 'i, 'ty) StreamEndpoints) list"

text \<open>The channels of a stream that starts on this node; \<open>None\<close> is a panic of one of the \<^verbatim>\<open>unwrap\<close>s.\<close>

fun connect_outgoing ::
    "('run, 'hook, 'ty) Graph \<Rightarrow> ('w \<Rightarrow> 'h \<times> 'w) \<Rightarrow> (nat \<Rightarrow> string) \<Rightarrow> 'i ChannelsToSenders \<Rightarrow> Channel list \<Rightarrow>
       ('h, 'i, 'ty) StreamEndpoints \<Rightarrow> 'w \<Rightarrow> (('h, 'i, 'ty) StreamEndpoints \<times> 'w) option" where
  "connect_outgoing graph new_channel display cts [] se w = Some (se, w)"
| "connect_outgoing graph new_channel display cts (Chan_InterNode cm # cs) se w =
     (case vertex_node graph (cm_sink cm) of
        None \<Rightarrow> None
      | Some other \<Rightarrow>
          (case add_inter_node_send_endpoint display other cts se of
             Inl _ \<Rightarrow> None
           | Inr se' \<Rightarrow> connect_outgoing graph new_channel display cts cs se' w))"
| "connect_outgoing graph new_channel display cts (Chan_InterThread _ # cs) se w =
     (case add_inter_thread_channel new_channel se w of (se', w') \<Rightarrow>
        connect_outgoing graph new_channel display cts cs se' w')"
| "connect_outgoing graph new_channel display cts (Unscheduled _ # cs) se w =
     connect_outgoing graph new_channel display cts cs se w"

definition entry_or :: "'ty StreamMetadata \<Rightarrow> (StreamId \<times> ('h, 'i, 'ty) StreamEndpoints) list \<Rightarrow> ('h, 'i, 'ty) StreamEndpoints" where
  "entry_or sm entries = (case map_of entries (sm_id sm) of Some se \<Rightarrow> se | None \<Rightarrow> to_stream_endpoints_t sm)"

text \<open>The channels of a stream that starts elsewhere and ends on this node.\<close>

fun connect_incoming ::
    "('w \<Rightarrow> 'h \<times> 'w) \<Rightarrow> (StreamId \<Rightarrow> string) \<Rightarrow> Vertex list \<Rightarrow> 'ty StreamMetadata \<Rightarrow> Channel list \<Rightarrow>
       (StreamId \<times> ('h, 'i, 'ty) StreamEndpoints) list \<Rightarrow> ('h, 'i, 'ty) pushers \<Rightarrow> 'w \<Rightarrow>
       ((StreamId \<times> ('h, 'i, 'ty) StreamEndpoints) list \<times> ('h, 'i, 'ty) pushers \<times> 'w) option" where
  "connect_incoming new_channel display vertices sm [] entries pushers w = Some (entries, pushers, w)"
| "connect_incoming new_channel display vertices sm (Chan_InterNode cm # cs) entries pushers w =
     (if cm_sink cm \<in> set vertices
      then (case add_inter_node_recv_endpoint new_channel display pushers (entry_or sm entries) w of
              (_, Inl _) \<Rightarrow> None
            | ((pushers', se, w'), Inr _) \<Rightarrow>
                connect_incoming new_channel display vertices sm cs (AList.update (sm_id sm) se entries) pushers' w')
      else connect_incoming new_channel display vertices sm cs entries pushers w)"
| "connect_incoming new_channel display vertices sm (_ # cs) entries pushers w =
     connect_incoming new_channel display vertices sm cs entries pushers w"

record ('w, 'h, 'i, 'r, 'ty) transports =
  new_channel :: "'w \<Rightarrow> 'h \<times> 'w"
  to_receivers :: "('w, 'r, StreamId \<times> 'ty \<times> ('h, 'i) Pusher) mpsc"
  display_node :: "nat \<Rightarrow> string"
  display_id :: "Uuid \<Rightarrow> string"

fun connect_streams ::
    "('w, 'h, 'i, 'r, 'ty) transports \<Rightarrow> ('run, 'hook, 'ty) Graph \<Rightarrow> NodeId \<Rightarrow> 'i ChannelsToSenders \<Rightarrow> 'ty StreamMetadata list \<Rightarrow>
       (StreamId \<times> ('h, 'i, 'ty) StreamEndpoints) list \<Rightarrow> ('h, 'i, 'ty) pushers \<Rightarrow> 'w \<Rightarrow>
       ((StreamId \<times> ('h, 'i, 'ty) StreamEndpoints) list \<times> ('h, 'i, 'ty) pushers \<times> 'w) option" where
  "connect_streams T graph n cts [] entries pushers w = Some (entries, pushers, w)"
| "connect_streams T graph n cts (sm # sms) entries pushers w =
     (if sm_source sm \<in> set (get_vertices_on graph n)
      then (case connect_outgoing graph (new_channel T) (display_node T) cts (sm_channels sm) (entry_or sm entries) w of
              None \<Rightarrow> None
            | Some (se, w') \<Rightarrow> connect_streams T graph n cts sms (AList.update (sm_id sm) se entries) pushers w')
      else (case connect_incoming (new_channel T) (display_id T) (get_vertices_on graph n) sm (sm_channels sm) entries pushers w of
              None \<Rightarrow> None
            | Some (entries', pushers', w') \<Rightarrow> connect_streams T graph n cts sms entries' pushers' w'))"

text \<open>The pushers are sent to the receivers at the end.\<close>

fun send_pushers ::
    "('w, 'r, StreamId \<times> 'p) mpsc \<Rightarrow> 'r ChannelsToReceivers \<Rightarrow> (StreamId \<times> 'p) list \<Rightarrow> 'w \<Rightarrow> 'w option" where
  "send_pushers C ctr [] w = Some w"
| "send_pushers C ctr ((sid, pusher) # ps) w =
     (case ctr_send C ctr sid pusher w of None \<Rightarrow> None | Some w' \<Rightarrow> send_pushers C ctr ps w')"

definition channel_manager_new ::
    "('w, 'h, 'i, 'r, 'ty) transports \<Rightarrow> ('run, 'hook, 'ty) Graph \<Rightarrow> NodeId \<Rightarrow> 'r ChannelsToReceivers \<Rightarrow> 'i ChannelsToSenders \<Rightarrow>
       'w \<Rightarrow> (('h, 'i, 'run, 'hook, 'ty) ChannelManager \<times> 'w) option" where
  "channel_manager_new T graph n ctr cts w =
     (case connect_streams T graph n cts (get_streams graph) [] [] w of
        None \<Rightarrow> None
      | Some (entries, pushers, w') \<Rightarrow>
          map_option (Pair \<lparr> cm_node_id = n, cm_graph = graph, stream_entries = entries \<rparr>)
            (send_pushers (to_receivers T) ctr pushers w'))"

text \<open>Taking endpoints for a type of data \<open>ty\<close>.\<close>

definition take_recv_endpoint ::
    "(Uuid \<Rightarrow> string) \<Rightarrow> 'ty \<Rightarrow> StreamId \<Rightarrow> ('h, 'i, 'run, 'hook, 'ty) ChannelManager \<Rightarrow>
       ('h, 'i, 'run, 'hook, 'ty) ChannelManager \<times> (string + 'h RecvEndpoint)" where
  "take_recv_endpoint display ty sid self =
     (let sid = resolve_stream_id (cm_graph self) sid
      in (case map_of (stream_entries self) sid of
            Some se \<Rightarrow>
              if se_type se = ty
              then (case se_take_recv_endpoint se of
                      (se', Inr endpoint) \<Rightarrow>
                        (self \<lparr> stream_entries := AList.update sid se' (stream_entries self) \<rparr>, Inr endpoint)
                    | (se', Inl msg) \<Rightarrow>
                        (self \<lparr> stream_entries := AList.update sid se' (stream_entries self) \<rparr>,
                         Inl (''Could not get recv endpoint with id '' @ display sid @ '': '' @ msg)))
              else (self, Inl (''Type mismatch for recv endpoint with ID '' @ display sid))
          | None \<Rightarrow> (self, Inl (''No recv endpoints found with ID '' @ display sid))))"

definition get_send_endpoints ::
    "(Uuid \<Rightarrow> string) \<Rightarrow> 'ty \<Rightarrow> StreamId \<Rightarrow> ('h, 'i, 'run, 'hook, 'ty) ChannelManager \<Rightarrow>
       ('h, 'i, 'run, 'hook, 'ty) ChannelManager \<times> (string + ('h, 'i) SendEndpoint list)" where
  "get_send_endpoints display ty sid self =
     (case map_of (stream_entries self) sid of
        Some se \<Rightarrow>
          if se_type se = ty
          then (case se_get_send_endpoints se of
                  (se', Inr eps) \<Rightarrow>
                    (self \<lparr> stream_entries := AList.update sid se' (stream_entries self) \<rparr>, Inr eps)
                | (se', Inl msg) \<Rightarrow>
                    (self \<lparr> stream_entries := AList.update sid se' (stream_entries self) \<rparr>,
                     Inl (''Could not get recv endpoint with id '' @ display sid @ '': '' @ msg)))
          else (self, Inl (''Type mismatch for recv endpoint with ID '' @ display sid))
      | None \<Rightarrow> (self, Inl (''No recv endpoints found with ID '' @ display sid)))"

end
