(* ===== verification/Graph_Properties.thy ===== *)
theory Graph_Properties
  imports Graph "HOL-Library.Multiset"
begin

text \<open>
  The wiring invariant of the dataflow graph: in every graph that a driver program can build, the
  channels of a stream are exactly its readers. Then what scheduling makes of the channels, and where
  aliases of streams go wrong.
\<close>

section \<open>Association lists\<close>

lemma update_fresh: "map_of al k = None \<Longrightarrow> AList.update k v al = al @ [(k, v)]"
  by (induction al) auto

lemma update_same_keys: "map_of al k = Some v' \<Longrightarrow> map fst (AList.update k v al) = map fst al"
  by (induction al) auto

text \<open>Extending the entry of a key by \<open>X\<close> extends the union over all entries by \<open>X\<close>.\<close>

lemma mset_concat_update:
  assumes "distinct (map fst al)"
    and "mset (f v) = (case map_of al k of Some d \<Rightarrow> mset (f d) | None \<Rightarrow> {#}) + X"
  shows "mset (concat (map f (map snd (AList.update k v al)))) = mset (concat (map f (map snd al))) + X"
  using assms
proof (induction al)
  case (Cons p al)
  show ?case
  proof (cases "fst p = k")
    case True
    with Cons.prems show ?thesis by (cases p) (simp add: ac_simps)
  next
    case False
    with Cons show ?thesis by (cases p) (simp add: ac_simps)
  qed
qed simp

section \<open>Readers of a stream\<close>

text \<open>Who reads what, and the readers of a stream once aliases are resolved.\<close>

definition vertex_reads :: "('run, 'hook, 'ty) Graph \<Rightarrow> (Vertex \<times> StreamId) list" where
  "vertex_reads g =
     concat (map (\<lambda>oper. map (Pair (Vertex_Operator (op_id oper))) (read_stream_ids oper)) (map snd (operators g))) @
     concat (map (\<lambda>d. map (Pair (Vertex_Driver (drv_id d))) (extract_stream_ids d)) (map snd (drivers g)))"

definition readers :: "('run, 'hook, 'ty) Graph \<Rightarrow> StreamId \<Rightarrow> Vertex multiset" where
  "readers g sid = image_mset fst (filter_mset (\<lambda>(v, i). resolve_stream_id g i = sid) (mset (vertex_reads g)))"

definition sinks :: "'ty StreamMetadata \<Rightarrow> Vertex list" where
  "sinks sm = map (\<lambda>c. cm_sink (channel_metadata c)) (sm_channels sm)"

text \<open>The shape of the graph: keys agree with the identifiers stored under them, and the channels of a
  stream are unscheduled and name the stream and its source.\<close>

definition well_keyed :: "('run, 'hook, 'ty) Graph \<Rightarrow> bool" where
  "well_keyed g \<longleftrightarrow>
     distinct (map fst (operators g)) \<and> distinct (map fst (drivers g)) \<and> distinct (map fst (streams g)) \<and>
     (\<forall>i oper. map_of (operators g) i = Some oper \<longrightarrow> op_id oper = i) \<and>
     (\<forall>n d. map_of (drivers g) n = Some d \<longrightarrow> drv_id d = n)"

definition stream_ok :: "StreamId \<Rightarrow> 'ty StreamMetadata \<Rightarrow> bool" where
  "stream_ok sid sm \<longleftrightarrow> sm_id sm = sid \<and>
     (\<forall>c \<in> set (sm_channels sm). c = Unscheduled (channel_metadata c) \<and>
        cm_stream_id (channel_metadata c) = sid \<and> cm_source (channel_metadata c) = sm_source sm)"

definition alias_free :: "('run, 'hook, 'ty) Graph \<Rightarrow> bool" where
  "alias_free g \<longleftrightarrow>
     (\<forall>sid sm. map_of (streams g) sid = Some sm \<longrightarrow> map_of (stream_aliases g) sid = None) \<and>
     (\<forall>a b. map_of (stream_aliases g) a = Some b \<longrightarrow> map_of (stream_aliases g) b = None)"

definition graph_inv :: "('run, 'hook, 'ty) Graph \<Rightarrow> bool" where
  "graph_inv g \<longleftrightarrow> well_keyed g \<and> alias_free g \<and>
     (\<forall>sid sm. map_of (streams g) sid = Some sm \<longrightarrow> stream_ok sid sm \<and> mset (sinks sm) = readers g sid)"

text \<open>An identifier that no stream has and no alias leads to or from.\<close>

definition fresh_stream :: "('run, 'hook, 'ty) Graph \<Rightarrow> StreamId \<Rightarrow> bool" where
  "fresh_stream g sid \<longleftrightarrow> map_of (streams g) sid = None \<and> map_of (stream_aliases g) sid = None \<and>
     (\<forall>a. map_of (stream_aliases g) a \<noteq> Some sid)"

text \<open>
  What a driver program does: operators and streams get identifiers that are new; extracted streams are
  not aliases; a loop stream is set once, to a stream that is not itself a loop stream that was set.
\<close>

inductive graph_step :: "(StreamId \<Rightarrow> string) \<Rightarrow> ('run, 'hook, 'ty) Graph \<Rightarrow> ('run, 'hook, 'ty) Graph \<Rightarrow> bool"
  for display where
  step_operator: "map_of (operators g) i = None \<Longrightarrow> graph_step display g (add_operator i name n rids wids run g)"
| step_operator_stream: "fresh_stream g sid \<Longrightarrow> graph_step display g (add_operator_stream ty i sid g)"
| step_ingest: "fresh_stream g sid \<Longrightarrow> graph_step display g (add_ingest_stream ty sid n hook g)"
| step_extract: "map_of (stream_aliases g) sid = None \<Longrightarrow> graph_step display g (add_extract_stream sid n hook g)"
| step_loop: "fresh_stream g sid \<Longrightarrow> graph_step display g (add_loop_stream ty sid g)"
| step_alias: "a \<noteq> b \<Longrightarrow> map_of (streams g) a \<noteq> None \<Longrightarrow> (\<forall>c. map_of (stream_aliases g) c \<noteq> Some a) \<Longrightarrow>
    add_stream_alias display a b g = Some (g', Inr ()) \<Longrightarrow> graph_step display g g'"

inductive graph_built :: "(StreamId \<Rightarrow> string) \<Rightarrow> ('run, 'hook, 'ty) Graph \<Rightarrow> bool" for display where
  built_new: "graph_built display graph_new"
| built_step: "graph_built display g \<Longrightarrow> graph_step display g g' \<Longrightarrow> graph_built display g'"

section \<open>The operations on channels\<close>

lemma fold_add_channel: "fold add_channel cs sm = sm \<lparr> sm_channels := sm_channels sm @ cs \<rparr>"
  by (induction cs arbitrary: sm) (simp_all add: add_channel_def)

lemma keys_connect_reads: "map fst (connect_reads i rids ss) = map fst ss"
  by (induction rids arbitrary: ss) (auto simp: update_same_keys split: option.split)

lemma map_of_connect_reads:
  "map_of (connect_reads i rids ss) sid =
     map_option (\<lambda>sm. sm \<lparr> sm_channels := sm_channels sm @
       replicate (count_list rids sid) (Unscheduled (channel_metadata_new (sm_id sm) (sm_source sm) (Vertex_Operator i))) \<rparr>)
     (map_of ss sid)"
proof (induction rids arbitrary: ss)
  case Nil
  then show ?case by (cases "map_of ss sid") simp_all
next
  case (Cons r rids)
  show ?case
  proof (cases "map_of ss r")
    case None
    with Cons show ?thesis by (cases "r = sid") simp_all
  next
    case (Some sm)
    with Cons show ?thesis
      by (cases "r = sid") (simp_all add: update_conv' add_channel_def replicate_append_same[symmetric])
  qed
qed

lemma vertex_reads_operator:
  assumes "map_of (operators g) i = None"
  shows "mset (vertex_reads (add_operator i name n rids wids run g)) =
    mset (vertex_reads g) + mset (map (Pair (Vertex_Operator i)) (map (resolve_stream_id g) rids))"
  using assms by (simp add: vertex_reads_def add_operator_def Let_def update_fresh operator_new_def ac_simps)

lemma vertex_reads_driver:
  assumes "distinct (map fst (drivers g))" "\<forall>n d. map_of (drivers g) n = Some d \<longrightarrow> drv_id d = n"
    and "drv_id d' = n" "extract_stream_ids d' = extract_stream_ids (driver_entry n (drivers g)) @ new"
  shows "mset (vertex_reads (g \<lparr> drivers := AList.update n d' (drivers g) \<rparr>)) =
    mset (vertex_reads g) + mset (map (Pair (Vertex_Driver n)) new)"
proof -
  let ?f = "\<lambda>d. map (Pair (Vertex_Driver (drv_id d))) (extract_stream_ids d)"
  have "mset (?f d') = (case map_of (drivers g) n of Some d \<Rightarrow> mset (?f d) | None \<Rightarrow> {#}) +
      mset (map (Pair (Vertex_Driver n)) new)"
    using assms by (auto simp: driver_entry_def driver_new_def split: option.split)
  from mset_concat_update[OF assms(1) this] show ?thesis by (simp add: vertex_reads_def ac_simps)
qed

lemma resolve_fresh: "fresh_stream g sid \<Longrightarrow> resolve_stream_id g i = sid \<longleftrightarrow> i = sid"
  by (auto simp: fresh_stream_def resolve_stream_id_def split: option.splits)

lemma add_channels_eq:
  fixes g :: "('run, 'hook, 'ty) Graph"
  shows "add_channels g (stream_metadata_new ty sid source) =
     \<lparr> sm_id = sid, sm_source = source,
       sm_channels = map (\<lambda>(v, _). Unscheduled (channel_metadata_new sid source v)) (filter (\<lambda>(v, i). sid = i) (vertex_reads g)),
       sm_type = ty \<rparr>"
proof -
  have "operator_channels sid source oper = map (\<lambda>(v, _). Unscheduled (channel_metadata_new sid source v))
      (filter (\<lambda>(v, i). sid = i) (map (Pair (Vertex_Operator (op_id oper))) (read_stream_ids oper)))" for oper :: "'run OperatorMetadata"
    by (simp add: operator_channels_def filter_map comp_def)
  moreover have "driver_channels sid source d = map (\<lambda>(v, _). Unscheduled (channel_metadata_new sid source v))
      (filter (\<lambda>(v, i). sid = i) (map (Pair (Vertex_Driver (drv_id d))) (extract_stream_ids d)))" for d :: "'hook DriverMetadata"
    by (simp add: driver_channels_def filter_map comp_def)
  ultimately show ?thesis
    by (simp add: add_channels_def fold_add_channel stream_metadata_new_def vertex_reads_def filter_concat map_concat comp_def)
qed

lemma sinks_add_channels:
  assumes "fresh_stream g sid"
  shows "mset (sinks (add_channels g (stream_metadata_new ty sid source))) = readers g sid"
  by (simp add: readers_def resolve_fresh[OF assms] add_channels_eq sinks_def comp_def case_prod_beta
      channel_metadata_new_def mset_filter eq_commute[of sid] case_prod_beta')

section \<open>The invariant is kept\<close>

lemma readers_cong:
  "mset (vertex_reads g') = mset (vertex_reads g) \<Longrightarrow> stream_aliases g' = stream_aliases g \<Longrightarrow> readers g' = readers g"
  by (simp add: readers_def resolve_stream_id_def fun_eq_iff)

lemma graph_inv_add_stream:
  assumes "graph_inv g" "fresh_stream g sid"
  shows "graph_inv (g \<lparr> streams := AList.update sid (add_channels g (stream_metadata_new ty sid source)) (streams g) \<rparr>)"
    (is "graph_inv ?g")
proof -
  let ?sm = "add_channels g (stream_metadata_new ty sid source)"
  have wk: "well_keyed ?g"
    using assms by (simp add: well_keyed_def graph_inv_def distinct_update)
  have af: "alias_free ?g"
    using assms by (simp add: alias_free_def graph_inv_def fresh_stream_def update_conv')
  have readers: "readers ?g = readers g" by (rule readers_cong) (simp_all add: vertex_reads_def)
  have "stream_ok sid' sm \<and> mset (sinks sm) = readers ?g sid'" if "map_of (streams ?g) sid' = Some sm" for sid' sm
  proof (cases "sid' = sid")
    case True
    with that have "sm = ?sm" by (simp add: update_conv')
    with True readers sinks_add_channels[OF assms(2)] show ?thesis
      by (auto simp: stream_ok_def add_channels_eq channel_metadata_new_def)
  next
    case False
    with that assms(1) readers show ?thesis by (simp add: update_conv' graph_inv_def)
  qed
  with wk af show ?thesis by (simp add: graph_inv_def)
qed

lemma graph_inv_drivers:
  assumes "graph_inv g" "drv_id d' = n" "mset (vertex_reads (g \<lparr> drivers := AList.update n d' (drivers g) \<rparr>)) = mset (vertex_reads g)"
  shows "graph_inv (g \<lparr> drivers := AList.update n d' (drivers g) \<rparr>)"
proof -
  have "well_keyed (g \<lparr> drivers := AList.update n d' (drivers g) \<rparr>)"
    using assms(1,2) by (auto simp: graph_inv_def well_keyed_def distinct_update update_conv')
  with assms(1,3) readers_cong[of "g \<lparr> drivers := AList.update n d' (drivers g) \<rparr>" g] show ?thesis
    by (simp add: graph_inv_def alias_free_def)
qed

text \<open>Reads that are added to a graph add their vertices to the readers of the streams they name.\<close>

lemma readers_add:
  assumes "mset (vertex_reads g') = mset (vertex_reads g) + mset (map (Pair v) ids)" "stream_aliases g' = stream_aliases g"
  shows "readers g' sid = readers g sid + replicate_mset (count_list (map (resolve_stream_id g) ids) sid) v"
proof -
  have "image_mset fst (filter_mset (\<lambda>(v, i). resolve_stream_id g i = sid) (mset (map (Pair v) ids))) =
      replicate_mset (count_list (map (resolve_stream_id g) ids) sid) v"
    by (induction ids) auto
  moreover have "resolve_stream_id g' = resolve_stream_id g" using assms(2) by (simp add: resolve_stream_id_def fun_eq_iff)
  ultimately show ?thesis unfolding readers_def assms(1) by simp
qed

lemma resolve_idem: "alias_free g \<Longrightarrow> resolve_stream_id g (resolve_stream_id g i) = resolve_stream_id g i"
  by (auto simp: alias_free_def resolve_stream_id_def split: option.splits)

lemma graph_inv_operator:
  assumes inv: "graph_inv g" and fresh: "map_of (operators g) i = None"
  shows "graph_inv (add_operator i name n rids wids run g)" (is "graph_inv ?g")
proof -
  let ?rids = "map (resolve_stream_id g) rids"
  have streams: "map_of (streams ?g) sid = map_option (\<lambda>sm. sm \<lparr> sm_channels := sm_channels sm @
       replicate (count_list ?rids sid) (Unscheduled (channel_metadata_new (sm_id sm) (sm_source sm) (Vertex_Operator i))) \<rparr>)
     (map_of (streams g) sid)" for sid
    by (simp add: add_operator_def Let_def map_of_connect_reads)
  have keys: "map fst (streams ?g) = map fst (streams g)"
    by (simp add: add_operator_def Let_def keys_connect_reads)
  have wk: "well_keyed ?g"
    using inv fresh keys
    by (auto simp: graph_inv_def well_keyed_def add_operator_def Let_def distinct_update update_conv' operator_new_def)
  have af: "alias_free ?g"
    using inv streams by (auto simp: graph_inv_def alias_free_def add_operator_def Let_def)
  have rids: "map (resolve_stream_id g) ?rids = ?rids" using inv by (simp add: graph_inv_def resolve_idem)
  have "stream_aliases ?g = stream_aliases g" by (simp add: add_operator_def Let_def)
  from readers_add[OF vertex_reads_operator[OF fresh] this, unfolded rids]
  have readers: "readers ?g sid = readers g sid + replicate_mset (count_list ?rids sid) (Vertex_Operator i)" for sid .
  have "stream_ok sid sm \<and> mset (sinks sm) = readers ?g sid" if "map_of (streams ?g) sid = Some sm" for sid sm
    using that inv unfolding streams readers
    by (auto simp: graph_inv_def stream_ok_def sinks_def channel_metadata_new_def)
  with wk af show ?thesis by (simp add: graph_inv_def)
qed

lemma graph_inv_extract:
  assumes inv: "graph_inv g" and noalias: "map_of (stream_aliases g) sid = None"
  shows "graph_inv (add_extract_stream sid n hook g)" (is "graph_inv ?g")
proof -
  let ?d = "driver_add_extract_stream sid hook (driver_entry n (drivers g))"
  let ?h = "g \<lparr> drivers := AList.update n ?d (drivers g) \<rparr>"
  have d: "drv_id ?d = n"
    using inv by (auto simp: graph_inv_def well_keyed_def driver_add_extract_stream_def driver_entry_def driver_new_def split: option.split)
  have "mset (vertex_reads ?h) = mset (vertex_reads g) + mset (map (Pair (Vertex_Driver n)) [sid])"
    using inv d by (intro vertex_reads_driver) (auto simp: graph_inv_def well_keyed_def driver_add_extract_stream_def)
  moreover have "mset (vertex_reads ?g) = mset (vertex_reads ?h)"
    by (simp add: add_extract_stream_def Let_def vertex_reads_def split: option.split)
  ultimately have readers: "readers ?g s = readers g s + (if s = sid then {#Vertex_Driver n#} else {#})" for s
    using readers_add[of ?g g "Vertex_Driver n" "[sid]" s] noalias
    by (simp add: add_extract_stream_def Let_def resolve_stream_id_def split: option.splits)
  have wk: "well_keyed ?g"
    using inv d
    by (auto simp: graph_inv_def well_keyed_def add_extract_stream_def Let_def distinct_update update_conv'
        simp del: map_of_eq_Some_iff split: option.split)
  have af: "alias_free ?g"
    using inv noalias by (auto simp: graph_inv_def alias_free_def add_extract_stream_def Let_def update_conv' split: option.split)
  have "stream_ok s sm \<and> mset (sinks sm) = readers ?g s" if "map_of (streams ?g) s = Some sm" for s sm
    using that inv unfolding readers
    by (auto simp: graph_inv_def add_extract_stream_def Let_def update_conv' stream_ok_def sinks_def add_channel_def
        channel_metadata_new_def split: option.splits if_splits)
  with wk af show ?thesis by (simp add: graph_inv_def)
qed

lemma graph_inv_ingest:
  assumes inv: "graph_inv g" and fresh: "fresh_stream g sid"
  shows "graph_inv (add_ingest_stream ty sid n hook g)"
proof -
  let ?d = "driver_add_ingest_stream sid hook (driver_entry n (drivers g))"
  let ?h = "g \<lparr> drivers := AList.update n ?d (drivers g) \<rparr>"
  have d: "drv_id ?d = n"
    using inv by (auto simp: graph_inv_def well_keyed_def driver_add_ingest_stream_def driver_entry_def driver_new_def split: option.split)
  have "mset (vertex_reads ?h) = mset (vertex_reads g) + mset (map (Pair (Vertex_Driver n)) [])"
    using inv d by (intro vertex_reads_driver) (auto simp: graph_inv_def well_keyed_def driver_add_ingest_stream_def)
  then have "graph_inv ?h" using graph_inv_drivers[OF inv d] by simp
  moreover have "fresh_stream ?h sid" using fresh by (simp add: fresh_stream_def)
  ultimately show ?thesis
    using graph_inv_add_stream[of ?h sid ty "Vertex_Driver n"] by (simp add: add_ingest_stream_def Let_def)
qed

lemma add_stream_alias_eq:
  assumes "add_stream_alias display a b g = Some (g', Inr ())" "a \<noteq> b" "map_of (streams g) a \<noteq> None"
  obtains sa sb where "map_of (streams g) a = Some sa" "map_of (streams g) b = Some sb"
    "g' = g \<lparr> stream_aliases := AList.update a b (stream_aliases g),
       streams := AList.update b (sb \<lparr> sm_channels := sm_channels sb @
         map (\<lambda>c. Unscheduled ((channel_metadata c) \<lparr> cm_stream_id := b, cm_source := sm_source sb \<rparr>)) (sm_channels sa) \<rparr>)
         (AList.delete a (streams g)) \<rparr>"
proof -
  from assms(3) obtain sa where sa: "map_of (streams g) a = Some sa" by blast
  from assms(1) obtain sb where sb: "map_of (streams g) b = Some sb"
    by (cases "map_of (streams g) b") (auto simp: add_stream_alias_def)
  from assms(1,2) sa sb that show ?thesis
    by (auto simp: add_stream_alias_def Let_def delete_conv' fold_add_channel)
qed

lemma resolve_alias:
  assumes "map_of (stream_aliases g) a = None" "\<forall>c. map_of (stream_aliases g) c \<noteq> Some a" "a \<noteq> b"
    "map_of (stream_aliases g) b = None" "stream_aliases g' = AList.update a b (stream_aliases g)"
  shows "resolve_stream_id g' i = (if resolve_stream_id g i = a then b else resolve_stream_id g i)"
  using assms by (auto simp: resolve_stream_id_def update_conv' split: option.splits)

lemma readers_alias:
  assumes "vertex_reads g' = vertex_reads g"
    and "\<And>i. resolve_stream_id g' i = (if resolve_stream_id g i = a then b else resolve_stream_id g i)" and "a \<noteq> b"
  shows "readers g' s = (if s = b then readers g b + readers g a else if s = a then {#} else readers g s)"
proof -
  have P: "resolve_stream_id g' i = s \<longleftrightarrow>
      (if s = b then resolve_stream_id g i = b \<or> resolve_stream_id g i = a else s \<noteq> a \<and> resolve_stream_id g i = s)" for i
    using assms(3) by (auto simp: assms(2))
  have "filter_mset (\<lambda>(v, i). resolve_stream_id g i = b \<or> resolve_stream_id g i = a) M =
      filter_mset (\<lambda>(v, i). resolve_stream_id g i = b) M + filter_mset (\<lambda>(v, i). resolve_stream_id g i = a) M"
    for M :: "(Vertex \<times> StreamId) multiset"
  proof (induction M)
    case (add x M)
    with assms(3) show ?case by (cases x) auto
  qed simp
  then show ?thesis by (simp add: readers_def assms(1) P)
qed

lemma graph_inv_alias:
  assumes inv: "graph_inv g" and ab: "a \<noteq> b" "map_of (streams g) a \<noteq> None" "\<forall>c. map_of (stream_aliases g) c \<noteq> Some a"
    and step: "add_stream_alias display a b g = Some (g', Inr ())"
  shows "graph_inv g'"
proof -
  obtain sa sb where s: "map_of (streams g) a = Some sa" "map_of (streams g) b = Some sb"
    and g': "g' = g \<lparr> stream_aliases := AList.update a b (stream_aliases g),
       streams := AList.update b (sb \<lparr> sm_channels := sm_channels sb @
         map (\<lambda>c. Unscheduled ((channel_metadata c) \<lparr> cm_stream_id := b, cm_source := sm_source sb \<rparr>)) (sm_channels sa) \<rparr>)
         (AList.delete a (streams g)) \<rparr>"
    using add_stream_alias_eq[OF step ab(1,2)] .
  have na: "map_of (stream_aliases g) a = None" "map_of (stream_aliases g) b = None"
    using inv s by (auto simp: graph_inv_def alias_free_def)
  have readers: "readers g' s = (if s = b then readers g b + readers g a else if s = a then {#} else readers g s)" for s
    by (rule readers_alias[OF _ resolve_alias[OF na(1) ab(3,1) na(2)] ab(1)]) (simp_all add: g' vertex_reads_def)
  have "well_keyed g'"
    using inv unfolding graph_inv_def well_keyed_def g' by (simp add: distinct_update distinct_delete del: map_of_eq_Some_iff)
  moreover have "alias_free g'"
    using inv ab na unfolding graph_inv_def alias_free_def g'
    by (auto simp: update_conv' delete_conv' simp del: map_of_eq_Some_iff split: if_splits)
  moreover have "stream_ok sid sm \<and> mset (sinks sm) = readers g' sid" if "map_of (streams g') sid = Some sm" for sid sm
  proof (cases "sid = b")
    case True
    have "stream_ok b sb" "mset (sinks sb) = readers g b" "mset (sinks sa) = readers g a"
      using inv s unfolding graph_inv_def by blast+
    moreover have "sm = sb \<lparr> sm_channels := sm_channels sb @
         map (\<lambda>c. Unscheduled ((channel_metadata c) \<lparr> cm_stream_id := b, cm_source := sm_source sb \<rparr>)) (sm_channels sa) \<rparr>"
      using that True by (simp add: g' update_conv')
    ultimately show ?thesis using True by (auto simp: readers stream_ok_def sinks_def comp_def)
  next
    case False
    with that have "sid \<noteq> a" "map_of (streams g) sid = Some sm"
      by (auto simp: g' update_conv' delete_conv' split: if_splits)
    with False inv show ?thesis by (simp add: readers graph_inv_def)
  qed
  ultimately show ?thesis by (simp add: graph_inv_def)
qed

lemma graph_built_inv: "graph_built display g \<Longrightarrow> graph_inv g"
proof (induction rule: graph_built.induct)
  case built_new
  show ?case by (simp add: graph_new_def graph_inv_def well_keyed_def alias_free_def)
next
  case (built_step g g')
  from built_step.hyps(2) built_step.IH show ?case
    by cases (auto simp: add_loop_stream_def add_operator_stream_def
      intro: graph_inv_operator graph_inv_add_stream graph_inv_ingest graph_inv_extract graph_inv_alias)
qed

text \<open>A driver that ingests a stream is a driver of the graph.\<close>

lemma graph_built_sources:
  "graph_built display g \<Longrightarrow> map_of (streams g) sid = Some sm \<Longrightarrow> sm_source sm = Vertex_Driver n \<Longrightarrow> map_of (drivers g) n \<noteq> None"
proof (induction arbitrary: sid sm rule: graph_built.induct)
  case built_new
  then show ?case by (simp add: graph_new_def)
next
  case (built_step g g')
  from built_step.hyps(2) show ?case
  proof cases
    case (step_alias a b)
    obtain sa sb where "map_of (streams g) a = Some sa" "map_of (streams g) b = Some sb" and g': "g' = g \<lparr> stream_aliases := AList.update a b (stream_aliases g),
       streams := AList.update b (sb \<lparr> sm_channels := sm_channels sb @
         map (\<lambda>c. Unscheduled ((channel_metadata c) \<lparr> cm_stream_id := b, cm_source := sm_source sb \<rparr>)) (sm_channels sa) \<rparr>)
         (AList.delete a (streams g)) \<rparr>"
      using add_stream_alias_eq[OF step_alias(4,1,2)] .
    from g' built_step.prems(1) have "sid = b \<and> sm_source sm = sm_source sb \<or> map_of (streams g) sid = Some sm"
      by (auto simp: update_conv' delete_conv' split: if_splits)
    with \<open>map_of (streams g) b = Some sb\<close> built_step.prems(2) have "map_of (drivers g) n \<noteq> None"
      using built_step.IH by metis
    then show ?thesis by (simp add: g')
  qed (use built_step.prems built_step.IH in \<open>auto simp: add_operator_def add_operator_stream_def add_ingest_stream_def
      add_extract_stream_def add_loop_stream_def Let_def map_of_connect_reads update_conv' add_channels_eq add_channel_def
      split: option.splits if_splits\<close>)
qed

section \<open>Scheduling\<close>

lemma those_map_iff: "those (map f xs) = Some ys \<longleftrightarrow> list_all2 (\<lambda>x y. f x = Some y) xs ys"
  by (induction xs arbitrary: ys) (auto simp: list_all2_Cons1 split: option.split)

lemma those_None_iff: "those (map f xs) = None \<longleftrightarrow> (\<exists>x \<in> set xs. f x = None)"
  by (induction xs) (auto split: option.split)

text \<open>Where a channel goes, given the nodes of its source and its sink.\<close>

definition placed :: "('run, 'hook, 'ty) Graph \<Rightarrow> Channel \<Rightarrow> Channel \<Rightarrow> bool" where
  "placed g c c' \<longleftrightarrow> channel_metadata c' = channel_metadata c \<and>
     (\<forall>cm. c = Unscheduled cm \<longrightarrow>
        c' = (if vertex_node g (cm_source cm) = vertex_node g (cm_sink cm) then Chan_InterThread cm else Chan_InterNode cm))"

lemma schedule_channel_placed:
  assumes "schedule_channel g n c = Some c'" "vertex_node g (cm_source (channel_metadata c)) = Some n"
  shows "placed g c c' \<and> (\<forall>cm. c' \<noteq> Unscheduled cm)"
  using assms by (cases c) (auto simp: schedule_channel_def placed_def split: option.splits)

lemma schedule_channel_None_iff:
  "schedule_channel g n c = None \<longleftrightarrow> (\<exists>cm. c = Unscheduled cm \<and> vertex_node g (cm_sink cm) = None)"
  by (cases c) (auto simp: schedule_channel_def split: option.splits)

lemma map_of_map_option:
  "list_all2 (\<lambda>(sid, sm) y. map_option (Pair sid) (f sm) = Some y) ss ss' \<Longrightarrow>
     map_of ss' sid = Option.bind (map_of ss sid) f"
  by (induction ss ss' rule: list_all2_induct) auto

lemma schedule_streams:
  "schedule g = Some g' \<Longrightarrow> get_stream g' sid = Option.bind (get_stream g sid) (schedule_stream g)"
  by (auto simp: schedule_def get_stream_def those_map_iff map_of_map_option case_prod_beta')

lemma schedule_stream_eq:
  assumes "schedule_stream g sm = Some sm'" "stream_ok sid sm"
  shows "sm_id sm' = sm_id sm \<and> sm_source sm' = sm_source sm \<and>
    list_all2 (\<lambda>c c'. placed g c c' \<and> (\<forall>cm. c' \<noteq> Unscheduled cm)) (sm_channels sm) (sm_channels sm')"
proof -
  from assms(1) obtain n cs where n: "vertex_node g (sm_source sm) = Some n"
      "those (map (schedule_channel g n) (sm_channels sm)) = Some cs" "sm' = set_channels cs sm"
    by (auto simp: schedule_stream_def split: option.splits)
  from n(2) have "list_all2 (\<lambda>c c'. schedule_channel g n c = Some c') (sm_channels sm) cs"
    by (simp add: those_map_iff)
  then have "list_all2 (\<lambda>c c'. placed g c c' \<and> (\<forall>cm. c' \<noteq> Unscheduled cm)) (sm_channels sm) cs"
  proof (rule list.rel_mono_strong)
    fix c c' assume "c \<in> set (sm_channels sm)" "schedule_channel g n c = Some c'"
    with assms(2) n(1) schedule_channel_placed[of g n c c'] show "placed g c c' \<and> (\<forall>cm. c' \<noteq> Unscheduled cm)"
      by (simp add: stream_ok_def)
  qed
  with n(3) show ?thesis by (simp add: set_channels_def)
qed

lemma schedule_None_iff:
  "schedule g = None \<longleftrightarrow> (\<exists>sm \<in> set (get_streams g). schedule_stream g sm = None)"
  by (simp add: schedule_def those_None_iff get_streams_def case_prod_beta')

section \<open>Properties\<close>

text \<open>The channels of a stream are its readers. In every graph a driver program builds, in whatever
  order it adds operators, streams and aliases, each stream has exactly one channel per operator and
  driver that reads it, aliases resolved and counting an operator that reads the stream twice twice,
  and these channels carry the identifier and the source of the stream.\<close>

theorem graph_channels_are_readers:
  assumes "graph_built display g" "get_stream g sid = Some sm"
  shows "mset (sinks sm) = readers g sid \<and> stream_ok sid sm"
  using graph_built_inv[OF assms(1)] assms(2) by (simp add: graph_inv_def get_stream_def)

definition example_graph :: "(unit, unit, unit) Graph" where
  "example_graph = add_operator 5 None 1 [1] [] () (add_ingest_stream () 1 0 () graph_new)"

lemma example_graph_built: "graph_built (\<lambda>_. []) example_graph"
  unfolding example_graph_def
proof (rule built_step[OF built_step[OF built_new step_ingest] step_operator])
  show "fresh_stream graph_new 1" by (simp add: fresh_stream_def graph_new_def)
  show "map_of (operators (add_ingest_stream () 1 0 () graph_new)) 5 = None"
    by (simp add: add_ingest_stream_def graph_new_def)
qed

definition example_metadata :: "unit StreamMetadata" where
  "example_metadata = \<lparr> sm_id = 1, sm_source = Vertex_Driver 0,
     sm_channels = [Unscheduled \<lparr> cm_stream_id = 1, cm_source = Vertex_Driver 0, cm_sink = Vertex_Operator 5 \<rparr>],
     sm_type = () \<rparr>"

lemma example_graph_stream: "get_stream example_graph 1 = Some example_metadata"
  by (simp add: example_graph_def example_metadata_def get_stream_def add_operator_def add_ingest_stream_def graph_new_def
      resolve_stream_id_def Let_def add_channels_eq vertex_reads_def driver_add_ingest_stream_def driver_entry_def
      driver_new_def add_channel_def channel_metadata_new_def)

theorem graph_channels_are_readers_witness: "readers example_graph 1 = {#Vertex_Operator 5#}"
  using graph_channels_are_readers[OF example_graph_built example_graph_stream]
  by (simp add: sinks_def example_metadata_def)

text \<open>Scheduling a graph keeps the streams and the ends of their channels, and leaves no channel
  unscheduled: a channel is between threads exactly when its source and its sink are on the same node.
  Scheduling panics exactly when the source of a stream or the sink of an unscheduled channel is an
  operator the graph does not have; the first is the case of a loop stream that was never set.\<close>

theorem schedule_places_channels:
  assumes "graph_built display g"
  shows "(schedule g = None \<longleftrightarrow> (\<exists>sm \<in> set (get_streams g). vertex_node g (sm_source sm) = None \<or>
      (\<exists>cm. Unscheduled cm \<in> set (sm_channels sm) \<and> vertex_node g (cm_sink cm) = None))) \<and>
    (\<forall>g' sid sm'. schedule g = Some g' \<longrightarrow> get_stream g' sid = Some sm' \<longrightarrow>
      (\<exists>sm. get_stream g sid = Some sm \<and> sm_source sm' = sm_source sm \<and>
         list_all2 (\<lambda>c c'. placed g c c' \<and> (\<forall>cm. c' \<noteq> Unscheduled cm)) (sm_channels sm) (sm_channels sm')))"
proof (intro conjI allI impI)
  have "schedule_stream g sm = None \<longleftrightarrow> vertex_node g (sm_source sm) = None \<or>
      (\<exists>cm. Unscheduled cm \<in> set (sm_channels sm) \<and> vertex_node g (cm_sink cm) = None)" for sm
    by (auto simp: schedule_stream_def those_None_iff schedule_channel_None_iff split: option.split)
  then show "schedule g = None \<longleftrightarrow> (\<exists>sm \<in> set (get_streams g). vertex_node g (sm_source sm) = None \<or>
      (\<exists>cm. Unscheduled cm \<in> set (sm_channels sm) \<and> vertex_node g (cm_sink cm) = None))"
    by (simp add: schedule_None_iff)
next
  fix g' sid sm'
  assume "schedule g = Some g'" "get_stream g' sid = Some sm'"
  then obtain sm where sm: "get_stream g sid = Some sm" "schedule_stream g sm = Some sm'"
    by (auto simp: schedule_streams bind_eq_Some_conv)
  with graph_built_inv[OF assms] have "stream_ok sid sm" by (simp add: graph_inv_def get_stream_def)
  from schedule_stream_eq[OF sm(2) this] sm(1)
  show "\<exists>sm. get_stream g sid = Some sm \<and> sm_source sm' = sm_source sm \<and>
         list_all2 (\<lambda>c c'. placed g c c' \<and> (\<forall>cm. c' \<noteq> Unscheduled cm)) (sm_channels sm) (sm_channels sm')" by blast
qed

theorem schedule_places_channels_witness:
  "\<exists>g'. schedule example_graph = Some g'"
proof -
  have ops: "get_operator example_graph 5 = Some (operator_new 5 None 1 [1] [] ())"
    by (simp add: get_operator_def example_graph_def add_operator_def add_ingest_stream_def graph_new_def
        resolve_stream_id_def Let_def)
  have "get_streams example_graph = [example_metadata]"
    using example_graph_stream
    by (simp add: get_stream_def get_streams_def example_graph_def add_operator_def add_ingest_stream_def graph_new_def
        resolve_stream_id_def Let_def)
  with schedule_places_channels[OF example_graph_built] ops show ?thesis
    by (auto simp: example_metadata_def vertex_node_def operator_new_def)
qed

text \<open>Setting a loop stream to itself panics: the stream is removed from the graph before it is looked
  up as the target, and the branch marked unreachable is taken.\<close>

theorem alias_to_itself_panics:
  assumes "get_stream g a = Some sm"
  shows "add_stream_alias display a a g = None"
  using assms by (simp add: add_stream_alias_def get_stream_def Let_def delete_conv')

theorem alias_to_itself_panics_witness:
  "add_stream_alias (\<lambda>_. []) 1 1 example_graph = None"
  by (rule alias_to_itself_panics[OF example_graph_stream])

text \<open>Aliases are resolved one step only. When a loop stream \<open>a\<close> is set to a loop stream \<open>b\<close> which is then
  set to \<open>c\<close>, the channels of both end up with \<open>c\<close>, but \<open>a\<close> still resolves to \<open>b\<close>, which is
  no stream of the graph any more.\<close>

theorem alias_chain_unresolved:
  assumes "get_stream g a = Some sa" "get_stream g b = Some sb" "get_stream g c = Some sc" "distinct [a, b, c]"
    and "stream_aliases g = []"
  shows "\<exists>g1 g2 sc'. add_stream_alias display a b g = Some (g1, Inr ()) \<and> add_stream_alias display b c g1 = Some (g2, Inr ()) \<and>
    resolve_stream_id g2 a = b \<and> get_stream g2 b = None \<and> get_stream g2 c = Some sc' \<and>
    sinks sc' = sinks sc @ sinks sb @ sinks sa"
  using assms
  by (auto simp: add_stream_alias_def get_stream_def Let_def delete_conv' update_conv' fold_add_channel
      resolve_stream_id_def sinks_def comp_def)

definition example_loops :: "(unit, unit, unit) Graph" where
  "example_loops = add_operator_stream () 5 3 (add_loop_stream () 2 (add_loop_stream () 1 graph_new))"

theorem alias_chain_unresolved_witness:
  "\<exists>g1 g2. add_stream_alias (\<lambda>_. []) 1 2 example_loops = Some (g1, Inr ()) \<and>
     add_stream_alias (\<lambda>_. []) 2 3 g1 = Some (g2, Inr ()) \<and> resolve_stream_id g2 1 = 2 \<and> get_stream g2 2 = None"
proof -
  have streams: "get_stream example_loops 1 = Some (add_channels graph_new (stream_metadata_new () 1 (Vertex_Operator uuid_nil)))"
    "get_stream example_loops 2 = Some (add_channels graph_new (stream_metadata_new () 2 (Vertex_Operator uuid_nil)))"
    "get_stream example_loops 3 = Some (add_channels graph_new (stream_metadata_new () 3 (Vertex_Operator 5)))"
    "stream_aliases example_loops = []"
    by (simp_all add: example_loops_def add_loop_stream_def add_operator_stream_def get_stream_def graph_new_def
        add_channels_eq vertex_reads_def)
  from alias_chain_unresolved[OF streams(1-3) _ streams(4), of "\<lambda>_. []"] show ?thesis by auto
qed

end
