(* ===== verification/Channel_Manager_Properties.thy ===== *)
theory Channel_Manager_Properties
  imports Channel_Manager Graph_Properties
begin

text \<open>
  The channel manager of a node against the graph: for each stream it holds as many receive endpoints as
  the stream has readers on the node, so that every reader finds its endpoint. Then the two ways in
  which taking endpoints departs from its documentation.
\<close>

section \<open>Counting endpoints\<close>

definition recv_count :: "(StreamId \<times> ('h, 'i, 'ty) StreamEndpoints) list \<Rightarrow> StreamId \<Rightarrow> nat" where
  "recv_count entries sid = (case map_of entries sid of Some se \<Rightarrow> length (recv_endpoints se) | None \<Rightarrow> 0)"

definition inter_thread :: "Channel \<Rightarrow> bool" where
  "inter_thread c \<longleftrightarrow> (\<exists>cm. c = Chan_InterThread cm)"

definition inter_node :: "Channel \<Rightarrow> bool" where
  "inter_node c \<longleftrightarrow> (\<exists>cm. c = Chan_InterNode cm)"

lemma channel_kind_simps [simp]:
  "inter_thread (Chan_InterThread cm)" "\<not> inter_thread (Chan_InterNode cm)" "\<not> inter_thread (Unscheduled cm)"
  "inter_node (Chan_InterNode cm)" "\<not> inter_node (Chan_InterThread cm)" "\<not> inter_node (Unscheduled cm)"
  by (simp_all add: inter_thread_def inter_node_def)

text \<open>An entry is of the stream whose identifier it is stored under, with the type of the stream.\<close>

definition entry_ok :: "'ty StreamMetadata \<Rightarrow> ('h, 'i, 'ty) StreamEndpoints \<Rightarrow> bool" where
  "entry_ok sm se \<longleftrightarrow> se_stream_id se = sm_id sm \<and> se_type se = sm_type sm"

lemma connect_outgoing_count:
  "connect_outgoing g nc display cts cs se w = Some (se', w') \<Longrightarrow>
     length (recv_endpoints se') = length (recv_endpoints se) + length (filter inter_thread cs) \<and>
     se_stream_id se' = se_stream_id se \<and> se_type se' = se_type se"
proof (induction cs arbitrary: se w)
  case (Cons c cs)
  then show ?case
    by (cases c) (auto simp: add_inter_node_send_endpoint_def add_inter_thread_channel_def add_send_endpoint_def
        add_recv_endpoint_def split: option.splits sum.splits prod.splits)
qed simp

lemma entry_or_ok: "(\<And>se. map_of entries (sm_id sm) = Some se \<Longrightarrow> entry_ok sm se) \<Longrightarrow> entry_ok sm (entry_or sm entries)"
  by (auto simp: entry_or_def entry_ok_def to_stream_endpoints_t_def stream_endpoints_new_def split: option.split)

lemma recv_entry_or: "length (recv_endpoints (entry_or sm entries)) = recv_count entries (sm_id sm)"
  by (auto simp: entry_or_def recv_count_def to_stream_endpoints_t_def stream_endpoints_new_def split: option.split)

lemma recv_count_update: "recv_count (AList.update k se entries) sid = (if sid = k then length (recv_endpoints se) else recv_count entries sid)"
  by (simp add: recv_count_def update_conv')

lemma add_inter_node_recv_ok:
  "add_inter_node_recv_endpoint nc display pushers se w = ((pushers', se', w'), Inr ()) \<Longrightarrow>
     length (recv_endpoints se') = Suc (length (recv_endpoints se)) \<and> se_stream_id se' = se_stream_id se \<and> se_type se' = se_type se"
  by (auto simp: add_inter_node_recv_endpoint_def add_recv_endpoint_def split: option.splits prod.splits if_splits)

lemma connect_incoming_count:
  "connect_incoming nc display vs sm cs entries pushers w = Some (entries', pushers', w') \<Longrightarrow>
     (\<And>se. map_of entries (sm_id sm) = Some se \<Longrightarrow> entry_ok sm se) \<Longrightarrow>
     recv_count entries' (sm_id sm) =
       recv_count entries (sm_id sm) + length (filter (\<lambda>c. inter_node c \<and> cm_sink (channel_metadata c) \<in> set vs) cs) \<and>
     (\<forall>se. map_of entries' (sm_id sm) = Some se \<longrightarrow> entry_ok sm se) \<and>
     (\<forall>sid. sid \<noteq> sm_id sm \<longrightarrow> map_of entries' sid = map_of entries sid)"
proof (induction cs arbitrary: entries pushers w)
  case (Cons c cs)
  show ?case
  proof (cases "inter_node c \<and> cm_sink (channel_metadata c) \<in> set vs")
    case True
    then obtain cm where c: "c = Chan_InterNode cm" "cm_sink cm \<in> set vs" by (auto simp: inter_node_def)
    with Cons.prems(1) obtain p se w1 where se:
        "add_inter_node_recv_endpoint nc display pushers (entry_or sm entries) w = ((p, se, w1), Inr ())"
        "connect_incoming nc display vs sm cs (AList.update (sm_id sm) se entries) p w1 = Some (entries', pushers', w')"
      by (auto split: prod.splits sum.splits)
    have ok: "entry_ok sm se"
      using add_inter_node_recv_ok[OF se(1)] entry_or_ok[of entries sm] Cons.prems(2) by (simp add: entry_ok_def)
    from Cons.IH[OF se(2)] ok add_inter_node_recv_ok[OF se(1)] c show ?thesis
      by (auto simp: update_conv' recv_count_update recv_entry_or)
  next
    case False
    then have "connect_incoming nc display vs sm (c # cs) entries pushers w = connect_incoming nc display vs sm cs entries pushers w"
      by (cases c) auto
    with Cons.prems(1) have "connect_incoming nc display vs sm cs entries pushers w = Some (entries', pushers', w')" by simp
    from Cons.IH[OF this Cons.prems(2)] False show ?thesis by simp
  qed
qed simp

text \<open>The endpoints a stream gets on a node.\<close>

definition local_channels :: "('run, 'hook, 'ty) Graph \<Rightarrow> NodeId \<Rightarrow> 'ty StreamMetadata \<Rightarrow> nat" where
  "local_channels g n sm =
     (if sm_source sm \<in> set (get_vertices_on g n) then length (filter inter_thread (sm_channels sm))
      else length (filter (\<lambda>c. inter_node c \<and> cm_sink (channel_metadata c) \<in> set (get_vertices_on g n)) (sm_channels sm)))"

lemma connect_streams_count:
  assumes "connect_streams T g n cts sms entries pushers w = Some (entries', pushers', w')"
    and "distinct (map sm_id sms)" and "\<forall>sm \<in> set sms. map_of entries (sm_id sm) = None"
  shows "(\<forall>sm \<in> set sms. recv_count entries' (sm_id sm) = local_channels g n sm \<and>
      (\<forall>se. map_of entries' (sm_id sm) = Some se \<longrightarrow> entry_ok sm se)) \<and>
    (\<forall>sid. sid \<notin> sm_id ` set sms \<longrightarrow> map_of entries' sid = map_of entries sid)"
  using assms
proof (induction sms arbitrary: entries pushers w)
  case (Cons sm sms)
  obtain entries1 pushers1 w1 where step:
      "connect_streams T g n cts sms entries1 pushers1 w1 = Some (entries', pushers', w')"
      "recv_count entries1 (sm_id sm) = local_channels g n sm"
      "\<forall>se. map_of entries1 (sm_id sm) = Some se \<longrightarrow> entry_ok sm se"
      "\<forall>sid. sid \<noteq> sm_id sm \<longrightarrow> map_of entries1 sid = map_of entries sid"
  proof (cases "sm_source sm \<in> set (get_vertices_on g n)")
    case True
    with Cons.prems(1) obtain se w1 where se:
        "connect_outgoing g (new_channel T) (display_node T) cts (sm_channels sm) (entry_or sm entries) w = Some (se, w1)"
        "connect_streams T g n cts sms (AList.update (sm_id sm) se entries) pushers w1 = Some (entries', pushers', w')"
      by (auto split: option.splits)
    with connect_outgoing_count[OF se(1)] True Cons.prems(3) entry_or_ok[of entries sm] show ?thesis
      by (intro that[OF se(2)]) (auto simp: recv_count_update update_conv' recv_entry_or local_channels_def recv_count_def entry_ok_def)
  next
    case False
    with Cons.prems(1) obtain e p w1 where e:
        "connect_incoming (new_channel T) (display_id T) (get_vertices_on g n) sm (sm_channels sm) entries pushers w = Some (e, p, w1)"
        "connect_streams T g n cts sms e p w1 = Some (entries', pushers', w')"
      by (auto split: option.splits)
    with connect_incoming_count[OF e(1)] False Cons.prems(3) show ?thesis
      by (intro that[OF e(2)]) (auto simp: local_channels_def recv_count_def)
  qed
  have "\<forall>sm' \<in> set sms. map_of entries1 (sm_id sm') = None"
  proof
    fix sm' assume sm': "sm' \<in> set sms"
    from Cons.prems(2) have "sm_id sm \<notin> sm_id ` set sms" by simp
    with sm' have "sm_id sm' \<noteq> sm_id sm" by (metis imageI)
    with step(4) Cons.prems(3) sm' show "map_of entries1 (sm_id sm') = None" by simp
  qed
  with Cons.IH[OF step(1)] Cons.prems(2) have IH:
    "\<forall>sm \<in> set sms. recv_count entries' (sm_id sm) = local_channels g n sm \<and>
      (\<forall>se. map_of entries' (sm_id sm) = Some se \<longrightarrow> entry_ok sm se)"
    "\<forall>sid. sid \<notin> sm_id ` set sms \<longrightarrow> map_of entries' sid = map_of entries1 sid" by simp_all
  moreover have "map_of entries' (sm_id sm) = map_of entries1 (sm_id sm)" using IH(2) Cons.prems(2) by simp
  ultimately show ?case using step(2-4) by (simp add: recv_count_def)
qed simp

section \<open>Vertices on a node\<close>

definition vertex_known :: "('run, 'hook, 'ty) Graph \<Rightarrow> Vertex \<Rightarrow> bool" where
  "vertex_known g v \<longleftrightarrow>
     (case v of Vertex_Driver n \<Rightarrow> map_of (drivers g) n \<noteq> None | Vertex_Operator i \<Rightarrow> map_of (operators g) i \<noteq> None)"

lemma keyed_value:
  assumes "distinct (map fst xs)" "\<forall>k v. map_of xs k = Some v \<longrightarrow> key v = k"
  shows "v \<in> snd ` set xs \<longleftrightarrow> map_of xs (key v) = Some v"
proof
  assume "v \<in> snd ` set xs"
  then obtain k where "(k, v) \<in> set xs" by auto
  with assms(1) have "map_of xs k = Some v" by (rule map_of_is_SomeI)
  moreover from assms(2) this have "key v = k" by blast
  ultimately show "map_of xs (key v) = Some v" by simp
qed (metis image_eqI map_of_SomeD snd_conv)

lemma vertices_on_iff:
  assumes wk: "well_keyed g"
  shows "v \<in> set (get_vertices_on g n) \<longleftrightarrow> vertex_known g v \<and> vertex_node g v = Some n"
proof -
  have ops: "oper \<in> snd ` set (operators g) \<longleftrightarrow> map_of (operators g) (op_id oper) = Some oper" for oper
    using wk keyed_value[of "operators g" op_id oper] by (simp add: well_keyed_def)
  have drs: "d \<in> snd ` set (drivers g) \<longleftrightarrow> map_of (drivers g) (drv_id d) = Some d" for d
    using wk keyed_value[of "drivers g" drv_id d] by (simp add: well_keyed_def)
  have ids: "map_of (operators g) i = Some oper \<Longrightarrow> op_id oper = i" "map_of (drivers g) m = Some d \<Longrightarrow> drv_id d = m" for i oper m d
    using wk by (simp_all add: well_keyed_def)
  have "v \<in> set (get_vertices_on g n) \<longleftrightarrow>
      (\<exists>oper. v = Vertex_Operator (op_id oper) \<and> op_node_id oper = n \<and> oper \<in> snd ` set (operators g)) \<or>
      (\<exists>d. v = Vertex_Driver (drv_id d) \<and> drv_id d = n \<and> d \<in> snd ` set (drivers g))"
    unfolding get_vertices_on_def set_append set_map set_filter by blast
  also have "\<dots> \<longleftrightarrow> vertex_known g v \<and> vertex_node g v = Some n"
    unfolding ops drs using ids
    by (cases v) (auto simp: vertex_known_def vertex_node_def get_operator_def simp del: map_of_eq_Some_iff, metis)
  finally show ?thesis .
qed

lemma readers_known: "well_keyed g \<Longrightarrow> v \<in># readers g sid \<Longrightarrow> vertex_known g v"
  by (force simp: readers_def vertex_reads_def vertex_known_def well_keyed_def)

lemma schedule_keeps:
  assumes "schedule g = Some g'"
  shows "operators g' = operators g" "drivers g' = drivers g" "stream_aliases g' = stream_aliases g"
    "map fst (streams g') = map fst (streams g)"
  using assms
proof -
  from assms obtain ss where ss: "g' = g \<lparr> streams := ss \<rparr>"
      "list_all2 (\<lambda>x y. (case x of (sid, stream) \<Rightarrow> map_option (Pair sid) (schedule_stream g stream)) = Some y) (streams g) ss"
    by (auto simp: schedule_def those_map_iff)
  from ss(2) have "map fst ss = map fst (streams g)"
    by (induction rule: list_all2_induct) auto
  with ss(1) show "operators g' = operators g" "drivers g' = drivers g" "stream_aliases g' = stream_aliases g"
    "map fst (streams g') = map fst (streams g)" by simp_all
qed

lemma well_keyed_schedule: "schedule g = Some g' \<Longrightarrow> well_keyed g \<Longrightarrow> well_keyed g'"
  using schedule_keeps[of g g'] by (simp add: well_keyed_def)

lemma vertex_schedule:
  "schedule g = Some g' \<Longrightarrow> vertex_node g' v = vertex_node g v"
  "schedule g = Some g' \<Longrightarrow> vertex_known g' v = vertex_known g v"
  using schedule_keeps[of g g'] by (auto simp: vertex_node_def vertex_known_def get_operator_def split: Vertex.splits)

lemma length_filter_list_all2:
  "list_all2 R xs ys \<Longrightarrow> (\<And>x y. x \<in> set xs \<Longrightarrow> R x y \<Longrightarrow> P x \<longleftrightarrow> Q y) \<Longrightarrow> length (filter P xs) = length (filter Q ys)"
proof (induction rule: list_all2_induct)
  case (Cons x xs y ys)
  from Cons.prems[of x y] Cons.hyps(1) have "P x \<longleftrightarrow> Q y" by simp
  moreover from Cons.prems have "length (filter P xs) = length (filter Q ys)" by (intro Cons.IH) simp
  ultimately show ?case by simp
qed simp

text \<open>The endpoints a scheduled stream gets on a node are its sinks there.\<close>

lemma local_channels_sinks:
  assumes built: "graph_built display g" and sched: "schedule g = Some g'"
    and sm: "get_stream g sid = Some sm" "get_stream g' sid = Some sm'"
  shows "local_channels g' n sm' = length (filter (\<lambda>v. vertex_node g v = Some n) (sinks sm))"
proof -
  note inv = graph_built_inv[OF built]
  from inv sm(1) have ok: "stream_ok sid sm" and readers: "mset (sinks sm) = readers g sid" and wk: "well_keyed g"
    by (simp_all add: graph_inv_def get_stream_def)
  from schedule_streams[OF sched, of sid] sm have ss: "schedule_stream g sm = Some sm'" by simp
  from schedule_stream_eq[OF ss ok] have src: "sm_source sm' = sm_source sm"
    and placed: "list_all2 (placed g) (sm_channels sm) (sm_channels sm')"
    by (auto elim: list_all2_mono)
  from ss have src_node: "vertex_node g (sm_source sm) \<noteq> None" by (auto simp: schedule_stream_def split: option.splits)
  have src_known: "vertex_known g (sm_source sm)"
    using src_node graph_built_sources[OF built, of sid sm] sm(1)
    by (auto simp: vertex_known_def vertex_node_def get_operator_def get_stream_def split: Vertex.splits)
  have on: "v \<in> set (get_vertices_on g' n) \<longleftrightarrow> vertex_known g v \<and> vertex_node g v = Some n" for v
    using vertices_on_iff[OF well_keyed_schedule[OF sched wk]] vertex_schedule[OF sched] by simp
  let ?here = "\<lambda>c. vertex_node g (cm_sink (channel_metadata c)) = Some n"
  let ?P = "\<lambda>c'. if sm_source sm \<in> set (get_vertices_on g' n) then inter_thread c'
     else inter_node c' \<and> cm_sink (channel_metadata c') \<in> set (get_vertices_on g' n)"
  have kind: "?P c' \<longleftrightarrow> ?here c" if c: "c \<in> set (sm_channels sm)" and p: "placed g c c'" for c c'
  proof -
    from c readers_known[OF wk, of _ sid] have known: "vertex_known g (cm_sink (channel_metadata c))"
      unfolding readers[symmetric] by (auto simp: sinks_def)
    from c ok obtain cm where cm: "c = Unscheduled cm" "cm_source cm = sm_source sm" by (auto simp: stream_ok_def)
    with p have c': "c' = (if vertex_node g (sm_source sm) = vertex_node g (cm_sink cm) then Chan_InterThread cm else Chan_InterNode cm)"
      by (simp add: placed_def)
    show ?thesis using known src_known src_node unfolding c' cm(1) on by auto
  qed
  have "length (filter ?P (sm_channels sm')) = length (filter ?here (sm_channels sm))"
    using length_filter_list_all2[OF placed, of ?here ?P] kind by simp
  then show ?thesis
    by (cases "sm_source sm \<in> set (get_vertices_on g' n)") (simp_all add: local_channels_def src sinks_def filter_map comp_def)
qed

text \<open>A stream of the graph in the scheduled graph.\<close>

lemma scheduled_stream:
  assumes built: "graph_built display g" and sched: "schedule g = Some g'" and sm: "get_stream g sid = Some sm"
  obtains sm' where "get_stream g' sid = Some sm'" "sm' \<in> set (get_streams g')" "sm_id sm' = sid"
    "distinct (map sm_id (get_streams g'))" "schedule_stream g sm = Some sm'" "sm_type sm' = sm_type sm"
proof -
  note inv = graph_built_inv[OF built]
  have wk': "well_keyed g'" using well_keyed_schedule[OF sched] inv by (simp add: graph_inv_def)
  have ids: "sm_id sm2 = sid2" if "map_of (streams g') sid2 = Some sm2" for sid2 sm2
  proof -
    from that schedule_streams[OF sched, of sid2] obtain sm0
      where sm0: "get_stream g sid2 = Some sm0" "schedule_stream g sm0 = Some sm2"
      by (metis bind_eq_Some_conv get_stream_def)
    with inv have "stream_ok sid2 sm0" by (simp add: graph_inv_def get_stream_def)
    with schedule_stream_eq[OF sm0(2)] show ?thesis by (simp add: stream_ok_def)
  qed
  then have keys: "map sm_id (get_streams g') = map fst (streams g')"
    using wk' by (auto simp: get_streams_def well_keyed_def)
  from schedule_keeps(4)[OF sched] sm obtain sm' where sm': "get_stream g' sid = Some sm'"
    by (metis get_stream_def map_of_eq_None_iff list.set_map not_None_eq option.distinct(1))
  show ?thesis
  proof (rule that[OF sm'])
    show "sm' \<in> set (get_streams g')" "sm_id sm' = sid" using sm' ids
      by (auto simp: get_stream_def get_streams_def intro!: image_eqI[of _ snd "(sid, sm')"] dest: map_of_SomeD)
    show "distinct (map sm_id (get_streams g'))" using wk' keys by (simp add: well_keyed_def)
    show ss: "schedule_stream g sm = Some sm'" using schedule_streams[OF sched, of sid] sm sm' by simp
    show "sm_type sm' = sm_type sm" using ss by (auto simp: schedule_stream_def set_channels_def split: option.splits)
  qed
qed

lemma channel_manager_entries:
  assumes "channel_manager_new T g' n ctr cts w = Some (cm, w')"
  obtains ps w1 where "connect_streams T g' n cts (get_streams g') [] [] w = Some (stream_entries cm, ps, w1)" "cm_graph cm = g'"
  using assms that by (auto simp: channel_manager_new_def split: option.splits)

lemma channel_manager_count:
  assumes built: "graph_built display g" and sched: "schedule g = Some g'"
    and new: "channel_manager_new T g' n ctr cts w = Some (cm, w')" and sm: "get_stream g sid = Some sm"
  shows "recv_count (stream_entries cm) sid = size (filter_mset (\<lambda>v. vertex_node g v = Some n) (readers g sid)) \<and>
    cm_graph cm = g' \<and> (\<forall>se. map_of (stream_entries cm) sid = Some se \<longrightarrow> se_type se = sm_type sm)"
proof -
  from new obtain ps w1 where cs: "connect_streams T g' n cts (get_streams g') [] [] w = Some (stream_entries cm, ps, w1)"
      "cm_graph cm = g'"
    by (rule channel_manager_entries)
  obtain sm' where sm': "get_stream g' sid = Some sm'" "sm' \<in> set (get_streams g')" "sm_id sm' = sid"
      "distinct (map sm_id (get_streams g'))" "sm_type sm' = sm_type sm"
    by (rule scheduled_stream[OF built sched sm])
  from connect_streams_count[OF cs(1) sm'(4)] sm'(2,3)
  have "recv_count (stream_entries cm) sid = local_channels g' n sm'"
    "\<forall>se. map_of (stream_entries cm) sid = Some se \<longrightarrow> entry_ok sm' se" by auto
  moreover have "mset (sinks sm) = readers g sid"
    using graph_built_inv[OF built] sm by (simp add: graph_inv_def get_stream_def)
  then have "length (filter (\<lambda>v. vertex_node g v = Some n) (sinks sm)) =
      size (filter_mset (\<lambda>v. vertex_node g v = Some n) (readers g sid))"
    by (metis mset_filter size_mset)
  ultimately show ?thesis
    using sm'(5) cs(2) local_channels_sinks[OF built sched sm sm'(1), of n] by (simp add: entry_ok_def)
qed

section \<open>Properties\<close>

text \<open>Every reader finds its endpoint. On each node, the channel manager of a scheduled graph holds for
  each stream as many receive endpoints as the stream has readers on the node, whether the stream
  starts there or on another node. A reader that asks for an endpoint under any identifier that
  resolves to the stream, and for the type of its data, gets one as long as there are any left.\<close>

theorem endpoints_match_readers:
  assumes "graph_built display g" "schedule g = Some g'" "channel_manager_new T g' n ctr cts w = Some (cm, w')"
    and "get_stream g sid = Some sm"
  shows "recv_count (stream_entries cm) sid = size (filter_mset (\<lambda>v. vertex_node g v = Some n) (readers g sid)) \<and>
    (\<forall>i. resolve_stream_id g i = sid \<longrightarrow> recv_count (stream_entries cm) sid \<noteq> 0 \<longrightarrow>
      (\<exists>cm' ep. take_recv_endpoint fmt (sm_type sm) i cm = (cm', Inr ep) \<and>
         recv_count (stream_entries cm') sid = recv_count (stream_entries cm) sid - 1))"
proof -
  note count = channel_manager_count[OF assms]
  have res: "resolve_stream_id g' = resolve_stream_id g"
    using schedule_keeps(3)[OF assms(2)] by (simp add: resolve_stream_id_def fun_eq_iff)
  show ?thesis
    using count res
    by (auto simp: take_recv_endpoint_def recv_count_def se_take_recv_endpoint_def update_conv' Let_def split: option.splits)
qed

definition example_transports :: "(nat, nat, nat, unit, unit) transports" where
  "example_transports = \<lparr> new_channel = (\<lambda>w. (w, Suc w)),
     to_receivers = \<lparr> mpsc_send = (\<lambda>_ _ w. (w, Inr ())), mpsc_try_recv = (\<lambda>_ w. (w, Inl Mpsc_Empty)), mpsc_recv = (\<lambda>_ _. None) \<rparr>,
     display_node = (\<lambda>_. []), display_id = (\<lambda>_. []) \<rparr>"

definition example_scheduled :: "(unit, unit, unit) Graph" where
  "example_scheduled = the (schedule example_graph)"

definition example_manager :: "(nat, nat, unit, unit, unit) ChannelManager" where
  "example_manager = fst (the (channel_manager_new example_transports example_scheduled 1 ctr_new cts_new 0))"

lemmas example_manager_simps = example_graph_def add_operator_def add_ingest_stream_def graph_new_def resolve_stream_id_def
  Let_def add_channels_eq vertex_reads_def driver_add_ingest_stream_def driver_entry_def driver_new_def add_channel_def
  channel_metadata_new_def operator_new_def get_operator_def get_streams_def get_vertices_on_def vertex_node_def

lemma example_schedule: "schedule example_graph = Some example_scheduled"
  by (simp add: example_scheduled_def schedule_def schedule_stream_def schedule_channel_def example_manager_simps)

lemma example_manager_new:
  "\<exists>w'. channel_manager_new example_transports example_scheduled 1 ctr_new cts_new 0 = Some (example_manager, w')"
  by (simp add: example_manager_def example_scheduled_def schedule_def schedule_stream_def schedule_channel_def
      example_manager_simps channel_manager_new_def example_transports_def set_channels_def add_inter_node_recv_endpoint_def
      entry_or_def to_stream_endpoints_t_def stream_endpoints_new_def ctr_send_def ctr_new_def cts_new_def)

theorem endpoints_match_readers_witness:
  "recv_count (stream_entries example_manager) 1 =
     size (filter_mset (\<lambda>v. vertex_node example_graph v = Some 1) (readers example_graph 1))"
proof -
  obtain w' where "channel_manager_new example_transports example_scheduled 1 ctr_new cts_new 0 = Some (example_manager, w')"
    using example_manager_new by blast
  from endpoints_match_readers[OF example_graph_built example_schedule this example_graph_stream, of "\<lambda>_. []"] show ?thesis by blast
qed

text \<open>Asking for the send endpoints of a stream takes them: a second request for the same stream is
  answered with success and no endpoints, although the documentation says that the vector is cloned.\<close>

theorem send_endpoints_taken_once:
  assumes "get_send_endpoints fmt ty sid cm = (cm', Inr eps)"
  shows "\<exists>cm''. get_send_endpoints fmt ty sid cm' = (cm'', Inr [])"
  using assms
  by (auto simp: get_send_endpoints_def se_get_send_endpoints_def update_conv' split: option.splits if_splits)

definition example_sender :: "(nat, nat, unit, unit, unit) ChannelManager" where
  "example_sender = \<lparr> cm_node_id = 0, cm_graph = example_graph,
     stream_entries = [(1, \<lparr> se_stream_id = 1, se_type = (), recv_endpoints = [Recv_InterThread 0],
                            send_endpoints = [InterThread 0, InterProcess 1 7] \<rparr>)] \<rparr>"

theorem send_endpoints_taken_once_witness:
  "\<exists>cm''. get_send_endpoints (\<lambda>_. []) () 1 (fst (get_send_endpoints (\<lambda>_. []) () 1 example_sender)) =
     (cm'', Inr ([] :: (nat, nat) SendEndpoint list))"
proof -
  have "get_send_endpoints (\<lambda>_. []) () 1 example_sender =
      (fst (get_send_endpoints (\<lambda>_. []) () 1 example_sender), Inr [InterThread 0, InterProcess 1 7])"
    by (simp add: example_sender_def get_send_endpoints_def se_get_send_endpoints_def)
  then show ?thesis by (rule send_endpoints_taken_once)
qed

end
