(* ===== verification/Executor.thy ===== *)
theory Executor
  imports Read_Stream Lattice "HOL-Library.AList"
begin

text \<open>
  Running an operator: \<^verbatim>\<open>src/src/node/operator_executor.rs\<close> and \<^verbatim>\<open>src/src/dataflow/operator.rs\<close>.

  The executor of an operator is several tasks that share the lattice and the store: the main task
  of \<^verbatim>\<open>execute\<close>, which takes events from the input streams, and the \<^verbatim>\<open>event_runner\<close> tasks, which invoke the
  callbacks. A task is a sequence of steps, each of which is one operation on what is shared; a step that
  has to wait is \<open>None\<close>. The relation \<open>exec_step\<close> interleaves the steps of all tasks. A callback is one step:
  what it does is a parameter, an action on the store that may panic.
\<close>

section \<open>Operators and their configuration\<close>

text \<open>The methods of the trait \<^verbatim>\<open>Operator\<close> on the operator object in the store; by default they do nothing.\<close>

record 'st Operator =
  op_run :: "'st action"
  op_destroy :: "'st action"

definition default_operator :: "'st Operator" where
  "default_operator = \<lparr> op_run = Some, op_destroy = Some \<rparr>"

record 'a OperatorConfig =
  oc_name :: "string option"
  oc_id :: OperatorId
  oc_arg :: "'a option"
  oc_flow_watermarks :: bool
  oc_node_id :: NodeId
  oc_num_event_runners :: nat

definition config_new :: "'a OperatorConfig" where
  "config_new = \<lparr> oc_name = None, oc_id = uuid_nil, oc_arg = None, oc_flow_watermarks = True, oc_node_id = 0,
     oc_num_event_runners = 1 \<rparr>"

definition config_name :: "string \<Rightarrow> 'a OperatorConfig \<Rightarrow> 'a OperatorConfig" where
  "config_name name self = self \<lparr> oc_name := Some name \<rparr>"

definition config_arg :: "'a \<Rightarrow> 'a OperatorConfig \<Rightarrow> 'a OperatorConfig" where
  "config_arg arg self = self \<lparr> oc_arg := Some arg \<rparr>"

definition config_flow_watermarks :: "bool \<Rightarrow> 'a OperatorConfig \<Rightarrow> 'a OperatorConfig" where
  "config_flow_watermarks b self = self \<lparr> oc_flow_watermarks := b \<rparr>"

definition config_node :: "NodeId \<Rightarrow> 'a OperatorConfig \<Rightarrow> 'a OperatorConfig" where
  "config_node n self = self \<lparr> oc_node_id := n \<rparr>"

text \<open>\<open>None\<close> is the failing \<^verbatim>\<open>assert!\<close>.\<close>

definition config_num_event_runners :: "nat \<Rightarrow> 'a OperatorConfig \<Rightarrow> 'a OperatorConfig option" where
  "config_num_event_runners n self = (if n > 0 then Some (self \<lparr> oc_num_event_runners := n \<rparr>) else None)"

definition drop_arg :: "'a OperatorConfig \<Rightarrow> unit OperatorConfig" where
  "drop_arg self = \<lparr> oc_name = oc_name self, oc_id = oc_id self, oc_arg = None,
     oc_flow_watermarks = oc_flow_watermarks self, oc_node_id = oc_node_id self,
     oc_num_event_runners = oc_num_event_runners self \<rparr>"

section \<open>Input streams\<close>

datatype 'a Poll = Poll_Ready 'a | Poll_Pending

text \<open>The flag \<^verbatim>\<open>closed\<close> is shared with the executor, and so a pointer.\<close>

record ('st, 'd, 'h) OperatorExecutorStream =
  oes_stream :: "('st, 'd, 'h) ReadStream"
  oes_recv_endpoint :: "'h RecvEndpoint option"
  oes_closed :: "('st, bool) rc"

definition oes_new ::
    "(bool \<Rightarrow> 'st \<Rightarrow> ('st, bool) rc \<times> 'st) \<Rightarrow> ('st, 'd, 'h) ReadStream \<Rightarrow> 'st \<Rightarrow> ('st, 'd, 'h) OperatorExecutorStream \<times> 'st" where
  "oes_new alloc stream st =
     (case alloc (irs_closed (rc_get stream st)) st of (closed, st) \<Rightarrow>
        (\<lparr> oes_stream = stream, oes_recv_endpoint = None, oes_closed = closed \<rparr>, st))"

text \<open>The endpoint is taken from the stream at the first poll.\<close>

definition oes_take_endpoint ::
    "('st, 'd, 'h) OperatorExecutorStream \<Rightarrow> 'st \<Rightarrow> ('st, 'd, 'h) OperatorExecutorStream \<times> 'st" where
  "oes_take_endpoint self st =
     (case oes_recv_endpoint self of
        None \<Rightarrow> (case take_endpoint (rc_get (oes_stream self) st) of (s, endpoint) \<Rightarrow>
                   (self \<lparr> oes_recv_endpoint := endpoint \<rparr>, rc_put (oes_stream self) s st))
      | Some _ \<Rightarrow> (self, st))"

definition poll_next ::
    "('st, 'h, 'i, 'd Message, 'e) net \<Rightarrow> ('st, 'd, 'h) OperatorExecutorStream \<Rightarrow> 'st \<Rightarrow>
       (('st, 'd, 'h) OperatorExecutorStream \<times> 'st) \<times> 'st event list option Poll" where
  "poll_next N self st =
     (if rc_get (oes_closed self) st then ((self, st), Poll_Ready None)
      else (case oes_take_endpoint self st of (self, st) \<Rightarrow>
        (case oes_recv_endpoint self of
           None \<Rightarrow> ((self, st), Poll_Ready None)
         | Some (Recv_InterThread rx) \<Rightarrow>
             (case mpsc_recv (net_thread N) rx st of
                None \<Rightarrow> ((self, st), Poll_Pending)
              | Some (st, None) \<Rightarrow> ((self, st), Poll_Ready None)
              | Some (st, Some msg) \<Rightarrow>
                  (let (self, st) =
                     (if is_top_watermark msg
                      then (self \<lparr> oes_recv_endpoint := None \<rparr>, rc_put (oes_closed self) True st)
                      else (self, st))
                   in (case irs_make_events (rc_get (oes_stream self) st) msg st of (events, st) \<Rightarrow>
                         ((self, st), Poll_Ready (Some events))))))))"

text \<open>The object behind \<^verbatim>\<open>Box<dyn OperatorExecutorStreamT>\<close>.\<close>

record 'st OperatorExecutorStreamT =
  ost_get_id :: "'st \<Rightarrow> StreamId"
  ost_closed_ref :: "('st, bool) rc"
  ost_poll_next :: "'st \<Rightarrow> 'st \<times> 'st event list option Poll"

definition oes_object ::
    "('st, 'h, 'i, 'd Message, 'e) net \<Rightarrow> ('st, ('st, 'd, 'h) OperatorExecutorStream) rc \<Rightarrow> 'st \<Rightarrow> 'st OperatorExecutorStreamT" where
  "oes_object N box st =
     \<lparr> ost_get_id = (\<lambda>st. irs_id (rc_get (oes_stream (rc_get box st)) st)),
       ost_closed_ref = oes_closed (rc_get box st),
       ost_poll_next = (\<lambda>st. case poll_next N (rc_get box st) st of ((self, st), r) \<Rightarrow> (rc_put box self st, r)) \<rparr>"

section \<open>The executor\<close>

record ('st, 'g, 'c) OperatorExecutor =
  ex_operator :: "'st Operator"
  ex_config :: "unit OperatorConfig"
  ex_event_stream :: "'st OperatorExecutorStreamT list option"
  streams_closed :: "(StreamId \<times> ('st, bool) rc) list"
  ex_lattice :: "'g ExecutionLattice"
  control_rx :: 'c

text \<open>
  The merged stream is kept as the list of its streams: \<^verbatim>\<open>StreamExt::merge\<close> yields the items of both
  streams as they arrive and ends when both have ended. The last stream is the innermost.
\<close>

definition executor_new ::
    "('g, 'd, 'st action) lattice_graph \<Rightarrow> 'st Operator \<Rightarrow> 'a OperatorConfig \<Rightarrow> 'st OperatorExecutorStreamT list \<Rightarrow> 'c \<Rightarrow>
       'st \<Rightarrow> ('st, 'g, 'c) OperatorExecutor" where
  "executor_new G oper config operator_streams rx st =
     \<lparr> ex_operator = oper, ex_config = drop_arg config,
       ex_event_stream =
         (case operator_streams of [] \<Rightarrow> None | _ \<Rightarrow> Some (last operator_streams # butlast operator_streams)),
       streams_closed = fold (\<lambda>s. AList.update (ost_get_id s st) (ost_closed_ref s)) operator_streams [],
       ex_lattice = lattice_new G, control_rx = rx \<rparr>"

definition all_streams_closed :: "('st, 'g, 'c) OperatorExecutor \<Rightarrow> 'st \<Rightarrow> bool" where
  "all_streams_closed self st \<longleftrightarrow> list_all (\<lambda>(_, closed). rc_get closed st) (streams_closed self)"

section \<open>Tasks\<close>

datatype EventRunnerMessage = AddedEvents | DestroyOperator

text \<open>
  Where an event runner is: waiting for a notification newer than the last one it saw, about to ask
  the lattice for an event, about to invoke the callback of an event, or about to mark it as completed.
\<close>

datatype 'cb runner =
    Runner_Waiting nat
  | Runner_Ready EventRunnerMessage nat
  | Runner_Running EventRunnerMessage nat "'cb OperatorEvent" nat
  | Runner_Completing EventRunnerMessage nat nat
  | Runner_Finished
  | Runner_Panicked "nat option"

text \<open>Where the main task is.\<close>

datatype 'cb phase =
    Awaiting_Run
  | Running_Operator
  | Receiving
  | Adding "'cb OperatorEvent list"
  | Notifying
  | Joining
  | Destroying
  | Main_Finished
  | Main_Panicked

fun main_panicked :: "'cb phase \<Rightarrow> bool" where
  "main_panicked Main_Panicked = True"
| "main_panicked _ = False"

text \<open>The \<^verbatim>\<open>watch\<close> channel holds the number of the last notification and its value.\<close>

record ('st, 'g, 'c) execution =
  x_executor :: "('st, 'g, 'c) OperatorExecutor"
  x_phase :: "'st action phase"
  x_streams :: "'st OperatorExecutorStreamT list"
  x_watch :: "nat \<times> EventRunnerMessage"
  x_runners :: "'st action runner list"
  x_store :: 'st

definition exec_init :: "('st, 'g, 'c) OperatorExecutor \<Rightarrow> 'st \<Rightarrow> ('st, 'g, 'c) execution" where
  "exec_init ex st = \<lparr> x_executor = ex, x_phase = Awaiting_Run, x_streams = [], x_watch = (0, AddedEvents),
     x_runners = [], x_store = st \<rparr>"

definition set_lattice :: "'g ExecutionLattice \<Rightarrow> ('st, 'g, 'c) execution \<Rightarrow> ('st, 'g, 'c) execution" where
  "set_lattice l s = s \<lparr> x_executor := (x_executor s) \<lparr> ex_lattice := l \<rparr> \<rparr>"

abbreviation x_lattice :: "('st, 'g, 'c) execution \<Rightarrow> 'g ExecutionLattice" where
  "x_lattice s \<equiv> ex_lattice (x_executor s)"

text \<open>The loop that waits for \<^verbatim>\<open>RunOperator\<close>: one received message.\<close>

definition await_run ::
    "('st, 'c, ControlMessage) mpsc \<Rightarrow> ('st, 'g, 'c) execution \<Rightarrow> ('st, 'g, 'c) execution option" where
  "await_run C s =
     map_option (\<lambda>(st, msg). s \<lparr> x_store := st,
         x_phase := (if msg = Some (RunOperator (oc_id (ex_config (x_executor s)))) then Running_Operator else Awaiting_Run) \<rparr>)
       (mpsc_recv C (control_rx (x_executor s)) (x_store s))"

text \<open>\<^verbatim>\<open>operator.run()\<close>, and the launch of the event runners when there are input streams.\<close>

definition run_operator :: "('st, 'g, 'c) execution \<Rightarrow> ('st, 'g, 'c) execution" where
  "run_operator s =
     (case op_run (ex_operator (x_executor s)) (x_store s) of
        None \<Rightarrow> s \<lparr> x_phase := Main_Panicked \<rparr>
      | Some st \<Rightarrow>
          (case ex_event_stream (x_executor s) of
             None \<Rightarrow> s \<lparr> x_store := st, x_phase := Destroying \<rparr>
           | Some streams \<Rightarrow>
               s \<lparr> x_store := st, x_executor := (x_executor s) \<lparr> ex_event_stream := None \<rparr>, x_streams := streams,
                   x_watch := (1, AddedEvents),
                   x_runners := replicate (oc_num_event_runners (ex_config (x_executor s))) (Runner_Waiting 0),
                   x_phase := Receiving \<rparr>))"

text \<open>One poll of the merged stream, at the stream with index \<open>i\<close>; the end of all streams ends the loop.\<close>

definition receive_events :: "nat \<Rightarrow> ('st, 'g, 'c) execution \<Rightarrow> ('st, 'g, 'c) execution option" where
  "receive_events i s =
     (case x_streams s of
        [] \<Rightarrow> Some (s \<lparr> x_watch := (Suc (fst (x_watch s)), DestroyOperator), x_phase := Joining \<rparr>)
      | _ \<Rightarrow>
          if i < length (x_streams s)
          then (case ost_poll_next (x_streams s ! i) (x_store s) of
                  (st, Poll_Pending) \<Rightarrow> Some (s \<lparr> x_store := st \<rparr>)
                | (st, Poll_Ready None) \<Rightarrow>
                    Some (s \<lparr> x_store := st, x_streams := take i (x_streams s) @ drop (Suc i) (x_streams s) \<rparr>)
                | (st, Poll_Ready (Some events)) \<Rightarrow> Some (s \<lparr> x_store := st, x_phase := Adding events \<rparr>))
          else None)"

text \<open>What a panic while a batch of events is added leaves behind: the events before the one that panicked.\<close>

fun added_until_panic :: "('g, 'd, 'cb) lattice_graph \<Rightarrow> 'cb OperatorEvent list \<Rightarrow> 'g ExecutionLattice \<Rightarrow> 'g ExecutionLattice" where
  "added_until_panic G [] l = l"
| "added_until_panic G (x # xs) l = (case add_event G x l of None \<Rightarrow> l | Some l' \<Rightarrow> added_until_panic G xs l')"

definition add_to_lattice ::
    "('g, 'd, 'st action) lattice_graph \<Rightarrow> 'st event list \<Rightarrow> ('st, 'g, 'c) execution \<Rightarrow> ('st, 'g, 'c) execution" where
  "add_to_lattice G events s =
     (case add_events G events (x_lattice s) of
        None \<Rightarrow> (set_lattice (added_until_panic G events (x_lattice s)) s) \<lparr> x_phase := Main_Panicked \<rparr>
      | Some l \<Rightarrow> (set_lattice l s) \<lparr> x_phase := Notifying \<rparr>)"

fun runner_ended :: "'cb runner \<Rightarrow> bool" where
  "runner_ended Runner_Finished = True"
| "runner_ended (Runner_Panicked _) = True"
| "runner_ended _ = False"

definition destroy_operator :: "('st, 'g, 'c) execution \<Rightarrow> ('st, 'g, 'c) execution" where
  "destroy_operator s =
     (if all_streams_closed (x_executor s) (x_store s)
      then (case op_destroy (ex_operator (x_executor s)) (x_store s) of
              None \<Rightarrow> s \<lparr> x_phase := Main_Panicked \<rparr>
            | Some st \<Rightarrow> s \<lparr> x_store := st, x_phase := Main_Finished \<rparr>)
      else s \<lparr> x_phase := Main_Finished \<rparr>)"

text \<open>\<^verbatim>\<open>execute\<close>, one step at a time.\<close>

definition main_step ::
    "('g, 'd, 'st action) lattice_graph \<Rightarrow> ('st, 'c, ControlMessage) mpsc \<Rightarrow> nat \<Rightarrow> ('st, 'g, 'c) execution \<Rightarrow>
       ('st, 'g, 'c) execution option" where
  "main_step G C i s =
     (case x_phase s of
        Awaiting_Run \<Rightarrow> await_run C s
      | Running_Operator \<Rightarrow> Some (run_operator s)
      | Receiving \<Rightarrow> receive_events i s
      | Adding events \<Rightarrow> Some (add_to_lattice G events s)
      | Notifying \<Rightarrow> Some (s \<lparr> x_watch := (Suc (fst (x_watch s)), AddedEvents), x_phase := Receiving \<rparr>)
      | Joining \<Rightarrow> if list_all runner_ended (x_runners s) then Some (s \<lparr> x_phase := Destroying \<rparr>) else None
      | Destroying \<Rightarrow> Some (destroy_operator s)
      | Main_Finished \<Rightarrow> None
      | Main_Panicked \<Rightarrow> None)"

text \<open>
  \<^verbatim>\<open>event_runner\<close>: its state after one step, with the lattice and the store. When the main task panics the
  sender of notifications is dropped, and a runner that has seen the last one ends.
\<close>

definition event_runner ::
    "('g, 'd, 'st action) lattice_graph \<Rightarrow> nat \<times> EventRunnerMessage \<Rightarrow> bool \<Rightarrow> 'st action runner \<Rightarrow> 'g ExecutionLattice \<Rightarrow> 'st \<Rightarrow>
       ('st action runner \<times> 'g ExecutionLattice \<times> 'st) option" where
  "event_runner G watch sender_dropped r l st =
     (case r of
        Runner_Waiting seen \<Rightarrow>
          if seen < fst watch then Some (Runner_Ready (snd watch) (fst watch), l, st)
          else if sender_dropped then Some (Runner_Finished, l, st) else None
      | Runner_Ready msg seen \<Rightarrow>
          (case get_event G l of
             None \<Rightarrow> Some (Runner_Panicked None, l, st)
           | Some (l, Some (event, event_id)) \<Rightarrow> Some (Runner_Running msg seen event event_id, l, st)
           | Some (l, None) \<Rightarrow>
               Some (if msg = DestroyOperator then Runner_Finished else Runner_Waiting seen, l, st))
      | Runner_Running msg seen event event_id \<Rightarrow>
          (case callback event st of
             None \<Rightarrow> Some (Runner_Panicked (Some event_id), l, st)
           | Some st \<Rightarrow> Some (Runner_Completing msg seen event_id, l, st))
      | Runner_Completing msg seen event_id \<Rightarrow>
          (case mark_as_completed G event_id l of
             None \<Rightarrow> Some (Runner_Panicked (Some event_id), l, st)
           | Some l \<Rightarrow> Some (Runner_Ready msg seen, l, st))
      | Runner_Finished \<Rightarrow> None
      | Runner_Panicked _ \<Rightarrow> None)"

definition runner_step ::
    "('g, 'd, 'st action) lattice_graph \<Rightarrow> nat \<Rightarrow> ('st, 'g, 'c) execution \<Rightarrow> ('st, 'g, 'c) execution option" where
  "runner_step G j s =
     (if j < length (x_runners s)
      then map_option (\<lambda>(r, l, st). (set_lattice l s) \<lparr> x_store := st, x_runners := (x_runners s)[j := r] \<rparr>)
             (event_runner G (x_watch s) (main_panicked (x_phase s)) (x_runners s ! j) (x_lattice s) (x_store s))
      else None)"

end
