(* ===== verification/Executor_Properties.thy ===== *)
theory Executor_Properties
  imports Executor Lattice_Properties
begin

text \<open>
  The tasks of an executor, interleaved in any order, and what they do to the lattice: every run is a run of
  the lattice and the executor ends once its input streams have ended, for events whose comparisons do not
  panic; for events that are also \<^verbatim>\<open>well_timed\<close>, every event that was added is executed exactly once before the
  operator is destroyed.
\<close>

section \<open>Interleavings\<close>

datatype 'cb exec_label =
    Exec_Internal
  | Exec_Added "'cb OperatorEvent list"
  | Exec_Started nat "'cb OperatorEvent"
  | Exec_Ran "'cb OperatorEvent"
  | Exec_Completed nat

definition main_label ::
    "('g, 'd, 'st action) lattice_graph \<Rightarrow> ('st, 'g, 'c) execution \<Rightarrow> 'st action exec_label" where
  "main_label G s =
     (case x_phase s of
        Adding events \<Rightarrow> (case add_events G events (x_lattice s) of Some _ \<Rightarrow> Exec_Added events | None \<Rightarrow> Exec_Internal)
      | _ \<Rightarrow> Exec_Internal)"

definition runner_label ::
    "('g, 'd, 'st action) lattice_graph \<Rightarrow> 'st action runner \<Rightarrow> 'g ExecutionLattice \<Rightarrow> 'st \<Rightarrow> 'st action exec_label" where
  "runner_label G r l st =
     (case r of
        Runner_Ready _ _ \<Rightarrow> (case get_event G l of Some (_, Some (e, n)) \<Rightarrow> Exec_Started n e | _ \<Rightarrow> Exec_Internal)
      | Runner_Running _ _ e n \<Rightarrow> (case callback e st of Some _ \<Rightarrow> Exec_Ran e | None \<Rightarrow> Exec_Internal)
      | Runner_Completing _ _ n \<Rightarrow> (case mark_as_completed G n l of Some _ \<Rightarrow> Exec_Completed n | None \<Rightarrow> Exec_Internal)
      | _ \<Rightarrow> Exec_Internal)"

text \<open>As for the lattice, \<open>adm\<close> says which events may be added in which graph.\<close>

fun adm_events ::
    "('g, 'd, 'cb) lattice_graph \<Rightarrow> ('g \<Rightarrow> 'cb OperatorEvent \<Rightarrow> bool) \<Rightarrow> 'cb OperatorEvent list \<Rightarrow> 'g ExecutionLattice \<Rightarrow> bool" where
  "adm_events G adm [] l = True"
| "adm_events G adm (x # xs) l \<longleftrightarrow>
     adm (forest l) x \<and> (case add_event G x l of Some l' \<Rightarrow> adm_events G adm xs l' | None \<Rightarrow> True)"

definition adm_state ::
    "('g, 'd, 'st action) lattice_graph \<Rightarrow> ('g \<Rightarrow> 'st event \<Rightarrow> bool) \<Rightarrow> ('st, 'g, 'c) execution \<Rightarrow> bool" where
  "adm_state G adm s \<longleftrightarrow> (case x_phase s of Adding events \<Rightarrow> adm_events G adm events (x_lattice s) | _ \<Rightarrow> True)"

inductive exec_step ::
    "('g, 'd, 'st action) lattice_graph \<Rightarrow> ('st, 'c, ControlMessage) mpsc \<Rightarrow> ('g \<Rightarrow> 'st event \<Rightarrow> bool) \<Rightarrow>
     ('st, 'g, 'c) execution \<Rightarrow> 'st action exec_label \<Rightarrow> ('st, 'g, 'c) execution \<Rightarrow> bool"
  for G C adm where
  exec_main: "main_step G C i s = Some s' \<Longrightarrow> adm_state G adm s \<Longrightarrow> exec_step G C adm s (main_label G s) s'"
| exec_runner: "runner_step G j s = Some s' \<Longrightarrow> 
    exec_step G C adm s (runner_label G (x_runners s ! j) (x_lattice s) (x_store s)) s'"

inductive exec_trace ::
    "('g, 'd, 'st action) lattice_graph \<Rightarrow> ('st, 'c, ControlMessage) mpsc \<Rightarrow> ('g \<Rightarrow> 'st event \<Rightarrow> bool) \<Rightarrow>
     ('st, 'g, 'c) execution \<Rightarrow> 'st action exec_label list \<Rightarrow> ('st, 'g, 'c) execution \<Rightarrow> bool"
  for G C adm s where
  exec_nil: "exec_trace G C adm s [] s"
| exec_snoc: "exec_trace G C adm s labs s1 \<Longrightarrow> exec_step G C adm s1 lab s2 \<Longrightarrow> exec_trace G C adm s (labs @ [lab]) s2"

text \<open>What a run does to the lattice, which events it adds, and which callbacks it runs.\<close>

fun lattice_labels :: "'cb exec_label \<Rightarrow> 'cb lattice_label list" where
  "lattice_labels (Exec_Added es) = map Added es"
| "lattice_labels (Exec_Started n e) = [HandedOut n e]"
| "lattice_labels (Exec_Completed n) = [Completed n]"
| "lattice_labels _ = []"

fun added_events :: "'cb exec_label \<Rightarrow> 'cb OperatorEvent list" where
  "added_events (Exec_Added es) = es"
| "added_events _ = []"

fun started_events :: "'cb exec_label \<Rightarrow> 'cb OperatorEvent list" where
  "started_events (Exec_Started _ e) = [e]"
| "started_events _ = []"

fun ran_events :: "'cb exec_label \<Rightarrow> 'cb OperatorEvent list" where
  "ran_events (Exec_Ran e) = [e]"
| "ran_events _ = []"

section \<open>The lattice under the executor\<close>

lemma lattice_trace_append:
  "lattice_trace G adm l labs l1 \<Longrightarrow> lattice_trace G adm l1 labs' l2 \<Longrightarrow> lattice_trace G adm l (labs @ labs') l2"
  by (induction rule: lattice_trace.induct) (auto intro: lattice_trace.intros)

lemma lattice_trace_single: "lattice_step G adm l lab l' \<Longrightarrow> lattice_trace G adm l [lab] l'"
  by (auto intro: lattice_trace.intros)

lemma add_events_trace:
  "add_events G es l = Some l' \<Longrightarrow> adm_events G adm es l \<Longrightarrow> lattice_trace G adm l (map Added es) l'"
proof (induction es arbitrary: l)
  case (Cons x es)
  from Cons.prems(1) obtain l1 where l1: "add_event G x l = Some l1" "add_events G es l1 = Some l'"
    by (auto simp: bind_eq_Some_conv)
  with Cons.prems(2) have "lattice_step G adm l (Added x) l1" "adm_events G adm es l1"
    by (auto intro: step_add)
  with Cons.IH[OF l1(2)] show ?case by (auto intro: lattice_trace.intros)
qed (auto intro: lattice_trace.intros)

lemma lattice_trace_mono:
  assumes "lattice_trace G adm l labs l'" "\<And>g x. adm g x \<Longrightarrow> adm' g x"
  shows "lattice_trace G adm' l labs l'"
  using assms(1)
proof (induction rule: lattice_trace.induct)
  case (trace_cons l lab l1 labs l2)
  from trace_cons(1) assms(2) have "lattice_step G adm' l lab l1" by (cases rule: lattice_step.cases) (auto intro: lattice_step.intros)
  with trace_cons.IH show ?case by (rule lattice_trace.trace_cons[rotated])
qed (rule trace_nil)

text \<open>The nodes whose events the runners hold: handed out, not yet marked as completed.\<close>

fun runner_node :: "'cb runner \<Rightarrow> nat list" where
  "runner_node (Runner_Running _ _ _ n) = [n]"
| "runner_node (Runner_Completing _ _ n) = [n]"
| "runner_node (Runner_Panicked (Some n)) = [n]"
| "runner_node _ = []"

definition held_nodes :: "'cb runner list \<Rightarrow> nat multiset" where
  "held_nodes rs = (\<Sum>r\<in>#mset rs. mset (runner_node r))"

fun runner_event :: "'cb runner \<Rightarrow> 'cb OperatorEvent list" where
  "runner_event (Runner_Running _ _ e _) = [e]"
| "runner_event _ = []"

definition held_events :: "'cb runner list \<Rightarrow> 'cb OperatorEvent multiset" where
  "held_events rs = (\<Sum>r\<in>#mset rs. mset (runner_event r))"

lemma sum_mset_update:
  assumes "j < length rs"
  shows "(\<Sum>r\<in>#mset (rs[j := r']). f r) + f (rs ! j) = (\<Sum>r\<in>#mset rs. f r) + (f r' :: 'a multiset)"
  using assms
proof (induction rs arbitrary: j)
  case (Cons r rs)
  then show ?case by (cases j) (auto simp: ac_simps)
qed simp

lemma runner_node_held: "r \<in> set rs \<Longrightarrow> set (runner_node r) \<subseteq> set_mset (held_nodes rs)"
  by (induction rs) (auto simp: held_nodes_def)

lemma held_nodes_update:
  "j < length rs \<Longrightarrow> held_nodes (rs[j := r']) + mset (runner_node (rs ! j)) = held_nodes rs + mset (runner_node r')"
  using sum_mset_update[of j rs "\<lambda>r. mset (runner_node r)" r'] by (simp add: held_nodes_def)

lemma held_events_update:
  "j < length rs \<Longrightarrow> held_events (rs[j := r']) + mset (runner_event (rs ! j)) = held_events rs + mset (runner_event r')"
  using sum_mset_update[of j rs "\<lambda>r. mset (runner_event r)" r'] by (simp add: held_events_def)

text \<open>The nodes of events that were handed out and not completed.\<close>

definition running_nodes :: "('g, 'd, 'cb) lattice_graph \<Rightarrow> 'g \<Rightarrow> nat set" where
  "running_nodes G g = {n. pg_node_weight G g n = Some None}"

definition core_inv ::
    "('g, 'd, 'st action) lattice_graph \<Rightarrow> ('g \<Rightarrow> bool) \<Rightarrow> ('st, 'g, 'c) execution \<Rightarrow> bool" where
  "core_inv G ok s \<longleftrightarrow> lattice_inv G ok (x_lattice s) \<and>
     held_nodes (x_runners s) = mset_set (running_nodes G (forest (x_lattice s)))"

text \<open>Counting events: what was added was handed out or is pending.\<close>

definition pending_mset :: "(nat \<Rightarrow> 'a option option) \<Rightarrow> 'a multiset" where
  "pending_mset w = image_mset (\<lambda>n. the (the (w n))) (mset_set {n. \<exists>e. w n = Some (Some e)})"

lemma pending_mset_add:
  assumes "finite (dom w)" "\<nexists>e. w n = Some (Some e)"
  shows "pending_mset (w(n \<mapsto> Some x)) = add_mset x (pending_mset w)"
proof -
  let ?P = "{m. \<exists>e. w m = Some (Some e)}"
  have fin: "finite ?P" by (rule finite_subset[OF _ assms(1)]) auto
  have set: "{m. \<exists>e. (w(n \<mapsto> Some x)) m = Some (Some e)} = insert n ?P" and n: "n \<notin> ?P" using assms(2) by auto
  have "image_mset (\<lambda>m. the (the ((w(n \<mapsto> Some x)) m))) (mset_set ?P) = image_mset (\<lambda>m. the (the (w m))) (mset_set ?P)"
    using n fin by (intro image_mset_cong) auto
  then show ?thesis unfolding pending_mset_def set using n fin by simp
qed

lemma pending_mset_hand_out:
  assumes "finite (dom w)" "w n = Some (Some x)"
  shows "pending_mset w = add_mset x (pending_mset (w(n \<mapsto> None)))"
  using pending_mset_add[of "w(n \<mapsto> None)" n x] assms by (simp add: fun_upd_idem)

lemma pending_mset_cong: "(\<And>n e. w n = Some (Some e) \<longleftrightarrow> w' n = Some (Some e)) \<Longrightarrow> pending_mset w = pending_mset w'"
proof -
  assume eq: "\<And>n e. w n = Some (Some e) \<longleftrightarrow> w' n = Some (Some e)"
  have "the (the (w n)) = the (the (w' n))" if "n \<in># mset_set {n. \<exists>e. w' n = Some (Some e)}" for n
  proof -
    from that obtain e where "w' n = Some (Some e)"
      by (cases "finite {n. \<exists>e. w' n = Some (Some e)}") auto
    moreover from this have "w n = Some (Some e)" using eq by blast
    ultimately show ?thesis by simp
  qed
  then show ?thesis unfolding pending_mset_def eq by (rule image_mset_cong)
qed

lemma mset_chain:
  fixes A :: "'a multiset"
  assumes "A + X = B + Y" "A' + Y = B' + Z"
  shows "(A + A') + X = (B + B') + Z"
proof -
  have "(A + A') + X = A' + (A + X)" by (simp add: ac_simps)
  also have "\<dots> = B + (A' + Y)" by (simp add: assms(1) ac_simps)
  finally show ?thesis by (simp add: assms(2) ac_simps)
qed

lemma mset_swap:
  fixes A :: "'a multiset"
  assumes "A + x = B + y" "H' + x = H + y"
  shows "A + H = B + H'"
proof -
  have "(A + H) + y = A + (H + y)" by (simp add: ac_simps)
  also have "\<dots> = (A + x) + H'" by (simp add: assms(2)[symmetric] ac_simps)
  also have "\<dots> = (B + H') + y" by (simp add: assms(1) ac_simps)
  finally show ?thesis by simp
qed

fun label_added :: "'cb lattice_label \<Rightarrow> 'cb OperatorEvent list" where
  "label_added (Added x) = [x]"
| "label_added _ = []"

fun label_handed_out :: "'cb lattice_label \<Rightarrow> 'cb OperatorEvent list" where
  "label_handed_out (HandedOut _ e) = [e]"
| "label_handed_out _ = []"

context lattice_library
begin

lemma step_events:
  assumes step: "lattice_step G adm l lab l'" and inv: "lattice_inv G ok l" and adm: "\<And>g x. adm g x \<Longrightarrow> comparable G g x"
  shows "mset (label_added lab) + pending_mset (pg_node_weight G (forest l)) =
    mset (label_handed_out lab) + pending_mset (pg_node_weight G (forest l'))"
proof -
  have fin: "finite (dom (pg_node_weight G (forest l)))" using inv finite_nodes by (simp add: lattice_inv_def)
  show ?thesis using step
  proof (cases rule: lattice_step.cases)
    case (step_add x)
    with add_event_inv[OF inv, of x] adm obtain n where
      "pg_node_weight G (forest l') = (pg_node_weight G (forest l))(n \<mapsto> Some x)" "pg_node_weight G (forest l) n = None" by force
    with pending_mset_add[OF fin, of n x] step_add(1) show ?thesis by simp
  next
    case (step_get e n)
    with get_event_handed_out[OF inv] have "pg_node_weight G (forest l) n = Some (Some e)"
        "pg_node_weight G (forest l') = (pg_node_weight G (forest l))(n \<mapsto> None)" by auto
    with pending_mset_hand_out[OF fin, of n e] step_get(1) show ?thesis by simp
  next
    case step_idle
    with get_event_inv[OF inv] show ?thesis by (cases "run_queue l = []") auto
  next
    case (step_done i)
    with mark_as_completed_inv[OF inv, of i] have "pg_node_weight G (forest l') = (pg_node_weight G (forest l))(i := None)" by auto
    then have "pending_mset (pg_node_weight G (forest l)) = pending_mset (pg_node_weight G (forest l'))"
      using step_done(2) by (intro pending_mset_cong) auto
    with step_done(1) show ?thesis by simp
  qed
qed

lemma trace_events:
  assumes "lattice_trace G adm l labs l'" "lattice_inv G ok l" "\<And>g x. adm g x \<Longrightarrow> comparable G g x"
  shows "mset (concat (map label_added labs)) + pending_mset (pg_node_weight G (forest l)) =
    mset (concat (map label_handed_out labs)) + pending_mset (pg_node_weight G (forest l'))"
  using assms
proof (induction rule: lattice_trace.induct)
  case (trace_cons l lab l1 labs l2)
  from mset_chain[OF step_events[OF trace_cons(1,4,5)] trace_cons.IH[OF step_inv[OF trace_cons(1,4,5)] trace_cons(5)]]
  show ?case by simp
qed simp

end

section \<open>The tasks\<close>

fun runner_panicked :: "'cb runner \<Rightarrow> bool" where
  "runner_panicked (Runner_Panicked _) = True"
| "runner_panicked _ = False"

text \<open>A runner knows the value of the notification it saw last, and ends only after \<open>DestroyOperator\<close>.\<close>

fun runner_ok :: "nat \<times> EventRunnerMessage \<Rightarrow> 'cb runner \<Rightarrow> bool" where
  "runner_ok w (Runner_Waiting seen) \<longleftrightarrow> seen \<le> fst w \<and> (seen = fst w \<longrightarrow> snd w = AddedEvents)"
| "runner_ok w (Runner_Ready msg seen) \<longleftrightarrow> seen \<le> fst w \<and> (seen = fst w \<longrightarrow> snd w = msg) \<and> (msg = DestroyOperator \<longrightarrow> snd w = DestroyOperator)"
| "runner_ok w (Runner_Running msg seen _ _) \<longleftrightarrow> seen \<le> fst w \<and> (seen = fst w \<longrightarrow> snd w = msg) \<and> (msg = DestroyOperator \<longrightarrow> snd w = DestroyOperator)"
| "runner_ok w (Runner_Completing msg seen _) \<longleftrightarrow> seen \<le> fst w \<and> (seen = fst w \<longrightarrow> snd w = msg) \<and> (msg = DestroyOperator \<longrightarrow> snd w = DestroyOperator)"
| "runner_ok w Runner_Finished \<longleftrightarrow> snd w = DestroyOperator"
| "runner_ok w (Runner_Panicked _) \<longleftrightarrow> True"

fun phase_inv :: "'cb phase \<Rightarrow> nat \<times> EventRunnerMessage \<Rightarrow> 'cb runner list \<Rightarrow> bool" where
  "phase_inv Awaiting_Run w rs \<longleftrightarrow> rs = []"
| "phase_inv Running_Operator w rs \<longleftrightarrow> rs = []"
| "phase_inv Receiving w rs \<longleftrightarrow> snd w = AddedEvents \<and> rs \<noteq> []"
| "phase_inv (Adding _) w rs \<longleftrightarrow> snd w = AddedEvents \<and> rs \<noteq> []"
| "phase_inv Notifying w rs \<longleftrightarrow> snd w = AddedEvents \<and> rs \<noteq> []"
| "phase_inv Joining w rs \<longleftrightarrow> snd w = DestroyOperator \<and> rs \<noteq> []"
| "phase_inv Destroying w rs \<longleftrightarrow> list_all runner_ended rs"
| "phase_inv Main_Finished w rs \<longleftrightarrow> list_all runner_ended rs"
| "phase_inv Main_Panicked w rs \<longleftrightarrow> list_all runner_ended rs"

definition flow_inv :: "('st, 'g, 'c) execution \<Rightarrow> bool" where
  "flow_inv s \<longleftrightarrow> 0 < oc_num_event_runners (ex_config (x_executor s)) \<and>
     phase_inv (x_phase s) (x_watch s) (x_runners s) \<and>
     (\<forall>r \<in> set (x_runners s). runner_ok (x_watch s) r) \<and>
     (list_all runner_ended (x_runners s) \<and> list_all (\<lambda>r. \<not> runner_panicked r) (x_runners s) \<longrightarrow>
        run_queue (x_lattice s) = [])"

text \<open>The main task after the input streams have ended.\<close>

fun ending :: "'cb phase \<Rightarrow> bool" where
  "ending Joining = True"
| "ending Destroying = True"
| "ending Main_Finished = True"
| "ending Main_Panicked = True"
| "ending _ = False"

text \<open>A bound on the steps that are left then.\<close>

definition message_work :: "EventRunnerMessage \<Rightarrow> nat" where
  "message_work msg = (if msg = DestroyOperator then 1 else 3)"

fun runner_work :: "'cb runner \<Rightarrow> nat" where
  "runner_work (Runner_Waiting _) = 2"
| "runner_work (Runner_Ready msg _) = message_work msg"
| "runner_work (Runner_Running msg _ _ _) = message_work msg + 2"
| "runner_work (Runner_Completing msg _ _) = message_work msg + 1"
| "runner_work Runner_Finished = 0"
| "runner_work (Runner_Panicked _) = 0"

definition work_left :: "('g, 'd, 'st action) lattice_graph \<Rightarrow> ('st, 'g, 'c) execution \<Rightarrow> nat" where
  "work_left G s =
     (case x_phase s of
        Joining \<Rightarrow> 3 * size (pending_mset (pg_node_weight G (forest (x_lattice s)))) + sum_list (map runner_work (x_runners s)) + 2
      | Destroying \<Rightarrow> 1
      | _ \<Rightarrow> 0)"

lemma message_work_pos [simp]: "0 < message_work msg" "message_work DestroyOperator = 1" "message_work AddedEvents = 3"
  by (simp_all add: message_work_def)

lemma not_DestroyOperator: "m \<noteq> DestroyOperator \<longleftrightarrow> m = AddedEvents"
  by (cases m) auto

locale executor_library = lattice_library G ok valid discovered finished opened target
  for G :: "('g, 'd, 'st action) lattice_graph" and ok :: "'g \<Rightarrow> bool"
    and valid :: "'g \<Rightarrow> 'd \<Rightarrow> bool" and discovered finished opened :: "'d \<Rightarrow> nat set"
    and target :: "'d \<Rightarrow> nat option" +
  fixes adm :: "'g \<Rightarrow> 'st event \<Rightarrow> bool"
  assumes adm_comparable: "adm g x \<Longrightarrow> comparable G g x"
begin

lemma finite_running: "lattice_inv G ok l \<Longrightarrow> finite (running_nodes G (forest l))"
  using finite_nodes[of "forest l"] by (auto simp: lattice_inv_def running_nodes_def elim!: rev_finite_subset)

lemma add_events_core:
  "lattice_inv G ok l \<Longrightarrow> adm_events G adm es l \<Longrightarrow>
     \<exists>l'. add_events G es l = Some l' \<and> lattice_inv G ok l' \<and> running_nodes G (forest l') = running_nodes G (forest l)"
proof (induction es arbitrary: l)
  case (Cons x es)
  from add_event_inv[OF Cons.prems(1), of x] adm_comparable Cons.prems(2) obtain l1 n where
    l1: "add_event G x l = Some l1" "lattice_inv G ok l1"
      "pg_node_weight G (forest l1) = (pg_node_weight G (forest l))(n \<mapsto> Some x)" "pg_node_weight G (forest l) n = None" by auto
  then have "running_nodes G (forest l1) = running_nodes G (forest l)" by (auto simp: running_nodes_def)
  with Cons.IH[OF l1(2)] Cons.prems(2) l1(1) show ?case by simp
qed simp

text \<open>One step of a runner is a step of the lattice or leaves it alone, and keeps track of the node it holds.\<close>

lemma event_runner_core:
  assumes inv: "lattice_inv G ok l" and step: "event_runner G watch dropped r l st = Some (r', l', st')"
    and held: "set (runner_node r) \<subseteq> running_nodes G (forest l)"
  shows "lattice_inv G ok l' \<and> lattice_trace G adm l (lattice_labels (runner_label G r l st)) l' \<and>
    mset_set (running_nodes G (forest l')) + mset (runner_node r) = mset_set (running_nodes G (forest l)) + mset (runner_node r')"
proof (cases r)
  case (Runner_Ready msg seen)
  show ?thesis
  proof (cases "run_queue l = []")
    case True
    with get_event_inv[OF inv] have "get_event G l = Some (l, None)" by simp
    with step inv show ?thesis by (auto simp: Runner_Ready event_runner_def runner_label_def intro: trace_nil)
  next
    case False
    with get_event_inv[OF inv] obtain l1 n e where get: "get_event G l = Some (l1, Some (e, n))" "lattice_inv G ok l1"
        "pg_node_weight G (forest l) n = Some (Some e)"
        "pg_node_weight G (forest l1) = (pg_node_weight G (forest l))(n \<mapsto> None)" by blast
    then have "running_nodes G (forest l1) = insert n (running_nodes G (forest l))" "n \<notin> running_nodes G (forest l)"
      by (auto simp: running_nodes_def)
    moreover have "lattice_trace G adm l [HandedOut n e] l1" by (intro lattice_trace_single step_get get(1))
    ultimately show ?thesis using step get(1,2) finite_running[OF inv]
      by (auto simp: Runner_Ready event_runner_def runner_label_def)
  qed
next
  case (Runner_Completing msg seen n)
  with held have n: "pg_node_weight G (forest l) n = Some None" by (simp add: running_nodes_def)
  from mark_as_completed_inv[OF inv this] obtain l1 where l1: "mark_as_completed G n l = Some l1" "lattice_inv G ok l1"
      "pg_node_weight G (forest l1) = (pg_node_weight G (forest l))(n := None)" by blast
  then have "running_nodes G (forest l) = insert n (running_nodes G (forest l1))" "n \<notin> running_nodes G (forest l1)"
    using n by (auto simp: running_nodes_def)
  moreover have "lattice_trace G adm l [Completed n] l1" by (intro lattice_trace_single step_done n l1(1))
  ultimately show ?thesis using step l1(1,2) finite_running[OF l1(2)]
    by (auto simp: Runner_Completing event_runner_def runner_label_def)
qed (use step inv in \<open>auto simp: event_runner_def runner_label_def intro: trace_nil split: if_splits option.splits\<close>)

lemma runner_step_core:
  assumes core: "core_inv G ok s" and step: "runner_step G j s = Some s'"
  shows "core_inv G ok s' \<and>
    lattice_trace G adm (x_lattice s) (lattice_labels (runner_label G (x_runners s ! j) (x_lattice s) (x_store s))) (x_lattice s')"
proof -
  from step obtain r l st where j: "j < length (x_runners s)"
    and er: "event_runner G (x_watch s) (main_panicked (x_phase s)) (x_runners s ! j) (x_lattice s) (x_store s) = Some (r, l, st)"
    and s': "s' = (set_lattice l s) \<lparr> x_store := st, x_runners := (x_runners s)[j := r] \<rparr>"
    by (auto simp: runner_step_def split: if_splits)
  have inv: "lattice_inv G ok (x_lattice s)" and held: "held_nodes (x_runners s) = mset_set (running_nodes G (forest (x_lattice s)))"
    using core by (simp_all add: core_inv_def)
  have "set (runner_node (x_runners s ! j)) \<subseteq> running_nodes G (forest (x_lattice s))"
    using runner_node_held[OF nth_mem[OF j]] finite_running[OF inv] by (simp add: held)
  from event_runner_core[OF inv er this] have
    er': "lattice_inv G ok l" "lattice_trace G adm (x_lattice s) (lattice_labels (runner_label G (x_runners s ! j) (x_lattice s) (x_store s))) l"
      "mset_set (running_nodes G (forest l)) + mset (runner_node (x_runners s ! j)) =
       mset_set (running_nodes G (forest (x_lattice s))) + mset (runner_node r)" by auto
  have "held_nodes ((x_runners s)[j := r]) = mset_set (running_nodes G (forest l))"
    using held_nodes_update[OF j, of r] er'(3) unfolding held by (metis add_right_cancel)
  with er'(1,2) show ?thesis unfolding s' core_inv_def by (simp add: set_lattice_def)
qed

lemma main_step_core:
  assumes core: "core_inv G ok s" and step: "main_step G C i s = Some s'" and adm: "adm_state G adm s"
    and fresh: "x_phase s = Running_Operator \<Longrightarrow> x_runners s = []"
  shows "core_inv G ok s' \<and> lattice_trace G adm (x_lattice s) (lattice_labels (main_label G s)) (x_lattice s')"
proof (cases "x_phase s")
  case (Adding es)
  with core adm obtain l where l: "add_events G es (x_lattice s) = Some l" "lattice_inv G ok l"
      "running_nodes G (forest l) = running_nodes G (forest (x_lattice s))"
    using add_events_core[of "x_lattice s" es] by (auto simp: core_inv_def adm_state_def)
  with add_events_trace[OF l(1), of adm] core adm step Adding show ?thesis
    by (auto simp: main_step_def add_to_lattice_def core_inv_def adm_state_def main_label_def set_lattice_def)
next
  case Running_Operator
  with fresh have "x_runners s = []" by simp
  with core step Running_Operator show ?thesis
    by (auto simp: main_step_def run_operator_def core_inv_def main_label_def held_nodes_def
        intro: trace_nil split: option.splits)
qed (use core step in \<open>auto simp: main_step_def await_run_def receive_events_def destroy_operator_def core_inv_def main_label_def
       intro: trace_nil split: if_splits option.splits Poll.splits prod.splits list.splits\<close>)

lemma get_event_None: "lattice_inv G ok l \<Longrightarrow> get_event G l = Some (l', None) \<Longrightarrow> l' = l \<and> run_queue l = []"
  using get_event_inv[of l] by (cases "run_queue l = []") auto

lemma event_runner_ok:
  assumes "event_runner G watch False r l st = Some (r', l', st')" "runner_ok watch r" "lattice_inv G ok l"
  shows "runner_ok watch r' \<and> (r' = Runner_Finished \<longrightarrow> run_queue l' = []) \<and> \<not> runner_ended r"
  using assms get_event_None[of l]
  by (cases r) (auto simp: event_runner_def not_DestroyOperator split: if_splits option.splits)

lemma runner_step_flow:
  assumes core: "core_inv G ok s" and flow: "flow_inv s" and step: "runner_step G j s = Some s'"
  shows "flow_inv s'"
proof -
  from step obtain r l st where j: "j < length (x_runners s)"
    and er: "event_runner G (x_watch s) (main_panicked (x_phase s)) (x_runners s ! j) (x_lattice s) (x_store s) = Some (r, l, st)"
    and s': "s' = (set_lattice l s) \<lparr> x_store := st, x_runners := (x_runners s)[j := r] \<rparr>"
    by (auto simp: runner_step_def split: if_splits)
  have ok: "runner_ok (x_watch s) (x_runners s ! j)" using flow j by (auto simp: flow_inv_def)
  have active: "\<not> runner_ended (x_runners s ! j)"
    using er by (cases "x_runners s ! j") (auto simp: event_runner_def)
  then have phase: "phase_inv (x_phase s) (x_watch s) (x_runners s)" "x_runners s \<noteq> []" "\<not> list_all runner_ended (x_runners s)"
    using flow j by (auto simp: flow_inv_def list_all_length)
  then have np: "\<not> main_panicked (x_phase s)" by (cases "x_phase s") auto
  from event_runner_ok[OF er[unfolded np[THEN eq_False[THEN iffD2]]] ok] core
  have r: "runner_ok (x_watch s) r" "r = Runner_Finished \<Longrightarrow> run_queue l = []" by (auto simp: core_inv_def)
  have "run_queue l = []" if "list_all runner_ended ((x_runners s)[j := r])" "list_all (\<lambda>r. \<not> runner_panicked r) ((x_runners s)[j := r])"
  proof -
    have "runner_ended r \<and> \<not> runner_panicked r" using that j by (auto simp: list_all_length)
    with r(2) show ?thesis by (cases r) auto
  qed
  moreover have "phase_inv (x_phase s) (x_watch s) ((x_runners s)[j := r])"
    using phase by (cases "x_phase s") auto
  moreover have "\<forall>r' \<in> set ((x_runners s)[j := r]). runner_ok (x_watch s) r'"
    using r(1) flow set_update_subset_insert[of "x_runners s" j r] by (auto simp: flow_inv_def)
  ultimately show ?thesis using flow by (simp add: s' flow_inv_def set_lattice_def)
qed

lemma main_step_flow:
  assumes core: "core_inv G ok s" and flow: "flow_inv s" and step: "main_step G C i s = Some s'" and adm: "adm_state G adm s"
  shows "flow_inv s'"
proof (cases "x_phase s")
  case (Adding es)
  with core adm obtain l where l: "add_events G es (x_lattice s) = Some l"
    using add_events_core[of "x_lattice s" es] by (auto simp: core_inv_def adm_state_def)
  have ph: "snd (x_watch s) = AddedEvents" "x_runners s \<noteq> []" using flow Adding by (auto simp: flow_inv_def)
  have "\<not> (list_all runner_ended (x_runners s) \<and> list_all (\<lambda>r. \<not> runner_panicked r) (x_runners s))"
  proof
    assume *: "list_all runner_ended (x_runners s) \<and> list_all (\<lambda>r. \<not> runner_panicked r) (x_runners s)"
    have "hd (x_runners s) \<in> set (x_runners s)" using ph(2) by simp
    with * flow ph(1) show False
      by (cases "hd (x_runners s)") (auto simp: flow_inv_def list_all_iff)
  qed
  with flow step Adding l ph show ?thesis
    by (auto simp: main_step_def add_to_lattice_def flow_inv_def set_lattice_def)
next
  case Running_Operator
  with flow step show ?thesis
    by (auto simp: main_step_def run_operator_def flow_inv_def list_all_iff split: option.splits)
next
  case Receiving
  with flow have added: "snd (x_watch s) = AddedEvents" by (simp add: flow_inv_def)
  have "runner_ok (Suc (fst (x_watch s)), DestroyOperator) r" if "r \<in> set (x_runners s)" for r
    using flow that added by (cases r) (auto simp: flow_inv_def)
  with flow step Receiving added show ?thesis
    by (auto simp: main_step_def receive_events_def flow_inv_def split: if_splits option.splits Poll.splits prod.splits list.splits)
next
  case Notifying
  with flow have added: "snd (x_watch s) = AddedEvents" by (simp add: flow_inv_def)
  have "runner_ok (Suc (fst (x_watch s)), AddedEvents) r" if "r \<in> set (x_runners s)" for r
    using flow that added by (cases r) (auto simp: flow_inv_def)
  with flow step Notifying added show ?thesis by (auto simp: main_step_def flow_inv_def)
qed (use flow step in \<open>auto simp: main_step_def await_run_def destroy_operator_def flow_inv_def
       split: if_splits option.splits prod.splits\<close>)

lemma exec_step_inv:
  assumes step: "exec_step G C adm s lab s'" and core: "core_inv G ok s" and flow: "flow_inv s"
  shows "core_inv G ok s' \<and> flow_inv s' \<and> lattice_trace G adm (x_lattice s) (lattice_labels lab) (x_lattice s')"
  using step
proof (cases rule: exec_step.cases)
  case (exec_main i)
  have "x_runners s = []" if "x_phase s = Running_Operator" using flow that by (simp add: flow_inv_def)
  with exec_main main_step_core[OF core exec_main(2,3)] main_step_flow[OF core flow exec_main(2,3)] show ?thesis by simp
next
  case (exec_runner j)
  with runner_step_core[OF core exec_runner(2)] runner_step_flow[OF core flow exec_runner(2)] show ?thesis by simp
qed

lemma exec_trace_inv:
  assumes "exec_trace G C adm s0 labs s" "core_inv G ok s0" "flow_inv s0"
  shows "core_inv G ok s \<and> flow_inv s \<and> lattice_trace G adm (x_lattice s0) (concat (map lattice_labels labs)) (x_lattice s)"
  using assms
proof (induction rule: exec_trace.induct)
  case (exec_snoc labs s1 lab s2)
  then show ?case using exec_step_inv[OF exec_snoc(2)] lattice_trace_append by fastforce
qed (auto intro: trace_nil)

text \<open>A callback that was started was run or is held by a runner, unless some callback panicked.\<close>

lemma event_runner_events:
  assumes "event_runner G watch dropped r l st = Some (r', l', st')" "\<not> runner_panicked r'"
  shows "mset (started_events (runner_label G r l st)) + mset (runner_event r) =
     mset (ran_events (runner_label G r l st)) + mset (runner_event r')"
  using assms by (cases r) (auto simp: event_runner_def runner_label_def split: if_splits option.splits)

lemma exec_step_events:
  assumes step: "exec_step G C adm s lab s'" and flow: "flow_inv s" and np: "list_all (\<lambda>r. \<not> runner_panicked r) (x_runners s')"
  shows "list_all (\<lambda>r. \<not> runner_panicked r) (x_runners s) \<and>
    mset (started_events lab) + held_events (x_runners s) = mset (ran_events lab) + held_events (x_runners s')"
  using step
proof (cases rule: exec_step.cases)
  case (exec_main i)
  have lab: "started_events lab = []" "ran_events lab = []"
    by (auto simp: exec_main(1) main_label_def split: phase.split option.split)
  have "x_runners s' = x_runners s \<or> x_runners s = [] \<and> (\<exists>n. x_runners s' = replicate n (Runner_Waiting 0))"
    using exec_main(2) flow
    by (cases "x_phase s") (auto simp: main_step_def await_run_def run_operator_def receive_events_def add_to_lattice_def set_lattice_def
        destroy_operator_def flow_inv_def split: if_splits option.splits Poll.splits prod.splits list.splits)
  with np show ?thesis by (auto simp: lab held_events_def)
next
  case (exec_runner j)
  then obtain r l st where j: "j < length (x_runners s)"
    and er: "event_runner G (x_watch s) (main_panicked (x_phase s)) (x_runners s ! j) (x_lattice s) (x_store s) = Some (r, l, st)"
    and s': "x_runners s' = (x_runners s)[j := r]"
    by (auto simp: runner_step_def set_lattice_def split: if_splits)
  have r: "\<not> runner_panicked r" using np j unfolding s' by (auto simp: list_all_length)
  have "\<not> runner_panicked (x_runners s ! j)" using er by (cases "x_runners s ! j") (auto simp: event_runner_def)
  then have "list_all (\<lambda>r. \<not> runner_panicked r) (x_runners s)"
    using np unfolding s' by (metis (no_types, lifting) length_list_update list_all_length nth_list_update_neq)
  moreover have "mset (started_events lab) + held_events (x_runners s) = mset (ran_events lab) + held_events (x_runners s')"
    unfolding s' exec_runner(1) by (rule mset_swap[OF event_runner_events[OF er r] held_events_update[OF j]])
  ultimately show ?thesis by simp
qed

lemma exec_trace_events:
  assumes "exec_trace G C adm s0 labs s" "core_inv G ok s0" "flow_inv s0" "list_all (\<lambda>r. \<not> runner_panicked r) (x_runners s)"
  shows "mset (concat (map started_events labs)) + held_events (x_runners s0) =
     mset (concat (map ran_events labs)) + held_events (x_runners s)"
  using assms
proof (induction rule: exec_trace.induct)
  case (exec_snoc labs s1 lab s2)
  have "flow_inv s1" using exec_trace_inv[OF exec_snoc(1,4,5)] by simp
  note step = exec_step_events[OF exec_snoc(2) this exec_snoc(6)]
  from mset_chain[OF exec_snoc.IH[OF exec_snoc(4,5) conjunct1[OF step]] conjunct2[OF step]] show ?case by simp
qed simp

lemma executor_start:
  assumes "0 < oc_num_event_runners config"
  shows "core_inv G ok (exec_init (executor_new G oper config streams rx st0) st)"
    "flow_inv (exec_init (executor_new G oper config streams rx st0) st)"
proof -
  have "running_nodes G (pg_new G) = {}" using new_nodes by (simp add: running_nodes_def)
  then show "core_inv G ok (exec_init (executor_new G oper config streams rx st0) st)"
    using lattice_new_inv[OF stable_graph_axioms]
    by (simp add: core_inv_def exec_init_def executor_new_def held_nodes_def lattice_new_def)
  show "flow_inv (exec_init (executor_new G oper config streams rx st0) st)"
    using assms by (simp add: flow_inv_def exec_init_def executor_new_def lattice_new_def drop_arg_def)
qed

lemma added_labels [simp]:
  "concat (map (label_added \<circ> Added) es) = es" "concat (map (label_handed_out \<circ> Added) es) = []"
  by (induction es) auto

lemma label_events [simp]:
  "concat (map label_added (lattice_labels lab)) = added_events lab"
  "concat (map label_handed_out (lattice_labels lab)) = started_events lab"
  by (cases lab; simp)+

lemma labels_events:
  "concat (map label_added (concat (map lattice_labels labs))) = concat (map added_events labs)"
  "concat (map label_handed_out (concat (map lattice_labels labs))) = concat (map started_events labs)"
  by (induction labs) simp_all

text \<open>Once the runners have ended without a panic, nothing is left.\<close>

lemma drained:
  assumes trace: "exec_trace G C adm s0 labs s" and start: "core_inv G ok s0" "flow_inv s0" "x_runners s0 = []" "x_lattice s0 = lattice_new G"
    and wt: "\<And>g x. adm g x \<Longrightarrow> well_timed G g x"
    and ended: "list_all runner_ended (x_runners s)" "list_all (\<lambda>r. \<not> runner_panicked r) (x_runners s)"
  shows "pg_nodes G (forest (x_lattice s)) = {} \<and> mset (concat (map ran_events labs)) = mset (concat (map added_events labs))"
proof -
  from exec_trace_inv[OF trace start(1,2)] have core: "core_inv G ok s" and flow: "flow_inv s"
    and lt: "lattice_trace G adm (lattice_new G) (concat (map lattice_labels labs)) (x_lattice s)" by (simp_all add: start(4))
  have "lattice_reachable G (well_timed G) (x_lattice s)"
    unfolding lattice_reachable_def using lattice_trace_mono[where adm' = "well_timed G", OF lt wt] by blast
  then have inv: "lattice_inv G ok (x_lattice s)" and "order_inv G (forest (x_lattice s))"
    using reachable_order by blast+
  note not_stuck = not_stuck[OF this]
  have none: "runner_node r = [] \<and> runner_event r = []" if "r \<in> set (x_runners s)" for r
  proof -
    have "runner_ended r" "\<not> runner_panicked r" using that ended by (auto simp: list_all_iff)
    then show ?thesis by (cases r) auto
  qed
  then have held: "held_nodes (x_runners s) = {#}" "held_events (x_runners s) = {#}" by (auto simp: held_nodes_def held_events_def)
  with core finite_running[OF inv] have run: "running_nodes G (forest (x_lattice s)) = {}" by (simp add: core_inv_def mset_set_empty_iff)
  have "run_queue (x_lattice s) = []" using flow ended by (simp add: flow_inv_def)
  with not_stuck run have pend: "pending_nodes G (forest (x_lattice s)) = {}" by (auto simp: running_nodes_def)
  have nodes: "pg_nodes G (forest (x_lattice s)) = {}"
    using run pend by (auto simp: pg_nodes_def running_nodes_def pending_nodes_def dom_def) (metis option.exhaust)
  have "pending_mset (pg_node_weight G (forest (x_lattice s))) = {#}" "pending_mset (pg_node_weight G (forest (lattice_new G))) = {#}"
    using pend new_nodes by (simp_all add: pending_mset_def pending_nodes_def lattice_new_def)
  with trace_events[OF lt lattice_new_inv[OF stable_graph_axioms] adm_comparable]
  have "mset (concat (map added_events labs)) = mset (concat (map started_events labs))" by (simp add: labels_events)
  with exec_trace_events[OF trace start(1,2) ended(2)] held(2) nodes start(3) show ?thesis by (simp add: held_events_def)
qed

text \<open>Steps while the main task joins the runners use up the work that is left.\<close>

lemma event_runner_work:
  assumes inv: "lattice_inv G ok l" and ok: "runner_ok (v, DestroyOperator) r"
    and held: "set (runner_node r) \<subseteq> running_nodes G (forest l)"
    and step: "event_runner G (v, DestroyOperator) False r l st = Some (r', l', st')"
  shows "3 * size (pending_mset (pg_node_weight G (forest l'))) + runner_work r' <
    3 * size (pending_mset (pg_node_weight G (forest l))) + runner_work r"
proof (cases r)
  case (Runner_Ready msg seen)
  have fin: "finite (dom (pg_node_weight G (forest l)))" using inv finite_nodes by (simp add: lattice_inv_def)
  show ?thesis
  proof (cases "run_queue l = []")
    case True
    with get_event_inv[OF inv] have "get_event G l = Some (l, None)" by simp
    with step show ?thesis by (auto simp: Runner_Ready event_runner_def not_DestroyOperator split: if_splits)
  next
    case False
    with get_event_inv[OF inv] obtain l1 n e where get: "get_event G l = Some (l1, Some (e, n))"
        "pg_node_weight G (forest l) n = Some (Some e)"
        "pg_node_weight G (forest l1) = (pg_node_weight G (forest l))(n \<mapsto> None)" by blast
    with pending_mset_hand_out[OF fin get(2)] step show ?thesis by (auto simp: Runner_Ready event_runner_def)
  qed
next
  case (Runner_Completing msg seen n)
  with held have n: "pg_node_weight G (forest l) n = Some None" by (simp add: running_nodes_def)
  from mark_as_completed_inv[OF inv this] obtain l1 where l1: "mark_as_completed G n l = Some l1"
      "pg_node_weight G (forest l1) = (pg_node_weight G (forest l))(n := None)" by blast
  then have "pending_mset (pg_node_weight G (forest l1)) = pending_mset (pg_node_weight G (forest l))"
    using n by (intro pending_mset_cong) auto
  with step l1(1) show ?thesis by (auto simp: Runner_Completing event_runner_def)
qed (use step ok in \<open>auto simp: event_runner_def not_DestroyOperator split: if_splits option.splits\<close>)

lemma ending_step:
  assumes core: "core_inv G ok s" and flow: "flow_inv s" and ending: "ending (x_phase s)"
    and step: "exec_step G C adm s lab s'"
  shows "ending (x_phase s') \<and> work_left G s' < work_left G s"
  using step
proof (cases rule: exec_step.cases)
  case (exec_main i)
  with ending show ?thesis
    by (cases "x_phase s") (auto simp: main_step_def destroy_operator_def work_left_def split: if_splits option.splits)
next
  case (exec_runner j)
  then obtain r l st where j: "j < length (x_runners s)"
    and er: "event_runner G (x_watch s) (main_panicked (x_phase s)) (x_runners s ! j) (x_lattice s) (x_store s) = Some (r, l, st)"
    and s': "s' = (set_lattice l s) \<lparr> x_store := st, x_runners := (x_runners s)[j := r] \<rparr>"
    by (auto simp: runner_step_def split: if_splits)
  have "\<not> runner_ended (x_runners s ! j)" using er by (cases "x_runners s ! j") (auto simp: event_runner_def)
  then have join: "x_phase s = Joining"
    using flow ending j by (cases "x_phase s") (auto simp: flow_inv_def list_all_length)
  with flow obtain v where w: "x_watch s = (v, DestroyOperator)"
    by (cases "x_watch s") (auto simp: flow_inv_def)
  have inv: "lattice_inv G ok (x_lattice s)" using core by (simp add: core_inv_def)
  have held: "set (runner_node (x_runners s ! j)) \<subseteq> running_nodes G (forest (x_lattice s))"
    using runner_node_held[OF nth_mem[OF j]] finite_running[OF inv] core by (simp add: core_inv_def)
  have "runner_ok (v, DestroyOperator) (x_runners s ! j)" using flow j w by (auto simp: flow_inv_def)
  from event_runner_work[OF inv this held er[unfolded w join main_panicked.simps]]
  have "3 * size (pending_mset (pg_node_weight G (forest l))) + runner_work r <
      3 * size (pending_mset (pg_node_weight G (forest (x_lattice s)))) + runner_work (x_runners s ! j)" .
  moreover have "sum_list (map runner_work ((x_runners s)[j := r])) + runner_work (x_runners s ! j) =
      sum_list (map runner_work (x_runners s)) + runner_work r"
  proof -
    have "runner_work (x_runners s ! j) \<le> sum_list (map runner_work (x_runners s))"
      using j by (metis elem_le_sum_list length_map nth_map)
    then show ?thesis using j by (simp add: map_update sum_list_update)
  qed
  ultimately show ?thesis by (simp add: s' work_left_def join set_lattice_def)
qed

lemma ending_trace:
  assumes "exec_trace G C adm s labs s'" "core_inv G ok s" "flow_inv s" "ending (x_phase s)"
  shows "ending (x_phase s') \<and> work_left G s' + length labs \<le> work_left G s"
  using assms
proof (induction rule: exec_trace.induct)
  case (exec_snoc labs s1 lab s2)
  have "core_inv G ok s1" "flow_inv s1" using exec_trace_inv[OF exec_snoc(1,4,5)] by simp_all
  with ending_step[OF _ _ _ exec_snoc(2)] exec_snoc show ?case by fastforce
qed simp

lemma ending_progress:
  assumes flow: "flow_inv s" and ending: "ending (x_phase s)"
  shows "x_phase s = Main_Finished \<or> x_phase s = Main_Panicked \<or> (\<exists>lab s'. exec_step G C adm s lab s')"
proof -
  have main: ?thesis if "main_step G C 0 s = Some s'" for s'
    using exec_main[OF that, of adm] ending by (cases "x_phase s") (auto simp: adm_state_def)
  show ?thesis
  proof (cases "x_phase s")
    case Joining
    show ?thesis
    proof (cases "list_all runner_ended (x_runners s)")
      case False
      then obtain j where j: "j < length (x_runners s)" "\<not> runner_ended (x_runners s ! j)" by (auto simp: list_all_length)
      have "runner_ok (x_watch s) (x_runners s ! j)" "snd (x_watch s) = DestroyOperator" using flow j(1) Joining by (auto simp: flow_inv_def)
      then have "event_runner G (x_watch s) (main_panicked (x_phase s)) (x_runners s ! j) (x_lattice s) (x_store s) \<noteq> None"
        using j(2) by (cases "x_runners s ! j") (auto simp: event_runner_def split: option.split)
      then have "runner_step G j s \<noteq> None" using j(1) by (auto simp: runner_step_def)
      then show ?thesis using exec_runner[of G j s] by blast
    qed (rule main, simp add: main_step_def Joining)
  next
    case Destroying
    show ?thesis by (rule main, simp add: main_step_def Destroying)
  qed (use ending in auto)
qed

end

interpretation ref_executor: executor_library
    "ref_petgraph :: ('st action OperatorEvent option ref_graph, ref_dfs, 'st action OperatorEvent option) petgraph"
    rg_ok rd_valid "\<lambda>d. set (rd_disc d)" "\<lambda>d. set (rd_fin d)" rd_opened rd_target "well_timed ref_petgraph"
  by unfold_locales (rule well_timed_comparable)

section \<open>A concrete run\<close>

text \<open>An operator with one input stream that delivers one message and ends, and a schedule of the two tasks.\<close>

fun exec_schedule ::
    "('g, 'd, 'st action) lattice_graph \<Rightarrow> ('st, 'c, ControlMessage) mpsc \<Rightarrow> (('st, 'g, 'c) execution \<Rightarrow> bool) \<Rightarrow>
     (nat + nat) list \<Rightarrow> ('st, 'g, 'c) execution \<Rightarrow> ('st, 'g, 'c) execution option" where
  "exec_schedule G C chk [] s = Some s"
| "exec_schedule G C chk (Inl i # ts) s = (if chk s then Option.bind (main_step G C i s) (exec_schedule G C chk ts) else None)"
| "exec_schedule G C chk (Inr j # ts) s = Option.bind (runner_step G j s) (exec_schedule G C chk ts)"

lemma exec_trace_append:
  assumes "exec_trace G C adm s1 labs2 s2" "exec_trace G C adm s labs1 s1"
  shows "exec_trace G C adm s (labs1 @ labs2) s2"
  using assms(1)
proof (induction rule: exec_trace.induct)
  case (exec_snoc labs sa lab sb)
  then show ?case by (metis append_assoc exec_trace.exec_snoc)
qed (simp add: assms(2))

lemma exec_schedule_trace:
  assumes "exec_schedule G C chk ts s = Some s'" "\<And>s. chk s \<Longrightarrow> adm_state G adm s"
  shows "\<exists>labs. exec_trace G C adm s labs s'"
  using assms
proof (induction G C chk ts s rule: exec_schedule.induct)
  case (2 G C chk i ts s)
  then obtain s1 where s1: "main_step G C i s = Some s1" "exec_schedule G C chk ts s1 = Some s'" "adm_state G adm s"
    by (auto simp: bind_eq_Some_conv split: if_splits)
  with 2 obtain labs where "exec_trace G C adm s1 labs s'" by (metis option.distinct(1) exec_schedule.simps(2))
  with exec_trace_append[OF _ exec_snoc[OF exec_nil exec_main[OF s1(1,3)]]] show ?case by blast
next
  case (3 G C chk j ts s)
  then obtain s1 where s1: "runner_step G j s = Some s1" "exec_schedule G C chk ts s1 = Some s'"
    by (auto simp: bind_eq_Some_conv)
  with 3 obtain labs where "exec_trace G C adm s1 labs s'" by blast
  with exec_trace_append[OF _ exec_snoc[OF exec_nil exec_runner[OF s1(1)]]] show ?case by blast
qed (auto intro: exec_nil)

definition example_event :: "nat event" where
  "example_event = operator_event_new (ts_new [1]) False 0 {} {} (\<lambda>st. Some (st + 10))"

definition example_input :: "nat OperatorExecutorStreamT" where
  "example_input = \<lparr> ost_get_id = (\<lambda>_. 7), ost_closed_ref = Rc (\<lambda>st. 0 < st) (\<lambda>_ st. st),
     ost_poll_next = (\<lambda>st. if st = 0 then (1, Poll_Ready (Some [example_event])) else (st, Poll_Ready None)) \<rparr>"

definition example_control :: "(nat, unit, ControlMessage) mpsc" where
  "example_control = \<lparr> mpsc_send = (\<lambda>_ _ st. (st, Inr ())), mpsc_try_recv = (\<lambda>_ st. (st, Inl Mpsc_Empty)),
     mpsc_recv = (\<lambda>_ st. Some (st, Some (RunOperator uuid_nil))) \<rparr>"

definition example_start :: "(nat, nat action OperatorEvent option ref_graph, unit) execution" where
  "example_start = exec_init (executor_new ref_petgraph default_operator (config_new :: unit OperatorConfig) [example_input] () 0) 0"

fun example_check :: "(nat, nat action OperatorEvent option ref_graph, unit) execution \<Rightarrow> bool" where
  "example_check s = (case x_phase s of
     Adding [e] \<Rightarrow> (case rg_nodes (forest (x_lattice s)) of [] \<Rightarrow> True | _ \<Rightarrow> False) | Adding _ \<Rightarrow> False | _ \<Rightarrow> True)"

definition example_tasks :: "(nat + nat) list" where
  "example_tasks = [Inl 0, Inl 0, Inl 0, Inl 0, Inl 0, Inr 0, Inr 0, Inr 0, Inr 0, Inr 0, Inl 0, Inl 0]"

definition example_joining :: "(nat, nat action OperatorEvent option ref_graph, unit) execution" where
  "example_joining = the (exec_schedule ref_petgraph example_control example_check example_tasks example_start)"

definition example_done :: "(nat, nat action OperatorEvent option ref_graph, unit) execution" where
  "example_done = the (exec_schedule ref_petgraph example_control example_check [Inr 0, Inr 0, Inl 0] example_joining)"

fun is_Joining :: "'cb phase \<Rightarrow> bool" where
  "is_Joining Joining = True"
| "is_Joining _ = False"

fun is_Destroying :: "'cb phase \<Rightarrow> bool" where
  "is_Destroying Destroying = True"
| "is_Destroying _ = False"

lemma is_phase: "is_Joining p \<longleftrightarrow> p = Joining" "is_Destroying p \<longleftrightarrow> p = Destroying"
  by (cases p; simp)+

lemma example_schedules:
  "exec_schedule ref_petgraph example_control example_check example_tasks example_start = Some example_joining"
  "exec_schedule ref_petgraph example_control example_check [Inr 0, Inr 0, Inl 0] example_joining = Some example_done"
proof -
  have "\<not> Option.is_none (exec_schedule ref_petgraph example_control example_check example_tasks example_start)" by code_simp
  then show "exec_schedule ref_petgraph example_control example_check example_tasks example_start = Some example_joining"
    by (auto simp: example_joining_def Option.is_none_def)
  have "\<not> Option.is_none (exec_schedule ref_petgraph example_control example_check [Inr 0, Inr 0, Inl 0] example_joining)" by code_simp
  then show "exec_schedule ref_petgraph example_control example_check [Inr 0, Inr 0, Inl 0] example_joining = Some example_done"
    by (auto simp: example_done_def Option.is_none_def)
qed

lemma example_states:
  "x_phase example_joining = Joining" "x_phase example_done = Destroying"
  "list_all (\<lambda>r. \<not> runner_panicked r) (x_runners example_done)" "x_store example_done = 11"
proof -
  have "is_Joining (x_phase example_joining)" "is_Destroying (x_phase example_done)" by code_simp+
  then show "x_phase example_joining = Joining" "x_phase example_done = Destroying" by (simp_all add: is_phase)
  show "list_all (\<lambda>r. \<not> runner_panicked r) (x_runners example_done)" "x_store example_done = 11" by code_simp+
qed

lemma example_adm:
  assumes "\<And>g x. rg_nodes g = [] \<Longrightarrow> adm g x" "example_check s"
  shows "adm_state ref_petgraph adm s"
  using assms by (auto simp: adm_state_def split: phase.splits list.splits option.splits)

lemma example_adms:
  "rg_nodes g = [] \<Longrightarrow> well_timed ref_petgraph g x" "rg_nodes g = [] \<Longrightarrow> comparable ref_petgraph g x"
  by (simp_all add: well_timed_def comparable_def ref_petgraph_def)

lemma example_traces:
  assumes "\<And>g x. rg_nodes g = [] \<Longrightarrow> adm g x"
  shows "\<exists>labs. exec_trace ref_petgraph example_control adm example_start labs example_joining"
    "\<exists>labs. exec_trace ref_petgraph example_control adm example_joining labs example_done"
  using exec_schedule_trace[OF example_schedules(1)] exec_schedule_trace[OF example_schedules(2)]
    example_adm[of adm, OF assms] by blast+

lemma example_trace: "\<exists>labs. exec_trace ref_petgraph example_control (well_timed ref_petgraph) example_start labs example_done"
  using example_traces[of "well_timed ref_petgraph", OF example_adms(1)] exec_trace_append by blast

section \<open>Properties\<close>

text \<open>C6. Every event is executed exactly once, for operators whose events satisfy \<^verbatim>\<open>well_timed\<close>: messages that are
  pending together do not conflict, and pending watermark events with one timestamp are linearly ordered by
  their conflicts and priorities, without ties. However the main task and the event runners interleave, when the
  runners have been joined and no callback has panicked, the lattice is empty, and the callbacks that
  were run are exactly those of the events that the input streams produced. Only then is the operator destroyed.\<close>

theorem executor_runs_every_event:
  assumes "lattice_library G ok valid discovered finished opened target" and "0 < oc_num_event_runners config"
    and "exec_trace G C (well_timed G) (exec_init (executor_new G oper config ins rx st0) st) labs s"
    and "x_phase s = Destroying \<or> x_phase s = Main_Finished" and "list_all (\<lambda>r. \<not> runner_panicked r) (x_runners s)"
  shows "pg_nodes G (forest (x_lattice s)) = {} \<and>
    mset (concat (map ran_events labs)) = mset (concat (map added_events labs))"
proof -
  have ex: "executor_library G ok valid discovered finished opened target (well_timed G)"
    by (intro executor_library.intro assms(1) executor_library_axioms.intro well_timed_comparable)
  note start = executor_library.executor_start[OF ex assms(2)]
  have "flow_inv s" using executor_library.exec_trace_inv[OF ex assms(3) start] by simp
  then have "list_all runner_ended (x_runners s)" using assms(4) by (auto simp: flow_inv_def)
  then show ?thesis
    by (intro executor_library.drained[OF ex assms(3) start _ _ _ _ assms(5)]) (simp_all add: exec_init_def executor_new_def)
qed

theorem executor_runs_every_event_witness:
  "pg_nodes ref_petgraph (forest (x_lattice example_done)) = {} \<and>
   (\<exists>labs. exec_trace ref_petgraph example_control (well_timed ref_petgraph) example_start labs example_done \<and>
      mset (concat (map ran_events labs)) = mset (concat (map added_events labs)))"
proof -
  obtain labs where labs: "exec_trace ref_petgraph example_control (well_timed ref_petgraph) example_start labs example_done"
    using example_trace by blast
  have "0 < oc_num_event_runners (config_new :: unit OperatorConfig)" by (simp add: config_new_def)
  from executor_runs_every_event[OF ref_lattice.lattice_library_axioms this labs[unfolded example_start_def] _ example_states(3)]
  show ?thesis using labs example_states(2) by blast
qed

text \<open>C8. The executor only uses the lattice as its contract allows: every interleaving of the tasks is a run of
  the lattice, to which the properties of the lattice apply, and at any time the events that were handed out
  and not marked as completed are held by the event runners, each by exactly one.\<close>

theorem executor_refines_lattice:
  assumes "lattice_library G ok valid discovered finished opened target" and "0 < oc_num_event_runners config"
    and "exec_trace G C (comparable G) (exec_init (executor_new G oper config ins rx st0) st) labs s"
  shows "lattice_trace G (comparable G) (lattice_new G) (concat (map lattice_labels labs)) (x_lattice s) \<and>
    held_nodes (x_runners s) = mset_set {n. pg_node_weight G (forest (x_lattice s)) n = Some None}"
proof -
  have ex: "executor_library G ok valid discovered finished opened target (comparable G)"
    by (intro executor_library.intro assms(1) executor_library_axioms.intro)
  from executor_library.exec_trace_inv[OF ex assms(3) executor_library.executor_start[OF ex assms(2)]]
  show ?thesis by (simp add: exec_init_def executor_new_def core_inv_def running_nodes_def)
qed

theorem executor_refines_lattice_witness:
  "\<exists>labs. lattice_trace ref_petgraph (comparable ref_petgraph) (lattice_new ref_petgraph) labs (x_lattice example_joining)"
proof -
  obtain labs where labs: "exec_trace ref_petgraph example_control (comparable ref_petgraph) example_start labs example_joining"
    using example_traces[of "comparable ref_petgraph", OF example_adms(2)] by blast
  have "0 < oc_num_event_runners (config_new :: unit OperatorConfig)" by (simp add: config_new_def)
  from executor_refines_lattice[OF ref_lattice.lattice_library_axioms this labs[unfolded example_start_def]] show ?thesis by blast
qed

text \<open>C7. The executor ends, whatever events its streams produce as long as comparing them does not panic. Once its input streams have ended, at most a number of steps is left that depends
  on the pending events and the runners, whatever the interleaving and even if callbacks panic, and
  as long as the main task has not ended, some task can take a step.\<close>

theorem executor_ends:
  assumes "lattice_library G ok valid discovered finished opened target" and "0 < oc_num_event_runners config"
    and "exec_trace G C (comparable G) (exec_init (executor_new G oper config ins rx st0) st) labs s"
    and "x_phase s = Joining" and "exec_trace G C (comparable G) s labs' s'"
  shows "length labs' \<le> work_left G s \<and>
    (x_phase s' = Main_Finished \<or> x_phase s' = Main_Panicked \<or> (\<exists>lab s''. exec_step G C (comparable G) s' lab s''))"
proof -
  have ex: "executor_library G ok valid discovered finished opened target (comparable G)"
    by (intro executor_library.intro assms(1) executor_library_axioms.intro)
  from executor_library.exec_trace_inv[OF ex assms(3) executor_library.executor_start[OF ex assms(2)]]
  have inv: "core_inv G ok s" "flow_inv s" by simp_all
  have "flow_inv s'" using executor_library.exec_trace_inv[OF ex assms(5) inv] by simp
  moreover have "ending (x_phase s') \<and> work_left G s' + length labs' \<le> work_left G s"
    using executor_library.ending_trace[OF ex assms(5) inv] assms(4) by simp
  ultimately show ?thesis using executor_library.ending_progress[OF ex, of s' C] by auto
qed

theorem executor_ends_witness:
  "\<exists>labs. exec_trace ref_petgraph example_control (comparable ref_petgraph) example_joining labs example_done \<and>
     length labs \<le> work_left ref_petgraph example_joining"
proof -
  obtain labs labs' where labs: "exec_trace ref_petgraph example_control (comparable ref_petgraph) example_start labs example_joining"
    "exec_trace ref_petgraph example_control (comparable ref_petgraph) example_joining labs' example_done"
    using example_traces[of "comparable ref_petgraph", OF example_adms(2)] by blast
  have "0 < oc_num_event_runners (config_new :: unit OperatorConfig)" by (simp add: config_new_def)
  from executor_ends[OF ref_lattice.lattice_library_axioms this labs(1)[unfolded example_start_def] example_states(1) labs(2)] labs(2)
  show ?thesis by blast
qed

end
