(* ===== verification/Control_Handler.thy ===== *)
theory Control_Handler
  imports Channels Codec "HOL-Library.AList"
begin

text \<open>
  The handler of control messages: \<^verbatim>\<open>src/src/communication/control_message_handler.rs\<close>.

  The handler owns the channel on which all control messages of a node arrive and knows the channels to
  the other tasks of the node and to the other nodes. Handles of type \<open>'c\<close> stand for both ends of a channel.
  Logging is left out. A read that has to wait lets the rest of the program run, which is the parameter
  \<open>env\<close>; a loop that waits forever is \<open>None\<close>.
\<close>

section \<open>Operations\<close>

record 'c ControlMessageHandler =
  cmh_tx :: 'c
  cmh_rx :: 'c
  channels_to_control_senders :: "(NodeId \<times> 'c) list"
  channels_to_control_receivers :: "(NodeId \<times> 'c) list"
  channels_to_data_senders :: "(NodeId \<times> 'c) list"
  channels_to_data_receivers :: "(NodeId \<times> 'c) list"
  channels_to_nodes :: "(NodeId \<times> 'c) list"

definition cmh_new :: "('w \<Rightarrow> 'c \<times> 'w) \<Rightarrow> 'w \<Rightarrow> 'c ControlMessageHandler \<times> 'w" where
  "cmh_new new_channel w =
     (case new_channel w of (c, w) \<Rightarrow>
        (\<lparr> cmh_tx = c, cmh_rx = c, channels_to_control_senders = [], channels_to_control_receivers = [],
           channels_to_data_senders = [], channels_to_data_receivers = [], channels_to_nodes = [] \<rparr>, w))"

text \<open>Sending to the channel of one node, and to all channels of a map: the first error ends the broadcast.\<close>

definition send_to ::
    "('w, 'c, ControlMessage) mpsc \<Rightarrow> (NodeId \<times> 'c) list \<Rightarrow> NodeId \<Rightarrow> ControlMessage \<Rightarrow> 'w \<Rightarrow> 'w \<times> ('e CommunicationError + unit)" where
  "send_to C channels n msg w =
     (case map_of channels n of
        Some tx \<Rightarrow> (case mpsc_send C tx msg w of (w, r) \<Rightarrow> (w, map_err comm_from_send r))
      | None \<Rightarrow> (w, Inl Disconnected))"

fun broadcast_to ::
    "('w, 'c, ControlMessage) mpsc \<Rightarrow> 'c list \<Rightarrow> ControlMessage \<Rightarrow> 'w \<Rightarrow> 'w \<times> ('e CommunicationError + unit)" where
  "broadcast_to C [] msg w = (w, Inr ())"
| "broadcast_to C (tx # txs) msg w =
     (case mpsc_send C tx msg w of
        (w, Inl e) \<Rightarrow> (w, Inl (comm_from_send e))
      | (w, Inr _) \<Rightarrow> broadcast_to C txs msg w)"

definition add_channel_to_control_sender :: "NodeId \<Rightarrow> 'c \<Rightarrow> 'c ControlMessageHandler \<Rightarrow> 'c ControlMessageHandler" where
  "add_channel_to_control_sender n tx self =
     self \<lparr> channels_to_control_senders := AList.update n tx (channels_to_control_senders self) \<rparr>"

definition send_to_control_sender ::
    "('w, 'c, ControlMessage) mpsc \<Rightarrow> 'c ControlMessageHandler \<Rightarrow> NodeId \<Rightarrow> ControlMessage \<Rightarrow> 'w \<Rightarrow> 'w \<times> ('e CommunicationError + unit)" where
  "send_to_control_sender C self n msg w = send_to C (channels_to_control_senders self) n msg w"

definition broadcast_to_control_senders ::
    "('w, 'c, ControlMessage) mpsc \<Rightarrow> 'c ControlMessageHandler \<Rightarrow> ControlMessage \<Rightarrow> 'w \<Rightarrow> 'w \<times> ('e CommunicationError + unit)" where
  "broadcast_to_control_senders C self msg w = broadcast_to C (map snd (channels_to_control_senders self)) msg w"

definition add_channel_to_control_receiver :: "NodeId \<Rightarrow> 'c \<Rightarrow> 'c ControlMessageHandler \<Rightarrow> 'c ControlMessageHandler" where
  "add_channel_to_control_receiver n tx self =
     self \<lparr> channels_to_control_receivers := AList.update n tx (channels_to_control_receivers self) \<rparr>"

definition send_to_control_receiver ::
    "('w, 'c, ControlMessage) mpsc \<Rightarrow> 'c ControlMessageHandler \<Rightarrow> NodeId \<Rightarrow> ControlMessage \<Rightarrow> 'w \<Rightarrow> 'w \<times> ('e CommunicationError + unit)" where
  "send_to_control_receiver C self n msg w = send_to C (channels_to_control_receivers self) n msg w"

definition broadcast_to_control_receivers ::
    "('w, 'c, ControlMessage) mpsc \<Rightarrow> 'c ControlMessageHandler \<Rightarrow> ControlMessage \<Rightarrow> 'w \<Rightarrow> 'w \<times> ('e CommunicationError + unit)" where
  "broadcast_to_control_receivers C self msg w = broadcast_to C (map snd (channels_to_control_receivers self)) msg w"

definition add_channel_to_data_sender :: "NodeId \<Rightarrow> 'c \<Rightarrow> 'c ControlMessageHandler \<Rightarrow> 'c ControlMessageHandler" where
  "add_channel_to_data_sender n tx self =
     self \<lparr> channels_to_data_senders := AList.update n tx (channels_to_data_senders self) \<rparr>"

definition send_to_data_sender ::
    "('w, 'c, ControlMessage) mpsc \<Rightarrow> 'c ControlMessageHandler \<Rightarrow> NodeId \<Rightarrow> ControlMessage \<Rightarrow> 'w \<Rightarrow> 'w \<times> ('e CommunicationError + unit)" where
  "send_to_data_sender C self n msg w = send_to C (channels_to_data_senders self) n msg w"

definition broadcast_to_data_senders ::
    "('w, 'c, ControlMessage) mpsc \<Rightarrow> 'c ControlMessageHandler \<Rightarrow> ControlMessage \<Rightarrow> 'w \<Rightarrow> 'w \<times> ('e CommunicationError + unit)" where
  "broadcast_to_data_senders C self msg w = broadcast_to C (map snd (channels_to_data_senders self)) msg w"

definition add_channel_to_data_receiver :: "NodeId \<Rightarrow> 'c \<Rightarrow> 'c ControlMessageHandler \<Rightarrow> 'c ControlMessageHandler" where
  "add_channel_to_data_receiver n tx self =
     self \<lparr> channels_to_data_receivers := AList.update n tx (channels_to_data_receivers self) \<rparr>"

definition send_to_data_receiver ::
    "('w, 'c, ControlMessage) mpsc \<Rightarrow> 'c ControlMessageHandler \<Rightarrow> NodeId \<Rightarrow> ControlMessage \<Rightarrow> 'w \<Rightarrow> 'w \<times> ('e CommunicationError + unit)" where
  "send_to_data_receiver C self n msg w = send_to C (channels_to_data_receivers self) n msg w"

definition broadcast_to_data_receivers ::
    "('w, 'c, ControlMessage) mpsc \<Rightarrow> 'c ControlMessageHandler \<Rightarrow> ControlMessage \<Rightarrow> 'w \<Rightarrow> 'w \<times> ('e CommunicationError + unit)" where
  "broadcast_to_data_receivers C self msg w = broadcast_to C (map snd (channels_to_data_receivers self)) msg w"

definition add_channel_to_node :: "NodeId \<Rightarrow> 'c \<Rightarrow> 'c ControlMessageHandler \<Rightarrow> 'c ControlMessageHandler" where
  "add_channel_to_node n tx self = self \<lparr> channels_to_nodes := AList.update n tx (channels_to_nodes self) \<rparr>"

definition send_to_node ::
    "('w, 'c, ControlMessage) mpsc \<Rightarrow> 'c ControlMessageHandler \<Rightarrow> NodeId \<Rightarrow> ControlMessage \<Rightarrow> 'w \<Rightarrow> 'w \<times> ('e CommunicationError + unit)" where
  "send_to_node C self n msg w = send_to C (channels_to_nodes self) n msg w"

definition broadcast_to_nodes ::
    "('w, 'c, ControlMessage) mpsc \<Rightarrow> 'c ControlMessageHandler \<Rightarrow> ControlMessage \<Rightarrow> 'w \<Rightarrow> 'w \<times> ('e CommunicationError + unit)" where
  "broadcast_to_nodes C self msg w = broadcast_to C (map snd (channels_to_nodes self)) msg w"

definition get_channel_to_handler :: "'c ControlMessageHandler \<Rightarrow> 'c" where
  "get_channel_to_handler self = cmh_tx self"

text \<open>\<open>None\<close> is a read that is pending.\<close>

definition cmh_read ::
    "('w, 'c, ControlMessage) mpsc \<Rightarrow> 'c ControlMessageHandler \<Rightarrow> 'w \<Rightarrow> ('w \<times> ('e CommunicationError + ControlMessage)) option" where
  "cmh_read C self w =
     map_option (\<lambda>(w, r). (w, case r of Some msg \<Rightarrow> Inr msg | None \<Rightarrow> Inl Disconnected)) (mpsc_recv C (cmh_rx self) w)"

text \<open>
  The two loops that read until a message of some kind arrives differ in the kind only: \<open>pick\<close> is the
  \<^verbatim>\<open>match\<close>. The messages of other kinds are collected in \<open>read_msgs\<close> and sent again afterwards.
\<close>

partial_function (option) read_matching ::
    "('w, 'c, ControlMessage) mpsc \<Rightarrow> ('w \<Rightarrow> 'w) \<Rightarrow> (ControlMessage \<Rightarrow> 'r option) \<Rightarrow> 'c ControlMessageHandler \<Rightarrow>
       ControlMessage list \<Rightarrow> 'w \<Rightarrow> ('w \<times> ControlMessage list \<times> ('e CommunicationError + 'r)) option" where
  "read_matching C env pick self read_msgs w =
     (case cmh_read C self w of
        None \<Rightarrow> read_matching C env pick self read_msgs (env w)
      | Some (w, Inl e) \<Rightarrow> Some (w, read_msgs, Inl e)
      | Some (w, Inr msg) \<Rightarrow>
          (case pick msg of
             Some r \<Rightarrow> Some (w, read_msgs, Inr r)
           | None \<Rightarrow> read_matching C env pick self (read_msgs @ [msg]) (env w)))"

declare read_matching.simps [code]

fun requeue ::
    "('w, 'c, ControlMessage) mpsc \<Rightarrow> 'c ControlMessageHandler \<Rightarrow> ControlMessage list \<Rightarrow> 'w \<Rightarrow> 'w \<times> ('e CommunicationError + unit)" where
  "requeue C self [] w = (w, Inr ())"
| "requeue C self (msg # msgs) w =
     (case mpsc_send C (cmh_tx self) msg w of
        (w, Inl e) \<Rightarrow> (w, Inl (comm_from_send e))
      | (w, Inr _) \<Rightarrow> requeue C self msgs w)"

definition read_kind ::
    "('w, 'c, ControlMessage) mpsc \<Rightarrow> ('w \<Rightarrow> 'w) \<Rightarrow> (ControlMessage \<Rightarrow> 'r option) \<Rightarrow> 'c ControlMessageHandler \<Rightarrow>
       'w \<Rightarrow> ('w \<times> ('e CommunicationError + 'r)) option" where
  "read_kind C env pick self w =
     (case read_matching C env pick self [] w of
        None \<Rightarrow> None
      | Some (w, read_msgs, result) \<Rightarrow>
          (case requeue C self read_msgs w of
             (w, Inl e) \<Rightarrow> Some (w, Inl e)
           | (w, Inr _) \<Rightarrow> Some (w, result)))"

fun pick_initialized_on_node :: "ControlMessage \<Rightarrow> NodeId option" where
  "pick_initialized_on_node (AllOperatorsInitializedOnNode n) = Some n"
| "pick_initialized_on_node _ = None"

fun pick_sender_or_receiver :: "ControlMessage \<Rightarrow> ControlMessage option" where
  "pick_sender_or_receiver (ControlSenderInitialized n) = Some (ControlSenderInitialized n)"
| "pick_sender_or_receiver (ControlReceiverInitialized n) = Some (ControlReceiverInitialized n)"
| "pick_sender_or_receiver (DataSenderInitialized n) = Some (DataSenderInitialized n)"
| "pick_sender_or_receiver (DataReceiverInitialized n) = Some (DataReceiverInitialized n)"
| "pick_sender_or_receiver _ = None"

definition read_all_operators_initialized_on_node_msg ::
    "('w, 'c, ControlMessage) mpsc \<Rightarrow> ('w \<Rightarrow> 'w) \<Rightarrow> 'c ControlMessageHandler \<Rightarrow>
       'w \<Rightarrow> ('w \<times> ('e CommunicationError + NodeId)) option" where
  "read_all_operators_initialized_on_node_msg C env self w = read_kind C env pick_initialized_on_node self w"

definition read_sender_or_receiver_initialized ::
    "('w, 'c, ControlMessage) mpsc \<Rightarrow> ('w \<Rightarrow> 'w) \<Rightarrow> 'c ControlMessageHandler \<Rightarrow>
       'w \<Rightarrow> ('w \<times> ('e CommunicationError + ControlMessage)) option" where
  "read_sender_or_receiver_initialized C env self w = read_kind C env pick_sender_or_receiver self w"

section \<open>Reading with a queue that others fill\<close>

text \<open>
  The queue of the handler while it reads: in round \<open>t\<close> the rest of the program appends the messages
  \<open>news t\<close>. The handler holds a sender of its own, so the channel is open.
\<close>

locale control_queue = unbounded_channel C contents rx_open tx_open
  for C :: "('w, 'c, ControlMessage) mpsc" and contents :: "'w \<Rightarrow> 'c \<Rightarrow> ControlMessage list"
    and rx_open :: "'w \<Rightarrow> 'c \<Rightarrow> bool" and tx_open :: "'w \<Rightarrow> 'c \<Rightarrow> bool" +
  fixes env :: "'w \<Rightarrow> 'w" and clock :: "'w \<Rightarrow> nat" and news :: "nat \<Rightarrow> ControlMessage list" and self :: "'c ControlMessageHandler"
  assumes ends: "cmh_tx self = cmh_rx self"
    and env_queue: "contents (env w) (cmh_rx self) = contents w (cmh_rx self) @ news (clock w)"
    and env_clock: "clock (env w) = Suc (clock w)"
    and env_open: "rx_open (env w) = rx_open w \<and> tx_open (env w) = tx_open w"
    and recv_clock: "mpsc_recv C h w = Some (w', r) \<Longrightarrow> clock w' = clock w"
    and send_clock: "mpsc_send C h m w = (w', r') \<Longrightarrow> clock w' = clock w"
begin

abbreviation queue :: "'w \<Rightarrow> ControlMessage list" where
  "queue w \<equiv> contents w (cmh_rx self)"

abbreviation alive :: "'w \<Rightarrow> bool" where
  "alive w \<equiv> rx_open w (cmh_rx self) \<and> tx_open w (cmh_rx self)"

text \<open>Everything that is in the queue or arrives before round \<open>t\<close>.\<close>

definition arriving :: "'w \<Rightarrow> nat \<Rightarrow> ControlMessage list" where
  "arriving w t = queue w @ concat (map news [clock w..<t])"

lemma read_item:
  assumes "queue w = m # ms" "alive w"
  obtains w' where "cmh_read C self w = Some (w', Inr m)" "queue w' = ms" "clock w' = clock w" "alive w'"
proof -
  from recv_item[OF assms(1)] obtain w' where w': "mpsc_recv C (cmh_rx self) w = Some (w', Some m)"
      "contents w' = (contents w)(cmh_rx self := ms)" "rx_open w' = rx_open w" "tx_open w' = tx_open w" by blast
  show thesis by (rule that[of w']) (use w' assms(2) recv_clock[OF w'(1)] in \<open>simp_all add: cmh_read_def\<close>)
qed

lemma read_waits: "queue w = [] \<Longrightarrow> alive w \<Longrightarrow> cmh_read C self w = None"
  using recv_empty by (simp add: cmh_read_def)

text \<open>The loop returns the first message of its kind that is there or arrives.\<close>

lemma read_matching_first:
  fixes r :: 'r
  assumes "arriving w t = pre @ m # post" "\<forall>x \<in> set pre. pick x = None" "pick m = Some r" "alive w"
  shows "\<exists>w'. read_matching C env pick self acc w = Some (w', acc @ pre, Inr r :: 'e CommunicationError + 'r) \<and> alive w' \<and> clock w \<le> clock w' \<and>
    arriving w (clock w') = pre @ m # queue w'"
  using assms
proof (induction "length pre + (t - clock w)" arbitrary: w t pre post acc rule: less_induct)
  case less
  show ?case
  proof (cases "queue w")
    case Nil
    with less.prems(1) have later: "clock w < t" by (cases "clock w < t") (auto simp: arriving_def)
    have "arriving (env w) t = arriving w t"
      using later upt_conv_Cons[OF later] by (simp add: arriving_def env_queue env_clock Nil)
    then have arr: "arriving (env w) t = pre @ m # post" using less.prems(1) by simp
    have le: "length pre + (t - clock (env w)) < length pre + (t - clock w)" using later by (simp add: env_clock)
    have "alive (env w)" using less.prems(4) by (simp add: env_open)
    from less.hyps[OF le arr less.prems(2,3) this, of acc] obtain w' where
      w': "read_matching C env pick self acc (env w) = Some (w', acc @ pre, Inr r :: 'e CommunicationError + 'r)" "alive w'" "Suc (clock w) \<le> clock w'"
        "arriving (env w) (clock w') = pre @ m # queue w'" by (auto simp: env_clock)
    have "arriving w (clock w') = arriving (env w) (clock w')"
      using w'(3) upt_conv_Cons[of "clock w" "clock w'"] by (simp add: arriving_def env_queue env_clock Nil)
    moreover have "(cmh_read C self w :: ('w \<times> ('e CommunicationError + ControlMessage)) option) = None"
      by (rule read_waits[OF Nil less.prems(4)])
    ultimately show ?thesis using w' by (subst read_matching.simps) auto
  next
    case (Cons x xs)
    from read_item[OF Cons less.prems(4)] obtain w1 where
      w1: "cmh_read C self w = Some (w1, Inr x :: 'e CommunicationError + ControlMessage)" "queue w1 = xs" "clock w1 = clock w" "alive w1" .
    show ?thesis
    proof (cases pre)
      case Nil
      with less.prems Cons have "pick x = Some r" "x = m" by (auto simp: arriving_def)
      with w1 Nil Cons show ?thesis by (subst read_matching.simps) (auto simp: arriving_def)
    next
      case (Cons y pre')
      with less.prems \<open>queue w = x # xs\<close> have x: "x = y" "pick x = None" by (auto simp: arriving_def)
      let ?t = "max t (Suc (clock w))"
      have tail: "arriving (env w1) s = xs @ concat (map news [clock w..<s])" if "clock w < s" for s
        using that upt_conv_Cons[OF that] by (simp add: arriving_def env_queue env_clock w1)
      have "[clock w..<?t] = [clock w..<t] @ (if t \<le> clock w then [clock w] else [])"
        by (cases "t \<le> clock w"; cases "t = Suc (clock w)") (auto simp: max_def)
      then have "arriving (env w1) ?t = pre' @ m # (post @ (if t \<le> clock w then news (clock w) else []))"
        using tail[of ?t] less.prems(1) Cons x \<open>queue w = x # xs\<close> by (auto simp: arriving_def)
      moreover have "length pre' + (?t - clock (env w1)) < length pre + (t - clock w)"
        using Cons by (simp add: env_clock w1)
      ultimately obtain w' where
        w': "read_matching C env pick self (acc @ [x]) (env w1) = Some (w', (acc @ [x]) @ pre', Inr r :: 'e CommunicationError + 'r)" "alive w'"
          "Suc (clock w) \<le> clock w'" "arriving (env w1) (clock w') = pre' @ m # queue w'"
        using less.hyps[of pre' ?t "env w1" _ "acc @ [x]"] less.prems Cons w1 by (auto simp: env_clock env_open)
      have "arriving w (clock w') = x # arriving (env w1) (clock w')"
        using tail[of "clock w'"] w'(3) \<open>queue w = x # xs\<close> by (simp add: arriving_def)
      with w' w1(1) x Cons show ?thesis by (subst read_matching.simps) auto
    qed
  qed
qed

lemma requeue_all:
  assumes "alive w"
  shows "\<exists>w'. requeue C self msgs w = (w', Inr ()) \<and> queue w' = queue w @ msgs \<and> alive w' \<and> clock w' = clock w"
  using assms
proof (induction msgs arbitrary: w)
  case (Cons msg msgs)
  from send_open[of w "cmh_rx self" msg] Cons.prems obtain w1 where
    w1: "mpsc_send C (cmh_rx self) msg w = (w1, Inr ())" "contents w1 = (contents w)(cmh_rx self := queue w @ [msg])"
      "rx_open w1 = rx_open w" "tx_open w1 = tx_open w" by blast
  from Cons.IH[of w1] Cons.prems w1 send_clock[OF w1(1)] show ?case by (auto simp: ends)
qed simp

text \<open>Reading a kind of message: it takes the first one, and puts what it skipped behind what is left.\<close>

lemma read_kind_first:
  fixes r :: 'r
  assumes "arriving w t = pre @ m # post" "\<forall>x \<in> set pre. pick x = None" "pick m = Some r" "alive w"
  shows "\<exists>w' rest. read_kind C env pick self w = Some (w', Inr r :: 'e CommunicationError + 'r) \<and> alive w' \<and> clock w \<le> clock w' \<and>
    arriving w (clock w') = pre @ m # rest \<and> queue w' = rest @ pre"
proof -
  from read_matching_first[OF assms, of "[]"] obtain w1 where
    w1: "read_matching C env pick self [] w = Some (w1, pre, Inr r :: 'e CommunicationError + 'r)" "alive w1" "clock w \<le> clock w1"
      "arriving w (clock w1) = pre @ m # queue w1" by auto
  from requeue_all[OF w1(2), of pre] obtain w2 where
    "requeue C self pre w1 = (w2, Inr () :: 'e CommunicationError + unit)" "queue w2 = queue w1 @ pre" "alive w2" "clock w2 = clock w1"
    by blast
  with w1 show ?thesis by (auto simp: read_kind_def)
qed

end

section \<open>The reference channels as a queue\<close>

text \<open>Channels with a clock; \<open>news\<close> says what arrives on the channel of the handler in each round.\<close>

definition timed_mpsc :: "(('h, 'm) chans \<times> nat, 'h, 'm) mpsc" where
  "timed_mpsc = chans_in fst (\<lambda>c w. (c, snd w))"

definition timed_env :: "(nat \<Rightarrow> 'm list) \<Rightarrow> 'h \<Rightarrow> ('h, 'm) chans \<times> nat \<Rightarrow> ('h, 'm) chans \<times> nat" where
  "timed_env news h w = ((fst w)(h := (fst w h) \<lparr> ch_items := ch_items (fst w h) @ news (snd w) \<rparr>), Suc (snd w))"

lemma timed_control_queue:
  assumes "cmh_tx self = cmh_rx self"
  shows "control_queue timed_mpsc (\<lambda>w h. ch_items (fst w h)) (\<lambda>w h. ch_rx (fst w h)) (\<lambda>w h. ch_tx (fst w h))
    (timed_env news (cmh_rx self)) snd news self"
proof -
  have "unbounded_channel timed_mpsc (\<lambda>w h. ch_items (fst w h)) (\<lambda>w h. ch_rx (fst w h)) (\<lambda>w h. ch_tx (fst w h))"
    unfolding timed_mpsc_def by (rule chans_in_unbounded) auto
  then show ?thesis
    by (intro control_queue.intro control_queue_axioms.intro) (auto simp: timed_env_def assms fun_eq_iff timed_mpsc_def chans_in_def chans_recv_def chans_send_def
        split: list.splits if_splits)
qed

definition handler_at :: "'c \<Rightarrow> 'c ControlMessageHandler" where
  "handler_at c = fst (cmh_new (\<lambda>w. (c, w)) ())"

interpretation handler_queue: control_queue timed_mpsc "\<lambda>w h. ch_items (fst w h)" "\<lambda>w h. ch_rx (fst w h)" "\<lambda>w h. ch_tx (fst w h)"
    "timed_env news (cmh_rx (handler_at c))" snd news "handler_at c" for news c
  by (rule timed_control_queue) (simp add: handler_at_def cmh_new_def)

end
