(* ===== verification/Node.thy ===== *)
theory Node
  imports Control_Handler Channel_Manager
begin

text \<open>
  A node: \<^verbatim>\<open>src/src/node/node.rs\<close> and \<^verbatim>\<open>src/src/configuration.rs\<close>.

  A node waits until its connections are up, sets up the operators that are scheduled on it, tells the
  other nodes, waits until they are ready too, and only then lets its operators run. The state \<open>'w\<close> holds all
  channels; as in the handler of control messages, \<open>env\<close> is what the rest of the program does while
  a loop waits, and a loop that does not end, like a panic, is \<open>None\<close>.
\<close>

section \<open>Configuration\<close>

record 'addr Configuration =
  cfg_index :: NodeId
  num_worker_threads :: nat
  data_addresses :: "'addr list"
  control_addresses :: "'addr list"
  graph_filename :: "string option"

definition configuration_new ::
    "NodeId \<Rightarrow> 'addr list \<Rightarrow> 'addr list \<Rightarrow> nat \<Rightarrow> string option \<Rightarrow> 'addr Configuration" where
  "configuration_new node_index data control threads filename =
     \<lparr> cfg_index = node_index, num_worker_threads = threads, data_addresses = data, control_addresses = control,
       graph_filename = filename \<rparr>"

text \<open>\<^verbatim>\<open>str::split\<close> at a character.\<close>

fun split_at :: "char \<Rightarrow> string \<Rightarrow> string list" where
  "split_at c [] = [[]]"
| "split_at c (x # xs) =
     (if x = c then [] # split_at c xs
      else (case split_at c xs of ys # yss \<Rightarrow> (x # ys) # yss | [] \<Rightarrow> [[x]]))"

text \<open>
  \<open>value_of\<close> looks up an argument, \<open>parse_usize\<close> and \<open>parse_addr\<close> are the parsers of the standard library;
  the panics are \<open>None\<close>.
\<close>

definition from_args ::
    "(string \<Rightarrow> string option) \<Rightarrow> (string \<Rightarrow> nat option) \<Rightarrow> (string \<Rightarrow> 'addr option) \<Rightarrow> 'addr Configuration option" where
  "from_args value_of parse_usize parse_addr =
     Option.bind (Option.bind (value_of ''threads'') parse_usize) (\<lambda>threads.
     Option.bind (Option.bind (value_of ''data-addresses'') (\<lambda>s. those (map parse_addr (split_at (CHR '','') s)))) (\<lambda>data.
     Option.bind (Option.bind (value_of ''control-addresses'') (\<lambda>s. those (map parse_addr (split_at (CHR '','') s)))) (\<lambda>control.
     if length data \<noteq> length control then None
     else Option.bind (Option.bind (value_of ''index'') parse_usize) (\<lambda>node_index.
       if \<not> node_index < length data then None
       else Option.bind (value_of ''graph-filename'') (\<lambda>filename.
         Some \<lparr> cfg_index = node_index, num_worker_threads = threads, data_addresses = data, control_addresses = control,
                graph_filename = (if filename = [] then None else Some filename) \<rparr>)))))"

text \<open>The command line of an application (\<^verbatim>\<open>src/src/lib.rs\<close>): an argument has a name, a short and a long option, a default value and
  a text of help.\<close>

record arg =
  arg_name :: string
  arg_short :: string
  arg_long :: string
  arg_default :: string
  arg_help :: string

definition new_app :: "arg list" where
  "new_app =
     [\<lparr> arg_name = ''threads'', arg_short = ''t'', arg_long = ''threads'', arg_default = ''4'',
        arg_help = ''Number of worker threads per process'' \<rparr>,
      \<lparr> arg_name = ''data-addresses'', arg_short = ''d'', arg_long = ''data-addresses'', arg_default = ''127.0.0.1:9000'',
        arg_help = ''Comma separated list of data socket addresses of all nodes'' \<rparr>,
      \<lparr> arg_name = ''control-addresses'', arg_short = ''c'', arg_long = ''control-addresses'', arg_default = ''127.0.0.1:9000'',
        arg_help = ''Comma separated list of control socket addresses of all nodes'' \<rparr>,
      \<lparr> arg_name = ''index'', arg_short = ''i'', arg_long = ''index'', arg_default = ''0'', arg_help = ''Current node index'' \<rparr>,
      \<lparr> arg_name = ''graph-filename'', arg_short = ''g'', arg_long = ''graph-filename'', arg_default = '''',
        arg_help = ''Exports the dataflow graph as a DOT file to the provided filename'' \<rparr>]"

text \<open>With no option given, each argument has its default, and the configuration is that of a single node.\<close>

lemma default_configuration:
  assumes "parse_usize ''4'' = Some 4" "parse_usize ''0'' = Some 0" "parse_addr ''127.0.0.1:9000'' = Some a"
  shows "from_args (map_of (map (\<lambda>x. (arg_name x, arg_default x)) new_app)) parse_usize parse_addr =
    Some (configuration_new 0 [a] [a] 4 None)"
  using assms by (simp add: from_args_def new_app_def configuration_new_def)

section \<open>The state of a node\<close>

record ('addr, 'c, 'i, 'r, 'run, 'hook, 'ty) Node =
  config :: "'addr Configuration"
  node_id :: NodeId
  dataflow_graph :: "('run, 'hook, 'ty) Graph option"
  channels_to_receivers :: "'r ChannelsToReceivers"
  channels_to_senders :: "'i ChannelsToSenders"
  control_handler :: "'c ControlMessageHandler"
  initialized :: bool

definition node_new ::
    "('w \<Rightarrow> 'c \<times> 'w) \<Rightarrow> 'addr Configuration \<Rightarrow> 'w \<Rightarrow> ('addr, 'c, 'i, 'r, 'run, 'hook, 'ty) Node \<times> 'w" where
  "node_new new_control cfg w =
     (case cmh_new new_control w of (handler, w) \<Rightarrow>
        (\<lparr> config = cfg, node_id = cfg_index cfg, dataflow_graph = None, channels_to_receivers = ctr_new,
           channels_to_senders = cts_new, control_handler = handler, initialized = False \<rparr>, w))"

definition set_node_initialized ::
    "('addr, 'c, 'i, 'r, 'run, 'hook, 'ty) Node \<Rightarrow> ('addr, 'c, 'i, 'r, 'run, 'hook, 'ty) Node" where
  "set_node_initialized self = self \<lparr> initialized := True \<rparr>"

definition num_nodes :: "('addr, 'c, 'i, 'r, 'run, 'hook, 'ty) Node \<Rightarrow> nat" where
  "num_nodes self = length (data_addresses (config self))"

section \<open>Waiting for the other nodes\<close>

text \<open>
  Two loops read messages of one kind until enough nodes have reported. \<open>complete\<close> is the negated condition of
  the loop, \<open>note\<close> its body after the read (\<open>None\<close> is \<^verbatim>\<open>unreachable!()\<close>), and \<open>err\<close> formats the error.
\<close>

partial_function (option) wait_loop ::
    "('w, 'c, ControlMessage) mpsc \<Rightarrow> ('w \<Rightarrow> 'w) \<Rightarrow> (ControlMessage \<Rightarrow> 'r option) \<Rightarrow> ('e CommunicationError \<Rightarrow> string) \<Rightarrow>
       ('s \<Rightarrow> bool) \<Rightarrow> ('r \<Rightarrow> 's \<Rightarrow> 's option) \<Rightarrow> 'c ControlMessageHandler \<Rightarrow> 's \<Rightarrow> 'w \<Rightarrow> ('w \<times> (string + unit)) option" where
  "wait_loop C env pick err complete note handler S w =
     (if complete S then Some (w, Inr ())
      else (case read_kind C env pick handler w of
              None \<Rightarrow> None
            | Some (w, Inl e) \<Rightarrow> Some (w, Inl (err e))
            | Some (w, Inr r) \<Rightarrow>
                (case note r S of
                   None \<Rightarrow> None
                 | Some S \<Rightarrow> wait_loop C env pick err complete note handler S w)))"

declare wait_loop.simps [code]

text \<open>The nodes whose connections are known to be up.\<close>

record connections =
  control_senders_initialized :: "NodeId set"
  control_receivers_initialized :: "NodeId set"
  data_senders_initialized :: "NodeId set"
  data_receivers_initialized :: "NodeId set"

definition connections_complete :: "nat \<Rightarrow> connections \<Rightarrow> bool" where
  "connections_complete n S \<longleftrightarrow>
     \<not> (card (control_senders_initialized S) < n \<or> card (control_receivers_initialized S) < n \<or>
        card (data_senders_initialized S) < n \<or> card (data_receivers_initialized S) < n)"

fun note_connection :: "ControlMessage \<Rightarrow> connections \<Rightarrow> connections option" where
  "note_connection (ControlSenderInitialized n) S =
     Some (S \<lparr> control_senders_initialized := insert n (control_senders_initialized S) \<rparr>)"
| "note_connection (ControlReceiverInitialized n) S =
     Some (S \<lparr> control_receivers_initialized := insert n (control_receivers_initialized S) \<rparr>)"
| "note_connection (DataSenderInitialized n) S =
     Some (S \<lparr> data_senders_initialized := insert n (data_senders_initialized S) \<rparr>)"
| "note_connection (DataReceiverInitialized n) S =
     Some (S \<lparr> data_receivers_initialized := insert n (data_receivers_initialized S) \<rparr>)"
| "note_connection _ S = None"

definition wait_for_communication_layer_initialized ::
    "('w, 'c, ControlMessage) mpsc \<Rightarrow> ('w \<Rightarrow> 'w) \<Rightarrow> ('e CommunicationError \<Rightarrow> string) \<Rightarrow>
       ('addr, 'c, 'i, 'r, 'run, 'hook, 'ty) Node \<Rightarrow> 'w \<Rightarrow> ('w \<times> (string + unit)) option" where
  "wait_for_communication_layer_initialized C env fmt self w =
     wait_loop C env pick_sender_or_receiver (\<lambda>e. ''Error receiving control message: '' @ fmt e)
       (connections_complete (num_nodes self)) note_connection (control_handler self)
       \<lparr> control_senders_initialized = {node_id self}, control_receivers_initialized = {node_id self},
         data_senders_initialized = {node_id self}, data_receivers_initialized = {node_id self} \<rparr> w"

definition wait_for_all_operators_initialized ::
    "('w, 'c, ControlMessage) mpsc \<Rightarrow> ('w \<Rightarrow> 'w) \<Rightarrow> ('e CommunicationError \<Rightarrow> string) \<Rightarrow>
       ('addr, 'c, 'i, 'r, 'run, 'hook, 'ty) Node \<Rightarrow> 'w \<Rightarrow> ('w \<times> (string + unit)) option" where
  "wait_for_all_operators_initialized C env fmt self w =
     wait_loop C env pick_initialized_on_node (\<lambda>e. ''Error waiting for other nodes to set up: '' @ fmt e)
       (\<lambda>initialized_nodes. \<not> card initialized_nodes < num_nodes self) (\<lambda>n S. Some (insert n S)) (control_handler self)
       {node_id self} w"

text \<open>Waiting for the operators on this node, which report on a channel of their own.\<close>

fun note_operator :: "ControlMessage option \<Rightarrow> OperatorId set \<Rightarrow> OperatorId set" where
  "note_operator (Some (OperatorInitialized i)) initialized_operators = insert i initialized_operators"
| "note_operator _ initialized_operators = initialized_operators"

partial_function (option) wait_for_local_operators_initialized ::
    "('w, 'c, ControlMessage) mpsc \<Rightarrow> ('w \<Rightarrow> 'w) \<Rightarrow> 'c \<Rightarrow> nat \<Rightarrow> OperatorId set \<Rightarrow> 'w \<Rightarrow> 'w option" where
  "wait_for_local_operators_initialized C env rx num_local_operators initialized_operators w =
     (if card initialized_operators < num_local_operators
      then (case mpsc_recv C rx w of
              None \<Rightarrow> wait_for_local_operators_initialized C env rx num_local_operators initialized_operators (env w)
            | Some (w, msg) \<Rightarrow>
                wait_for_local_operators_initialized C env rx num_local_operators (note_operator msg initialized_operators) (env w))
      else Some w)"

declare wait_for_local_operators_initialized.simps [code]

definition broadcast_local_operators_initialized ::
    "('w, 'c, ControlMessage) mpsc \<Rightarrow> ('e CommunicationError \<Rightarrow> string) \<Rightarrow> ('addr, 'c, 'i, 'r, 'run, 'hook, 'ty) Node \<Rightarrow>
       'w \<Rightarrow> 'w \<times> (string + unit)" where
  "broadcast_local_operators_initialized C fmt self w =
     (case broadcast_to_nodes C (control_handler self) (AllOperatorsInitializedOnNode (node_id self)) w of
        (w, r) \<Rightarrow> (w, map_err (\<lambda>e. ''Error broadcasting control message: '' @ fmt e) r))"

section \<open>Running the operators\<close>

text \<open>
  What the node is given: the channels, the formatting of errors, the export of a graph, and the means to share
  the channel manager with other tasks (\<open>share\<close> returns a pointer to it), to launch the task of an operator, to call
  a set-up hook, and to wait for all operator tasks.
\<close>

record ('w, 'h, 'i, 'r, 'c, 'p, 'run, 'hook, 'ty, 'e) platform =
  transports :: "('w, 'h, 'i, 'r, 'ty) transports"
  control :: "('w, 'c, ControlMessage) mpsc"
  new_control :: "'w \<Rightarrow> 'c \<times> 'w"
  rest_of_program :: "'w \<Rightarrow> 'w"
  fmt_error :: "'e CommunicationError \<Rightarrow> string"
  fmt_send_error :: "ControlMessage SendError \<Rightarrow> string"
  to_dot :: "('run, 'hook, 'ty) Graph \<Rightarrow> string \<Rightarrow> 'w \<Rightarrow> 'w \<times> (string + unit)"
  share :: "('h, 'i, 'run, 'hook, 'ty) ChannelManager \<Rightarrow> 'w \<Rightarrow> 'p \<times> 'w"
  spawn_operator :: "'run \<Rightarrow> 'p \<Rightarrow> 'c \<Rightarrow> 'c \<Rightarrow> 'w \<Rightarrow> 'w"
  run_hook :: "'hook \<Rightarrow> 'p \<Rightarrow> 'w \<Rightarrow> 'w"
  join_all :: "'w \<Rightarrow> 'w option"

text \<open>Each local operator gets a control channel and a task.\<close>

fun launch_operators ::
    "('w, 'h, 'i, 'r, 'c, 'p, 'run, 'hook, 'ty, 'e) platform \<Rightarrow> 'p \<Rightarrow> 'c \<Rightarrow> 'run OperatorMetadata list \<Rightarrow>
       (OperatorId \<times> 'c) list \<Rightarrow> 'w \<Rightarrow> (OperatorId \<times> 'c) list \<times> 'w" where
  "launch_operators P manager operator_tx [] channels_to_operators w = (channels_to_operators, w)"
| "launch_operators P manager operator_tx (info # infos) channels_to_operators w =
     (case new_control P w of (c, w) \<Rightarrow>
        launch_operators P manager operator_tx infos (AList.update (op_id info) c channels_to_operators)
          (spawn_operator P (runner info) manager operator_tx c w))"

fun run_hooks :: "('w, 'h, 'i, 'r, 'c, 'p, 'run, 'hook, 'ty, 'e) platform \<Rightarrow> 'p \<Rightarrow> 'hook list \<Rightarrow> 'w \<Rightarrow> 'w" where
  "run_hooks P manager [] w = w"
| "run_hooks P manager (hook # hooks) w = run_hooks P manager hooks (run_hook P hook manager w)"

fun tell_operators ::
    "('w, 'c, ControlMessage) mpsc \<Rightarrow> (ControlMessage SendError \<Rightarrow> string) \<Rightarrow> (OperatorId \<times> 'c) list \<Rightarrow> 'w \<Rightarrow>
       'w \<times> (string + unit)" where
  "tell_operators C fmt [] w = (w, Inr ())"
| "tell_operators C fmt ((i, tx) # channels) w =
     (case mpsc_send C tx (RunOperator i) w of
        (w, Inl e) \<Rightarrow> (w, Inl (''Error telling operator to run: '' @ fmt e))
      | (w, Inr _) \<Rightarrow> tell_operators C fmt channels w)"

text \<open>The part of \<^verbatim>\<open>run_operators\<close> up to the point where every node is ready; it returns the channels to
  the local operators.\<close>

definition set_up_operators ::
    "('w, 'h, 'i, 'r, 'c, 'p, 'run, 'hook, 'ty, 'e) platform \<Rightarrow> ('addr, 'c, 'i, 'r, 'run, 'hook, 'ty) Node \<Rightarrow> 'w \<Rightarrow>
       ('w \<times> (string + (OperatorId \<times> 'c) list)) option" where
  "set_up_operators P self w =
     (case wait_for_communication_layer_initialized (control P) (rest_of_program P) (fmt_error P) self w of
        None \<Rightarrow> None
      | Some (w, Inl e) \<Rightarrow> Some (w, Inl e)
      | Some (w, Inr _) \<Rightarrow>
     (case Option.bind (dataflow_graph self) schedule of
        None \<Rightarrow> None
      | Some graph \<Rightarrow>
     (case (case graph_filename (config self) of None \<Rightarrow> (w, Inr ()) | Some filename \<Rightarrow> to_dot P graph filename w) of
        (w, Inl e) \<Rightarrow> Some (w, Inl e)
      | (w, Inr _) \<Rightarrow>
     (case channel_manager_new (transports P) graph (node_id self) (channels_to_receivers self) (channels_to_senders self) w of
        None \<Rightarrow> None
      | Some (channel_manager, w) \<Rightarrow>
     (case share P channel_manager w of (manager, w) \<Rightarrow>
     (let local_operators = filter (\<lambda>info. op_node_id info = node_id self) (get_operators graph)
      in (case new_control P w of (operator_tx, w) \<Rightarrow>
     (case launch_operators P manager operator_tx local_operators [] w of (channels_to_operators, w) \<Rightarrow>
     (case wait_for_local_operators_initialized (control P) (rest_of_program P) operator_tx (length local_operators) {} w of
        None \<Rightarrow> None
      | Some w \<Rightarrow>
     (let w = (case get_driver graph (node_id self) of Some driver \<Rightarrow> run_hooks P manager (setup_hooks driver) w | None \<Rightarrow> w)
      in (case broadcast_local_operators_initialized (control P) (fmt_error P) self w of
            (w, Inl e) \<Rightarrow> Some (w, Inl e)
          | (w, Inr _) \<Rightarrow>
     (case wait_for_all_operators_initialized (control P) (rest_of_program P) (fmt_error P) self w of
        None \<Rightarrow> None
      | Some (w, Inl e) \<Rightarrow> Some (w, Inl e)
      | Some (w, Inr _) \<Rightarrow> Some (w, Inr channels_to_operators)))))))))))))"

definition run_operators ::
    "('w, 'h, 'i, 'r, 'c, 'p, 'run, 'hook, 'ty, 'e) platform \<Rightarrow> ('addr, 'c, 'i, 'r, 'run, 'hook, 'ty) Node \<Rightarrow> 'w \<Rightarrow>
       (('w \<times> ('addr, 'c, 'i, 'r, 'run, 'hook, 'ty) Node) \<times> (string + unit)) option" where
  "run_operators P self w =
     (case set_up_operators P self w of
        None \<Rightarrow> None
      | Some (w, Inl e) \<Rightarrow> Some ((w, self), Inl e)
      | Some (w, Inr channels_to_operators) \<Rightarrow>
          (let self = set_node_initialized self
           in (case tell_operators (control P) (fmt_send_error P) channels_to_operators w of
                 (w, Inl e) \<Rightarrow> Some ((w, self), Inl e)
               | (w, Inr _) \<Rightarrow> map_option (\<lambda>w. ((w, self), Inr ())) (join_all P w))))"

section \<open>Zenoh\<close>

text \<open>The other nodes, and the search for them: \<open>query\<close> asks the session for the information of a node and
  returns the data of the first reply, if any; \<open>parse_usize\<close> reads a number.\<close>

definition get_nodes_ids :: "nat \<Rightarrow> NodeId \<Rightarrow> NodeId list" where
  "get_nodes_ids total_nodes n = filter (\<lambda>k. k \<noteq> n) [0..<total_nodes]"

partial_function (option) discover_nodes ::
    "(NodeId \<Rightarrow> 'w \<Rightarrow> 'w \<times> ('e foreign_error + string option)) \<Rightarrow> (string \<Rightarrow> nat option) \<Rightarrow> nat \<Rightarrow> NodeId \<Rightarrow> NodeId list \<Rightarrow> nat \<Rightarrow>
       'w \<Rightarrow> ('w \<times> ('e CommunicationError + NodeId list)) option" where
  "discover_nodes query parse_usize total_nodes this_node nodes n w =
     (if length nodes < total_nodes - 1
      then if n \<noteq> this_node
           then (case query n w of
                   (w, Inl e) \<Rightarrow> Some (w, Inl (comm_from_zenoh e))
                 | (w, Inr None) \<Rightarrow> discover_nodes query parse_usize total_nodes this_node nodes n w
                 | (w, Inr (Some s_id)) \<Rightarrow>
                     (case parse_usize s_id of
                        None \<Rightarrow> Some (w, Inl DeserializeNotImplemented)
                      | Some i \<Rightarrow> discover_nodes query parse_usize total_nodes this_node (nodes @ [i]) (Suc n) w))
           else discover_nodes query parse_usize total_nodes this_node nodes (Suc n) w
      else Some (w, Inr nodes))"

declare discover_nodes.simps [code]

text \<open>\<^verbatim>\<open>total_nodes - 1\<close> panics when there is no node.\<close>

definition wait_zenoh_nodes_discovered ::
    "(NodeId \<Rightarrow> 'w \<Rightarrow> 'w \<times> ('e foreign_error + string option)) \<Rightarrow> (string \<Rightarrow> nat option) \<Rightarrow> nat \<Rightarrow> NodeId \<Rightarrow> 'w \<Rightarrow>
       ('w \<times> ('e CommunicationError + NodeId list)) option" where
  "wait_zenoh_nodes_discovered query parse_usize total_nodes this_node w =
     (if total_nodes = 0 then None else discover_nodes query parse_usize total_nodes this_node [] 0 w)"

end
