(* ===== verification/Node_Properties.thy ===== *)
theory Node_Properties
  imports Node
begin

text \<open>
  The start-up of a node: its two barriers return exactly when all other nodes have reported, whatever
  else arrives on the control channel in between, and lose no message.
\<close>

section \<open>Loops over the queue of control messages\<close>

context control_queue
begin

lemma arriving_later: "clock w \<le> t \<Longrightarrow> t \<le> t' \<Longrightarrow> arriving w t' = arriving w t @ concat (map news [t..<t'])"
  using upt_add_eq_append[of "clock w" t "t' - t"] by (simp add: arriving_def)

lemma arriving_env: "clock w < t \<Longrightarrow> arriving (env w) t = arriving w t"
  using upt_conv_Cons[of "clock w" t] by (simp add: arriving_def env_queue env_clock)

text \<open>What a read that returns has done.\<close>

definition read_result ::
    "(ControlMessage \<Rightarrow> 'r option) \<Rightarrow> ControlMessage list \<Rightarrow> 'w \<Rightarrow> 'w \<times> ControlMessage list \<times> ('e CommunicationError + 'r) \<Rightarrow> bool" where
  "read_result pick acc w y \<longleftrightarrow> (case y of (w', msgs, result) \<Rightarrow>
     \<exists>pre m r. result = Inr r \<and> pick m = Some r \<and> msgs = acc @ pre \<and> (\<forall>x \<in> set pre. pick x = None) \<and> alive w' \<and>
       clock w \<le> clock w' \<and> arriving w (clock w') = pre @ m # queue w')"

lemma read_result_wait:
  assumes "read_result pick acc (env w) y" "queue w = []"
  shows "read_result pick acc w y"
proof -
  obtain w' msgs result where y: "y = (w', msgs, result)" by (cases y)
  have "arriving (env w) (clock w') = arriving w (clock w')" if "Suc (clock w) \<le> clock w'"
    using that by (intro arriving_env) simp
  with assms(1) show ?thesis unfolding y read_result_def by (fastforce simp: env_clock)
qed

lemma read_result_skip:
  assumes "read_result pick (acc @ [x]) (env w1) y" "queue w = x # queue w1" "clock w1 = clock w" "pick x = None"
  shows "read_result pick acc w y"
proof -
  obtain w' msgs result where y: "y = (w', msgs, result)" by (cases y)
  from assms(1) obtain pre m r where
    r: "result = Inr r" "pick m = Some r" "msgs = acc @ x # pre" "\<forall>x \<in> set pre. pick x = None" "alive w'" "Suc (clock w) \<le> clock w'"
      "arriving (env w1) (clock w') = pre @ m # queue w'"
    unfolding y read_result_def by (auto simp: env_clock assms(3))
  have "arriving w (clock w') = x # arriving w1 (clock w')" using assms(2,3) by (simp add: arriving_def)
  also have "\<dots> = x # arriving (env w1) (clock w')" using r(6) assms(3) by (subst arriving_env) auto
  finally have "arriving w (clock w') = (x # pre) @ m # queue w'" using r(7) by simp
  moreover have "\<forall>x \<in> set (x # pre). pick x = None" using r(4) assms(4) by simp
  ultimately show ?thesis
    unfolding y read_result_def prod.case
    by (intro exI[of _ "x # pre"] exI[of _ m] exI[of _ r]) (use r in simp)
qed

lemma read_matching_sound:
  fixes y :: "'w \<times> ControlMessage list \<times> ('e CommunicationError + 'r)"
  assumes "read_matching C env pick self acc w = Some y" "alive w"
  shows "read_result pick acc w y"
proof -
  let ?P = "\<lambda>C' env' pick' self' acc w y. C' = C \<and> env' = env \<and> pick' = pick \<and> self' = self \<and> alive w \<longrightarrow> read_result pick acc w y"
  have "?P C env pick self acc w y"
  proof (rule read_matching.raw_induct[where P = ?P, OF _ assms(1)], intro impI, elim conjE)
    fix rec and C' :: "('w, 'c, ControlMessage) mpsc" and env' pick' self' acc w and y :: "'w \<times> ControlMessage list \<times> ('e CommunicationError + 'r)"
    assume IH: "\<And>C' env' pick' self' acc w y. rec C' env' pick' self' acc w = Some y \<Longrightarrow> ?P C' env' pick' self' acc w y"
      and body: "(case cmh_read C' self' w of
          None \<Rightarrow> rec C' env' pick' self' acc (env' w)
        | Some (w, Inl e) \<Rightarrow> Some (w, acc, Inl e)
        | Some (w, Inr msg) \<Rightarrow> (case pick' msg of
             Some r \<Rightarrow> Some (w, acc, Inr r)
           | None \<Rightarrow> rec C' env' pick' self' (acc @ [msg]) (env' w))) = Some y"
      and eqs: "C' = C" "env' = env" "pick' = pick" "self' = self" and live: "rx_open w (cmh_rx self)" "tx_open w (cmh_rx self)"
    show "read_result pick acc w y"
    proof (cases "queue w")
      case Nil
      have "(cmh_read C self w :: ('w \<times> ('e CommunicationError + ControlMessage)) option) = None"
        using read_waits[OF Nil] live by simp
      with body eqs have "rec C env pick self acc (env w) = Some y" by simp
      from IH[OF this] live have "read_result pick acc (env w) y" by (simp add: env_open)
      then show ?thesis using Nil by (rule read_result_wait)
    next
      case (Cons x xs)
      from read_item[OF Cons] live obtain w1 where
        w1: "cmh_read C self w = Some (w1, Inr x :: 'e CommunicationError + ControlMessage)" "queue w1 = xs" "clock w1 = clock w" "alive w1"
        by blast
      show ?thesis
      proof (cases "pick x")
        case None
        with body eqs w1(1) have "rec C env pick self (acc @ [x]) (env w1) = Some y" by simp
        from IH[OF this] w1(4) have "read_result pick (acc @ [x]) (env w1) y" by (simp add: env_open)
        then show ?thesis by (rule read_result_skip) (use w1 Cons None in simp_all)
      next
        case (Some r)
        with body eqs w1(1) have "y = (w1, acc, Inr r)" by simp
        with Some w1 Cons show ?thesis by (auto simp: read_result_def arriving_def)
      qed
    qed
  qed
  with assms(2) show ?thesis by simp
qed

lemma read_kind_sound:
  fixes result :: "'e CommunicationError + 'r"
  assumes "read_kind C env pick self w = Some (w', result)" "alive w"
  shows "\<exists>pre m r rest. result = Inr r \<and> pick m = Some r \<and> (\<forall>x \<in> set pre. pick x = None) \<and> alive w' \<and> clock w \<le> clock w' \<and>
    arriving w (clock w') = pre @ m # rest \<and> queue w' = rest @ pre"
proof -
  from assms(1) obtain w1 msgs result1 where rm: "read_matching C env pick self [] w = Some (w1, msgs, result1 :: 'e CommunicationError + 'r)"
    by (auto simp: read_kind_def split: option.splits)
  from read_matching_sound[OF this assms(2)] obtain m r where
    r: "result1 = Inr r" "pick m = Some r" "\<forall>x \<in> set msgs. pick x = None" "alive w1" "clock w \<le> clock w1"
      "arriving w (clock w1) = msgs @ m # queue w1" by (auto simp: read_result_def)
  from requeue_all[OF r(4), of msgs] obtain w2 where
    w2: "requeue C self msgs w1 = (w2, Inr () :: 'e CommunicationError + unit)" "queue w2 = queue w1 @ msgs" "alive w2" "clock w2 = clock w1"
    by blast
  with assms(1) rm have "w' = w2" "result = result1" by (auto simp: read_kind_def)
  with r w2 show ?thesis
    by (intro exI[of _ msgs] exI[of _ m] exI[of _ r] exI[of _ "queue w1"]) simp
qed

text \<open>The messages of a kind, in the order in which they arrive: a read takes the first one away.\<close>

definition selected :: "(ControlMessage \<Rightarrow> 'r option) \<Rightarrow> 'w \<Rightarrow> nat \<Rightarrow> ControlMessage list" where
  "selected pick w t = filter (\<lambda>x. pick x \<noteq> None) (arriving w t)"

lemma selected_read:
  assumes "arriving w (clock w') = pre @ m # rest" "queue w' = rest @ pre" "\<forall>x \<in> set pre. pick x = None" "pick m \<noteq> None"
    "clock w \<le> clock w'" "clock w' \<le> t"
  shows "selected pick w t = m # selected pick w' t"
proof -
  have none: "filter (\<lambda>x. pick x \<noteq> None) pre = []" using assms(3) by (simp add: filter_empty_conv)
  have "arriving w t = pre @ m # rest @ concat (map news [clock w'..<t])"
    using arriving_later[OF assms(5,6)] assms(1) by simp
  moreover have "arriving w' t = rest @ pre @ concat (map news [clock w'..<t])" by (simp add: arriving_def assms(2))
  ultimately show ?thesis using none assms(4) by (simp add: selected_def del: not_None_eq)
qed

lemma selected_later: "t \<le> t' \<Longrightarrow> \<exists>extra. selected pick w t' = selected pick w t @ extra"
proof -
  assume t: "t \<le> t'"
  have "\<exists>extra. arriving w t' = arriving w t @ extra"
  proof (cases "clock w \<le> t")
    case True
    with arriving_later[OF True t] show ?thesis by blast
  next
    case False
    then show ?thesis by (simp add: arriving_def)
  qed
  then show ?thesis by (auto simp: selected_def)
qed

end

text \<open>What a loop has noted after some messages.\<close>

fun noted :: "(ControlMessage \<Rightarrow> 'r option) \<Rightarrow> ('r \<Rightarrow> 's \<Rightarrow> 's option) \<Rightarrow> ControlMessage list \<Rightarrow> 's \<Rightarrow> 's option" where
  "noted pick note [] S = Some S"
| "noted pick note (m # ms) S = Option.bind (Option.bind (pick m) (\<lambda>r. note r S)) (noted pick note ms)"

context control_queue
begin

text \<open>A loop that waits returns when the messages that have arrived make it complete, and only then.\<close>

lemma wait_loop_returns:
  fixes pick :: "ControlMessage \<Rightarrow> 'r option" and err :: "'e CommunicationError \<Rightarrow> string"
  assumes "selected pick w t = ms @ rest" "noted pick note ms S = Some S'" "complete S'" "alive w"
  shows "\<exists>w'. wait_loop C env pick err complete note self S w = Some (w', Inr ())"
  using assms
proof (induction ms arbitrary: w t rest S)
  case Nil
  then show ?case by (subst wait_loop.simps) auto
next
  case (Cons m ms)
  show ?case
  proof (cases "complete S")
    case True
    then show ?thesis by (subst wait_loop.simps) auto
  next
    case False
    from Cons.prems(1) have "filter (\<lambda>x. pick x \<noteq> None) (arriving w t) = m # ms @ rest" by (simp add: selected_def)
    then obtain pre post where arr: "arriving w t = pre @ m # post" "\<forall>x \<in> set pre. pick x = None" "pick m \<noteq> None"
      by (auto simp: filter_eq_Cons_iff)
    then obtain r where r: "pick m = Some r" by blast
    from read_kind_first[OF arr(1,2) r Cons.prems(4)] obtain w1 rest1 where
      w1: "read_kind C env pick self w = Some (w1, Inr r :: 'e CommunicationError + 'r)" "alive w1" "clock w \<le> clock w1"
        "arriving w (clock w1) = pre @ m # rest1" "queue w1 = rest1 @ pre" by blast
    from Cons.prems(2) r obtain S1 where S1: "note r S = Some S1" "noted pick note ms S1 = Some S'" by (auto simp: bind_eq_Some_conv)
    let ?t = "max t (clock w1)"
    from selected_later[of t ?t pick w] Cons.prems(1) obtain extra where "selected pick w ?t = m # ms @ rest @ extra" by auto
    then have "selected pick w1 ?t = ms @ rest @ extra"
      using selected_read[OF w1(4,5) arr(2,3) w1(3), of ?t] by simp
    from Cons.IH[OF this S1(2) Cons.prems(3) w1(2)] w1(1) S1(1) False show ?thesis by (subst wait_loop.simps) auto
  qed
qed

lemma wait_loop_sound:
  fixes pick :: "ControlMessage \<Rightarrow> 'r option" and err :: "'e CommunicationError \<Rightarrow> string"
  assumes "wait_loop C env pick err complete note self S w = Some y" "alive w"
  shows "snd y = Inr () \<and> (\<exists>t ms rest S'. selected pick w t = ms @ rest \<and> noted pick note ms S = Some S' \<and> complete S')"
proof -
  let ?Q = "\<lambda>S w y. snd y = Inr () \<and> (\<exists>t ms rest S'. clock w \<le> t \<and> selected pick w t = ms @ rest \<and> noted pick note ms S = Some S' \<and> complete S')"
  let ?P = "\<lambda>C' env' pick' err' complete' note' self' S w y. C' = C \<and> env' = env \<and> pick' = pick \<and> err' = err \<and> complete' = complete \<and>
     note' = note \<and> self' = self \<and> alive w \<longrightarrow> ?Q S w y"
  have "?P C env pick err complete note self S w y"
  proof (rule wait_loop.raw_induct[where P = ?P, OF _ assms(1)], intro impI, elim conjE)
    fix rec and C' :: "('w, 'c, ControlMessage) mpsc" and env' pick' and err' :: "'e CommunicationError \<Rightarrow> string" and complete' note' self' S w
      and y :: "'w \<times> (string + unit)"
    assume IH: "\<And>C' env' pick' err' complete' note' self' S w y. rec C' env' pick' err' complete' note' self' S w = Some y \<Longrightarrow>
        ?P C' env' pick' err' complete' note' self' S w y"
      and body: "(if complete' S then Some (w, Inr ())
        else (case read_kind C' env' pick' self' w of
                None \<Rightarrow> None
              | Some (w, Inl e) \<Rightarrow> Some (w, Inl (err' e))
              | Some (w, Inr r) \<Rightarrow>
                  (case note' r S of None \<Rightarrow> None | Some S \<Rightarrow> rec C' env' pick' err' complete' note' self' S w))) = Some y"
      and eqs: "C' = C" "env' = env" "pick' = pick" "err' = err" "complete' = complete" "note' = note" "self' = self"
      and live: "rx_open w (cmh_rx self)" "tx_open w (cmh_rx self)"
    show "?Q S w y"
    proof (cases "complete S")
      case True
      with body eqs have "snd y = Inr ()" by auto
      moreover have "\<exists>t ms rest S'. clock w \<le> t \<and> selected pick w t = ms @ rest \<and> noted pick note ms S = Some S' \<and> complete S'"
        using True by (intro exI[of _ "clock w"] exI[of _ "[]"] exI[of _ "selected pick w (clock w)"] exI[of _ S]) simp
      ultimately show ?thesis by blast
    next
      case False
      with body eqs obtain w1 result where rk: "read_kind C env pick self w = Some (w1, result :: 'e CommunicationError + 'r)"
        by (cases "read_kind C env pick self w :: ('w \<times> ('e CommunicationError + 'r)) option") auto
      from read_kind_sound[OF this] live obtain pre m r rest where
        r: "result = Inr r" "pick m = Some r" "\<forall>x \<in> set pre. pick x = None" "alive w1" "clock w \<le> clock w1"
          "arriving w (clock w1) = pre @ m # rest" "queue w1 = rest @ pre" by blast
      with body eqs rk False obtain S1 where S1: "note r S = Some S1" "rec C env pick err complete note self S1 w1 = Some y"
        by (auto split: option.splits)
      from IH[OF S1(2)] r(4) obtain t ms rest1 S' where
        y: "snd y = Inr ()" and t: "clock w1 \<le> t" "selected pick w1 t = ms @ rest1" "noted pick note ms S1 = Some S'" "complete S'"
        by blast
      have "selected pick w t = (m # ms) @ rest1" using selected_read[OF r(6,7,3) _ r(5) t(1)] r(2) t(2) by simp
      moreover have "noted pick note (m # ms) S = Some S'" using r(2) S1(1) t(3) by simp
      moreover have "clock w \<le> t" using r(5) t(1) by simp
      ultimately show ?thesis using y t(4) by blast
    qed
  qed
  with assms(2) show ?thesis by blast
qed

end

section \<open>The barriers\<close>

text \<open>All four connections to a node are up.\<close>

definition connected :: "ControlMessage set \<Rightarrow> NodeId \<Rightarrow> bool" where
  "connected M k \<longleftrightarrow> ControlSenderInitialized k \<in> M \<and> ControlReceiverInitialized k \<in> M \<and>
     DataSenderInitialized k \<in> M \<and> DataReceiverInitialized k \<in> M"

lemma noted_nodes:
  "\<forall>m \<in> set ms. pick_initialized_on_node m \<noteq> None \<Longrightarrow>
     noted pick_initialized_on_node (\<lambda>n S. Some (insert n S)) ms S = Some (S \<union> {k. AllOperatorsInitializedOnNode k \<in> set ms})"
proof (induction ms arbitrary: S)
  case (Cons m ms)
  then obtain k where "m = AllOperatorsInitializedOnNode k" by (cases m) auto
  with Cons show ?case by auto
qed simp

lemma finite_messages: "inj f \<Longrightarrow> finite {k. f k \<in> set ms}"
  using finite_vimageI[of "set ms" f] by (simp add: vimage_def)

lemma inj_messages [simp]:
  "inj AllOperatorsInitializedOnNode" "inj ControlSenderInitialized" "inj ControlReceiverInitialized"
  "inj DataSenderInitialized" "inj DataReceiverInitialized"
  by (simp_all add: inj_def)

text \<open>Enough nodes have reported exactly when all have, as long as only existing nodes report.\<close>

lemma all_reported:
  assumes "inj f" "i < n" "\<And>k. f k \<in> set ms \<Longrightarrow> k < n"
  shows "\<not> card ({i} \<union> {k. f k \<in> set ms}) < n \<longleftrightarrow> (\<forall>k < n. k \<noteq> i \<longrightarrow> f k \<in> set ms)"
proof -
  have sub: "{i} \<union> {k. f k \<in> set ms} \<subseteq> {..<n}" using assms(2,3) by auto
  have "card ({i} \<union> {k. f k \<in> set ms}) \<le> n" using card_mono[OF finite_lessThan sub] by simp
  then have "\<not> card ({i} \<union> {k. f k \<in> set ms}) < n \<longleftrightarrow> card ({i} \<union> {k. f k \<in> set ms}) = card {..<n}" by auto
  also have "\<dots> \<longleftrightarrow> {i} \<union> {k. f k \<in> set ms} = {..<n}"
    using card_subset_eq[OF finite_lessThan sub] by metis
  also have "\<dots> \<longleftrightarrow> (\<forall>k < n. k \<noteq> i \<longrightarrow> f k \<in> set ms)" using sub by (simp add: set_eq_iff subset_iff) blast
  finally show ?thesis .
qed

context control_queue
begin

lemma selected_set: "set (selected pick w t) = {m \<in> set (arriving w t). pick m \<noteq> None}"
  by (auto simp: selected_def)

lemma barrier_iff:
  assumes "alive w"
    and noted: "\<And>ms. \<forall>m \<in> set ms. pick m \<noteq> None \<Longrightarrow> noted pick note ms S = Some (S' ms)"
    and mono: "\<And>ms ms'. set ms \<subseteq> set ms' \<Longrightarrow> set ms' \<subseteq> \<Union>(range (\<lambda>t. set (selected pick w t))) \<Longrightarrow> complete (S' ms) \<Longrightarrow> complete (S' ms')"
  shows "(\<exists>w'. wait_loop C env pick err complete note self S w = Some (w', Inr ())) \<longleftrightarrow> (\<exists>t. complete (S' (selected pick w t)))"
proof
  assume "\<exists>w'. wait_loop C env pick err complete note self S w = Some (w', Inr ())"
  then obtain w' where "wait_loop C env pick err complete note self S w = Some (w', Inr ())" by blast
  from wait_loop_sound[OF this assms(1)] obtain t ms rest S1 where
    ms: "selected pick w t = ms @ rest" "noted pick note ms S = Some S1" "complete S1" by auto
  have "\<forall>m \<in> set ms. pick m \<noteq> None" using selected_set[of pick w t] ms(1) by auto
  with noted ms(2,3) have "complete (S' ms)" by auto
  moreover have "set ms \<subseteq> set (selected pick w t)" using ms(1) by simp
  ultimately show "\<exists>t. complete (S' (selected pick w t))" using mono[of ms "selected pick w t"] by blast
next
  assume "\<exists>t. complete (S' (selected pick w t))"
  then obtain t where "complete (S' (selected pick w t))" by blast
  moreover have "noted pick note (selected pick w t) S = Some (S' (selected pick w t))"
    by (rule noted) (simp add: selected_set)
  ultimately show "\<exists>w'. wait_loop C env pick err complete note self S w = Some (w', Inr ())"
    by (intro wait_loop_returns[where rest = "[]"]) (use assms(1) in simp_all)
qed

lemma operators_barrier:
  assumes "alive w" "i < n" "\<And>t k. AllOperatorsInitializedOnNode k \<in> set (arriving w t) \<Longrightarrow> k < n"
  shows "(\<exists>w'. wait_loop C env pick_initialized_on_node err (\<lambda>S. \<not> card S < n) (\<lambda>n S. Some (insert n S)) self {i} w = Some (w', Inr ())) \<longleftrightarrow>
    (\<exists>t. \<forall>k < n. k \<noteq> i \<longrightarrow> AllOperatorsInitializedOnNode k \<in> set (arriving w t))"
proof -
  let ?S' = "\<lambda>ms. {i} \<union> {k. AllOperatorsInitializedOnNode k \<in> set ms}"
  have valid: "k < n" if "set ms \<subseteq> \<Union>(range (\<lambda>t. set (selected pick_initialized_on_node w t)))" "AllOperatorsInitializedOnNode k \<in> set ms" for ms k
    using that assms(3) by (fastforce simp: selected_set)
  have "(\<exists>w'. wait_loop C env pick_initialized_on_node err (\<lambda>S. \<not> card S < n) (\<lambda>n S. Some (insert n S)) self {i} w = Some (w', Inr ())) \<longleftrightarrow>
      (\<exists>t. \<not> card (?S' (selected pick_initialized_on_node w t)) < n)"
  proof (rule barrier_iff[OF assms(1) noted_nodes])
    fix ms ms' :: "ControlMessage list"
    assume "set ms \<subseteq> set ms'" "\<not> card (?S' ms) < n"
    moreover have "card (?S' ms) \<le> card (?S' ms')"
      using \<open>set ms \<subseteq> set ms'\<close> by (intro card_mono) (auto simp: finite_messages)
    ultimately show "\<not> card (?S' ms') < n" by simp
  qed
  also have "\<dots> \<longleftrightarrow> (\<exists>t. \<forall>k < n. k \<noteq> i \<longrightarrow> AllOperatorsInitializedOnNode k \<in> set (selected pick_initialized_on_node w t))"
    using all_reported[OF inj_messages(1) assms(2)] assms(3) by (auto simp: selected_set)
  finally show ?thesis by (simp add: selected_set)
qed

lemma noted_connections:
  "\<forall>m \<in> set ms. pick_sender_or_receiver m \<noteq> None \<Longrightarrow>
     noted pick_sender_or_receiver note_connection ms \<lparr> control_senders_initialized = A, control_receivers_initialized = B,
         data_senders_initialized = D, data_receivers_initialized = E \<rparr> =
     Some \<lparr> control_senders_initialized = A \<union> {k. ControlSenderInitialized k \<in> set ms},
         control_receivers_initialized = B \<union> {k. ControlReceiverInitialized k \<in> set ms},
         data_senders_initialized = D \<union> {k. DataSenderInitialized k \<in> set ms},
         data_receivers_initialized = E \<union> {k. DataReceiverInitialized k \<in> set ms} \<rparr>"
proof (induction ms arbitrary: A B D E)
  case (Cons m ms)
  then show ?case by (cases m) (auto intro!: set_eqI)
qed simp

lemma connections_barrier:
  assumes "alive w" "i < n"
    and valid: "\<And>t k. {ControlSenderInitialized k, ControlReceiverInitialized k, DataSenderInitialized k, DataReceiverInitialized k} \<inter>
      set (arriving w t) \<noteq> {} \<Longrightarrow> k < n"
  shows "(\<exists>w'. wait_loop C env pick_sender_or_receiver err (connections_complete n) note_connection self
      \<lparr> control_senders_initialized = {i}, control_receivers_initialized = {i},
        data_senders_initialized = {i}, data_receivers_initialized = {i} \<rparr> w = Some (w', Inr ())) \<longleftrightarrow>
    (\<exists>t. \<forall>k < n. k \<noteq> i \<longrightarrow> connected (set (arriving w t)) k)"
proof -
  let ?N = "\<lambda>f ms. {i} \<union> {k. f k \<in> set ms}"
  let ?S' = "\<lambda>ms. \<lparr> control_senders_initialized = ?N ControlSenderInitialized ms,
     control_receivers_initialized = ?N ControlReceiverInitialized ms,
     data_senders_initialized = ?N DataSenderInitialized ms, data_receivers_initialized = ?N DataReceiverInitialized ms \<rparr>"
  let ?sel = "selected pick_sender_or_receiver w"
  have mono: "card (?N f ms) \<le> card (?N f ms')" if "inj f" "set ms \<subseteq> set ms'" for f :: "nat \<Rightarrow> ControlMessage" and ms ms'
    using that by (intro card_mono) (auto simp: finite_messages)
  have "(\<exists>w'. wait_loop C env pick_sender_or_receiver err (connections_complete n) note_connection self
      \<lparr> control_senders_initialized = {i}, control_receivers_initialized = {i},
        data_senders_initialized = {i}, data_receivers_initialized = {i} \<rparr> w = Some (w', Inr ())) \<longleftrightarrow>
     (\<exists>t. connections_complete n (?S' (?sel t)))"
  proof (rule barrier_iff[OF assms(1) noted_connections])
    fix ms ms' :: "ControlMessage list"
    assume "set ms \<subseteq> set ms'" "connections_complete n (?S' ms)"
    with mono[OF inj_messages(2)] mono[OF inj_messages(3)] mono[OF inj_messages(4)] mono[OF inj_messages(5)]
    show "connections_complete n (?S' ms')" unfolding connections_complete_def connections.simps not_less de_Morgan_disj
      by (meson order_trans)
  qed
  also have "\<dots> \<longleftrightarrow> (\<exists>t. \<forall>k < n. k \<noteq> i \<longrightarrow> connected (set (?sel t)) k)"
  proof -
    have sel: "\<not> card (?N f (?sel t)) < n \<longleftrightarrow> (\<forall>k < n. k \<noteq> i \<longrightarrow> f k \<in> set (?sel t))"
      if "f \<in> {ControlSenderInitialized, ControlReceiverInitialized, DataSenderInitialized, DataReceiverInitialized}" for f t
      using that valid by (intro all_reported) (auto simp: assms(2) selected_set)
    show ?thesis
      unfolding connections_complete_def connections.simps de_Morgan_disj using sel by (simp add: connected_def del: not_less) blast
  qed
  also have "\<dots> \<longleftrightarrow> (\<exists>t. \<forall>k < n. k \<noteq> i \<longrightarrow> connected (set (arriving w t)) k)"
    by (simp add: connected_def selected_set)
  finally show ?thesis .
qed

end

section \<open>Properties\<close>

text \<open>A configuration that was read from the command line names an existing node.\<close>

lemma from_args_valid:
  assumes "from_args value_of parse_usize parse_addr = Some cfg"
  shows "cfg_index cfg < length (data_addresses cfg) \<and> length (data_addresses cfg) = length (control_addresses cfg)"
  using assms by (auto simp: from_args_def bind_eq_Some_conv split: if_splits)

lemma node_new_id:
  assumes "from_args value_of parse_usize parse_addr = Some cfg" "node_new fresh cfg w = (self, w')"
  shows "node_id self < num_nodes self \<and> cmh_tx (control_handler self) = cmh_rx (control_handler self)"
  using assms(2) from_args_valid[OF assms(1)] by (auto simp: node_new_def num_nodes_def cmh_new_def split: prod.splits)

text \<open>C14. The start barrier: a node passes the point after which its operators run exactly when every other node
  has reported that all operators on it are initialized. Other control messages may arrive in any order,
  before, between and after these reports.\<close>

theorem operators_wait_for_all_nodes:
  assumes "control_queue C contents rx_open tx_open env clock news (control_handler self)"
    and "rx_open w (cmh_rx (control_handler self))" "tx_open w (cmh_rx (control_handler self))" "node_id self < num_nodes self"
    and "\<And>t k. AllOperatorsInitializedOnNode k \<in> set (contents w (cmh_rx (control_handler self)) @ concat (map news [clock w..<t])) \<Longrightarrow>
      k < num_nodes self"
  shows "(\<exists>w'. wait_for_all_operators_initialized C env fmt self w = Some (w', Inr ())) \<longleftrightarrow>
    (\<exists>t. \<forall>k < num_nodes self. k \<noteq> node_id self \<longrightarrow>
       AllOperatorsInitializedOnNode k \<in> set (contents w (cmh_rx (control_handler self)) @ concat (map news [clock w..<t])))"
  unfolding wait_for_all_operators_initialized_def
  by (rule control_queue.operators_barrier[OF assms(1) conjI[OF assms(2,3)] assms(4),
        unfolded control_queue.arriving_def[OF assms(1)], OF assms(5)])

text \<open>C15. The communication barrier: a node starts to set up its operators exactly when the sender and the
  receiver of data and of control messages for every other node have reported that they are running.\<close>

theorem communication_barrier:
  assumes "control_queue C contents rx_open tx_open env clock news (control_handler self)"
    and "rx_open w (cmh_rx (control_handler self))" "tx_open w (cmh_rx (control_handler self))" "node_id self < num_nodes self"
    and "\<And>t k. {ControlSenderInitialized k, ControlReceiverInitialized k, DataSenderInitialized k, DataReceiverInitialized k} \<inter>
      set (contents w (cmh_rx (control_handler self)) @ concat (map news [clock w..<t])) \<noteq> {} \<Longrightarrow> k < num_nodes self"
  shows "(\<exists>w'. wait_for_communication_layer_initialized C env fmt self w = Some (w', Inr ())) \<longleftrightarrow>
    (\<exists>t. \<forall>k < num_nodes self. k \<noteq> node_id self \<longrightarrow>
       connected (set (contents w (cmh_rx (control_handler self)) @ concat (map news [clock w..<t]))) k)"
  unfolding wait_for_communication_layer_initialized_def
  by (rule control_queue.connections_barrier[OF assms(1) conjI[OF assms(2,3)] assms(4),
        unfolded control_queue.arriving_def[OF assms(1)], OF assms(5)])

text \<open>A node of two, and what the other one reports over time.\<close>

definition example_node :: "(unit, nat, unit, unit, unit, unit, unit) Node" where
  "example_node = \<lparr> config = configuration_new 0 [(), ()] [(), ()] 4 None, node_id = 0, dataflow_graph = None,
     channels_to_receivers = ctr_new, channels_to_senders = cts_new, control_handler = handler_at 0, initialized = False \<rparr>"

definition example_news :: "nat \<Rightarrow> ControlMessage list" where
  "example_news t =
     (if t = 2 then [DataSenderInitialized 1, ControlSenderInitialized 1]
      else if t = 3 then [AllOperatorsInitializedOnNode 1, ControlReceiverInitialized 1, DataReceiverInitialized 1] else [])"

lemma example_node_simps [simp]:
  "control_handler example_node = handler_at 0" "node_id example_node = 0" "num_nodes example_node = 2"
  by (simp_all add: example_node_def num_nodes_def configuration_new_def)

definition example_reports :: "ControlMessage set" where
  "example_reports = {DataSenderInitialized 1, ControlSenderInitialized 1, AllOperatorsInitializedOnNode 1,
     ControlReceiverInitialized 1, DataReceiverInitialized 1}"

lemma example_arriving:
  "set (ch_items (fst ((\<lambda>_. chan_new), 0) h) @ concat (map example_news [snd ((\<lambda>_. chan_new), 0)..<t])) \<subseteq> example_reports"
  "set (ch_items (fst ((\<lambda>_. chan_new), 0) h) @ concat (map example_news [snd ((\<lambda>_. chan_new), 0)..<4])) = example_reports"
proof -
  have "set (example_news i) \<subseteq> example_reports" for i by (auto simp: example_news_def example_reports_def)
  then show "set (ch_items (fst ((\<lambda>_. chan_new), 0) h) @ concat (map example_news [snd ((\<lambda>_. chan_new), 0)..<t])) \<subseteq> example_reports"
    by (simp add: chan_new_def UN_subset_iff)
  show "set (ch_items (fst ((\<lambda>_. chan_new), 0) h) @ concat (map example_news [snd ((\<lambda>_. chan_new), 0)..<4])) = example_reports"
    by (simp add: chan_new_def example_news_def example_reports_def upt_rec_numeral)
qed

lemma Int_nonempty_mono: "S \<inter> A \<noteq> {} \<Longrightarrow> A \<subseteq> B \<Longrightarrow> S \<inter> B \<noteq> {}"
  by blast

lemma example_queue:
  "control_queue timed_mpsc (\<lambda>w h. ch_items (fst w h)) (\<lambda>w h. ch_rx (fst w h)) (\<lambda>w h. ch_tx (fst w h))
      (timed_env example_news 0) snd example_news (control_handler example_node)"
  using handler_queue.control_queue_axioms[of example_news 0] by (simp add: handler_at_def cmh_new_def)

theorem operators_wait_for_all_nodes_witness:
  "\<exists>w'. wait_for_all_operators_initialized timed_mpsc (timed_env example_news 0) (\<lambda>_. []) example_node ((\<lambda>_. chan_new), 0) = Some (w', Inr ())"
proof (rule operators_wait_for_all_nodes[OF example_queue, THEN iffD2])
  fix t k
  assume "AllOperatorsInitializedOnNode k \<in> set (ch_items (fst ((\<lambda>_. chan_new), 0) (cmh_rx (control_handler example_node))) @
      concat (map example_news [snd ((\<lambda>_. chan_new), 0)..<t]))"
  with example_arriving(1) have "AllOperatorsInitializedOnNode k \<in> example_reports" by (rule subsetD)
  then show "k < num_nodes example_node" by (simp add: example_reports_def)
next
  show "\<exists>t. \<forall>k < num_nodes example_node. k \<noteq> node_id example_node \<longrightarrow>
      AllOperatorsInitializedOnNode k \<in> set (ch_items (fst ((\<lambda>_. chan_new), 0) (cmh_rx (control_handler example_node))) @
        concat (map example_news [snd ((\<lambda>_. chan_new), 0)..<t]))"
    by (rule exI[of _ 4], unfold example_arriving(2)) (auto simp: example_reports_def)
qed (simp_all add: chan_new_def)

theorem communication_barrier_witness:
  "\<exists>w'. wait_for_communication_layer_initialized timed_mpsc (timed_env example_news 0) (\<lambda>_. []) example_node ((\<lambda>_. chan_new), 0) =
     Some (w', Inr ())"
proof (rule communication_barrier[OF example_queue, THEN iffD2])
  fix t k
  assume "{ControlSenderInitialized k, ControlReceiverInitialized k, DataSenderInitialized k, DataReceiverInitialized k} \<inter>
      set (ch_items (fst ((\<lambda>_. chan_new), 0) (cmh_rx (control_handler example_node))) @
        concat (map example_news [snd ((\<lambda>_. chan_new), 0)..<t])) \<noteq> {}"
  then have "{ControlSenderInitialized k, ControlReceiverInitialized k, DataSenderInitialized k, DataReceiverInitialized k} \<inter>
      example_reports \<noteq> {}" by (rule Int_nonempty_mono[OF _ example_arriving(1)])
  then show "k < num_nodes example_node" by (auto simp: example_reports_def)
next
  show "\<exists>t. \<forall>k < num_nodes example_node. k \<noteq> node_id example_node \<longrightarrow>
      connected (set (ch_items (fst ((\<lambda>_. chan_new), 0) (cmh_rx (control_handler example_node))) @
        concat (map example_news [snd ((\<lambda>_. chan_new), 0)..<t]))) k"
    by (rule exI[of _ 4], unfold example_arriving(2)) (auto simp: example_reports_def connected_def)
qed (simp_all add: chan_new_def)

end
