(* ===== verification/Tcp_Tasks.thy ===== *)
theory Tcp_Tasks
  imports Control_Handler Channel_Manager
begin

text \<open>
  The tasks that move messages between a node and its TCP connections: \<^verbatim>\<open>src/src/communication/senders.rs\<close> and
  \<^verbatim>\<open>receivers.rs\<close>.

  A connection is framed by \<^verbatim>\<open>tokio_util\<close>; its two halves are the parameters \<open>sink_send\<close> and \<open>stream_next\<close>, on handles of
  type \<open>'k\<close>. The panic of a codec shows as \<open>None\<close>; a stream that has to wait returns \<open>Some None\<close>. Locks are
  left out: a task holds the shared maps only while it is created. As elsewhere, \<open>env\<close> is what the rest of
  the program does between two steps of a loop, and a task that runs forever is \<open>None\<close>.
\<close>

record ('w, 'k, 'm, 'e) framed =
  sink_send :: "'k \<Rightarrow> 'm \<Rightarrow> 'w \<Rightarrow> ('w \<times> ('e CodecError + unit)) option"
  stream_next :: "'k \<Rightarrow> 'w \<Rightarrow> ('w \<times> ('e CodecError + 'm) option) option option"

section \<open>Senders\<close>

record ('k, 'i, 'c) DataSender =
  ds_node_id :: NodeId
  ds_sink :: 'k
  ds_rx :: 'i
  ds_control_tx :: 'c
  ds_control_rx :: 'c

definition data_sender_new ::
    "('w \<Rightarrow> 'i \<times> 'w) \<Rightarrow> ('w \<Rightarrow> 'c \<times> 'w) \<Rightarrow> NodeId \<Rightarrow> 'k \<Rightarrow> 'i ChannelsToSenders \<Rightarrow> 'c ControlMessageHandler \<Rightarrow> 'w \<Rightarrow>
       ('k, 'i, 'c) DataSender \<times> 'i ChannelsToSenders \<times> 'c ControlMessageHandler \<times> 'w" where
  "data_sender_new new_data new_control n sink cts handler w =
     (case new_data w of (i, w) \<Rightarrow>
      let cts = cts_add_sender n i cts
      in (case new_control w of (c, w) \<Rightarrow>
          let handler = add_channel_to_data_sender n c handler
          in (\<lparr> ds_node_id = n, ds_sink = sink, ds_rx = i, ds_control_tx = get_channel_to_handler handler, ds_control_rx = c \<rparr>,
              cts, handler, w)))"

text \<open>The loop that both kinds of sender run: take a message from the channel \<open>rx\<close>, write it to the connection.\<close>

partial_function (option) forward_loop ::
    "('w, 'x, 'm) mpsc \<Rightarrow> ('w, 'k, 'm, 'e) framed \<Rightarrow> ('w \<Rightarrow> 'w) \<Rightarrow> 'x \<Rightarrow> 'k \<Rightarrow> 'w \<Rightarrow> ('w \<times> ('e CommunicationError + unit)) option" where
  "forward_loop C F env rx sink w =
     (case mpsc_recv C rx w of
        None \<Rightarrow> forward_loop C F env rx sink (env w)
      | Some (w, None) \<Rightarrow> Some (w, Inl Disconnected)
      | Some (w, Some msg) \<Rightarrow>
          (case sink_send F sink msg w of
             None \<Rightarrow> None
           | Some (w, Inl e) \<Rightarrow> Some (w, Inl (comm_from_codec e))
           | Some (w, Inr _) \<Rightarrow> forward_loop C F env rx sink (env w)))"

declare forward_loop.simps [code]

definition data_sender_run ::
    "('w, 'c, ControlMessage) mpsc \<Rightarrow> ('w, 'i, 'e InterProcessMessage) mpsc \<Rightarrow> ('w, 'k, 'e InterProcessMessage, 'e) framed \<Rightarrow>
       ('w \<Rightarrow> 'w) \<Rightarrow> ('k, 'i, 'c) DataSender \<Rightarrow> 'w \<Rightarrow> ('w \<times> ('e CommunicationError + unit)) option" where
  "data_sender_run C D F env self w =
     (case mpsc_send C (ds_control_tx self) (DataSenderInitialized (ds_node_id self)) w of
        (w, Inl e) \<Rightarrow> Some (w, Inl (comm_from_send e))
      | (w, Inr _) \<Rightarrow> forward_loop D F env (ds_rx self) (ds_sink self) w)"

text \<open>
  \<^verbatim>\<open>join_all\<close> runs all tasks to their end and collects their results, \<open>None\<close> for a spawned task that panicked. The
  callers discard the results.
\<close>

definition run_senders ::
    "(('w \<Rightarrow> ('w \<times> ('e CommunicationError + unit)) option) list \<Rightarrow> 'w \<Rightarrow> ('w \<times> ('e CommunicationError + unit) option list) option) \<Rightarrow>
       ('w, 'c, ControlMessage) mpsc \<Rightarrow> ('w, 'i, 'e InterProcessMessage) mpsc \<Rightarrow> ('w, 'k, 'e InterProcessMessage, 'e) framed \<Rightarrow>
       ('w \<Rightarrow> 'w) \<Rightarrow> ('k, 'i, 'c) DataSender list \<Rightarrow> 'w \<Rightarrow> ('w \<times> ('e CommunicationError + unit)) option" where
  "run_senders join_spawned C D F env senders w =
     (case join_spawned (map (data_sender_run C D F env) senders) w of
        None \<Rightarrow> None
      | Some (w, _) \<Rightarrow> Some (w, Inr ()))"

record ('k, 'c) ControlSender =
  cs_node_id :: NodeId
  cs_sink :: 'k
  cs_rx :: 'c
  cs_control_tx :: 'c
  cs_control_rx :: 'c

definition control_sender_new ::
    "('w \<Rightarrow> 'c \<times> 'w) \<Rightarrow> NodeId \<Rightarrow> 'k \<Rightarrow> 'c ControlMessageHandler \<Rightarrow> 'w \<Rightarrow> ('k, 'c) ControlSender \<times> 'c ControlMessageHandler \<times> 'w" where
  "control_sender_new new_control n sink handler w =
     (case new_control w of (d, w) \<Rightarrow>
      let handler = add_channel_to_node n d handler
      in (case new_control w of (c, w) \<Rightarrow>
          let handler = add_channel_to_control_sender n c handler
          in (\<lparr> cs_node_id = n, cs_sink = sink, cs_rx = d, cs_control_tx = get_channel_to_handler handler, cs_control_rx = c \<rparr>,
              handler, w)))"

definition control_sender_run ::
    "('w, 'c, ControlMessage) mpsc \<Rightarrow> ('w, 'k, ControlMessage, 'e) framed \<Rightarrow> ('w \<Rightarrow> 'w) \<Rightarrow> ('k, 'c) ControlSender \<Rightarrow>
       'w \<Rightarrow> ('w \<times> ('e CommunicationError + unit)) option" where
  "control_sender_run C F env self w =
     (case mpsc_send C (cs_control_tx self) (ControlSenderInitialized (cs_node_id self)) w of
        (w, Inl e) \<Rightarrow> Some (w, Inl (comm_from_send e))
      | (w, Inr _) \<Rightarrow> forward_loop C F env (cs_rx self) (cs_sink self) w)"

text \<open>The other three functions await the futures of the tasks themselves, so that the panic of one is a panic.\<close>

definition run_control_senders ::
    "(('w \<Rightarrow> ('w \<times> ('e CommunicationError + unit)) option) list \<Rightarrow> 'w \<Rightarrow> ('w \<times> ('e CommunicationError + unit) list) option) \<Rightarrow>
       ('w, 'c, ControlMessage) mpsc \<Rightarrow> ('w, 'k, ControlMessage, 'e) framed \<Rightarrow> ('w \<Rightarrow> 'w) \<Rightarrow> ('k, 'c) ControlSender list \<Rightarrow>
       'w \<Rightarrow> ('w \<times> ('e CommunicationError + unit)) option" where
  "run_control_senders join_all C F env senders w =
     (case join_all (map (control_sender_run C F env) senders) w of
        None \<Rightarrow> None
      | Some (w, _) \<Rightarrow> Some (w, Inr ()))"

section \<open>Receivers\<close>

text \<open>
  A boxed pusher is a value of type \<open>'p\<close>, its method \<^verbatim>\<open>send_from_bytes\<close> the parameter \<open>push\<close>. The channel manager makes
  pushers that carry the type of their stream, which determines the code that runs.
\<close>

definition dyn_send_from_bytes ::
    "('ty \<Rightarrow> ('w, 'h, 'i, 'm, 'e) net) \<Rightarrow> 'ty \<times> ('h, 'i) Pusher \<Rightarrow> bytes \<Rightarrow> 'w \<Rightarrow> 'w \<times> ('e CommunicationError + unit)" where
  "dyn_send_from_bytes N p buf w = send_from_bytes_tcp (N (fst p)) (snd p) buf w"

record ('k, 'r, 'p, 'c) DataReceiver =
  dr_node_id :: NodeId
  dr_stream :: 'k
  dr_rx :: 'r
  stream_id_to_pusher :: "(StreamId \<times> 'p) list"
  dr_control_tx :: 'c
  dr_control_rx :: 'c

definition data_receiver_new ::
    "('w \<Rightarrow> 'r \<times> 'w) \<Rightarrow> ('w \<Rightarrow> 'c \<times> 'w) \<Rightarrow> NodeId \<Rightarrow> 'k \<Rightarrow> 'r ChannelsToReceivers \<Rightarrow> 'c ControlMessageHandler \<Rightarrow> 'w \<Rightarrow>
       ('k, 'r, 'p, 'c) DataReceiver \<times> 'r ChannelsToReceivers \<times> 'c ControlMessageHandler \<times> 'w" where
  "data_receiver_new new_pushers new_control n stream ctr handler w =
     (case new_pushers w of (r, w) \<Rightarrow>
      let ctr = ctr_add_sender r ctr
      in (case new_control w of (c, w) \<Rightarrow>
          let handler = add_channel_to_data_receiver n c handler
          in (\<lparr> dr_node_id = n, dr_stream = stream, dr_rx = r, stream_id_to_pusher = [],
                dr_control_tx = get_channel_to_handler handler, dr_control_rx = c \<rparr>, ctr, handler, w)))"

partial_function (option) update_pushers ::
    "('w, 'r, StreamId \<times> 'p) mpsc \<Rightarrow> 'r \<Rightarrow> (StreamId \<times> 'p) list \<Rightarrow> 'w \<Rightarrow> ((StreamId \<times> 'p) list \<times> 'w) option" where
  "update_pushers R rx pushers w =
     (case mpsc_try_recv R rx w of
        (w, Inl _) \<Rightarrow> Some (pushers, w)
      | (w, Inr (sid, pusher)) \<Rightarrow> update_pushers R rx (AList.update sid pusher pushers) w)"

declare update_pushers.simps [code]

text \<open>What the receiver does with one message: \<^verbatim>\<open>unreachable!()\<close> and the panic on an unknown stream are \<open>None\<close>.\<close>

definition receive_message ::
    "('w, 'r, StreamId \<times> 'p) mpsc \<Rightarrow> ('p \<Rightarrow> bytes \<Rightarrow> 'w \<Rightarrow> 'w \<times> ('e CommunicationError + unit)) \<Rightarrow> 'e InterProcessMessage \<Rightarrow>
       ('k, 'r, 'p, 'c) DataReceiver \<Rightarrow> 'w \<Rightarrow> ((('k, 'r, 'p, 'c) DataReceiver \<times> 'w) \<times> ('e CommunicationError + unit)) option" where
  "receive_message R push msg self w =
     (case update_pushers R (dr_rx self) (stream_id_to_pusher self) w of
        None \<Rightarrow> None
      | Some (pushers, w) \<Rightarrow>
          let self = self \<lparr> stream_id_to_pusher := pushers \<rparr>
          in (case msg of
                Deserialized _ _ \<Rightarrow> None
              | Serialized metadata bs \<Rightarrow>
                  (case map_of pushers (md_stream_id metadata) of
                     None \<Rightarrow> None
                   | Some pusher \<Rightarrow> (case push pusher bs w of (w, r) \<Rightarrow> Some ((self, w), r)))))"

partial_function (option) receive_loop ::
    "('w, 'r, StreamId \<times> 'p) mpsc \<Rightarrow> ('w, 'k, 'e InterProcessMessage, 'e) framed \<Rightarrow>
       ('p \<Rightarrow> bytes \<Rightarrow> 'w \<Rightarrow> 'w \<times> ('e CommunicationError + unit)) \<Rightarrow> ('w \<Rightarrow> 'w) \<Rightarrow>
       ('k, 'r, 'p, 'c) DataReceiver \<Rightarrow> 'w \<Rightarrow> ((('k, 'r, 'p, 'c) DataReceiver \<times> 'w) \<times> ('e CommunicationError + unit)) option" where
  "receive_loop R F push env self w =
     (case stream_next F (dr_stream self) w of
        None \<Rightarrow> None
      | Some None \<Rightarrow> receive_loop R F push env self (env w)
      | Some (Some (w, None)) \<Rightarrow> Some ((self, w), Inr ())
      | Some (Some (w, Some (Inl e))) \<Rightarrow> Some ((self, w), Inl (comm_from_codec e))
      | Some (Some (w, Some (Inr msg))) \<Rightarrow>
          (case receive_message R push msg self w of
             None \<Rightarrow> None
           | Some ((self, w), Inl e) \<Rightarrow> Some ((self, w), Inl e)
           | Some ((self, w), Inr _) \<Rightarrow> receive_loop R F push env self (env w)))"

declare receive_loop.simps [code]

definition data_receiver_run ::
    "('w, 'c, ControlMessage) mpsc \<Rightarrow> ('w, 'r, StreamId \<times> 'p) mpsc \<Rightarrow> ('w, 'k, 'e InterProcessMessage, 'e) framed \<Rightarrow>
       ('p \<Rightarrow> bytes \<Rightarrow> 'w \<Rightarrow> 'w \<times> ('e CommunicationError + unit)) \<Rightarrow> ('w \<Rightarrow> 'w) \<Rightarrow>
       ('k, 'r, 'p, 'c) DataReceiver \<Rightarrow> 'w \<Rightarrow> ((('k, 'r, 'p, 'c) DataReceiver \<times> 'w) \<times> ('e CommunicationError + unit)) option" where
  "data_receiver_run C R F push env self w =
     (case mpsc_send C (dr_control_tx self) (DataReceiverInitialized (dr_node_id self)) w of
        (w, Inl e) \<Rightarrow> Some ((self, w), Inl (comm_from_send e))
      | (w, Inr _) \<Rightarrow> receive_loop R F push env self w)"

definition run_receivers ::
    "(('w \<Rightarrow> ('w \<times> ('e CommunicationError + unit)) option) list \<Rightarrow> 'w \<Rightarrow> ('w \<times> ('e CommunicationError + unit) list) option) \<Rightarrow>
       ('w, 'c, ControlMessage) mpsc \<Rightarrow> ('w, 'r, StreamId \<times> 'p) mpsc \<Rightarrow> ('w, 'k, 'e InterProcessMessage, 'e) framed \<Rightarrow>
       ('p \<Rightarrow> bytes \<Rightarrow> 'w \<Rightarrow> 'w \<times> ('e CommunicationError + unit)) \<Rightarrow> ('w \<Rightarrow> 'w) \<Rightarrow>
       ('k, 'r, 'p, 'c) DataReceiver list \<Rightarrow> 'w \<Rightarrow> ('w \<times> ('e CommunicationError + unit)) option" where
  "run_receivers join_all C R F push env receivers w =
     (case join_all (map (\<lambda>self w. map_option (map_prod snd id) (data_receiver_run C R F push env self w)) receivers) w of
        None \<Rightarrow> None
      | Some (w, _) \<Rightarrow> Some (w, Inr ()))"

record ('k, 'c) ControlReceiver =
  cr_node_id :: NodeId
  cr_stream :: 'k
  cr_control_tx :: 'c
  cr_control_rx :: 'c

definition control_receiver_new ::
    "('w \<Rightarrow> 'c \<times> 'w) \<Rightarrow> NodeId \<Rightarrow> 'k \<Rightarrow> 'c ControlMessageHandler \<Rightarrow> 'w \<Rightarrow> ('k, 'c) ControlReceiver \<times> 'c ControlMessageHandler \<times> 'w" where
  "control_receiver_new new_control n stream handler w =
     (case new_control w of (c, w) \<Rightarrow>
      let handler = add_channel_to_control_receiver n c handler
      in (\<lparr> cr_node_id = n, cr_stream = stream, cr_control_tx = get_channel_to_handler handler, cr_control_rx = c \<rparr>, handler, w))"

partial_function (option) control_receive_loop ::
    "('w, 'c, ControlMessage) mpsc \<Rightarrow> ('w, 'k, ControlMessage, 'e) framed \<Rightarrow> ('w \<Rightarrow> 'w) \<Rightarrow> 'c \<Rightarrow> 'k \<Rightarrow> 'w \<Rightarrow>
       ('w \<times> ('e CommunicationError + unit)) option" where
  "control_receive_loop C F env control_tx stream w =
     (case stream_next F stream w of
        None \<Rightarrow> None
      | Some None \<Rightarrow> control_receive_loop C F env control_tx stream (env w)
      | Some (Some (w, None)) \<Rightarrow> Some (w, Inr ())
      | Some (Some (w, Some (Inl e))) \<Rightarrow> Some (w, Inl (comm_from_codec e))
      | Some (Some (w, Some (Inr msg))) \<Rightarrow>
          (case mpsc_send C control_tx msg w of
             (w, Inl e) \<Rightarrow> Some (w, Inl (comm_from_send e))
           | (w, Inr _) \<Rightarrow> control_receive_loop C F env control_tx stream (env w)))"

declare control_receive_loop.simps [code]

definition control_receiver_run ::
    "('w, 'c, ControlMessage) mpsc \<Rightarrow> ('w, 'k, ControlMessage, 'e) framed \<Rightarrow> ('w \<Rightarrow> 'w) \<Rightarrow> ('k, 'c) ControlReceiver \<Rightarrow>
       'w \<Rightarrow> ('w \<times> ('e CommunicationError + unit)) option" where
  "control_receiver_run C F env self w =
     (case mpsc_send C (cr_control_tx self) (ControlReceiverInitialized (cr_node_id self)) w of
        (w, Inl e) \<Rightarrow> Some (w, Inl (comm_from_send e))
      | (w, Inr _) \<Rightarrow> control_receive_loop C F env (cr_control_tx self) (cr_stream self) w)"

definition run_control_receivers ::
    "(('w \<Rightarrow> ('w \<times> ('e CommunicationError + unit)) option) list \<Rightarrow> 'w \<Rightarrow> ('w \<times> ('e CommunicationError + unit) list) option) \<Rightarrow>
       ('w, 'c, ControlMessage) mpsc \<Rightarrow> ('w, 'k, ControlMessage, 'e) framed \<Rightarrow> ('w \<Rightarrow> 'w) \<Rightarrow> ('k, 'c) ControlReceiver list \<Rightarrow>
       'w \<Rightarrow> ('w \<times> ('e CommunicationError + unit)) option" where
  "run_control_receivers join_all C F env receivers w =
     (case join_all (map (control_receiver_run C F env) receivers) w of
        None \<Rightarrow> None
      | Some (w, _) \<Rightarrow> Some (w, Inr ()))"

end
