(* ===== verification/Task_Loops.thy ===== *)
theory Task_Loops
  imports Tcp_Tasks Codec_Properties
begin

text \<open>
  What the tasks of all transports share. A sender empties a channel that other tasks fill and at some time close
  (\<open>fed_channel\<close>); a receiver hands what arrives to the pushers it has been told of (\<open>delivering_task\<close>).
\<close>

section \<open>Emptying a channel\<close>

text \<open>The rest of the program puts the messages \<open>news t\<close> on the channel \<open>rx\<close> in round \<open>t\<close> until round \<open>closes\<close>; \<open>log\<close> is what
  the task has sent on.\<close>

locale fed_channel = unbounded_channel C contents rx_open tx_open
  for C :: "('w, 'x, 'm) mpsc" and contents rx_open tx_open +
  fixes env :: "'w \<Rightarrow> 'w" and clock :: "'w \<Rightarrow> nat" and news :: "nat \<Rightarrow> 'm list" and closes :: nat and rx :: 'x and log :: "'w \<Rightarrow> 'b list"
  assumes recv_keeps: "mpsc_recv C rx w = Some (w', r) \<Longrightarrow> clock w' = clock w \<and> log w' = log w"
    and env_keeps: "clock (env w) = Suc (clock w) \<and> log (env w) = log w"
    and env_news: "tx_open w rx \<Longrightarrow> contents (env w) rx = contents w rx @ news (clock w)"
    and env_closed: "\<not> tx_open w rx \<Longrightarrow> contents (env w) rx = contents w rx"
    and env_open: "tx_open (env w) rx \<longleftrightarrow> tx_open w rx \<and> clock w < closes"
begin

text \<open>Everything that is on the channel or arrives before it is closed.\<close>

definition arriving :: "'w \<Rightarrow> 'm list" where
  "arriving w = contents w rx @ (if tx_open w rx then concat (map news [clock w..<Suc closes]) else [])"

lemma arriving_env:
  assumes "tx_open w rx \<Longrightarrow> clock w \<le> closes"
  shows "arriving (env w) = arriving w"
proof (cases "tx_open w rx")
  case True
  with assms have le: "clock w < Suc closes" by simp
  with True show ?thesis
    using upt_conv_Cons[OF le] by (simp add: arriving_def env_news env_open env_keeps del: upt_Suc)
qed (simp add: arriving_def env_closed env_open)

text \<open>A loop that sends on each message it receives has sent all of them when it ends.\<close>

lemma loop_sends_all:
  fixes loop :: "'w \<Rightarrow> ('w \<times> ('e CommunicationError + unit)) option"
  assumes waits: "\<And>w. mpsc_recv C rx w = None \<Longrightarrow> loop w = loop (env w)"
    and ends: "\<And>w w'. mpsc_recv C rx w = Some (w', None) \<Longrightarrow> loop w = Some (w', Inl Disconnected)"
    and sends: "\<And>w w1 m. mpsc_recv C rx w = Some (w1, Some m) \<Longrightarrow> ok m \<Longrightarrow> \<exists>w2. loop w = loop (env w2) \<and>
      log w2 = log w1 @ item m \<and> contents w2 rx = contents w1 rx \<and> tx_open w2 rx = tx_open w1 rx \<and> clock w2 = clock w1"
    and "tx_open w rx \<Longrightarrow> clock w \<le> closes" and "\<forall>m \<in> set (arriving w). ok m"
  shows "\<exists>w'. loop w = Some (w', Inl Disconnected) \<and> log w' = log w @ concat (map item (arriving w))"
  using assms(4,5)
proof (induction "length (arriving w) + (if tx_open w rx then Suc closes - clock w else 0)" arbitrary: w rule: less_induct)
  case less
  have keeps: "tx_open (env w) rx \<Longrightarrow> clock (env w) \<le> closes" for w by (simp add: env_keeps env_open)
  show ?case
  proof (cases "contents w rx")
    case Nil
    show ?thesis
    proof (cases "tx_open w rx")
      case True
      from True less.prems(1) have "length (arriving (env w)) + (if tx_open (env w) rx then Suc closes - clock (env w) else 0)
          < length (arriving w) + (if tx_open w rx then Suc closes - clock w else 0)"
        by (simp add: arriving_env env_keeps env_open Suc_diff_le)
      from less.hyps[OF this keeps] less.prems recv_empty[OF Nil] True waits[of w] show ?thesis
        by (simp add: arriving_env env_keeps)
    next
      case False
      with recv_empty[OF Nil] ends[of w w] show ?thesis by (simp add: arriving_def Nil)
    qed
  next
    case (Cons m ms)
    from recv_item[OF Cons] obtain w1 where w1: "mpsc_recv C rx w = Some (w1, Some m)"
      "contents w1 rx = ms" "tx_open w1 = tx_open w" "clock w1 = clock w" "log w1 = log w"
      using recv_keeps by fastforce
    from less.prems(2) Cons have "ok m" by (simp add: arriving_def)
    with sends[OF w1(1)] w1 obtain w2 where w2: "loop w = loop (env w2)" "log w2 = log w @ item m" "contents w2 rx = ms"
      "tx_open w2 rx = tx_open w rx" "clock w2 = clock w" by auto
    have arr: "arriving w = m # arriving w2" using w2 Cons by (simp add: arriving_def)
    have pre: "tx_open w2 rx \<Longrightarrow> clock w2 \<le> closes" using less.prems(1) w2 by simp
    have env: "arriving (env w2) = arriving w2" using pre by (rule arriving_env)
    have "length (arriving (env w2)) + (if tx_open (env w2) rx then Suc closes - clock (env w2) else 0)
          < length (arriving w) + (if tx_open w rx then Suc closes - clock w else 0)"
      using arr w2 by (simp add: env env_keeps env_open) arith
    from less.hyps[OF this keeps] less.prems(2) arr show ?thesis
      using w2 by (simp add: env env_keeps)
  qed
qed

end

section \<open>Handing messages to pushers\<close>

text \<open>What one message adds to the channel \<open>c\<close>, given the pushers the receiver knows.\<close>

definition arrivals ::
    "('ty \<Rightarrow> ('w, 'h, 'i, 'm, 'e) net) \<Rightarrow> (StreamId \<times> 'ty \<times> ('h, 'i) Pusher) list \<Rightarrow> 'h + 'i \<Rightarrow> StreamId \<times> 'm \<Rightarrow>
       ('m + 'e InterProcessMessage) list" where
  "arrivals N known c x =
     (case map_of known (fst x) of
        None \<Rightarrow> []
      | Some (ty, p) \<Rightarrow> map (\<lambda>ep. ep_item (N ty) ep (snd x)) (filter (\<lambda>ep. ep_channel ep = c) (endpoints p)))"

definition with_updates :: "(StreamId \<times> 'p) list \<Rightarrow> (StreamId \<times> 'p) list \<Rightarrow> (StreamId \<times> 'p) list" where
  "with_updates updates pushers = fold (\<lambda>(sid, p). AList.update sid p) updates pushers"

text \<open>The parts of a node's state are separate: \<open>input\<close> is what arrives from the network.\<close>

locale delivering_task = unbounded_channel R rc rrx rtx
  for R :: "('w, 'r, StreamId \<times> 'ty \<times> ('h, 'i) Pusher) mpsc" and rc rrx rtx +
  fixes N :: "'ty \<Rightarrow> ('w, 'h, 'i, 'm, 'e) net" and tc trx ttx pc prx ptx and input :: "'w \<Rightarrow> 'in" and rx :: 'r
  assumes net: "network (N ty) tc trx ttx pc prx ptx"
    and try_recv_keeps: "mpsc_try_recv R rx w = (w', r) \<Longrightarrow> input w' = input w \<and>
        queued tc pc w' = queued tc pc w \<and> receiver_alive trx prx w' = receiver_alive trx prx w"
    and send_keeps: "endpoint_send (N ty) ep m w = (w', r') \<Longrightarrow> input w' = input w \<and> rc w' rx = rc w rx"
begin

lemma update_pushers_all:
  "\<exists>w'. update_pushers R rx pushers w = Some (with_updates (rc w rx) pushers, w') \<and> rc w' rx = [] \<and> input w' = input w \<and>
     queued tc pc w' = queued tc pc w \<and> receiver_alive trx prx w' = receiver_alive trx prx w"
proof (induction "rc w rx" arbitrary: w pushers)
  case Nil
  then show ?case by (subst update_pushers.simps) (simp add: try_recv_empty with_updates_def)
next
  case (Cons u us)
  obtain sid p where u: "u = (sid, p)" by (cases u)
  from try_recv_item[OF Cons.hyps(2)[symmetric]] obtain w1 where
    w1: "mpsc_try_recv R rx w = (w1, Inr u)" "rc w1 = (rc w)(rx := us)" by blast
  with Cons.hyps(1)[of w1 "AList.update sid p pushers"] try_recv_keeps[OF w1(1)] Cons.hyps(2)[symmetric] show ?case
    by (subst update_pushers.simps) (auto simp: u with_updates_def)
qed

lemma send_all_keeps: "send_all (N ty) m eps w = (w', r) \<Longrightarrow> input w' = input w \<and> rc w' rx = rc w rx"
proof (induction eps arbitrary: w)
  case (Cons ep eps)
  obtain w1 r1 where "endpoint_send (N ty) ep m w = (w1, r1)" by fastforce
  with Cons send_keeps[OF this] show ?case by (auto split: sum.splits)
qed simp

text \<open>Sending a message through a pusher whose readers are alive, as an effect on the channels.\<close>

definition delivers :: "'ty \<Rightarrow> ('h, 'i) Pusher \<Rightarrow> 'm \<Rightarrow> 'w \<Rightarrow> 'w \<Rightarrow> bool" where
  "delivers ty p d w w' \<longleftrightarrow> input w' = input w \<and> rc w' rx = rc w rx \<and> receiver_alive trx prx w' = receiver_alive trx prx w \<and>
    (\<forall>c. queued tc pc w' c = queued tc pc w c @ map (\<lambda>ep. ep_item (N ty) ep d) (filter (\<lambda>ep. ep_channel ep = c) (endpoints p)))"

lemma pusher_send_delivers:
  assumes "\<forall>ep \<in> set (endpoints p). receiver_alive trx prx w (ep_channel ep)"
  shows "\<exists>w'. pusher_send (N ty) p d w = (w', Inr ()) \<and> delivers ty p d w w'"
proof -
  obtain w' r where w': "send_all (N ty) d (endpoints p) w = (w', r)" by fastforce
  have all: "takeWhile (\<lambda>ep. receiver_alive trx prx w (ep_channel ep)) (endpoints p) = endpoints p"
    using assms by (simp add: takeWhile_eq_all_conv)
  have "queued tc pc w' c = queued tc pc w c @ map (\<lambda>ep. ep_item (N ty) ep d) (filter (\<lambda>ep. ep_channel ep = c) (endpoints p))"
      "receiver_alive trx prx w' = receiver_alive trx prx w" "r = Inr ()" for c
    using network.send_all_effect[OF net w', of c] assms by (simp_all add: all)
  with send_all_keeps[OF w'] w' show ?thesis by (auto simp: delivers_def pusher_send_def)
qed

lemma no_endpoints_delivers: "endpoints p = [] \<Longrightarrow> delivers ty p d w w"
  by (simp add: delivers_def)

text \<open>A message that can be delivered: it has a known pusher, of its type, and the pusher's readers are alive.\<close>

definition deliverable :: "(StreamId \<Rightarrow> 'ty) \<Rightarrow> (StreamId \<times> 'ty \<times> ('h, 'i) Pusher) list \<Rightarrow> 'w \<Rightarrow> StreamId \<times> 'm \<Rightarrow> bool" where
  "deliverable kind known w x \<longleftrightarrow>
     (\<exists>bs. encode (net_serde (N (kind (fst x)))) (snd x) = Inr bs \<and> length bs < 2 ^ 32) \<and>
     (\<exists>p. map_of known (fst x) = Some (kind (fst x), p) \<and> (\<forall>ep \<in> set (endpoints p). receiver_alive trx prx w (ep_channel ep)))"

end

section \<open>Reference nodes\<close>

text \<open>
  The state of a node with the channels of one sender and one receiver, what it has sent to the network and what arrives from there. While the channel of the sender is open the rest of the program puts the messages
  \<open>news t\<close> on it in round \<open>t\<close>, and it closes the channel in round \<open>closes\<close>.
\<close>

record ('in, 'b) ref_node =
  rn_thread :: "(nat, bytes) chans"
  rn_process :: "(nat, unit InterProcessMessage) chans"
  rn_pushers :: "(nat, StreamId \<times> unit \<times> (nat, nat) Pusher) chans"
  rn_control :: "(nat, ControlMessage) chans"
  rn_input :: 'in
  rn_delay :: nat
  rn_clock :: nat
  rn_written :: "'b list"

abbreviation thread_mpsc :: "(('in, 'b) ref_node, nat, bytes) mpsc" where
  "thread_mpsc \<equiv> chans_in rn_thread (\<lambda>c. rn_thread_update (\<lambda>_. c))"

abbreviation process_mpsc :: "(('in, 'b) ref_node, nat, unit InterProcessMessage) mpsc" where
  "process_mpsc \<equiv> chans_in rn_process (\<lambda>c. rn_process_update (\<lambda>_. c))"

abbreviation pushers_mpsc :: "(('in, 'b) ref_node, nat, StreamId \<times> unit \<times> (nat, nat) Pusher) mpsc" where
  "pushers_mpsc \<equiv> chans_in rn_pushers (\<lambda>c. rn_pushers_update (\<lambda>_. c))"

abbreviation control_mpsc :: "(('in, 'b) ref_node, nat, ControlMessage) mpsc" where
  "control_mpsc \<equiv> chans_in rn_control (\<lambda>c. rn_control_update (\<lambda>_. c))"

definition rn_net :: "unit \<Rightarrow> (('in, 'b) ref_node, nat, nat, bytes, unit) net" where
  "rn_net _ = \<lparr> net_thread = thread_mpsc, net_process = process_mpsc, net_serde = ref_bytes, net_fmt = (\<lambda>_. []) \<rparr>"

definition rn_env :: "(nat \<Rightarrow> unit InterProcessMessage list) \<Rightarrow> nat \<Rightarrow> ('in, 'b) ref_node \<Rightarrow> ('in, 'b) ref_node" where
  "rn_env news closes w =
     w \<lparr> rn_clock := Suc (rn_clock w), rn_delay := rn_delay w - 1,
         rn_process := (let ch = rn_process w 0 in (rn_process w)(0 :=
           if ch_tx ch then ch \<lparr> ch_items := ch_items ch @ news (rn_clock w), ch_tx := rn_clock w < closes \<rparr> else ch)) \<rparr>"

lemma rn_network: "network (rn_net u) (\<lambda>w h. ch_items (rn_thread w h)) (\<lambda>w h. ch_rx (rn_thread w h)) (\<lambda>w h. ch_tx (rn_thread w h))
    (\<lambda>w h. ch_items (rn_process w h)) (\<lambda>w h. ch_rx (rn_process w h)) (\<lambda>w h. ch_tx (rn_process w h))"
proof (intro network.intro network_axioms.intro)
  show "unbounded_channel (net_thread (rn_net u)) (\<lambda>w h. ch_items (rn_thread w h)) (\<lambda>w h. ch_rx (rn_thread w h)) (\<lambda>w h. ch_tx (rn_thread w h))"
    using chans_in_unbounded[of rn_thread "\<lambda>c. rn_thread_update (\<lambda>_. c)"] by (simp add: rn_net_def)
  show "unbounded_channel (net_process (rn_net u)) (\<lambda>w h. ch_items (rn_process w h)) (\<lambda>w h. ch_rx (rn_process w h)) (\<lambda>w h. ch_tx (rn_process w h))"
    using chans_in_unbounded[of rn_process "\<lambda>c. rn_process_update (\<lambda>_. c)"] by (simp add: rn_net_def)
qed (auto simp: rn_net_def chans_in_def split: prod.splits)

text \<open>A node whose sender is idle: its channel has been closed.\<close>

definition idle_env :: "('in, 'b) ref_node \<Rightarrow> ('in, 'b) ref_node" where
  "idle_env w = w \<lparr> rn_delay := rn_delay w - 1 \<rparr>"

interpretation rn_feed: fed_channel process_mpsc "\<lambda>w h. ch_items (rn_process w h)" "\<lambda>w h. ch_rx (rn_process w h)"
    "\<lambda>w h. ch_tx (rn_process w h)" "rn_env news closes" rn_clock news closes 0 rn_written for news closes
proof (intro fed_channel.intro fed_channel_axioms.intro)
  show "unbounded_channel process_mpsc (\<lambda>w h. ch_items (rn_process w h)) (\<lambda>w h. ch_rx (rn_process w h)) (\<lambda>w h. ch_tx (rn_process w h))"
    by (rule chans_in_unbounded) simp_all
qed (auto simp: rn_env_def Let_def chans_in_def chans_recv_def split: list.splits if_splits)

interpretation rn_delivery: delivering_task pushers_mpsc "\<lambda>w h. ch_items (rn_pushers w h)" "\<lambda>w h. ch_rx (rn_pushers w h)"
    "\<lambda>w h. ch_tx (rn_pushers w h)" rn_net "\<lambda>w h. ch_items (rn_thread w h)" "\<lambda>w h. ch_rx (rn_thread w h)" "\<lambda>w h. ch_tx (rn_thread w h)"
    "\<lambda>w h. ch_items (rn_process w h)" "\<lambda>w h. ch_rx (rn_process w h)" "\<lambda>w h. ch_tx (rn_process w h)" rn_input 0
proof (intro delivering_task.intro delivering_task_axioms.intro)
  show "unbounded_channel pushers_mpsc (\<lambda>w h. ch_items (rn_pushers w h)) (\<lambda>w h. ch_rx (rn_pushers w h)) (\<lambda>w h. ch_tx (rn_pushers w h))"
    by (rule chans_in_unbounded) simp_all
qed (rule rn_network, auto simp: queued_def receiver_alive_def fun_eq_iff chans_in_def endpoint_send_def rn_net_def
    split: prod.splits SendEndpoint.splits sum.splits)

definition example_node :: "'in \<Rightarrow> ('in, 'b) ref_node" where
  "example_node i = \<lparr> rn_thread = (\<lambda>_. chan_new), rn_process = (\<lambda>_. chan_new), rn_pushers = (\<lambda>_. chan_new), rn_control = (\<lambda>_. chan_new),
     rn_input = i, rn_delay = 2, rn_clock = 0, rn_written = [] \<rparr>"

definition example_sender :: "'k \<Rightarrow> ('k, nat, nat) DataSender" where
  "example_sender k = \<lparr> ds_node_id = 1, ds_sink = k, ds_rx = 0, ds_control_tx = 0, ds_control_rx = 1 \<rparr>"

definition example_receiver :: "'k \<Rightarrow> ('k, nat, unit \<times> (nat, nat) Pusher, nat) DataReceiver" where
  "example_receiver k = \<lparr> dr_node_id = 0, dr_stream = k, dr_rx = 0,
     stream_id_to_pusher = [(7, (), \<lparr> endpoints = [InterThread 3, InterThread 4] \<rparr>)], dr_control_tx = 0, dr_control_rx = 1 \<rparr>"

definition example_news :: "nat \<Rightarrow> unit InterProcessMessage list" where
  "example_news t = (if t < 2 then [new_deserialized (serializable (\<lambda>_. []) ref_bytes [of_nat t]) 7] else [])"

lemmas example_defs = example_sender_def example_receiver_def example_node_def chan_new_def

lemma rn_net_serializer: "serializer (net_serde (rn_net ty))"
  by (simp add: rn_net_def ref_bytes_serializer)

lemma example_notify:
  "mpsc_send control_mpsc 0 m w = (if ch_rx (rn_control w 0)
     then (w \<lparr> rn_control := (rn_control w)(0 := (rn_control w 0) \<lparr> ch_items := ch_items (rn_control w 0) @ [m] \<rparr>) \<rparr>, Inr ())
     else (w, Inl (SendError m)))"
  by (simp add: chans_in_def chans_send_def)

text \<open>The state of an example node after its task has told the control handler that it is ready.\<close>

abbreviation notified :: "('in, 'b) ref_node \<Rightarrow> ControlMessage \<Rightarrow> ('in, 'b) ref_node" where
  "notified w m \<equiv> w \<lparr> rn_control := (rn_control w)(0 := chan_new \<lparr> ch_items := [m] \<rparr>) \<rparr>"

lemma example_start:
  "mpsc_send control_mpsc (ds_control_tx (example_sender k)) (DataSenderInitialized (ds_node_id (example_sender k))) (example_node i) =
     (notified (example_node i) (DataSenderInitialized 1), Inr ())"
  "mpsc_send control_mpsc (dr_control_tx (example_receiver k)) (DataReceiverInitialized (dr_node_id (example_receiver k))) (example_node i) =
     (notified (example_node i) (DataReceiverInitialized 0), Inr ())"
  by (simp_all add: example_notify example_defs)

lemma example_messages:
  "ch_items (rn_process (notified (example_node i) m) (ds_rx (example_sender k))) @
     concat (map example_news [rn_clock (notified (example_node i) m)..<Suc 3]) =
   map (\<lambda>(sid, d). new_deserialized (serializable (\<lambda>_. []) (net_serde (rn_net ())) d) sid) [(7, [0]), (7, [1])]"
  by (simp add: example_defs example_news_def rn_net_def upt_rec)

lemma example_ok: "\<forall>(sid, d) \<in> set [(7, [0]), (7, [1])]. \<exists>bs. encode (net_serde (rn_net ())) d = Inr bs \<and> length bs < 2 ^ 32"
  by (simp add: rn_net_def ref_bytes_encode)

lemma example_arrivals:
  "queued (\<lambda>w h. ch_items (rn_thread w h)) (\<lambda>w h. ch_items (rn_process w h)) (notified (example_node i) m) (Inl 4) @
     concat (map (arrivals rn_net (stream_id_to_pusher (example_receiver k)) (Inl 4)) [(7, [0]), (7, [1])]) = [Inl [0], Inl [1]]"
  by (simp add: queued_def arrivals_def example_defs)

end
