(* ===== verification/Tcp_Properties.thy ===== *)
theory Tcp_Properties
  imports Task_Loops Codec_Properties
begin

text \<open>
  What the TCP tasks guarantee. The locales state what they rely on: \<open>sending_task\<close> that \<^verbatim>\<open>Framed\<close> writes what the codec
  encodes, \<open>receiving_task\<close> that its other half decodes what arrives, in chunks and with delays, until the connection is
  closed. From them follow the messages a sender writes, what a receiver delivers, and both together.
\<close>

section \<open>Senders\<close>

locale sending_task = fed_channel C contents rx_open tx_open env clock news closes rx written
  for C :: "('w, 'x, 'm) mpsc" and contents rx_open tx_open env clock news closes rx and written :: "'w \<Rightarrow> bytes" +
  fixes F :: "('w, 'k, 'm, 'e) framed" and enc :: "'m \<Rightarrow> bytes \<Rightarrow> (bytes \<times> ('e CodecError + unit)) option" and sink :: 'k
  assumes sink_writes: "enc m [] = Some (bs, Inr ()) \<Longrightarrow> \<exists>w'. sink_send F sink m w = Some (w', Inr ()) \<and>
      written w' = written w @ bs \<and> contents w' rx = contents w rx \<and> tx_open w' rx = tx_open w rx \<and> clock w' = clock w"
begin

lemma forward_loop_writes:
  assumes "tx_open w rx \<Longrightarrow> clock w \<le> closes" and "\<forall>m \<in> set (arriving w). enc m [] = Some (frame m, Inr ())"
  shows "\<exists>w'. forward_loop C F env rx sink w = Some (w', Inl Disconnected) \<and> written w' = written w @ concat (map frame (arriving w))"
proof (rule loop_sends_all[where ok = "\<lambda>m. enc m [] = Some (frame m, Inr ())", OF _ _ _ assms])
  fix w w1 m
  assume recv: "mpsc_recv C rx w = Some (w1, Some m)" and "enc m [] = Some (frame m, Inr ())"
  from sink_writes[OF this(2), of w1] recv
  show "\<exists>w2. forward_loop C F env rx sink w = forward_loop C F env rx sink (env w2) \<and> written w2 = written w1 @ frame m \<and>
      contents w2 rx = contents w1 rx \<and> tx_open w2 rx = tx_open w1 rx \<and> clock w2 = clock w1"
    by (subst forward_loop.simps) auto
qed (subst forward_loop.simps, simp)+

end

section \<open>The other end of a connection\<close>

text \<open>
  What \<^verbatim>\<open>Framed\<close> does to return the next item, on the state of the decoder, the bytes it has buffered and the
  chunks that arrive until the connection is closed; bytes that are left over at the end are an error.
\<close>

fun pull ::
    "('s \<Rightarrow> bytes \<Rightarrow> (('s \<times> bytes) \<times> ('e + 'm option)) option) \<Rightarrow> 'e \<Rightarrow> 's \<times> bytes \<Rightarrow> bytes list \<Rightarrow>
       (('s \<times> bytes) \<times> bytes list \<times> ('e + 'm) option) option" where
  "pull dec leftover (st, buf) [] =
     (case dec st buf of
        None \<Rightarrow> None
      | Some (p, Inl e) \<Rightarrow> Some (p, [], Some (Inl e))
      | Some (p, Inr (Some m)) \<Rightarrow> Some (p, [], Some (Inr m))
      | Some ((st, buf), Inr None) \<Rightarrow> Some ((st, buf), [], if buf = [] then None else Some (Inl leftover)))"
| "pull dec leftover (st, buf) (c # chunks) =
     (case dec st buf of
        None \<Rightarrow> None
      | Some (p, Inl e) \<Rightarrow> Some (p, c # chunks, Some (Inl e))
      | Some (p, Inr (Some m)) \<Rightarrow> Some (p, c # chunks, Some (Inr m))
      | Some ((st, buf), Inr None) \<Rightarrow> pull dec leftover (st, buf @ c) chunks)"

context framing
begin

text \<open>The decoder, its buffer and the chunks to come stand for the frames of \<open>xs\<close>.\<close>

definition holds_frames :: "'s \<times> bytes \<Rightarrow> bytes list \<Rightarrow> 'x list \<Rightarrow> bool" where
  "holds_frames p chunks xs \<longleftrightarrow>
     (\<forall>ext. dec (fst p) (snd p @ concat chunks @ ext) = dec start (concat (map frame xs) @ ext))"

lemma holds_frames_start: "concat chunks = concat (map frame xs) \<Longrightarrow> holds_frames (start, []) chunks xs"
  by (metis append_Nil append_assoc fst_conv holds_frames_def snd_conv)

lemma holds_frames_item:
  assumes "holds_frames (st, buf) chunks xs" "list_all ok xs" "dec st buf = Some (p, Inr (Some m))"
  obtains x xs' where "xs = x # xs'" "m = item x" "holds_frames p chunks xs'"
proof -
  obtain st' buf' where p: "p = (st', buf')" by (cases p)
  note item = dec_item[OF assms(3)[unfolded p]]
  show thesis
  proof (cases xs)
    case Nil
    with assms(1) item[of "concat chunks"] dec_empty show thesis by (auto simp: holds_frames_def dest: spec[of _ "[]"])
  next
    case (Cons x xs')
    with assms(2) have "ok x" by simp
    have "Some ((st', buf' @ concat chunks @ ext), Inr (Some m)) = Some ((start, concat (map frame xs') @ ext), Inr (Some (item x)))" for ext
      using assms(1) item[of "concat chunks @ ext"] dec_frame[OF \<open>ok x\<close>, of "concat (map frame xs') @ ext"] Cons
      by (auto simp: holds_frames_def)
    from this[of "[]"] have "m = item x" "holds_frames p chunks xs'" by (simp_all add: holds_frames_def p flip: append_assoc)
    with Cons show thesis by (rule that)
  qed
qed

lemma holds_frames_sane:
  assumes "holds_frames (st, buf) chunks xs" "list_all ok xs"
  shows "\<exists>p r. dec st buf = Some (p, Inr r)"
proof -
  have "\<exists>p r. dec start (concat (map frame xs)) = Some (p, Inr r)"
    using assms(2) dec_empty dec_frame[of "hd xs" "concat (map frame (tl xs))"] by (cases xs) auto
  then obtain p r where "dec st (buf @ concat chunks) = Some (p, Inr r)"
    using assms(1) by (auto simp: holds_frames_def dest: spec[of _ "[]"])
  then show ?thesis
    using dec_panic[of st buf "concat chunks"] dec_err[of st buf _ _ _ "concat chunks"]
    by (cases "dec st buf") (auto, metis Inl_Inr_False old.sum.exhaust option.inject prod.inject)
qed

lemma pull_frames:
  assumes "holds_frames p chunks xs" "list_all ok xs"
  shows "\<exists>p' chunks'. pull dec leftover p chunks = Some (p', chunks', case xs of [] \<Rightarrow> None | x # _ \<Rightarrow> Some (Inr (item x))) \<and>
    (xs \<noteq> [] \<longrightarrow> holds_frames p' chunks' (tl xs))"
  using assms(1)
proof (induction chunks arbitrary: p)
  case Nil
  obtain st buf where p: "p = (st, buf)" by (cases p)
  note holds = Nil[unfolded p]
  from holds_frames_sane[OF holds assms(2)] obtain st' buf' r where r: "dec st buf = Some ((st', buf'), Inr r)" by auto
  show ?case
  proof (cases r)
    case None
    have "dec st buf = dec start (concat (map frame xs))"
      using holds by (auto simp: holds_frames_def dest: spec[of _ "[]"])
    with r None have "xs = [] \<and> buf' = []"
      using assms(2) dec_empty dec_frame[of "hd xs" "concat (map frame (tl xs))"] by (cases xs) auto
    with r None show ?thesis by (simp add: p)
  next
    case (Some m)
    with r have dec: "dec st buf = Some ((st', buf'), Inr (Some m))" by simp
    from holds_frames_item[OF holds assms(2) dec] show ?thesis by cases (simp add: p dec)
  qed
next
  case (Cons c chunks)
  obtain st buf where p: "p = (st, buf)" by (cases p)
  note holds = Cons.prems[unfolded p]
  from holds_frames_sane[OF holds assms(2)] obtain st' buf' r where r: "dec st buf = Some ((st', buf'), Inr r)" by auto
  show ?case
  proof (cases r)
    case None
    with r have "holds_frames (st', buf' @ c) chunks xs"
      using holds dec_more[of st buf st' buf'] by (simp add: holds_frames_def)
    from Cons.IH[OF this] r None show ?thesis by (simp add: p)
  next
    case (Some m)
    with r have dec: "dec st buf = Some ((st', buf'), Inr (Some m))" by simp
    from holds_frames_item[OF holds assms(2) dec] show ?thesis by cases (simp add: p dec)
  qed
qed

end

section \<open>Receivers\<close>

text \<open>
  The last law says what the rest of the program does while the receiver waits: time passes, and the channels that the
  theorem speaks of stay as they are. So the lists in the conclusion are what the receiver adds; readers that take messages
  out meanwhile are not covered.
\<close>

locale receiving_task = delivering_task R rc rrx rtx N tc trx ttx pc prx ptx input rx
  for R :: "('w, 'r, StreamId \<times> 'ty \<times> ('h, 'i) Pusher) mpsc" and rc rrx rtx
    and N :: "'ty \<Rightarrow> ('w, 'h, 'i, 'm, 'e) net" and tc trx ttx pc prx ptx
    and input :: "'w \<Rightarrow> (MessageCodec \<times> bytes) \<times> bytes list" and rx +
  fixes F :: "('w, 'k, 'e InterProcessMessage, 'e) framed" and W :: "'e wire" and leftover :: "'e CodecError"
    and delay :: "'w \<Rightarrow> nat" and env :: "'w \<Rightarrow> 'w" and stream :: 'k
  assumes next_waits: "0 < delay w \<Longrightarrow> stream_next F stream w = Some None"
    and next_ready: "delay w = 0 \<Longrightarrow> pull (codec_decode W) leftover (fst (input w)) (snd (input w)) = Some (p, chunks, res) \<Longrightarrow>
      \<exists>w'. stream_next F stream w = Some (Some (w', res)) \<and> input w' = (p, chunks) \<and> rc w' rx = rc w rx \<and>
        queued tc pc w' = queued tc pc w \<and> receiver_alive trx prx w' = receiver_alive trx prx w"
    and env_keeps: "input (env w) = input w \<and> delay (env w) = delay w - 1 \<and> rc (env w) rx = rc w rx \<and>
        queued tc pc (env w) = queued tc pc w \<and> receiver_alive trx prx (env w) = receiver_alive trx prx w"
begin

text \<open>Pushing the bytes of a message sends the message to every endpoint.\<close>

lemma push_delivers:
  assumes "serializer (net_serde (N ty))" "encode (net_serde (N ty)) d = Inr bs"
    and "\<forall>ep \<in> set (endpoints p). receiver_alive trx prx w (ep_channel ep)"
  shows "\<exists>w'. dyn_send_from_bytes N (ty, p) bs w = (w', Inr ()) \<and> delivers ty p d w w'"
proof -
  obtain m where "decode_msg (net_serde (N ty)) bs = Inr m" "deserialized m = d"
    using serializer.decode_encode[OF assms(1,2)] by (cases "decode_msg (net_serde (N ty)) bs") auto
  with pusher_send_delivers[OF assms(3), of ty d] no_endpoints_delivers[of p ty d w] show ?thesis
    by (cases "endpoints p = []") (auto simp: dyn_send_from_bytes_def send_from_bytes_tcp_def)
qed

text \<open>The frames of messages, as the decoder sees them.\<close>

definition frames_of :: "(StreamId \<Rightarrow> 'ty) \<Rightarrow> (StreamId \<times> 'm) list \<Rightarrow> (MessageMetadata \<times> bytes) list" where
  "frames_of kind = map (\<lambda>(sid, d). (MessageMetadata sid, projr (encode (net_serde (N (kind sid))) d)))"

lemma frames_of_simps:
  "frames_of kind [] = []"
  "frames_of kind (x # xs) = (MessageMetadata (fst x), projr (encode (net_serde (N (kind (fst x)))) (snd x))) # frames_of kind xs"
  by (simp_all add: frames_of_def split_beta)

lemma frames_ok:
  "\<forall>x \<in> set xs. deliverable kind known w x \<Longrightarrow> list_all (\<lambda>(md, payload). length payload < 2 ^ 32) (frames_of kind xs)"
  by (induction xs) (auto simp: frames_of_simps deliverable_def)

lemma receive_message_delivers:
  assumes "\<And>ty. serializer (net_serde (N ty))" "dr_rx self = rx"
    and known: "known = with_updates (rc w rx) (stream_id_to_pusher self)" and x: "deliverable kind known w x"
  shows "\<exists>w'. receive_message R (dyn_send_from_bytes N) (Serialized (MessageMetadata (fst x)) (projr (encode (net_serde (N (kind (fst x)))) (snd x)))) self w =
      Some ((self \<lparr> stream_id_to_pusher := known \<rparr>, w'), Inr ()) \<and> input w' = input w \<and> rc w' rx = [] \<and>
    receiver_alive trx prx w' = receiver_alive trx prx w \<and> (\<forall>c. queued tc pc w' c = queued tc pc w c @ arrivals N known c x)"
proof -
  from update_pushers_all[of "stream_id_to_pusher self" w] obtain w1 where
    w1: "update_pushers R rx (stream_id_to_pusher self) w = Some (known, w1)" "rc w1 rx = []" "input w1 = input w"
      "queued tc pc w1 = queued tc pc w" "receiver_alive trx prx w1 = receiver_alive trx prx w" unfolding known by blast
  from x obtain bs p where bs: "encode (net_serde (N (kind (fst x)))) (snd x) = Inr bs"
    and p: "map_of known (fst x) = Some (kind (fst x), p)" "\<forall>ep \<in> set (endpoints p). receiver_alive trx prx w (ep_channel ep)"
    by (auto simp: deliverable_def)
  from push_delivers[OF assms(1) bs, of p w1] p(2) w1(5) obtain w2 where
    w2: "dyn_send_from_bytes N (kind (fst x), p) bs w1 = (w2, Inr ())" "delivers (kind (fst x)) p (snd x) w1 w2" by auto
  with w1 bs p(1) assms(2) show ?thesis by (simp add: receive_message_def arrivals_def delivers_def)
qed

lemma receive_loop_waits:
  assumes "dr_stream self = stream"
  shows "\<exists>w'. receive_loop R F push env self w = receive_loop R F push env self w' \<and> delay w' = 0 \<and> input w' = input w \<and>
    rc w' rx = rc w rx \<and> queued tc pc w' = queued tc pc w \<and> receiver_alive trx prx w' = receiver_alive trx prx w"
proof (induction "delay w" arbitrary: w)
  case 0
  then show ?case by auto
next
  case (Suc n)
  then have "0 < delay w" by simp
  then have "receive_loop R F push env self w = receive_loop R F push env self (env w)"
    by (subst receive_loop.simps) (simp add: next_waits assms)
  with Suc.hyps(1)[of "env w"] Suc.hyps(2) env_keeps[of w] show ?case by auto
qed

lemma receive_loop_delivers:
  assumes wire: "wire_format W" and ser: "\<And>ty. serializer (net_serde (N ty))"
    and "dr_rx self = rx" "dr_stream self = stream" "known = with_updates (rc w rx) (stream_id_to_pusher self)"
    and "\<forall>x \<in> set xs. deliverable kind known w x"
    and "framing.holds_frames (codec_decode W) message_codec_new (\<lambda>(md, p). message_frame W md p)
      (fst (input w)) (snd (input w)) (frames_of kind xs)"
  shows "\<exists>self' w'. receive_loop R F (dyn_send_from_bytes N) env self w = Some ((self', w'), Inr ()) \<and>
    (\<forall>c. queued tc pc w' c = queued tc pc w c @ concat (map (arrivals N known c) xs))"
  using assms(3-7)
proof (induction xs arbitrary: w self)
  note frames = message_framing[OF wire]
  case Nil
  from receive_loop_waits[OF Nil.prems(2), of "dyn_send_from_bytes N" w] obtain w0 where
    w0: "receive_loop R F (dyn_send_from_bytes N) env self w = receive_loop R F (dyn_send_from_bytes N) env self w0"
      "delay w0 = 0" "input w0 = input w" "queued tc pc w0 = queued tc pc w" by blast
  from framing.pull_frames[OF frames Nil.prems(5), of leftover] obtain p chunks where
    "pull (codec_decode W) leftover (fst (input w)) (snd (input w)) = Some (p, chunks, None)" by (auto simp: frames_of_simps)
  from next_ready[OF w0(2), of p chunks None] this w0(3) obtain w1 where
    "stream_next F stream w0 = Some (Some (w1, None))" "queued tc pc w1 = queued tc pc w0" by auto
  with w0 Nil.prems(2) show ?case by (subst w0(1), subst receive_loop.simps) simp
next
  note frames = message_framing[OF wire]
  case (Cons x xs)
  let ?bs = "projr (encode (net_serde (N (kind (fst x)))) (snd x))"
  from receive_loop_waits[OF Cons.prems(2), of "dyn_send_from_bytes N" w] obtain w0 where
    w0: "receive_loop R F (dyn_send_from_bytes N) env self w = receive_loop R F (dyn_send_from_bytes N) env self w0"
      "delay w0 = 0" "input w0 = input w" "queued tc pc w0 = queued tc pc w" "rc w0 rx = rc w rx"
      "receiver_alive trx prx w0 = receiver_alive trx prx w" by blast
  from framing.pull_frames[OF frames Cons.prems(5) frames_ok[OF Cons.prems(4)], of leftover] obtain p chunks where
    pull: "pull (codec_decode W) leftover (fst (input w)) (snd (input w)) =
        Some (p, chunks, Some (Inr (Serialized (MessageMetadata (fst x)) ?bs)))"
      "framing.holds_frames (codec_decode W) message_codec_new (\<lambda>(md, p). message_frame W md p) p chunks (frames_of kind xs)"
    by (auto simp: frames_of_simps)
  from next_ready[OF w0(2), of p chunks] pull(1) w0(3) obtain w1 where
    w1: "stream_next F stream w0 = Some (Some (w1, Some (Inr (Serialized (MessageMetadata (fst x)) ?bs))))"
      "input w1 = (p, chunks)" "rc w1 rx = rc w rx" "queued tc pc w1 = queued tc pc w"
      "receiver_alive trx prx w1 = receiver_alive trx prx w"
    using w0 by auto
  have "deliverable kind known w1 x" using Cons.prems(4) w1(5) by (simp add: deliverable_def)
  with receive_message_delivers[OF ser Cons.prems(1), of known w1 kind x] Cons.prems(3) w1 obtain w2 where
    w2: "receive_message R (dyn_send_from_bytes N) (Serialized (MessageMetadata (fst x)) ?bs) self w1 =
        Some ((self \<lparr> stream_id_to_pusher := known \<rparr>, w2), Inr ())" "input w2 = (p, chunks)" "rc w2 rx = []"
      "receiver_alive trx prx w2 = receiver_alive trx prx w" "\<forall>c. queued tc pc w2 c = queued tc pc w c @ arrivals N known c x"
    by auto
  have step: "receive_loop R F (dyn_send_from_bytes N) env self w =
      receive_loop R F (dyn_send_from_bytes N) env (self \<lparr> stream_id_to_pusher := known \<rparr>) (env w2)"
    unfolding w0(1) by (subst receive_loop.simps) (simp add: w1(1) w2(1) Cons.prems(2))
  have "\<forall>x \<in> set xs. deliverable kind known (env w2) x"
    using Cons.prems(4) w2(4) env_keeps[of w2] by (simp add: deliverable_def)
  with Cons.IH[of "self \<lparr> stream_id_to_pusher := known \<rparr>" "env w2"] Cons.prems(1,2) w2 pull(2) env_keeps[of w2]
  obtain self' w' where "receive_loop R F (dyn_send_from_bytes N) env (self \<lparr> stream_id_to_pusher := known \<rparr>) (env w2) = Some ((self', w'), Inr ())"
      "\<forall>c. queued tc pc w' c = queued tc pc (env w2) c @ concat (map (arrivals N known c) xs)"
    by (auto simp: with_updates_def)
  with step w2(5) env_keeps[of w2] show ?case by simp
qed

end

section \<open>Reference connections\<close>

type_synonym tcp_ref_node = "((MessageCodec \<times> bytes) \<times> bytes list, u8) ref_node"

definition rn_framed :: "(tcp_ref_node, unit, unit InterProcessMessage, unit) framed" where
  "rn_framed =
     \<lparr> sink_send = (\<lambda>_ m w. map_option (\<lambda>(bs, r). (if is_ok r then w \<lparr> rn_written := rn_written w @ bs \<rparr> else w, r))
         (codec_encode ref_wire m [])),
       stream_next = (\<lambda>_ w. if 0 < rn_delay w then Some None
         else (case pull (codec_decode ref_wire) malformed (fst (rn_input w)) (snd (rn_input w)) of
                 None \<Rightarrow> None
               | Some (p, chunks, r) \<Rightarrow> Some (Some (w \<lparr> rn_input := (p, chunks), rn_delay := 1 \<rparr>, r)))) \<rparr>"

interpretation ref_sender: sending_task process_mpsc "\<lambda>w h. ch_items (rn_process w h)" "\<lambda>w h. ch_rx (rn_process w h)"
    "\<lambda>w h. ch_tx (rn_process w h)" "rn_env news closes" rn_clock news closes 0 rn_written rn_framed "codec_encode ref_wire" "()"
    for news closes
  by (intro sending_task.intro sending_task_axioms.intro rn_feed.fed_channel_axioms) (auto simp: rn_framed_def)

interpretation ref_receiver: receiving_task pushers_mpsc "\<lambda>w h. ch_items (rn_pushers w h)" "\<lambda>w h. ch_rx (rn_pushers w h)"
    "\<lambda>w h. ch_tx (rn_pushers w h)" rn_net "\<lambda>w h. ch_items (rn_thread w h)" "\<lambda>w h. ch_rx (rn_thread w h)" "\<lambda>w h. ch_tx (rn_thread w h)"
    "\<lambda>w h. ch_items (rn_process w h)" "\<lambda>w h. ch_rx (rn_process w h)" "\<lambda>w h. ch_tx (rn_process w h)"
    rn_input 0 rn_framed ref_wire malformed rn_delay idle_env "()"
  by (intro receiving_task.intro receiving_task_axioms.intro rn_delivery.delivering_task_axioms)
    (auto simp: rn_framed_def idle_env_def queued_def receiver_alive_def fun_eq_iff split: sum.splits)

section \<open>Properties\<close>

lemma forward_data:
  assumes "sending_task D contents rx_open tx_open env clock news closes rx written F (codec_encode W) sink"
    and "wire_format W" "\<And>ty. serializer (L ty)" "tx_open w rx" "clock w \<le> closes" "written w = []"
    and "contents w rx @ concat (map news [clock w..<Suc closes]) =
      map (\<lambda>(sid, d). new_deserialized (serializable fmt (L (kind sid)) d) sid) xs"
    and "\<forall>(sid, d) \<in> set xs. \<exists>bs. encode (L (kind sid)) d = Inr bs"
  shows "\<exists>w'. forward_loop D F env rx sink w = Some (w', Inl Disconnected) \<and> written w' =
    concat (map (\<lambda>(sid, d). message_frame W (MessageMetadata sid) (projr (encode (L (kind sid)) d))) xs)"
proof -
  let ?frame = "\<lambda>m. fst (the (codec_encode W m []))"
  let ?msg = "\<lambda>(sid, d). new_deserialized (serializable fmt (L (kind sid)) d) sid"
  have enc: "codec_encode W (?msg x) [] = Some (message_frame W (MessageMetadata (fst x)) (projr (encode (L (kind (fst x))) (snd x))), Inr ())"
    if "x \<in> set xs" for x
    using that assms(8) encode_message_frame[OF assms(2,3)] by fastforce
  have arr: "fed_channel.arriving contents tx_open clock news closes rx w = map ?msg xs"
    using assms(4,7) by (simp add: fed_channel.arriving_def[OF sending_task.axioms(1)[OF assms(1)]])
  have "\<forall>m \<in> set (map ?msg xs). codec_encode W m [] = Some (?frame m, Inr ())" using enc by simp
  with sending_task.forward_loop_writes[OF assms(1), of w ?frame] assms(5,6) arr
  have "\<exists>w'. forward_loop D F env rx sink w = Some (w', Inl Disconnected) \<and> written w' = concat (map ?frame (map ?msg xs))"
    by simp
  moreover have "map ?frame (map ?msg xs) =
      map (\<lambda>(sid, d). message_frame W (MessageMetadata sid) (projr (encode (L (kind sid)) d))) xs"
    using enc by auto
  ultimately show ?thesis by (simp only:)
qed

text \<open>C16. Messages for another node arrive there, each at every endpoint of its stream, in the order in which they were
  put on the sender's channel. Once all handles to its channel are dropped the data sender has written every message to
  the connection; it ends with the error that the channel is disconnected. However the network cuts the bytes
  and whatever the delays, the data receiver of the other node ends without an error, and the channel of each local reader
  has gained exactly the messages of the streams it reads, in order, once per endpoint. Relied on: the documented behaviour of the
  channels, of \<^verbatim>\<open>Framed\<close> and of the serialization libraries; that the messages serialize to less than \<open>2 ^ 32\<close> bytes; that
  the receiver has been given a pusher of the right type for each stream, that the readers are alive, and that the other tasks of the
  receiving node do not touch the channels of the readers and give the receiver no new pushers while it runs.\<close>

theorem tcp_delivery:
  assumes snd: "sending_task D contents rx_open tx_open env1 clock news closes (ds_rx sender) written F1 (codec_encode W) (ds_sink sender)"
    and rcv: "receiving_task R rc rrx rtx N tc trx ttx pc prx ptx input (dr_rx receiver) F2 W leftover delay env2 (dr_stream receiver)"
    and libs: "wire_format W" "\<And>ty. serializer (net_serde (N ty))"
    and start1: "mpsc_send C1 (ds_control_tx sender) (DataSenderInitialized (ds_node_id sender)) v0 = (v, Inr ())"
      "tx_open v (ds_rx sender)" "clock v \<le> closes" "written v = []"
    and msgs: "contents v (ds_rx sender) @ concat (map news [clock v..<Suc closes]) =
      map (\<lambda>(sid, d). new_deserialized (serializable fmt (net_serde (N (kind sid))) d) sid) xs"
    and ok: "\<forall>(sid, d) \<in> set xs. \<exists>bs. encode (net_serde (N (kind sid))) d = Inr bs \<and> length bs < 2 ^ 32"
  shows "\<exists>v'. data_sender_run C1 D F1 env1 sender v0 = Some (v', Inl Disconnected) \<and>
    (\<forall>chunks w0 w known. concat chunks = written v' \<longrightarrow>
      mpsc_send C2 (dr_control_tx receiver) (DataReceiverInitialized (dr_node_id receiver)) w0 = (w, Inr ()) \<longrightarrow>
      input w = ((message_codec_new, []), chunks) \<longrightarrow> known = with_updates (rc w (dr_rx receiver)) (stream_id_to_pusher receiver) \<longrightarrow>
      (\<forall>(sid, d) \<in> set xs. \<exists>p. map_of known sid = Some (kind sid, p) \<and> (\<forall>ep \<in> set (endpoints p). receiver_alive trx prx w (ep_channel ep))) \<longrightarrow>
      (\<exists>receiver' w'. data_receiver_run C2 R F2 (dyn_send_from_bytes N) env2 receiver w0 = Some ((receiver', w'), Inr ()) \<and>
        (\<forall>c. queued tc pc w' c = queued tc pc w c @ concat (map (arrivals N known c) xs))))"
proof -
  have "\<forall>(sid, d) \<in> set xs. \<exists>bs. encode (net_serde (N (kind sid))) d = Inr bs" using ok by auto
  from forward_data[where L = "\<lambda>ty. net_serde (N ty)", OF snd libs start1(2-4) msgs this] obtain v' where
    v': "forward_loop D F1 env1 (ds_rx sender) (ds_sink sender) v = Some (v', Inl Disconnected)" "written v' =
      concat (map (\<lambda>(sid, d). message_frame W (MessageMetadata sid) (projr (encode (net_serde (N (kind sid))) d))) xs)" by blast
  have "\<exists>receiver' w'. data_receiver_run C2 R F2 (dyn_send_from_bytes N) env2 receiver w0 = Some ((receiver', w'), Inr ()) \<and>
        (\<forall>c. queued tc pc w' c = queued tc pc w c @ concat (map (arrivals N known c) xs))"
    if "concat chunks = written v'"
      and start2: "mpsc_send C2 (dr_control_tx receiver) (DataReceiverInitialized (dr_node_id receiver)) w0 = (w, Inr ())"
      and "input w = ((message_codec_new, []), chunks)" and known: "known = with_updates (rc w (dr_rx receiver)) (stream_id_to_pusher receiver)"
      and alive: "\<forall>(sid, d) \<in> set xs. \<exists>p. map_of known sid = Some (kind sid, p) \<and>
        (\<forall>ep \<in> set (endpoints p). receiver_alive trx prx w (ep_channel ep))" for chunks w0 w known
  proof -
    let ?ps = "receiving_task.frames_of N kind xs"
    have "concat chunks = concat (map (\<lambda>(md, p). message_frame W md p) ?ps)"
      using that(1) v'(2) by (simp add: receiving_task.frames_of_def[OF rcv] comp_def case_prod_unfold)
    from framing.holds_frames_start[OF message_framing[OF libs(1)] this] that(3)
    have "framing.holds_frames (codec_decode W) message_codec_new (\<lambda>(md, p). message_frame W md p) (fst (input w)) (snd (input w)) ?ps" by simp
    from receiving_task.receive_loop_delivers[OF rcv libs refl refl known _ this] ok alive start2
    show ?thesis by (simp add: data_receiver_run_def delivering_task.deliverable_def[OF receiving_task.axioms(1)[OF rcv]] split_beta)
  qed
  with v'(1) start1(1) show ?thesis by (simp add: data_sender_run_def)
qed

lemma example_sending: "sending_task process_mpsc (\<lambda>w h. ch_items (rn_process w h)) (\<lambda>w h. ch_rx (rn_process w h))
    (\<lambda>w h. ch_tx (rn_process w h)) (rn_env example_news 3) rn_clock example_news 3 (ds_rx (example_sender ())) rn_written
    rn_framed (codec_encode ref_wire) (ds_sink (example_sender ()))"
  using ref_sender.sending_task_axioms[of example_news 3] by (simp add: example_sender_def)

lemma example_receiving: "receiving_task pushers_mpsc (\<lambda>w h. ch_items (rn_pushers w h)) (\<lambda>w h. ch_rx (rn_pushers w h))
    (\<lambda>w h. ch_tx (rn_pushers w h)) rn_net (\<lambda>w h. ch_items (rn_thread w h)) (\<lambda>w h. ch_rx (rn_thread w h)) (\<lambda>w h. ch_tx (rn_thread w h))
    (\<lambda>w h. ch_items (rn_process w h)) (\<lambda>w h. ch_rx (rn_process w h)) (\<lambda>w h. ch_tx (rn_process w h))
    rn_input (dr_rx (example_receiver ())) rn_framed ref_wire malformed rn_delay idle_env (dr_stream (example_receiver ()))"
  using ref_receiver.receiving_task_axioms by (simp add: example_receiver_def)

theorem tcp_delivery_witness:
  "\<exists>v'. data_sender_run control_mpsc process_mpsc rn_framed (rn_env example_news 3) (example_sender ()) (example_node ((message_codec_new, []), [])) =
      Some (v', Inl Disconnected) \<and>
    (\<exists>receiver' w'. data_receiver_run control_mpsc pushers_mpsc rn_framed (dyn_send_from_bytes rn_net) idle_env (example_receiver ())
        (example_node ((message_codec_new, []), [take 5 (rn_written v'), drop 5 (rn_written v')])) = Some ((receiver', w'), Inr ()) \<and>
      queued (\<lambda>w h. ch_items (rn_thread w h)) (\<lambda>w h. ch_items (rn_process w h)) w' (Inl 4) = [Inl [0], Inl [1]])"
proof -
  let ?node = "example_node ((message_codec_new, []), []) :: tcp_ref_node"
  let ?v = "notified ?node (DataSenderInitialized 1)" and ?xs = "[(7, [0]), (7, [1])] :: (StreamId \<times> bytes) list"
  let ?N = "rn_net :: unit \<Rightarrow> (tcp_ref_node, nat, nat, bytes, unit) net"
  have start: "ch_tx (rn_process ?v (ds_rx (example_sender ())))" "rn_clock ?v \<le> 3" "rn_written ?v = []"
    by (simp_all add: example_defs)
  from tcp_delivery[where ?C2.0 = "control_mpsc :: (tcp_ref_node, nat, ControlMessage) mpsc", OF example_sending example_receiving ref_wire.wire_format_axioms rn_net_serializer example_start(1) start example_messages example_ok]
  obtain v' where v': "data_sender_run control_mpsc process_mpsc rn_framed (rn_env example_news 3) (example_sender ()) ?node = Some (v', Inl Disconnected)"
    and rest: "\<forall>chunks u u' known. concat chunks = rn_written v' \<longrightarrow>
      mpsc_send control_mpsc (dr_control_tx (example_receiver ())) (DataReceiverInitialized (dr_node_id (example_receiver ()))) u = (u', Inr ()) \<longrightarrow>
      rn_input u' = ((message_codec_new, []), chunks) \<longrightarrow>
      known = with_updates (ch_items (rn_pushers u' (dr_rx (example_receiver ())))) (stream_id_to_pusher (example_receiver ())) \<longrightarrow>
      (\<forall>(sid, d) \<in> set ?xs. \<exists>p. map_of known sid = Some ((), p) \<and>
        (\<forall>ep \<in> set (endpoints p). receiver_alive (\<lambda>w h. ch_rx (rn_thread w h)) (\<lambda>w h. ch_rx (rn_process w h)) u' (ep_channel ep))) \<longrightarrow>
      (\<exists>receiver' w'. data_receiver_run control_mpsc pushers_mpsc rn_framed (dyn_send_from_bytes rn_net) idle_env (example_receiver ()) u =
          Some ((receiver', w'), Inr ()) \<and>
        (\<forall>c. queued (\<lambda>w h. ch_items (rn_thread w h)) (\<lambda>w h. ch_items (rn_process w h)) w' c =
           queued (\<lambda>w h. ch_items (rn_thread w h)) (\<lambda>w h. ch_items (rn_process w h)) u' c @ concat (map (arrivals ?N known c) ?xs)))"
    by (elim exE conjE) (rule that)
  let ?chunks = "[take 5 (rn_written v'), drop 5 (rn_written v')]"
  let ?start = "example_node ((message_codec_new, []), ?chunks) :: tcp_ref_node"
  let ?w = "notified ?start (DataReceiverInitialized 0)"
  have "\<exists>receiver' w'. data_receiver_run control_mpsc pushers_mpsc rn_framed (dyn_send_from_bytes rn_net) idle_env (example_receiver ()) ?start =
          Some ((receiver', w'), Inr ()) \<and>
        (\<forall>c. queued (\<lambda>w h. ch_items (rn_thread w h)) (\<lambda>w h. ch_items (rn_process w h)) w' c =
           queued (\<lambda>w h. ch_items (rn_thread w h)) (\<lambda>w h. ch_items (rn_process w h)) ?w c @
           concat (map (arrivals ?N (stream_id_to_pusher (example_receiver ())) c) ?xs))"
    by (rule rest[rule_format, of ?chunks ?start ?w, OF _ example_start(2)]) (auto simp: example_defs with_updates_def receiver_alive_def)
  with v' example_arrivals show ?thesis by metis
qed

end
