(* ===== verification/Tcp_Connections.thy ===== *)
theory Tcp_Connections
  imports Tcp_Tasks Node Codec_Properties
begin

text \<open>
  The connections between nodes: the functions of \<^verbatim>\<open>src/src/communication/mod.rs\<close> that open them, and those of
  \<^verbatim>\<open>src/src/node/node.rs\<close> that make a sender and a receiver of each.

  Every pair of nodes gets one connection for data and one for control messages. The node with the higher id opens
  it and writes its id as the first four bytes. The operations of TCP and the joining of futures are parameters.
  \<open>None\<close> is a panic or an operation that does not return; logging, and the clock that limits it, are left out.
\<close>

section \<open>Opening connections\<close>

record ('w, 'addr, 'l, 'k, 'e) tcp =
  tcp_connect :: "'addr \<Rightarrow> 'w \<Rightarrow> 'w \<times> ('e foreign_error + 'k)"
  tcp_set_nodelay :: "'k \<Rightarrow> 'w \<Rightarrow> 'w option"
  tcp_write :: "'k \<Rightarrow> bytes \<Rightarrow> 'w \<Rightarrow> 'w \<times> ('e foreign_error + nat)"
  tcp_bind :: "'addr \<Rightarrow> 'w \<Rightarrow> 'w \<times> ('e foreign_error + 'l)"
  tcp_accept :: "'l \<Rightarrow> 'w \<Rightarrow> ('w \<times> ('e foreign_error + 'k)) option"
  tcp_read_exact :: "'k \<Rightarrow> nat \<Rightarrow> 'w \<Rightarrow> ('w \<times> ('e foreign_error + bytes)) option"
  delay_for :: "nat \<Rightarrow> 'w \<Rightarrow> 'w"

text \<open>A future, and the functions of \<^verbatim>\<open>futures\<close> that run several of them.\<close>

type_synonym ('w, 'e, 'a) future = "'w \<Rightarrow> ('w \<times> ('e foreign_error + 'a)) option"

record ('w, 'k, 'e) joins =
  join_connects :: "('w, 'e, 'k) future list \<Rightarrow> ('w, 'e, 'k list) future"
  join_reads :: "('w, 'e, NodeId \<times> 'k) future list \<Rightarrow> ('w, 'e, (NodeId \<times> 'k) list) future"
  join_both :: "('w, 'e, (NodeId \<times> 'k) list) future \<Rightarrow> ('w, 'e, (NodeId \<times> 'k) list) future \<Rightarrow>
     ('w, 'e, (NodeId \<times> 'k) list \<times> (NodeId \<times> 'k) list) future"

partial_function (option) send_node_id ::
    "('w, 'addr, 'l, 'k, 'e) tcp \<Rightarrow> 'k \<Rightarrow> bytes \<Rightarrow> ('w, 'e, 'k) future" where
  "send_node_id T stream buffer w =
     (case tcp_write T stream buffer w of
        (w, Inr _) \<Rightarrow> Some (w, Inr stream)
      | (w, Inl _) \<Rightarrow> send_node_id T stream buffer w)"

declare send_node_id.simps [code]

text \<open>The node id is cast to 32 bits.\<close>

definition greet :: "('w, 'addr, 'l, 'k, 'e) tcp \<Rightarrow> 'e wire \<Rightarrow> NodeId \<Rightarrow> 'k \<Rightarrow> ('w, 'e, 'k) future" where
  "greet T W n stream w =
     (case tcp_set_nodelay T stream w of
        None \<Rightarrow> None
      | Some w \<Rightarrow>
          (case w_write_u32 W (of_nat n) [] of
             (Inl e, _) \<Rightarrow> Some (w, Inl e)
           | (Inr _, buffer) \<Rightarrow> send_node_id T stream buffer w))"

partial_function (option) connect_to_node ::
    "('w, 'addr, 'l, 'k, 'e) tcp \<Rightarrow> 'e wire \<Rightarrow> 'addr \<Rightarrow> NodeId \<Rightarrow> ('w, 'e, 'k) future" where
  "connect_to_node T W dst_addr n w =
     (case tcp_connect T dst_addr w of
        (w, Inr stream) \<Rightarrow> greet T W n stream w
      | (w, Inl _) \<Rightarrow> connect_to_node T W dst_addr n (delay_for T 100 w))"

declare connect_to_node.simps [code]

definition connect_to_nodes ::
    "('w, 'addr, 'l, 'k, 'e) tcp \<Rightarrow> ('w, 'k, 'e) joins \<Rightarrow> 'e wire \<Rightarrow> 'addr list \<Rightarrow> NodeId \<Rightarrow> ('w, 'e, (NodeId \<times> 'k) list) future" where
  "connect_to_nodes T J W addrs n w =
     (case join_connects J (map (\<lambda>addr. connect_to_node T W addr n) addrs) w of
        None \<Rightarrow> None
      | Some (w, Inl e) \<Rightarrow> Some (w, Inl e)
      | Some (w, Inr tcp_results) \<Rightarrow> Some (w, Inr (zip [0..<length tcp_results] tcp_results)))"

definition read_node_id :: "('w, 'addr, 'l, 'k, 'e) tcp \<Rightarrow> 'e wire \<Rightarrow> 'k \<Rightarrow> ('w, 'e, NodeId \<times> 'k) future" where
  "read_node_id T W stream w =
     (case tcp_read_exact T stream 4 w of
        None \<Rightarrow> None
      | Some (w, Inl e) \<Rightarrow> Some (w, Inl e)
      | Some (w, Inr buffer) \<Rightarrow> Some (w, Inr (unat (w_read_u32 W buffer), stream)))"

fun accept_connections ::
    "('w, 'addr, 'l, 'k, 'e) tcp \<Rightarrow> 'e wire \<Rightarrow> 'l \<Rightarrow> nat \<Rightarrow> ('w, 'e, NodeId \<times> 'k) future list \<Rightarrow>
       ('w, 'e, ('w, 'e, NodeId \<times> 'k) future list) future" where
  "accept_connections T W listener 0 await_futures w = Some (w, Inr await_futures)"
| "accept_connections T W listener (Suc n) await_futures w =
     (case tcp_accept T listener w of
        None \<Rightarrow> None
      | Some (w, Inl e) \<Rightarrow> Some (w, Inl e)
      | Some (w, Inr stream) \<Rightarrow>
          (case tcp_set_nodelay T stream w of
             None \<Rightarrow> None
           | Some w \<Rightarrow> accept_connections T W listener n (await_futures @ [read_node_id T W stream]) w))"

definition await_node_connections ::
    "('w, 'addr, 'l, 'k, 'e) tcp \<Rightarrow> ('w, 'k, 'e) joins \<Rightarrow> 'e wire \<Rightarrow> 'addr \<Rightarrow> nat \<Rightarrow> ('w, 'e, (NodeId \<times> 'k) list) future" where
  "await_node_connections T J W addr expected_conns w =
     (case tcp_bind T addr w of
        (w, Inl e) \<Rightarrow> Some (w, Inl e)
      | (w, Inr listener) \<Rightarrow>
          (case accept_connections T W listener expected_conns [] w of
             None \<Rightarrow> None
           | Some (w, Inl e) \<Rightarrow> Some (w, Inl e)
           | Some (w, Inr await_futures) \<Rightarrow> join_reads J await_futures w))"

text \<open>An index out of range and an error are panics.\<close>

definition create_tcp_streams ::
    "('w, 'addr, 'l, 'k, 'e) tcp \<Rightarrow> ('w, 'k, 'e) joins \<Rightarrow> 'e wire \<Rightarrow> 'addr list \<Rightarrow> NodeId \<Rightarrow> 'w \<Rightarrow> ('w \<times> (NodeId \<times> 'k) list) option" where
  "create_tcp_streams T J W node_addrs n w =
     (if n < length node_addrs
      then (case join_both J (connect_to_nodes T J W (take n node_addrs) n)
                   (await_node_connections T J W (node_addrs ! n) (length node_addrs - n - 1)) w of
              None \<Rightarrow> None
            | Some (w, Inl e) \<Rightarrow> None
            | Some (w, Inr (tcp_streams, await_streams)) \<Rightarrow> Some (w, tcp_streams @ await_streams))
      else None)"

section \<open>Senders and receivers of a node\<close>

text \<open>
  \<^verbatim>\<open>Framed::new\<close> and \<^verbatim>\<open>split\<close> turn a connection into two halves; both are known by the handle of the connection.
  The maps of channels are part of the node. The loop over data connections takes them from the end of the vector.
\<close>

fun make_data_tasks ::
    "('w \<Rightarrow> 'i \<times> 'w) \<Rightarrow> ('w \<Rightarrow> 'r \<times> 'w) \<Rightarrow> ('w \<Rightarrow> 'c \<times> 'w) \<Rightarrow> (NodeId \<times> 'k) list \<Rightarrow>
       ('addr, 'c, 'i, 'r, 'run, 'hook, 'ty) Node \<Rightarrow> 'w \<Rightarrow>
       (('k, 'i, 'c) DataSender list \<times> ('k, 'r, 'p, 'c) DataReceiver list) \<times> ('addr, 'c, 'i, 'r, 'run, 'hook, 'ty) Node \<times> 'w" where
  "make_data_tasks mk_data mk_pushers mk_control [] self w = (([], []), self, w)"
| "make_data_tasks mk_data mk_pushers mk_control ((n, stream) # tcp_streams) self w =
     (case data_receiver_new mk_pushers mk_control n stream (channels_to_receivers self) (control_handler self) w of
        (receiver, ctr, handler, w) \<Rightarrow>
      (case data_sender_new mk_data mk_control n stream (channels_to_senders self) handler w of
         (sender, cts, handler, w) \<Rightarrow>
       (case make_data_tasks mk_data mk_pushers mk_control tcp_streams
               (self \<lparr> channels_to_receivers := ctr, channels_to_senders := cts, control_handler := handler \<rparr>) w of
          ((senders, receivers), self, w) \<Rightarrow> ((sender # senders, receiver # receivers), self, w))))"

definition split_data_streams ::
    "('w \<Rightarrow> 'i \<times> 'w) \<Rightarrow> ('w \<Rightarrow> 'r \<times> 'w) \<Rightarrow> ('w \<Rightarrow> 'c \<times> 'w) \<Rightarrow> (NodeId \<times> 'k) list \<Rightarrow>
       ('addr, 'c, 'i, 'r, 'run, 'hook, 'ty) Node \<Rightarrow> 'w \<Rightarrow>
       (('k, 'i, 'c) DataSender list \<times> ('k, 'r, 'p, 'c) DataReceiver list) \<times> ('addr, 'c, 'i, 'r, 'run, 'hook, 'ty) Node \<times> 'w" where
  "split_data_streams mk_data mk_pushers mk_control tcp_streams self w =
     make_data_tasks mk_data mk_pushers mk_control (rev tcp_streams) self w"

fun split_control_streams ::
    "('w \<Rightarrow> 'c \<times> 'w) \<Rightarrow> (NodeId \<times> 'k) list \<Rightarrow> ('addr, 'c, 'i, 'r, 'run, 'hook, 'ty) Node \<Rightarrow> 'w \<Rightarrow>
       (('k, 'c) ControlSender list \<times> ('k, 'c) ControlReceiver list) \<times> ('addr, 'c, 'i, 'r, 'run, 'hook, 'ty) Node \<times> 'w" where
  "split_control_streams mk_control [] self w = (([], []), self, w)"
| "split_control_streams mk_control ((n, stream) # tcp_streams) self w =
     (case control_receiver_new mk_control n stream (control_handler self) w of (receiver, handler, w) \<Rightarrow>
      (case control_sender_new mk_control n stream handler w of (sender, handler, w) \<Rightarrow>
       (case split_control_streams mk_control tcp_streams (self \<lparr> control_handler := handler \<rparr>) w of
          ((senders, receivers), self, w) \<Rightarrow> ((sender # senders, receiver # receivers), self, w))))"

text \<open>The part of \<^verbatim>\<open>async_run\<close> before the tasks are started.\<close>

definition set_up_connections ::
    "('w, 'addr, 'l, 'k, 'e) tcp \<Rightarrow> ('w, 'k, 'e) joins \<Rightarrow> 'e wire \<Rightarrow> ('w \<Rightarrow> 'i \<times> 'w) \<Rightarrow> ('w \<Rightarrow> 'r \<times> 'w) \<Rightarrow> ('w \<Rightarrow> 'c \<times> 'w) \<Rightarrow>
       ('addr, 'c, 'i, 'r, 'run, 'hook, 'ty) Node \<Rightarrow> 'w \<Rightarrow>
       ((('k, 'c) ControlSender list \<times> ('k, 'c) ControlReceiver list) \<times> (('k, 'i, 'c) DataSender list \<times> ('k, 'r, 'p, 'c) DataReceiver list) \<times>
        ('addr, 'c, 'i, 'r, 'run, 'hook, 'ty) Node \<times> 'w) option" where
  "set_up_connections T J W mk_data mk_pushers mk_control self w =
     (case create_tcp_streams T J W (control_addresses (config self)) (node_id self) w of
        None \<Rightarrow> None
      | Some (w, control_streams) \<Rightarrow>
     (case create_tcp_streams T J W (data_addresses (config self)) (node_id self) w of
        None \<Rightarrow> None
      | Some (w, data_streams) \<Rightarrow>
     (case split_control_streams mk_control control_streams self w of (control_tasks, self, w) \<Rightarrow>
     (case split_data_streams mk_data mk_pushers mk_control data_streams self w of (data_tasks, self, w) \<Rightarrow>
        Some (control_tasks, data_tasks, self, w)))))"

end
