(* ===== verification/Tcp_Connections_Properties.thy ===== *)
theory Tcp_Connections_Properties
  imports Tcp_Connections
begin

text \<open>
  What opening the connections guarantees. The locale \<open>tcp_network\<close> states what is relied on: a connection attempt
  succeeds after finitely many failures, the connections that are opened to this node can be accepted one after
  the other, a read returns what the other end wrote, and joining futures keeps what each of them
  guarantees on its own from any state of an invariant they all keep.
\<close>

section \<open>Joining futures\<close>

definition all_succeed :: "('w \<Rightarrow> bool) \<Rightarrow> (nat \<Rightarrow> 'a \<Rightarrow> bool) \<Rightarrow> ('w, 'e, 'a) future list \<Rightarrow> bool" where
  "all_succeed Inv Q fs \<longleftrightarrow>
     (\<forall>i < length fs. \<forall>w. Inv w \<longrightarrow> (\<exists>w' r. (fs ! i) w = Some (w', Inr r) \<and> Inv w' \<and> Q i r))"

definition join_all_law :: "(('w, 'e, 'a) future list \<Rightarrow> ('w, 'e, 'a list) future) \<Rightarrow> bool" where
  "join_all_law join \<longleftrightarrow>
     (\<forall>Inv Q fs w. Inv w \<longrightarrow> all_succeed Inv Q fs \<longrightarrow>
        (\<exists>w' rs. join fs w = Some (w', Inr rs) \<and> Inv w' \<and> length rs = length fs \<and> (\<forall>i < length fs. Q i (rs ! i))))"

text \<open>Two futures, of which the second one also changes the state from \<open>P\<close> to \<open>P'\<close>.\<close>

definition join_both_law :: "(('w, 'e, 'a) future \<Rightarrow> ('w, 'e, 'b) future \<Rightarrow> ('w, 'e, 'a \<times> 'b) future) \<Rightarrow> bool" where
  "join_both_law join \<longleftrightarrow>
     (\<forall>P P' A B f g w. P w \<longrightarrow>
        (\<forall>w. P w \<longrightarrow> (\<exists>w' a. f w = Some (w', Inr a) \<and> P w' \<and> A a)) \<longrightarrow>
        (\<forall>w. P' w \<longrightarrow> (\<exists>w' a. f w = Some (w', Inr a) \<and> P' w' \<and> A a)) \<longrightarrow>
        (\<forall>w. P w \<longrightarrow> (\<exists>w' b. g w = Some (w', Inr b) \<and> P' w' \<and> B b)) \<longrightarrow>
        (\<exists>w' a b. join f g w = Some (w', Inr (a, b)) \<and> P' w' \<and> A a \<and> B b))"

lemma join_allE:
  assumes "join_all_law join" "Inv w" "all_succeed Inv Q fs"
  obtains w' rs where "join fs w = Some (w', Inr rs)" "Inv w'" "length rs = length fs" "\<And>i. i < length fs \<Longrightarrow> Q i (rs ! i)"
  using assms unfolding join_all_law_def by blast

lemma join_bothE:
  assumes "join_both_law join" "P w"
    and "\<And>w. P w \<Longrightarrow> \<exists>w' a. f w = Some (w', Inr a) \<and> P w' \<and> A a"
    and "\<And>w. P' w \<Longrightarrow> \<exists>w' a. f w = Some (w', Inr a) \<and> P' w' \<and> A a"
    and "\<And>w. P w \<Longrightarrow> \<exists>w' b. g w = Some (w', Inr b) \<and> P' w' \<and> B b"
  obtains w' a b where "join f g w = Some (w', Inr (a, b))" "P' w'" "A a" "B b"
proof -
  have "\<exists>w' a b. join f g w = Some (w', Inr (a, b)) \<and> P' w' \<and> A a \<and> B b"
    using assms(1)[unfolded join_both_law_def, THEN spec[of _ P], THEN spec[of _ P'], THEN spec[of _ A], THEN spec[of _ B],
        THEN spec[of _ f], THEN spec[of _ g], THEN spec[of _ w]] assms(2-5) by simp
  with that show thesis by blast
qed

text \<open>What \<open>greet\<close> writes on a connection that a node opened: its id, as four bytes.\<close>

definition greeting :: "'e wire \<Rightarrow> NodeId \<Rightarrow> bytes" where
  "greeting W n = u32_bytes W (of_nat n)"

lemma greet_writes_greeting:
  "wire_format W \<Longrightarrow> greet T W n k w =
     (case tcp_set_nodelay T k w of None \<Rightarrow> None | Some w \<Rightarrow> send_node_id T k (greeting W n) w)"
  using wire_format.u32_bytes(3)[of W "of_nat n" "[]"] by (simp add: greet_def greeting_def split: option.split)

text \<open>\<open>peer_bytes k\<close> is what the other end of a connection writes on it; the law of reading concerns the first read.\<close>

locale tcp_network =
  fixes T :: "('w, 'addr, 'l, 'k, 'e) tcp" and J :: "('w, 'k, 'e) joins" and W :: "'e wire"
    and addr :: 'addr and listener :: 'l and incoming :: "'w \<Rightarrow> 'k list" and failures :: "'w \<Rightarrow> 'addr \<Rightarrow> nat"
    and leads_to :: "'k \<Rightarrow> 'addr" and peer_bytes :: "'k \<Rightarrow> bytes"
  assumes wire: "wire_format W"
    and connect_fails: "0 < failures w a \<Longrightarrow> \<exists>w' e. tcp_connect T a w = (w', Inl e) \<and>
      failures (delay_for T 100 w') a < failures w a \<and> incoming (delay_for T 100 w') = incoming w"
    and connects: "failures w a = 0 \<Longrightarrow> \<exists>w' k. tcp_connect T a w = (w', Inr k) \<and> leads_to k = a \<and> incoming w' = incoming w"
    and nodelay: "\<exists>w'. tcp_set_nodelay T k w = Some w' \<and> incoming w' = incoming w"
    and writes: "\<exists>w' n. tcp_write T k bs w = (w', Inr n) \<and> incoming w' = incoming w"
    and binds: "\<exists>w'. tcp_bind T addr w = (w', Inr listener) \<and> incoming w' = incoming w"
    and accepts: "incoming w = k # ks \<Longrightarrow> \<exists>w'. tcp_accept T listener w = Some (w', Inr k) \<and> incoming w' = ks"
    and reads: "m \<le> length (peer_bytes k) \<Longrightarrow>
      \<exists>w'. tcp_read_exact T k m w = Some (w', Inr (take m (peer_bytes k))) \<and> incoming w' = incoming w"
    and joins: "join_all_law (join_connects J)" "join_all_law (join_reads J)" "join_both_law (join_both J)"
begin

lemma connect_to_node_succeeds:
  "\<exists>w' k. connect_to_node T W a n w = Some (w', Inr k) \<and> incoming w' = incoming w \<and> leads_to k = a"
proof (induction "failures w a" arbitrary: w rule: less_induct)
  case less
  show ?case
  proof (cases "failures w a = 0")
    case True
    from connects[OF this] obtain w1 k where w1: "tcp_connect T a w = (w1, Inr k)" "leads_to k = a" "incoming w1 = incoming w" by blast
    from nodelay[of k w1] obtain w2 where w2: "tcp_set_nodelay T k w1 = Some w2" "incoming w2 = incoming w1" by blast
    from writes[of k "u32_bytes W (of_nat n)" w2] obtain w3 m where
      w3: "tcp_write T k (u32_bytes W (of_nat n)) w2 = (w3, Inr m)" "incoming w3 = incoming w2" by blast
    have "greet T W n k w1 = Some (w3, Inr k)"
      using w2(1) w3(1) by (simp add: greet_writes_greeting[OF wire] greeting_def send_node_id.simps)
    with w1 w2 w3 show ?thesis by (subst connect_to_node.simps) simp
  next
    case False
    with connect_fails[of w a] obtain w1 e where w1: "tcp_connect T a w = (w1, Inl e)"
      "failures (delay_for T 100 w1) a < failures w a" "incoming (delay_for T 100 w1) = incoming w" by blast
    with less[OF w1(2)] show ?thesis by (subst connect_to_node.simps) simp
  qed
qed

lemma connect_to_nodes_succeeds:
  "\<exists>w' ks. connect_to_nodes T J W addrs n w = Some (w', Inr (zip [0..<length addrs] ks)) \<and> incoming w' = incoming w \<and> map leads_to ks = addrs"
proof -
  let ?fs = "map (\<lambda>addr. connect_to_node T W addr n) addrs"
  have "all_succeed (\<lambda>v. incoming v = incoming w) (\<lambda>i k. leads_to k = addrs ! i) ?fs"
    unfolding all_succeed_def by (metis connect_to_node_succeeds length_map nth_map)
  from join_allE[OF joins(1) _ this, of w] obtain w' ks where "join_connects J ?fs w = Some (w', Inr ks)"
    "incoming w' = incoming w" "length ks = length addrs" "\<And>i. i < length addrs \<Longrightarrow> leads_to (ks ! i) = addrs ! i"
    by auto
  then show ?thesis by (auto simp: connect_to_nodes_def intro!: exI[of _ ks] nth_equalityI)
qed

lemma accept_connections_succeeds:
  "incoming w = ks @ rest \<Longrightarrow> \<exists>w'. accept_connections T W listener (length ks) fs w = Some (w', Inr (fs @ map (read_node_id T W) ks)) \<and>
    incoming w' = rest"
proof (induction ks arbitrary: w fs)
  case (Cons k ks)
  from Cons.prems accepts[of w k "ks @ rest"] obtain w1 where w1: "tcp_accept T listener w = Some (w1, Inr k)" "incoming w1 = ks @ rest" by auto
  from nodelay[of k w1] obtain w2 where w2: "tcp_set_nodelay T k w1 = Some w2" "incoming w2 = incoming w1" by blast
  from Cons.IH[of w2 "fs @ [read_node_id T W k]"] w1 w2 show ?case by simp
qed simp

lemma read_node_id_succeeds:
  assumes "n < 2 ^ 32" "peer_bytes k = greeting W n @ rest"
  shows "\<exists>w'. read_node_id T W k w = Some (w', Inr (n, k)) \<and> incoming w' = incoming w"
  using reads[of 4 k w] wire_format.u32_bytes(1,2)[OF wire] wire_format.unat_of_nat_u32[OF wire] assms
  by (auto simp: read_node_id_def greeting_def)

lemma await_node_connections_succeeds:
  assumes "\<forall>k \<in> set ks. opened_by k < 2 ^ 32 \<and> (\<exists>rest. peer_bytes k = greeting W (opened_by k) @ rest)" "incoming w = ks @ rest"
  shows "\<exists>w'. await_node_connections T J W addr (length ks) w = Some (w', Inr (map (\<lambda>k. (opened_by k, k)) ks)) \<and> incoming w' = rest"
proof -
  from binds[of w] obtain w1 where w1: "tcp_bind T addr w = (w1, Inr listener)" "incoming w1 = incoming w" by blast
  from accept_connections_succeeds[of w1 ks rest "[]"] w1 assms(2) obtain w2 where
    w2: "accept_connections T W listener (length ks) [] w1 = Some (w2, Inr (map (read_node_id T W) ks))" "incoming w2 = rest" by auto
  have "all_succeed (\<lambda>v. incoming v = rest) (\<lambda>i r. r = (opened_by (ks ! i), ks ! i)) (map (read_node_id T W) ks)"
    unfolding all_succeed_def
  proof (intro allI impI)
    fix i w assume i: "i < length (map (read_node_id T W) ks)" "incoming w = rest"
    then have "opened_by (ks ! i) < 2 ^ 32" "\<exists>rest. peer_bytes (ks ! i) = greeting W (opened_by (ks ! i)) @ rest"
      using assms(1) by auto
    then show "\<exists>w' r. (map (read_node_id T W) ks ! i) w = Some (w', Inr r) \<and> incoming w' = rest \<and> r = (opened_by (ks ! i), ks ! i)"
      using read_node_id_succeeds[of "opened_by (ks ! i)" "ks ! i" _ w] i by auto
  qed
  from join_allE[OF joins(2) w2(2) this] obtain w3 rs where "join_reads J (map (read_node_id T W) ks) w2 = Some (w3, Inr rs)"
    "incoming w3 = rest" "length rs = length ks" "\<And>i. i < length ks \<Longrightarrow> rs ! i = (opened_by (ks ! i), ks ! i)" by auto
  moreover from this(3,4) have "rs = map (\<lambda>k. (opened_by k, k)) ks" by (auto intro!: nth_equalityI)
  ultimately show ?thesis using w1(1) w2(1) by (simp add: await_node_connections_def)
qed

lemma create_tcp_streams_succeeds:
  assumes "n < length addrs" "addrs ! n = addr"
    "\<forall>k \<in> set ks. opened_by k < 2 ^ 32 \<and> (\<exists>rest. peer_bytes k = greeting W (opened_by k) @ rest)" "incoming w = ks @ rest" "length ks = length addrs - n - 1"
  shows "\<exists>w' cs. create_tcp_streams T J W addrs n w = Some (w', zip [0..<n] cs @ map (\<lambda>k. (opened_by k, k)) ks) \<and>
    incoming w' = rest \<and> map leads_to cs = take n addrs"
proof -
  let ?f = "connect_to_nodes T J W (take n addrs) n" and ?g = "await_node_connections T J W addr (length addrs - n - 1)"
  let ?A = "\<lambda>a. \<exists>cs. a = zip [0..<n] cs \<and> map leads_to cs = take n addrs"
  have f: "incoming v = r \<Longrightarrow> \<exists>w' a. ?f v = Some (w', Inr a) \<and> incoming w' = r \<and> ?A a" for v r
    using connect_to_nodes_succeeds[of "take n addrs" n v] assms(1) by (simp add: min_def) blast
  have g: "incoming v = ks @ rest \<Longrightarrow> \<exists>w' b. ?g v = Some (w', Inr b) \<and> incoming w' = rest \<and> b = map (\<lambda>k. (opened_by k, k)) ks" for v
    using await_node_connections_succeeds[OF assms(3), of v rest] assms(5) by simp
  obtain w' a b where "join_both J ?f ?g w = Some (w', Inr (a, b))" "incoming w' = rest" "?A a" "b = map (\<lambda>k. (opened_by k, k)) ks"
    by (rule join_bothE[OF joins(3), where P = "\<lambda>v. incoming v = ks @ rest" and P' = "\<lambda>v. incoming v = rest" and
        A = ?A and B = "\<lambda>b. b = map (\<lambda>k. (opened_by k, k)) ks", OF assms(4) f f g])
  with assms(1,2) show ?thesis by (auto simp: create_tcp_streams_def)
qed

end

section \<open>A reference network\<close>

text \<open>Futures that run one after the other.\<close>

fun seq_all :: "('w, 'e, 'a) future list \<Rightarrow> ('w, 'e, 'a list) future" where
  "seq_all [] w = Some (w, Inr [])"
| "seq_all (f # fs) w =
     (case f w of
        None \<Rightarrow> None
      | Some (w, Inl e) \<Rightarrow> Some (w, Inl e)
      | Some (w, Inr r) \<Rightarrow> map_option (map_prod id (map_sum id ((#) r))) (seq_all fs w))"

definition seq_both :: "('w, 'e, 'a) future \<Rightarrow> ('w, 'e, 'b) future \<Rightarrow> ('w, 'e, 'a \<times> 'b) future" where
  "seq_both f g w =
     (case f w of
        None \<Rightarrow> None
      | Some (w, Inl e) \<Rightarrow> Some (w, Inl e)
      | Some (w, Inr a) \<Rightarrow> map_option (map_prod id (map_sum id (Pair a))) (g w))"

lemma seq_all_succeeds:
  assumes "Inv w" "all_succeed Inv Q fs"
  shows "\<exists>w' rs. seq_all fs w = Some (w', Inr rs) \<and> Inv w' \<and> length rs = length fs \<and> (\<forall>i < length fs. Q i (rs ! i))"
  using assms
proof (induction fs arbitrary: w Q)
  case (Cons f fs)
  from Cons.prems obtain w1 r where w1: "f w = Some (w1, Inr r)" "Inv w1" "Q 0 r"
    unfolding all_succeed_def by fastforce
  have "all_succeed Inv (\<lambda>i. Q (Suc i)) fs"
    using Cons.prems(2) unfolding all_succeed_def by fastforce
  from Cons.IH[OF w1(2) this] obtain w2 rs where "seq_all fs w1 = Some (w2, Inr rs)" "Inv w2" "length rs = length fs"
    "\<forall>i < length fs. Q (Suc i) (rs ! i)" by blast
  with w1 show ?case by (auto simp: less_Suc_eq_0_disj intro!: exI[of _ "r # rs"])
qed simp

lemma seq_all_law: "join_all_law seq_all"
  unfolding join_all_law_def by (intro allI impI) (rule seq_all_succeeds)

lemma seq_both_law: "join_both_law seq_both"
  unfolding join_both_law_def seq_both_def by fastforce

text \<open>A connection is given by the node that opened it and the address it leads to; the state is the queue of
  connections to accept and the number of attempts that fail.\<close>

definition ref_tcp :: "NodeId \<Rightarrow> ((NodeId \<times> nat) list \<times> nat, nat, unit, NodeId \<times> nat, unit) tcp" where
  "ref_tcp n =
     \<lparr> tcp_connect = (\<lambda>a w. (w, if snd w = 0 then Inr (n, a) else Inl (Foreign ()))), tcp_set_nodelay = (\<lambda>k w. Some w),
       tcp_write = (\<lambda>k bs w. (w, Inr (length bs))), tcp_bind = (\<lambda>a w. (w, Inr ())),
       tcp_accept = (\<lambda>l w. case fst w of [] \<Rightarrow> None | k # ks \<Rightarrow> Some ((ks, snd w), Inr k)),
       tcp_read_exact = (\<lambda>k m w. Some (w, Inr (take m (greeting ref_wire (fst k))))), delay_for = (\<lambda>t w. (fst w, snd w - 1)) \<rparr>"

definition ref_joins :: "('w, 'k, 'e) joins" where
  "ref_joins = \<lparr> join_connects = seq_all, join_reads = seq_all, join_both = seq_both \<rparr>"

interpretation ref_tcp: tcp_network "ref_tcp n" ref_joins ref_wire addr "()" fst "\<lambda>w a. snd w" snd "\<lambda>k. greeting ref_wire (fst k)" for n addr
  by unfold_locales (auto simp: ref_tcp_def ref_joins_def seq_all_law seq_both_law ref_wire.wire_format_axioms)

section \<open>Properties\<close>

text \<open>C18. A node ends up with exactly one connection to every other node: opening the connections returns, and the list has
  each other node once. The connections to nodes with lower ids lead to the addresses the configuration gives for
  them; each of the others was opened by the node it is listed under. Relied on: the TCP layer and the joining of futures
  as in \<open>tcp_network\<close>; that each node with a higher id opens one connection to this one, in any order, and writes on it first what
  \<open>greet\<close> writes; that ids fit 32 bits.\<close>

theorem one_connection_per_node:
  assumes "tcp_network T J W (addrs ! n) listener incoming failures leads_to peer_bytes"
    and "n < length addrs" "length addrs \<le> 2 ^ 32" and peers: "mset (map opened_by (incoming w)) = mset [Suc n..<length addrs]"
    and greeted: "\<forall>k \<in> set (incoming w). \<exists>rest. peer_bytes k = greeting W (opened_by k) @ rest"
  shows "\<exists>w' conns. create_tcp_streams T J W addrs n w = Some (w', conns) \<and>
    distinct (map fst conns) \<and> set (map fst conns) = {..<length addrs} - {n} \<and>
    (\<forall>(i, k) \<in> set conns. if i < n then leads_to k = addrs ! i else opened_by k = i)"
proof -
  let ?ks = "incoming w"
  have ids: "distinct (map opened_by ?ks)" "set (map opened_by ?ks) = {Suc n..<length addrs}"
    using mset_eq_imp_distinct_iff[OF peers] mset_eq_setD[OF peers] by auto
  then have "opened_by k < 2 ^ 32 \<and> (\<exists>rest. peer_bytes k = greeting W (opened_by k) @ rest)" if "k \<in> set ?ks" for k
    using that assms(3) greeted by (metis atLeastLessThan_iff imageI image_set less_le_trans)
  moreover have "length ?ks = length addrs - n - 1"
    using arg_cong[OF peers, of size] by simp
  ultimately obtain w' cs where res: "create_tcp_streams T J W addrs n w = Some (w', zip [0..<n] cs @ map (\<lambda>k. (opened_by k, k)) ?ks)"
    and cs: "map leads_to cs = take n addrs"
    using tcp_network.create_tcp_streams_succeeds[OF assms(1,2) refl, of ?ks opened_by w "[]"] by auto
  let ?conns = "zip [0..<n] cs @ map (\<lambda>k. (opened_by k, k)) ?ks"
  have len: "length cs = n" using arg_cong[OF cs, of length] assms(2) by simp
  then have fst: "map fst ?conns = [0..<n] @ map opened_by ?ks" by (simp add: comp_def)
  have "distinct (map fst ?conns)" "set (map fst ?conns) = {..<length addrs} - {n}"
    unfolding fst using ids assms(2) by auto
  moreover have "if i < n then leads_to k = addrs ! i else opened_by k = i" if "(i, k) \<in> set ?conns" for i k
  proof -
    from that consider "i < n" "k = cs ! i" | "k \<in> set ?ks" "i = opened_by k" by (auto simp: in_set_zip)
    then show ?thesis
    proof cases
      case 1
      then show ?thesis using arg_cong[OF cs, of "\<lambda>xs. xs ! i"] len by simp
    next
      case 2
      then have "i \<in> set (map opened_by ?ks)" by auto
      then show ?thesis using 2 unfolding ids(2) by simp
    qed
  qed
  ultimately show ?thesis using res by blast
qed

theorem one_connection_per_node_witness:
  "\<exists>w' conns. create_tcp_streams (ref_tcp 1) ref_joins ref_wire [100, 101, 102, 103] 1 ([(3, 101), (2, 101)], 5) = Some (w', conns) \<and>
    distinct (map fst conns) \<and> set (map fst conns) = {0, 2, 3}"
proof -
  have "mset (map fst (fst ([(3, 101), (2, 101)] :: (nat \<times> nat) list, 5 :: nat))) = mset [Suc 1..<length [100, 101, 102, 103 :: nat]]"
    by (simp add: upt_rec numeral_3_eq_3 numeral_2_eq_2)
  moreover have "{..<length [100, 101, 102, 103 :: nat]} - {1} = {0, 2, 3 :: nat}" by auto
  ultimately show ?thesis
    using one_connection_per_node[OF ref_tcp.tcp_network_axioms, of 1 "[100, 101, 102, 103]" fst "([(3, 101), (2, 101)], 5)" 1] by auto
qed

text \<open>The senders and receivers made for a list of connections, and what the node then knows of them.\<close>

lemma make_data_tasks_wired:
  fixes receivers :: "('k, 'r, 'p, 'c) DataReceiver list"
  assumes "make_data_tasks mk_data mk_pushers mk_control conns self w = ((senders, receivers), self', w')"
  shows "map (\<lambda>s. (ds_node_id s, ds_sink s)) senders = conns \<and> map (\<lambda>r. (dr_node_id r, dr_stream r)) receivers = conns \<and>
    cts_senders (channels_to_senders self') = fold (\<lambda>s. AList.update (ds_node_id s) (ds_rx s)) senders (cts_senders (channels_to_senders self)) \<and>
    ctr_senders (channels_to_receivers self') = ctr_senders (channels_to_receivers self) @ map dr_rx receivers \<and>
    channels_to_nodes (control_handler self') = channels_to_nodes (control_handler self) \<and>
    cmh_rx (control_handler self') = cmh_rx (control_handler self) \<and> cmh_tx (control_handler self') = cmh_tx (control_handler self) \<and>
    (\<forall>s \<in> set senders. ds_control_tx s = cmh_tx (control_handler self)) \<and> (\<forall>r \<in> set receivers. dr_control_tx r = cmh_tx (control_handler self))"
  using assms
proof (induction conns arbitrary: self w senders receivers)
  case (Cons c conns)
  obtain n k where c: "c = (n, k)" by (cases c)
  obtain receiver :: "('k, 'r, 'p, 'c) DataReceiver" and ctr h1 w1 where r: "data_receiver_new mk_pushers mk_control n k (channels_to_receivers self) (control_handler self) w = (receiver, ctr, h1, w1)"
    by (metis prod_cases4)
  obtain sender cts h2 w2 where s: "data_sender_new mk_data mk_control n k (channels_to_senders self) h1 w1 = (sender, cts, h2, w2)"
    by (metis prod_cases4)
  let ?self = "self \<lparr> channels_to_receivers := ctr, channels_to_senders := cts, control_handler := h2 \<rparr>"
  from Cons.prems obtain ss rs where rec: "make_data_tasks mk_data mk_pushers mk_control conns ?self w2 = ((ss, rs), self', w')"
      "senders = sender # ss" "receivers = receiver # rs"
    by (auto simp: c r s split: prod.splits)
  from Cons.IH[OF rec(1)] r s show ?case
    by (auto simp: rec(2,3) c data_receiver_new_def data_sender_new_def Let_def cts_add_sender_def ctr_add_sender_def
        add_channel_to_data_receiver_def add_channel_to_data_sender_def get_channel_to_handler_def split: prod.splits)
qed simp

lemma split_control_streams_wired:
  assumes "split_control_streams mk_control conns self w = ((senders, receivers), self', w')"
  shows "map (\<lambda>s. (cs_node_id s, cs_sink s)) senders = conns \<and> map (\<lambda>r. (cr_node_id r, cr_stream r)) receivers = conns \<and>
    channels_to_nodes (control_handler self') =
      fold (\<lambda>s. AList.update (cs_node_id s) (cs_rx s)) senders (channels_to_nodes (control_handler self)) \<and>
    cmh_rx (control_handler self') = cmh_rx (control_handler self) \<and> cmh_tx (control_handler self') = cmh_tx (control_handler self) \<and>
    (\<forall>s \<in> set senders. cs_control_tx s = cmh_tx (control_handler self)) \<and> (\<forall>r \<in> set receivers. cr_control_tx r = cmh_tx (control_handler self)) \<and>
    channels_to_senders self' = channels_to_senders self \<and> channels_to_receivers self' = channels_to_receivers self"
  using assms
proof (induction conns arbitrary: self w senders receivers)
  case (Cons c conns)
  obtain n k where c: "c = (n, k)" by (cases c)
  obtain receiver h1 w1 where r: "control_receiver_new mk_control n k (control_handler self) w = (receiver, h1, w1)" by (metis prod_cases3)
  obtain sender h2 w2 where s: "control_sender_new mk_control n k h1 w1 = (sender, h2, w2)" by (metis prod_cases3)
  from Cons.prems obtain ss rs where rec: "split_control_streams mk_control conns (self \<lparr> control_handler := h2 \<rparr>) w2 = ((ss, rs), self', w')"
      "senders = sender # ss" "receivers = receiver # rs"
    by (auto simp: c r s split: prod.splits)
  from Cons.IH[OF rec(1)] r s show ?case
    by (auto simp: rec(2,3) c control_receiver_new_def control_sender_new_def Let_def add_channel_to_node_def
        add_channel_to_control_receiver_def add_channel_to_control_sender_def get_channel_to_handler_def split: prod.splits)
qed simp

lemma fold_update_other:
  "x \<notin> f ` set ss \<Longrightarrow> map_of (fold (\<lambda>s. AList.update (f s) (g s)) ss m) x = map_of m x"
  by (induction ss arbitrary: m) (simp_all add: update_conv')

lemma fold_update_in:
  "distinct (map f ss) \<Longrightarrow> s \<in> set ss \<Longrightarrow> map_of (fold (\<lambda>s. AList.update (f s) (g s)) ss m) (f s) = Some (g s)"
  by (induction ss arbitrary: m) (auto simp: fold_update_other update_conv')

text \<open>C19. Making senders and receivers of a new node's connections wires the node completely. The channel that the node looks up
  to send data to another node is the one the data sender of that node's connection reads; the channel it uses to send
  control messages to another node is the one the control sender of that node's control connection reads. The channel
  manager's announcements of pushers go to exactly the data receivers, and all four kinds of task report to the channel
  that the node's control handler reads.\<close>

theorem node_reaches_every_node:
  assumes new: "node_new mk_control cfg v = (self, w)"
    and control: "split_control_streams mk_control control_conns self w = ((csenders, creceivers), self1, w1)"
    and data: "split_data_streams mk_data mk_pushers mk_control data_conns self1 w1 = ((dsenders, dreceivers), self2, w2)"
    and distinct: "distinct (map fst control_conns)" "distinct (map fst data_conns)"
  shows "(\<forall>(n, k) \<in> set data_conns. \<exists>s \<in> set dsenders. ds_node_id s = n \<and> ds_sink s = k \<and>
      clone_channel (channels_to_senders self2) n = Some (ds_rx s)) \<and>
    (\<forall>(n, k) \<in> set control_conns. \<exists>s \<in> set csenders. cs_node_id s = n \<and> cs_sink s = k \<and>
      map_of (channels_to_nodes (control_handler self2)) n = Some (cs_rx s)) \<and>
    set (ctr_senders (channels_to_receivers self2)) = dr_rx ` set dreceivers \<and>
    ds_control_tx ` set dsenders \<union> dr_control_tx ` set dreceivers \<union> cs_control_tx ` set csenders \<union> cr_control_tx ` set creceivers
      \<subseteq> {cmh_rx (control_handler self2)}"
proof -
  have init: "channels_to_senders self = cts_new" "channels_to_receivers self = ctr_new" "cmh_tx (control_handler self) = cmh_rx (control_handler self)"
    using new by (auto simp: node_new_def cmh_new_def split: prod.splits)
  note c = split_control_streams_wired[OF control]
  note d = make_data_tasks_wired[OF data[unfolded split_data_streams_def]]
  have cdist: "distinct (map cs_node_id csenders)" using distinct(1) c by (auto simp: comp_def)
  have ddist: "distinct (map ds_node_id dsenders)" using distinct(2) d by (metis (no_types, lifting) distinct_rev fst_conv list.map_comp map_eq_conv comp_def rev_map)
  have "\<exists>s \<in> set dsenders. ds_node_id s = n \<and> ds_sink s = k \<and> clone_channel (channels_to_senders self2) n = Some (ds_rx s)"
    if "(n, k) \<in> set data_conns" for n k
  proof -
    have "set data_conns = (\<lambda>s. (ds_node_id s, ds_sink s)) ` set dsenders" using d by (metis set_map set_rev)
    with that obtain s where "s \<in> set dsenders" "ds_node_id s = n" "ds_sink s = k" by auto
    with fold_update_in[OF ddist, of s ds_rx] d show ?thesis by (auto simp: clone_channel_def)
  qed
  moreover have "\<exists>s \<in> set csenders. cs_node_id s = n \<and> cs_sink s = k \<and> map_of (channels_to_nodes (control_handler self2)) n = Some (cs_rx s)"
    if "(n, k) \<in> set control_conns" for n k
  proof -
    have "set control_conns = (\<lambda>s. (cs_node_id s, cs_sink s)) ` set csenders" using c by (metis set_map)
    with that obtain s where "s \<in> set csenders" "cs_node_id s = n" "cs_sink s = k" by auto
    with fold_update_in[OF cdist, of s cs_rx] c d show ?thesis by auto
  qed
  moreover have "set (ctr_senders (channels_to_receivers self2)) = dr_rx ` set dreceivers" using c d init by (simp add: ctr_new_def)
  ultimately show ?thesis using c d init by auto
qed

definition example_cfg :: "nat Configuration" where
  "example_cfg = configuration_new 1 [100, 101, 102] [200, 201, 202] 4 None"

abbreviation next_handle :: "nat \<Rightarrow> nat \<times> nat" where
  "next_handle w \<equiv> (w, Suc w)"

theorem node_reaches_every_node_witness:
  "\<exists>self2 :: (nat, nat, nat, nat, unit, unit, unit) Node. \<exists>dsenders dreceivers :: (nat, nat, unit, nat) DataReceiver list.
     \<exists>w2. split_data_streams next_handle next_handle next_handle [(0, 100), (2, 102)]
       (fst (node_new next_handle example_cfg 0)) 1 = ((dsenders, dreceivers), self2, w2) \<and>
     (\<exists>s \<in> set dsenders. ds_node_id s = 2 \<and> ds_sink s = 102 \<and> clone_channel (channels_to_senders self2) 2 = Some (ds_rx s))"
proof -
  let ?self = "fst (node_new next_handle example_cfg 0) :: (nat, nat, nat, nat, unit, unit, unit) Node"
  let ?X = "split_data_streams next_handle next_handle next_handle [(0, 100), (2, 102)] ?self 1 ::
    ((nat, nat, nat) DataSender list \<times> (nat, nat, unit, nat) DataReceiver list) \<times> (nat, nat, nat, nat, unit, unit, unit) Node \<times> nat"
  have data: "?X = ((fst (fst ?X), snd (fst ?X)), fst (snd ?X), snd (snd ?X))" by simp
  have new: "node_new next_handle example_cfg 0 = (?self, 1)" by (simp add: node_new_def cmh_new_def)
  have control: "split_control_streams next_handle ([] :: (nat \<times> nat) list) ?self 1 = (([], []), ?self, 1)" by simp
  have "\<exists>s \<in> set (fst (fst ?X)). ds_node_id s = 2 \<and> ds_sink s = 102 \<and> clone_channel (channels_to_senders (fst (snd ?X))) 2 = Some (ds_rx s)"
    using node_reaches_every_node[OF new control data, THEN conjunct1] by simp
  with data show ?thesis by blast
qed

end
