(* ===== verification/Zenoh_Tasks.thy ===== *)
theory Zenoh_Tasks
  imports Tcp_Connections
begin

text \<open>
  The tasks that move messages between nodes over Zenoh: \<^verbatim>\<open>src/src/communication/zenoh_senders.rs\<close>,
  \<^verbatim>\<open>zenoh_receivers.rs\<close> and, with shared memory, \<^verbatim>\<open>zenoh_shm_senders.rs\<close> and \<^verbatim>\<open>zenoh_shm_receivers.rs\<close>.

  The tasks have the fields of the TCP tasks, with the id of their own node and a Zenoh session in place of a connection,
  and they are created in the same way. A sender publishes under a name made of the ids of the two nodes,
  to which the receiver of the other node subscribes. The session, its subscriptions and its shared memory are the
  parameter \<open>zenoh\<close>.
\<close>

section \<open>Names\<close>

text \<open>\<^verbatim>\<open>Display\<close> of a number: its decimal digits.\<close>

fun display_usize :: "nat \<Rightarrow> string" where
  "display_usize n = (if n < 10 then [char_of (48 + n)] else display_usize (n div 10) @ [char_of (48 + n mod 10)])"

declare display_usize.simps [simp del]

definition data_resource :: "NodeId \<Rightarrow> NodeId \<Rightarrow> string" where
  "data_resource from to = ''/from/'' @ display_usize from @ ''/to/'' @ display_usize to @ ''/data''"

definition control_resource :: "NodeId \<Rightarrow> NodeId \<Rightarrow> string" where
  "control_resource from to = ''/from/'' @ display_usize from @ ''/to/'' @ display_usize to @ ''/control''"

section \<open>Sessions\<close>

record ('w, 'z, 'key, 'sub, 'rb, 'sb, 'shm, 'e) zenoh =
  z_id :: "'z \<Rightarrow> 'w \<Rightarrow> 'w \<times> string"
  z_declare_resource :: "'z \<Rightarrow> string \<Rightarrow> 'w \<Rightarrow> 'w \<times> ('e foreign_error + 'key)"
  z_declare_publisher :: "'z \<Rightarrow> 'key \<Rightarrow> 'w \<Rightarrow> 'w \<times> ('e foreign_error + unit)"
  z_write_ext :: "'z \<Rightarrow> 'key \<Rightarrow> 'rb \<Rightarrow> 'w \<Rightarrow> 'w \<times> ('e foreign_error + unit)"
  z_declare_subscriber :: "'z \<Rightarrow> string \<Rightarrow> 'w \<Rightarrow> 'w \<times> ('e foreign_error + 'sub)"
  z_next :: "'sub \<Rightarrow> 'w \<Rightarrow> ('w \<times> 'rb option) option"
  z_shm_new :: "string \<Rightarrow> nat \<Rightarrow> 'w \<Rightarrow> 'w \<times> ('e foreign_error + 'shm)"
  z_garbage_collect :: "'shm \<Rightarrow> 'w \<Rightarrow> 'shm \<times> 'w"
  z_rbuf_from_sbuf :: "'sb \<Rightarrow> 'rb"
  z_delay_for :: "nat \<Rightarrow> 'w \<Rightarrow> 'w"

record 'z zenoh_peer =
  self_node_id :: NodeId
  zsession :: 'z

type_synonym ('z, 'i, 'c) ZenohDataSender = "('z zenoh_peer, 'i, 'c) DataSender"
type_synonym ('z, 'c) ZenohControlSender = "('z zenoh_peer, 'c) ControlSender"
type_synonym ('z, 'r, 'p, 'c) ZenohDataReceiver = "('z zenoh_peer, 'r, 'p, 'c) DataReceiver"
type_synonym ('z, 'c) ZenohControlReceiver = "('z zenoh_peer, 'c) ControlReceiver"

definition zenoh_data_sender_new ::
    "('w \<Rightarrow> 'i \<times> 'w) \<Rightarrow> ('w \<Rightarrow> 'c \<times> 'w) \<Rightarrow> NodeId \<Rightarrow> NodeId \<Rightarrow> 'z \<Rightarrow> 'i ChannelsToSenders \<Rightarrow> 'c ControlMessageHandler \<Rightarrow> 'w \<Rightarrow>
       ('z, 'i, 'c) ZenohDataSender \<times> 'i ChannelsToSenders \<times> 'c ControlMessageHandler \<times> 'w" where
  "zenoh_data_sender_new mk_data mk_control n this session cts handler w =
     data_sender_new mk_data mk_control n \<lparr> self_node_id = this, zsession = session \<rparr> cts handler w"

definition zenoh_control_sender_new ::
    "('w \<Rightarrow> 'c \<times> 'w) \<Rightarrow> NodeId \<Rightarrow> NodeId \<Rightarrow> 'z \<Rightarrow> 'c ControlMessageHandler \<Rightarrow> 'w \<Rightarrow>
       ('z, 'c) ZenohControlSender \<times> 'c ControlMessageHandler \<times> 'w" where
  "zenoh_control_sender_new mk_control n this session handler w =
     control_sender_new mk_control n \<lparr> self_node_id = this, zsession = session \<rparr> handler w"

definition zenoh_data_receiver_new ::
    "('w \<Rightarrow> 'r \<times> 'w) \<Rightarrow> ('w \<Rightarrow> 'c \<times> 'w) \<Rightarrow> NodeId \<Rightarrow> NodeId \<Rightarrow> 'z \<Rightarrow> 'r ChannelsToReceivers \<Rightarrow> 'c ControlMessageHandler \<Rightarrow> 'w \<Rightarrow>
       ('z, 'r, 'p, 'c) ZenohDataReceiver \<times> 'r ChannelsToReceivers \<times> 'c ControlMessageHandler \<times> 'w" where
  "zenoh_data_receiver_new mk_pushers mk_control n this session ctr handler w =
     data_receiver_new mk_pushers mk_control n \<lparr> self_node_id = this, zsession = session \<rparr> ctr handler w"

definition zenoh_control_receiver_new ::
    "('w \<Rightarrow> 'c \<times> 'w) \<Rightarrow> NodeId \<Rightarrow> NodeId \<Rightarrow> 'z \<Rightarrow> 'c ControlMessageHandler \<Rightarrow> 'w \<Rightarrow>
       ('z, 'c) ZenohControlReceiver \<times> 'c ControlMessageHandler \<times> 'w" where
  "zenoh_control_receiver_new mk_control n this session handler w =
     control_receiver_new mk_control n \<lparr> self_node_id = this, zsession = session \<rparr> handler w"

section \<open>Senders\<close>

definition declare_and_publish ::
    "('w, 'z, 'key, 'sub, 'rb, 'sb, 'shm, 'e) zenoh \<Rightarrow> 'z \<Rightarrow> string \<Rightarrow> 'w \<Rightarrow> 'w \<times> ('e CommunicationError + 'key)" where
  "declare_and_publish S session res_name w =
     (case z_declare_resource S session res_name w of
        (w, Inl e) \<Rightarrow> (w, Inl (comm_from_zenoh e))
      | (w, Inr reskey) \<Rightarrow>
          (case z_declare_publisher S session reskey w of
             (w, Inl e) \<Rightarrow> (w, Inl (comm_from_zenoh e))
           | (w, Inr _) \<Rightarrow> (w, Inr reskey)))"

text \<open>Without shared memory the resource and the publisher are declared again for each message; \<open>rbf\<close> is the encoded
  message.\<close>

definition zenoh_send ::
    "('w, 'z, 'key, 'sub, 'rb, 'sb, 'shm, 'e) zenoh \<Rightarrow> 'z \<Rightarrow> string \<Rightarrow> 'e CodecError + 'rb \<Rightarrow> 'w \<Rightarrow> 'w \<times> ('e CommunicationError + unit)" where
  "zenoh_send S session res_name rbf w =
     (case declare_and_publish S session res_name w of
        (w, Inl e) \<Rightarrow> (w, Inl e)
      | (w, Inr reskey) \<Rightarrow>
          (case rbf of
             Inl e \<Rightarrow> (w, Inl (comm_from_codec e))
           | Inr buf \<Rightarrow> (case z_write_ext S session reskey buf w of (w, r) \<Rightarrow> (w, map_err comm_from_zenoh r))))"

partial_function (option) zenoh_forward_loop ::
    "('w, 'x, 'm) mpsc \<Rightarrow> ('m \<Rightarrow> 'w \<Rightarrow> 'w \<times> ('e CommunicationError + unit)) \<Rightarrow> ('w \<Rightarrow> 'w) \<Rightarrow> 'x \<Rightarrow> 'w \<Rightarrow>
       ('w \<times> ('e CommunicationError + unit)) option" where
  "zenoh_forward_loop C send env rx w =
     (case mpsc_recv C rx w of
        None \<Rightarrow> zenoh_forward_loop C send env rx (env w)
      | Some (w, None) \<Rightarrow> Some (w, Inl Disconnected)
      | Some (w, Some msg) \<Rightarrow>
          (case send msg w of
             (w, Inl e) \<Rightarrow> Some (w, Inl e)
           | (w, Inr _) \<Rightarrow> zenoh_forward_loop C send env rx (env w)))"

declare zenoh_forward_loop.simps [code]

definition zenoh_data_sender_run ::
    "('e CommunicationError \<Rightarrow> string) \<Rightarrow> ('rb, 'sb, 'shm, 'e) zenoh_buf \<Rightarrow> 'e wire \<Rightarrow>
       ('w, 'z, 'key, 'sub, 'rb, 'sb, 'shm, 'e) zenoh \<Rightarrow> ('w, 'c, ControlMessage) mpsc \<Rightarrow> ('w, 'i, 'e InterProcessMessage) mpsc \<Rightarrow>
       ('w \<Rightarrow> 'w) \<Rightarrow> ('z, 'i, 'c) ZenohDataSender \<Rightarrow> 'w \<Rightarrow> ('w \<times> ('e CommunicationError + unit)) option" where
  "zenoh_data_sender_run fmt Z W S C D env self w =
     (case mpsc_send C (ds_control_tx self) (DataSenderInitialized (ds_node_id self)) w of
        (w, Inl e) \<Rightarrow> Some (w, Inl (comm_from_send e))
      | (w, Inr _) \<Rightarrow>
          zenoh_forward_loop D
            (\<lambda>msg. zenoh_send S (zsession (ds_sink self)) (data_resource (self_node_id (ds_sink self)) (ds_node_id self))
                     (into_rbuf fmt Z W msg))
            env (ds_rx self) w)"

definition zenoh_control_sender_run ::
    "('rb, 'sb, 'shm, 'e) zenoh_buf \<Rightarrow> 'e wire \<Rightarrow> ('w, 'z, 'key, 'sub, 'rb, 'sb, 'shm, 'e) zenoh \<Rightarrow> ('w, 'c, ControlMessage) mpsc \<Rightarrow>
       ('w \<Rightarrow> 'w) \<Rightarrow> ('z, 'c) ZenohControlSender \<Rightarrow> 'w \<Rightarrow> ('w \<times> ('e CommunicationError + unit)) option" where
  "zenoh_control_sender_run Z W S C env self w =
     (case mpsc_send C (cs_control_tx self) (ControlSenderInitialized (cs_node_id self)) w of
        (w, Inl e) \<Rightarrow> Some (w, Inl (comm_from_send e))
      | (w, Inr _) \<Rightarrow>
          zenoh_forward_loop C
            (\<lambda>msg. zenoh_send S (zsession (cs_sink self)) (control_resource (self_node_id (cs_sink self)) (cs_node_id self))
                     (control_into_rbuf Z W msg))
            env (cs_rx self) w)"

text \<open>The functions that run all tasks of a kind are those of the TCP transport: their results are discarded.\<close>

definition zenoh_run_senders ::
    "(('w \<Rightarrow> ('w \<times> ('e CommunicationError + unit)) option) list \<Rightarrow> 'w \<Rightarrow> ('w \<times> ('e CommunicationError + unit) option list) option) \<Rightarrow>
       ('s \<Rightarrow> 'w \<Rightarrow> ('w \<times> ('e CommunicationError + unit)) option) \<Rightarrow> 's list \<Rightarrow> 'w \<Rightarrow> ('w \<times> ('e CommunicationError + unit)) option" where
  "zenoh_run_senders join_spawned run senders w =
     (case join_spawned (map run senders) w of None \<Rightarrow> None | Some (w, _) \<Rightarrow> Some (w, Inr ()))"

definition zenoh_run_control_senders ::
    "(('w \<Rightarrow> ('w \<times> ('e CommunicationError + unit)) option) list \<Rightarrow> 'w \<Rightarrow> ('w \<times> ('e CommunicationError + unit) list) option) \<Rightarrow>
       ('s \<Rightarrow> 'w \<Rightarrow> ('w \<times> ('e CommunicationError + unit)) option) \<Rightarrow> 's list \<Rightarrow> 'w \<Rightarrow> ('w \<times> ('e CommunicationError + unit)) option" where
  "zenoh_run_control_senders join run senders w =
     (case join (map run senders) w of None \<Rightarrow> None | Some (w, _) \<Rightarrow> Some (w, Inr ()))"

definition zenoh_run_receivers ::
    "(('w \<Rightarrow> ('w \<times> ('e CommunicationError + unit)) option) list \<Rightarrow> 'w \<Rightarrow> ('w \<times> ('e CommunicationError + unit) list) option) \<Rightarrow>
       ('s \<Rightarrow> 'w \<Rightarrow> (('s \<times> 'w) \<times> ('e CommunicationError + unit)) option) \<Rightarrow> 's list \<Rightarrow> 'w \<Rightarrow> ('w \<times> ('e CommunicationError + unit)) option" where
  "zenoh_run_receivers join run receivers w =
     (case join (map (\<lambda>self w. map_option (map_prod snd id) (run self w)) receivers) w of
        None \<Rightarrow> None
      | Some (w, _) \<Rightarrow> Some (w, Inr ()))"

definition zenoh_run_control_receivers ::
    "(('w \<Rightarrow> ('w \<times> ('e CommunicationError + unit)) option) list \<Rightarrow> 'w \<Rightarrow> ('w \<times> ('e CommunicationError + unit) list) option) \<Rightarrow>
       ('s \<Rightarrow> 'w \<Rightarrow> (('s \<times> 'w) \<times> ('e CommunicationError + unit)) option) \<Rightarrow> 's list \<Rightarrow> 'w \<Rightarrow> ('w \<times> ('e CommunicationError + unit)) option" where
  "zenoh_run_control_receivers join run receivers w = zenoh_run_receivers join run receivers w"

section \<open>Senders with shared memory\<close>

definition SHM_SIZE :: nat where
  "SHM_SIZE = 512 * 1024 * 1024"

fun is_shm_error :: "'e CodecError \<Rightarrow> bool" where
  "is_shm_error (Codec_ZenohSharedMemoryError _) = True"
| "is_shm_error _ = False"

text \<open>
  Here a panic and a wait without end are kept apart: a call returns or panics, and \<open>None\<close> around
  that is a call that never ends.
\<close>

datatype 'a outcome = Panicked | Returned 'a

text \<open>
  One round of the loop that puts a message into shared memory. On the left is the state in which
  the next round starts: when no memory is available, the loop waits and collects garbage.
\<close>

definition shm_attempt ::
    "('e CommunicationError \<Rightarrow> string) \<Rightarrow> ('rb, 'sb, 'shm, 'e) zenoh_buf \<Rightarrow> 'e wire \<Rightarrow>
       ('w, 'z, 'key, 'sub, 'rb, 'sb, 'shm, 'e) zenoh \<Rightarrow> 'e InterProcessMessage \<Rightarrow> 'shm \<Rightarrow> 'w \<Rightarrow>
       ('shm \<times> 'w) + (('shm \<times> 'w) \<times> ('e CodecError + 'sb)) outcome" where
  "shm_attempt fmt Z W S msg shm w =
     (case into_sbuf fmt Z W msg shm of
        None \<Rightarrow> Inr Panicked
      | Some (shm, Inr buf) \<Rightarrow> Inr (Returned ((shm, w), Inr buf))
      | Some (shm, Inl e) \<Rightarrow>
          if is_shm_error e then Inl (z_garbage_collect S shm (z_delay_for S 500 w))
          else Inr (Returned ((shm, w), Inl e)))"

partial_function (option) encode_in_shm ::
    "('e CommunicationError \<Rightarrow> string) \<Rightarrow> ('rb, 'sb, 'shm, 'e) zenoh_buf \<Rightarrow> 'e wire \<Rightarrow>
       ('w, 'z, 'key, 'sub, 'rb, 'sb, 'shm, 'e) zenoh \<Rightarrow> 'e InterProcessMessage \<Rightarrow> 'shm \<Rightarrow> 'w \<Rightarrow>
       (('shm \<times> 'w) \<times> ('e CodecError + 'sb)) outcome option" where
  "encode_in_shm fmt Z W S msg shm w =
     (case shm_attempt fmt Z W S msg shm w of
        Inl (shm, w) \<Rightarrow> encode_in_shm fmt Z W S msg shm w
      | Inr r \<Rightarrow> Some r)"

declare encode_in_shm.simps [code]

text \<open>The counter \<open>k\<close> is a \<^verbatim>\<open>u64\<close>.\<close>

definition shm_send ::
    "('e CommunicationError \<Rightarrow> string) \<Rightarrow> ('rb, 'sb, 'shm, 'e) zenoh_buf \<Rightarrow> 'e wire \<Rightarrow>
       ('w, 'z, 'key, 'sub, 'rb, 'sb, 'shm, 'e) zenoh \<Rightarrow> 'z \<Rightarrow> 'key \<Rightarrow> 'e InterProcessMessage \<Rightarrow> u64 \<Rightarrow> 'shm \<Rightarrow> 'w \<Rightarrow>
       (('shm \<times> 'w) \<times> ('e CommunicationError + unit)) outcome option" where
  "shm_send fmt Z W S session reskey msg k shm w =
     (case (if k mod 256 = 0 then z_garbage_collect S shm w else (shm, w)) of (shm, w) \<Rightarrow>
        (case encode_in_shm fmt Z W S msg shm w of
           None \<Rightarrow> None
         | Some Panicked \<Rightarrow> Some Panicked
         | Some (Returned ((shm, w), Inl e)) \<Rightarrow> Some (Returned ((shm, w), Inl (comm_from_codec e)))
         | Some (Returned ((shm, w), Inr sbuf)) \<Rightarrow>
             (case z_write_ext S session reskey (z_rbuf_from_sbuf S sbuf) w of
                (w, r) \<Rightarrow> Some (Returned ((shm, w), map_err comm_from_zenoh r)))))"

partial_function (option) shm_forward_loop ::
    "('w, 'x, 'm) mpsc \<Rightarrow> ('m \<Rightarrow> u64 \<Rightarrow> 'shm \<Rightarrow> 'w \<Rightarrow> (('shm \<times> 'w) \<times> ('e CommunicationError + unit)) outcome option) \<Rightarrow> ('w \<Rightarrow> 'w) \<Rightarrow>
       'x \<Rightarrow> u64 \<Rightarrow> 'shm \<Rightarrow> 'w \<Rightarrow> ('w \<times> ('e CommunicationError + unit)) option" where
  "shm_forward_loop C send env rx k shm w =
     (case mpsc_recv C rx w of
        None \<Rightarrow> shm_forward_loop C send env rx k shm (env w)
      | Some (w, None) \<Rightarrow> Some (w, Inl Disconnected)
      | Some (w, Some msg) \<Rightarrow>
          (case send msg (k + 1) shm w of
             None \<Rightarrow> None
           | Some Panicked \<Rightarrow> None
           | Some (Returned ((shm, w), Inl e)) \<Rightarrow> Some (w, Inl e)
           | Some (Returned ((shm, w), Inr _)) \<Rightarrow> shm_forward_loop C send env rx (k + 1) shm (env w)))"

declare shm_forward_loop.simps [code]

definition shm_data_sender_run ::
    "('e CommunicationError \<Rightarrow> string) \<Rightarrow> ('rb, 'sb, 'shm, 'e) zenoh_buf \<Rightarrow> 'e wire \<Rightarrow>
       ('w, 'z, 'key, 'sub, 'rb, 'sb, 'shm, 'e) zenoh \<Rightarrow> ('w, 'c, ControlMessage) mpsc \<Rightarrow> ('w, 'i, 'e InterProcessMessage) mpsc \<Rightarrow>
       ('w \<Rightarrow> 'w) \<Rightarrow> ('z, 'i, 'c) ZenohDataSender \<Rightarrow> 'w \<Rightarrow> ('w \<times> ('e CommunicationError + unit)) option" where
  "shm_data_sender_run fmt Z W S C D env self w =
     (let session = zsession (ds_sink self); this = self_node_id (ds_sink self); n = ds_node_id self
      in (case z_id S session w of (w, sid) \<Rightarrow>
         (case z_shm_new S (''from-'' @ display_usize this @ ''-to-'' @ display_usize n @ ''-data-'' @ sid) SHM_SIZE w of
            (w, Inl e) \<Rightarrow> Some (w, Inl (comm_from_shmem e))
          | (w, Inr shm) \<Rightarrow>
         (case declare_and_publish S session (data_resource this n) w of
            (w, Inl e) \<Rightarrow> Some (w, Inl e)
          | (w, Inr reskey) \<Rightarrow>
         (case mpsc_send C (ds_control_tx self) (DataSenderInitialized n) w of
            (w, Inl e) \<Rightarrow> Some (w, Inl (comm_from_send e))
          | (w, Inr _) \<Rightarrow> shm_forward_loop D (shm_send fmt Z W S session reskey) env (ds_rx self) 0 shm w)))))"

text \<open>Control messages do not use the shared memory; \<^verbatim>\<open>zenoh_shm_senders.rs\<close> repeats their sender.\<close>

definition shm_control_sender_run ::
    "('rb, 'sb, 'shm, 'e) zenoh_buf \<Rightarrow> 'e wire \<Rightarrow> ('w, 'z, 'key, 'sub, 'rb, 'sb, 'shm, 'e) zenoh \<Rightarrow> ('w, 'c, ControlMessage) mpsc \<Rightarrow>
       ('w \<Rightarrow> 'w) \<Rightarrow> ('z, 'c) ZenohControlSender \<Rightarrow> 'w \<Rightarrow> ('w \<times> ('e CommunicationError + unit)) option" where
  "shm_control_sender_run Z W S C env self w = zenoh_control_sender_run Z W S C env self w"

definition shm_data_sender_new ::
    "('w \<Rightarrow> 'i \<times> 'w) \<Rightarrow> ('w \<Rightarrow> 'c \<times> 'w) \<Rightarrow> NodeId \<Rightarrow> NodeId \<Rightarrow> 'z \<Rightarrow> 'i ChannelsToSenders \<Rightarrow> 'c ControlMessageHandler \<Rightarrow> 'w \<Rightarrow>
       ('z, 'i, 'c) ZenohDataSender \<times> 'i ChannelsToSenders \<times> 'c ControlMessageHandler \<times> 'w" where
  "shm_data_sender_new mk_data mk_control n this session cts handler w =
     data_sender_new mk_data mk_control n \<lparr> self_node_id = this, zsession = session \<rparr> cts handler w"

definition shm_control_sender_new ::
    "('w \<Rightarrow> 'c \<times> 'w) \<Rightarrow> NodeId \<Rightarrow> NodeId \<Rightarrow> 'z \<Rightarrow> 'c ControlMessageHandler \<Rightarrow> 'w \<Rightarrow>
       ('z, 'c) ZenohControlSender \<times> 'c ControlMessageHandler \<times> 'w" where
  "shm_control_sender_new mk_control n this session handler w =
     control_sender_new mk_control n \<lparr> self_node_id = this, zsession = session \<rparr> handler w"

section \<open>Receivers\<close>

text \<open>The boxed pushers of the Zenoh transports.\<close>

definition dyn_send_from_bytes_zenoh ::
    "('ty \<Rightarrow> ('w, 'h, 'i, 'm, 'e) net) \<Rightarrow> 'ty \<times> ('h, 'i) Pusher \<Rightarrow> bytes \<Rightarrow> 'w \<Rightarrow> 'w \<times> ('e CommunicationError + unit)" where
  "dyn_send_from_bytes_zenoh N p buf w = send_from_bytes_zenoh (N (fst p)) (snd p) buf w"

text \<open>
  What a receiver does with a message. Without shared memory a message for an unknown stream is dropped; with it, as
  over TCP, it is a panic, so that \<open>receive_message\<close> applies.
\<close>

definition zenoh_receive_message ::
    "('w, 'r, StreamId \<times> 'p) mpsc \<Rightarrow> ('p \<Rightarrow> bytes \<Rightarrow> 'w \<Rightarrow> 'w \<times> ('e CommunicationError + unit)) \<Rightarrow> 'e InterProcessMessage \<Rightarrow>
       ('z, 'r, 'p, 'c) ZenohDataReceiver \<Rightarrow> 'w \<Rightarrow> ((('z, 'r, 'p, 'c) ZenohDataReceiver \<times> 'w) \<times> ('e CommunicationError + unit)) option" where
  "zenoh_receive_message R push msg self w =
     (case update_pushers R (dr_rx self) (stream_id_to_pusher self) w of
        None \<Rightarrow> None
      | Some (pushers, w) \<Rightarrow>
          let self = self \<lparr> stream_id_to_pusher := pushers \<rparr>
          in (case msg of
                Deserialized _ _ \<Rightarrow> None
              | Serialized metadata bs \<Rightarrow>
                  (case map_of pushers (md_stream_id metadata) of
                     Some pusher \<Rightarrow> (case push pusher bs w of (w, r) \<Rightarrow> Some ((self, w), r))
                   | None \<Rightarrow> Some ((self, w), Inr ()))))"

text \<open>One sample: \<open>handle\<close> decodes it and pushes the message; \<open>None\<close> is a panic or a wait without end.\<close>

partial_function (option) subscriber_loop ::
    "('w, 'z, 'key, 'sub, 'rb, 'sb, 'shm, 'e) zenoh \<Rightarrow> ('rb \<Rightarrow> 's \<Rightarrow> 'w \<Rightarrow> (('s \<times> 'w) \<times> ('e CommunicationError + unit)) option) \<Rightarrow>
       ('w \<Rightarrow> 'w) \<Rightarrow> 'sub \<Rightarrow> 's \<Rightarrow> 'w \<Rightarrow> (('s \<times> 'w) \<times> ('e CommunicationError + unit)) option" where
  "subscriber_loop S handle env sub s w =
     (case z_next S sub w of
        None \<Rightarrow> subscriber_loop S handle env sub s (env w)
      | Some (w, None) \<Rightarrow> Some ((s, w), Inr ())
      | Some (w, Some payload) \<Rightarrow>
          (case handle payload s w of
             None \<Rightarrow> None
           | Some ((s, w), Inl e) \<Rightarrow> Some ((s, w), Inl e)
           | Some ((s, w), Inr _) \<Rightarrow> subscriber_loop S handle env sub s (env w)))"

declare subscriber_loop.simps [code]

definition handle_data ::
    "('rb, 'sb, 'shm, 'e) zenoh_buf \<Rightarrow> 'e wire \<Rightarrow> ('w, 'r, StreamId \<times> 'p) mpsc \<Rightarrow>
       ('p \<Rightarrow> bytes \<Rightarrow> 'w \<Rightarrow> 'w \<times> ('e CommunicationError + unit)) \<Rightarrow> 'rb \<Rightarrow> ('z, 'r, 'p, 'c) ZenohDataReceiver \<Rightarrow> 'w \<Rightarrow>
       ((('z, 'r, 'p, 'c) ZenohDataReceiver \<times> 'w) \<times> ('e CommunicationError + unit)) option" where
  "handle_data Z W R push payload self w =
     (case from_rbuf Z W payload of
        None \<Rightarrow> None
      | Some (Inl e) \<Rightarrow> Some ((self, w), Inl (comm_from_codec e))
      | Some (Inr msg) \<Rightarrow> zenoh_receive_message R push msg self w)"

text \<open>Subscribing, waiting a second and telling the control handler.\<close>

definition subscribe ::
    "('w, 'z, 'key, 'sub, 'rb, 'sb, 'shm, 'e) zenoh \<Rightarrow> ('w, 'c, ControlMessage) mpsc \<Rightarrow> 'z \<Rightarrow> string \<Rightarrow> 'c \<Rightarrow> ControlMessage \<Rightarrow> 'w \<Rightarrow>
       'w \<times> ('e CommunicationError + 'sub)" where
  "subscribe S C session resource_name control_tx msg w =
     (case z_declare_subscriber S session resource_name w of
        (w, Inl e) \<Rightarrow> (w, Inl (comm_from_zenoh e))
      | (w, Inr sub) \<Rightarrow>
          (case mpsc_send C control_tx msg (z_delay_for S 1000 w) of
             (w, Inl e) \<Rightarrow> (w, Inl (comm_from_send e))
           | (w, Inr _) \<Rightarrow> (w, Inr sub)))"

definition zenoh_data_receiver_run ::
    "('rb, 'sb, 'shm, 'e) zenoh_buf \<Rightarrow> 'e wire \<Rightarrow> ('w, 'z, 'key, 'sub, 'rb, 'sb, 'shm, 'e) zenoh \<Rightarrow> ('w, 'c, ControlMessage) mpsc \<Rightarrow>
       ('w, 'r, StreamId \<times> 'p) mpsc \<Rightarrow> ('p \<Rightarrow> bytes \<Rightarrow> 'w \<Rightarrow> 'w \<times> ('e CommunicationError + unit)) \<Rightarrow> ('w \<Rightarrow> 'w) \<Rightarrow>
       ('z, 'r, 'p, 'c) ZenohDataReceiver \<Rightarrow> 'w \<Rightarrow> ((('z, 'r, 'p, 'c) ZenohDataReceiver \<times> 'w) \<times> ('e CommunicationError + unit)) option" where
  "zenoh_data_receiver_run Z W S C R push env self w =
     (case subscribe S C (zsession (dr_stream self)) (data_resource (dr_node_id self) (self_node_id (dr_stream self)))
             (dr_control_tx self) (DataReceiverInitialized (dr_node_id self)) w of
        (w, Inl e) \<Rightarrow> Some ((self, w), Inl e)
      | (w, Inr sub) \<Rightarrow> subscriber_loop S (handle_data Z W R push) env sub self w)"

definition handle_control ::
    "('rb, 'sb, 'shm, 'e) zenoh_buf \<Rightarrow> 'e wire \<Rightarrow> ('w, 'c, ControlMessage) mpsc \<Rightarrow> 'rb \<Rightarrow> ('z, 'c) ZenohControlReceiver \<Rightarrow> 'w \<Rightarrow>
       ((('z, 'c) ZenohControlReceiver \<times> 'w) \<times> ('e CommunicationError + unit)) option" where
  "handle_control Z W C payload self w =
     (case control_from_rbuf Z W payload of
        Inl e \<Rightarrow> Some ((self, w), Inl (comm_from_codec e))
      | Inr msg \<Rightarrow> (case mpsc_send C (cr_control_tx self) msg w of (w, r) \<Rightarrow> Some ((self, w), map_err comm_from_send r)))"

definition zenoh_control_receiver_run ::
    "('rb, 'sb, 'shm, 'e) zenoh_buf \<Rightarrow> 'e wire \<Rightarrow> ('w, 'z, 'key, 'sub, 'rb, 'sb, 'shm, 'e) zenoh \<Rightarrow> ('w, 'c, ControlMessage) mpsc \<Rightarrow>
       ('w \<Rightarrow> 'w) \<Rightarrow> ('z, 'c) ZenohControlReceiver \<Rightarrow> 'w \<Rightarrow>
       ((('z, 'c) ZenohControlReceiver \<times> 'w) \<times> ('e CommunicationError + unit)) option" where
  "zenoh_control_receiver_run Z W S C env self w =
     (case subscribe S C (zsession (cr_stream self)) (control_resource (cr_node_id self) (self_node_id (cr_stream self)))
             (cr_control_tx self) (ControlReceiverInitialized (cr_node_id self)) w of
        (w, Inl e) \<Rightarrow> Some ((self, w), Inl e)
      | (w, Inr sub) \<Rightarrow> subscriber_loop S (handle_control Z W C) env sub self w)"

section \<open>Receivers with shared memory\<close>

partial_function (option) decode_in_shm ::
    "('rb, 'sb, 'shm, 'e) zenoh_buf \<Rightarrow> 'e wire \<Rightarrow> ('w, 'z, 'key, 'sub, 'rb, 'sb, 'shm, 'e) zenoh \<Rightarrow> 'rb \<Rightarrow> 'shm \<Rightarrow> 'w \<Rightarrow>
       (('shm \<times> 'w) \<times> ('e CodecError + 'e InterProcessMessage)) option" where
  "decode_in_shm Z W S payload shm w =
     (case from_sbuf Z W payload shm of
        None \<Rightarrow> None
      | Some (shm, Inr msg) \<Rightarrow> Some ((shm, w), Inr msg)
      | Some (shm, Inl e) \<Rightarrow>
          if is_shm_error e
          then (case z_garbage_collect S shm (z_delay_for S 500 w) of (shm, w) \<Rightarrow> decode_in_shm Z W S payload shm w)
          else Some ((shm, w), Inl e))"

declare decode_in_shm.simps [code]

definition handle_shm_data ::
    "('rb, 'sb, 'shm, 'e) zenoh_buf \<Rightarrow> 'e wire \<Rightarrow> ('w, 'z, 'key, 'sub, 'rb, 'sb, 'shm, 'e) zenoh \<Rightarrow> ('w, 'r, StreamId \<times> 'p) mpsc \<Rightarrow>
       ('p \<Rightarrow> bytes \<Rightarrow> 'w \<Rightarrow> 'w \<times> ('e CommunicationError + unit)) \<Rightarrow> 'rb \<Rightarrow> ('z, 'r, 'p, 'c) ZenohDataReceiver \<times> 'shm \<Rightarrow> 'w \<Rightarrow>
       (((('z, 'r, 'p, 'c) ZenohDataReceiver \<times> 'shm) \<times> 'w) \<times> ('e CommunicationError + unit)) option" where
  "handle_shm_data Z W S R push payload s w =
     (case s of (self, shm) \<Rightarrow>
        (case decode_in_shm Z W S payload shm w of
           None \<Rightarrow> None
         | Some ((shm, w), Inl e) \<Rightarrow> Some (((self, shm), w), Inl (comm_from_codec e))
         | Some ((shm, w), Inr msg) \<Rightarrow>
             map_option (\<lambda>((self, w), r). (((self, shm), w), r)) (receive_message R push msg self w)))"

definition shm_data_receiver_run ::
    "('rb, 'sb, 'shm, 'e) zenoh_buf \<Rightarrow> 'e wire \<Rightarrow> ('w, 'z, 'key, 'sub, 'rb, 'sb, 'shm, 'e) zenoh \<Rightarrow> ('w, 'c, ControlMessage) mpsc \<Rightarrow>
       ('w, 'r, StreamId \<times> 'p) mpsc \<Rightarrow> ('p \<Rightarrow> bytes \<Rightarrow> 'w \<Rightarrow> 'w \<times> ('e CommunicationError + unit)) \<Rightarrow> ('w \<Rightarrow> 'w) \<Rightarrow>
       ('z, 'r, 'p, 'c) ZenohDataReceiver \<Rightarrow> 'w \<Rightarrow> ((('z, 'r, 'p, 'c) ZenohDataReceiver \<times> 'w) \<times> ('e CommunicationError + unit)) option" where
  "shm_data_receiver_run Z W S C R push env self w =
     (let session = zsession (dr_stream self); this = self_node_id (dr_stream self); n = dr_node_id self
      in (case z_id S session w of (w, sid) \<Rightarrow>
         (case z_shm_new S (''from-'' @ display_usize n @ ''-to-'' @ display_usize this @ ''-data-'' @ sid) SHM_SIZE w of
            (w, Inl e) \<Rightarrow> Some ((self, w), Inl (comm_from_shmem e))
          | (w, Inr shm) \<Rightarrow>
         (case subscribe S C session (data_resource n this) (dr_control_tx self) (DataReceiverInitialized n) w of
            (w, Inl e) \<Rightarrow> Some ((self, w), Inl e)
          | (w, Inr sub) \<Rightarrow>
              map_option (\<lambda>(((self, shm), w), r). ((self, w), r)) (subscriber_loop S (handle_shm_data Z W S R push) env sub (self, shm) w)))))"

definition shm_control_receiver_run ::
    "('rb, 'sb, 'shm, 'e) zenoh_buf \<Rightarrow> 'e wire \<Rightarrow> ('w, 'z, 'key, 'sub, 'rb, 'sb, 'shm, 'e) zenoh \<Rightarrow> ('w, 'c, ControlMessage) mpsc \<Rightarrow>
       ('w \<Rightarrow> 'w) \<Rightarrow> ('z, 'c) ZenohControlReceiver \<Rightarrow> 'w \<Rightarrow>
       ((('z, 'c) ZenohControlReceiver \<times> 'w) \<times> ('e CommunicationError + unit)) option" where
  "shm_control_receiver_run Z W S C env self w = zenoh_control_receiver_run Z W S C env self w"

definition shm_data_receiver_new ::
    "('w \<Rightarrow> 'r \<times> 'w) \<Rightarrow> ('w \<Rightarrow> 'c \<times> 'w) \<Rightarrow> NodeId \<Rightarrow> NodeId \<Rightarrow> 'z \<Rightarrow> 'r ChannelsToReceivers \<Rightarrow> 'c ControlMessageHandler \<Rightarrow> 'w \<Rightarrow>
       ('z, 'r, 'p, 'c) ZenohDataReceiver \<times> 'r ChannelsToReceivers \<times> 'c ControlMessageHandler \<times> 'w" where
  "shm_data_receiver_new mk_pushers mk_control n this session ctr handler w =
     data_receiver_new mk_pushers mk_control n \<lparr> self_node_id = this, zsession = session \<rparr> ctr handler w"

definition shm_control_receiver_new ::
    "('w \<Rightarrow> 'c \<times> 'w) \<Rightarrow> NodeId \<Rightarrow> NodeId \<Rightarrow> 'z \<Rightarrow> 'c ControlMessageHandler \<Rightarrow> 'w \<Rightarrow>
       ('z, 'c) ZenohControlReceiver \<times> 'c ControlMessageHandler \<times> 'w" where
  "shm_control_receiver_new mk_control n this session handler w =
     control_receiver_new mk_control n \<lparr> self_node_id = this, zsession = session \<rparr> handler w"

section \<open>Discovery\<close>

text \<open>A node answers queries for its information with its id; \<open>ready\<close> tells the node that the handler runs, where \<open>None\<close> is the
  panic of \<^verbatim>\<open>unwrap\<close>.\<close>

record ('w, 'z, 'q, 'query, 'e) zenoh_queries =
  z_declare_queryable :: "'z \<Rightarrow> string \<Rightarrow> 'w \<Rightarrow> 'w \<times> ('e foreign_error + 'q)"
  z_next_query :: "'q \<Rightarrow> 'w \<Rightarrow> ('w \<times> 'query option) option"
  z_reply :: "'query \<Rightarrow> string \<Rightarrow> string \<Rightarrow> 'w \<Rightarrow> 'w"

partial_function (option) answer_queries ::
    "('w, 'z, 'q, 'query, 'e) zenoh_queries \<Rightarrow> ('w \<Rightarrow> 'w) \<Rightarrow> 'q \<Rightarrow> string \<Rightarrow> string \<Rightarrow> 'w \<Rightarrow> 'w option" where
  "answer_queries Q env queryable path info w =
     (case z_next_query Q queryable w of
        None \<Rightarrow> answer_queries Q env queryable path info (env w)
      | Some (w, None) \<Rightarrow> Some w
      | Some (w, Some zquery) \<Rightarrow> answer_queries Q env queryable path info (env (z_reply Q zquery path info w)))"

declare answer_queries.simps [code]

definition info_path :: "NodeId \<Rightarrow> string" where
  "info_path n = ''/'' @ display_usize n @ ''/info''"

definition query_handler ::
    "('w, 'z, 'q, 'query, 'e) zenoh_queries \<Rightarrow> ('w \<Rightarrow> 'w option) \<Rightarrow> ('w \<Rightarrow> 'w) \<Rightarrow> 'z \<Rightarrow> NodeId \<Rightarrow> 'w \<Rightarrow> 'w option" where
  "query_handler Q ready env session n w =
     (case z_declare_queryable Q session (info_path n) w of
        (w, Inl _) \<Rightarrow> None
      | (w, Inr queryable) \<Rightarrow>
          (case ready w of
             None \<Rightarrow> None
           | Some w \<Rightarrow> answer_queries Q env queryable (info_path n) (display_usize n) w))"

section \<open>The tasks of a node\<close>

definition get_control_streams ::
    "('w \<Rightarrow> 'c \<times> 'w) \<Rightarrow> 'z \<Rightarrow> NodeId list \<Rightarrow> ('addr, 'c, 'i, 'r, 'run, 'hook, 'ty) Node \<Rightarrow> 'w \<Rightarrow>
       (('z, 'c) ZenohControlSender list \<times> ('z, 'c) ZenohControlReceiver list) \<times> ('addr, 'c, 'i, 'r, 'run, 'hook, 'ty) Node \<times> 'w" where
  "get_control_streams mk_control session nodes self w =
     split_control_streams mk_control (map (\<lambda>n. (n, \<lparr> self_node_id = node_id self, zsession = session \<rparr>)) nodes) self w"

definition get_data_streams ::
    "('w \<Rightarrow> 'i \<times> 'w) \<Rightarrow> ('w \<Rightarrow> 'r \<times> 'w) \<Rightarrow> ('w \<Rightarrow> 'c \<times> 'w) \<Rightarrow> 'z \<Rightarrow> NodeId list \<Rightarrow>
       ('addr, 'c, 'i, 'r, 'run, 'hook, 'ty) Node \<Rightarrow> 'w \<Rightarrow>
       (('z, 'i, 'c) ZenohDataSender list \<times> ('z, 'r, 'p, 'c) ZenohDataReceiver list) \<times> ('addr, 'c, 'i, 'r, 'run, 'hook, 'ty) Node \<times> 'w" where
  "get_data_streams mk_data mk_pushers mk_control session nodes self w =
     make_data_tasks mk_data mk_pushers mk_control (map (\<lambda>n. (n, \<lparr> self_node_id = node_id self, zsession = session \<rparr>)) nodes) self w"

end
