(* ===== verification/Zenoh_Properties.thy ===== *)
theory Zenoh_Properties
  imports Zenoh_Tasks Task_Loops Codec_Properties
begin

text \<open>
  What the Zenoh tasks guarantee: names are unambiguous, messages are delivered, and a message that does not fit the shared
  memory blocks its sender for good. The locale \<open>publishing_task\<close> states that a session accepts what is written under a
  declared resource, \<open>subscribing_task\<close> that a subscription returns the samples of its resource in order.
\<close>

section \<open>Names\<close>

fun digits_value :: "string \<Rightarrow> nat" where
  "digits_value [] = 0"
| "digits_value (c # cs) = (of_char c - 48) * 10 ^ length cs + digits_value cs"

lemma digits_value_snoc: "digits_value (cs @ [c]) = 10 * digits_value cs + (of_char c - 48)"
  by (induction cs) simp_all

lemma display_usize_value: "digits_value (display_usize n) = n"
proof (induction n rule: display_usize.induct)
  case (1 n)
  then show ?case by (subst display_usize.simps) (auto simp: digits_value_snoc)
qed

lemma display_usize_inject [simp]: "display_usize m = display_usize n \<longleftrightarrow> m = n"
  by (metis display_usize_value)

lemma display_usize_no_slash: "CHR ''/'' \<notin> set (display_usize n)"
proof (induction n rule: display_usize.induct)
  case (1 n)
  have "CHR ''/'' \<noteq> char_of (48 + k)" if "k < 10" for k :: nat
  proof
    assume "CHR ''/'' = char_of (48 + k)"
    then have "(of_char (CHR ''/'') :: nat) = of_char (char_of (48 + k) :: char)" by simp
    with that show False by simp
  qed
  with 1 show ?case by (subst display_usize.simps) auto
qed

lemma split_at_slash:
  assumes "CHR ''/'' \<notin> set a" "CHR ''/'' \<notin> set a'" "a @ CHR ''/'' # r = a' @ CHR ''/'' # r'"
  shows "a = a'" "r = r'"
proof -
  have "takeWhile (\<lambda>c. c \<noteq> x) (b @ x # s) = b" if "x \<notin> set b" for x :: char and b s
    using that by (induction b) auto
  with assms show "a = a'" by metis
  with assms(3) show "r = r'" by simp
qed

text \<open>The names of the Zenoh resources are unambiguous: two names of data resources are equal only if sender and receiver are
  the same, likewise for control resources, and a data resource is never a control resource.\<close>

theorem zenoh_resources_distinct:
  "(data_resource a b = data_resource a' b' \<longleftrightarrow> a = a' \<and> b = b') \<and>
   (control_resource a b = control_resource a' b' \<longleftrightarrow> a = a' \<and> b = b') \<and>
   data_resource a b \<noteq> control_resource a' b'"
proof -
  have parts: "a = a' \<and> b = b' \<and> r = r'"
    if "''/from/'' @ display_usize a @ ''/to/'' @ display_usize b @ CHR ''/'' # r =
        ''/from/'' @ display_usize a' @ ''/to/'' @ display_usize b' @ CHR ''/'' # r'" for r r'
  proof -
    from that have "display_usize a @ CHR ''/'' # ''to/'' @ display_usize b @ CHR ''/'' # r =
        display_usize a' @ CHR ''/'' # ''to/'' @ display_usize b' @ CHR ''/'' # r'" by simp
    note 1 = split_at_slash[OF display_usize_no_slash display_usize_no_slash this]
    then have "display_usize b @ CHR ''/'' # r = display_usize b' @ CHR ''/'' # r'" by simp
    note 2 = split_at_slash[OF display_usize_no_slash display_usize_no_slash this]
    from 1(1) 2 show ?thesis by simp
  qed
  show ?thesis
    using parts[of "''data''" "''data''"] parts[of "''control''" "''control''"] parts[of "''data''" "''control''"]
    by (auto simp: data_resource_def control_resource_def)
qed

section \<open>Senders\<close>

locale publishing_task = fed_channel C contents rx_open tx_open env clock news closes rx published
  for C :: "('w, 'x, 'm) mpsc" and contents rx_open tx_open env clock news closes rx and published :: "'w \<Rightarrow> 'rb list" +
  fixes S :: "('w, 'z, 'key, 'sub, 'rb, 'sb, 'shm, 'e) zenoh" and session :: 'z and res_name :: string and key_name :: "'key \<Rightarrow> string"
  assumes declares: "\<exists>w' key. z_declare_resource S session res_name w = (w', Inr key) \<and> key_name key = res_name \<and>
      published w' = published w \<and> contents w' rx = contents w rx \<and> tx_open w' rx = tx_open w rx \<and> clock w' = clock w"
    and declares_publisher: "\<exists>w'. z_declare_publisher S session key w = (w', Inr ()) \<and>
      published w' = published w \<and> contents w' rx = contents w rx \<and> tx_open w' rx = tx_open w rx \<and> clock w' = clock w"
    and writes: "key_name key = res_name \<Longrightarrow> \<exists>w'. z_write_ext S session key buf w = (w', Inr ()) \<and>
      published w' = published w @ [buf] \<and> contents w' rx = contents w rx \<and> tx_open w' rx = tx_open w rx \<and> clock w' = clock w"
begin

lemma zenoh_send_publishes:
  "\<exists>w'. zenoh_send S session res_name (Inr buf) w = (w', Inr ()) \<and> published w' = published w @ [buf] \<and>
     contents w' rx = contents w rx \<and> tx_open w' rx = tx_open w rx \<and> clock w' = clock w"
proof -
  from declares[of w] obtain w1 key where w1: "z_declare_resource S session res_name w = (w1, Inr key)" "key_name key = res_name"
    "published w1 = published w" "contents w1 rx = contents w rx" "tx_open w1 rx = tx_open w rx" "clock w1 = clock w" by blast
  from declares_publisher[of key w1] obtain w2 where w2: "z_declare_publisher S session key w1 = (w2, Inr ())"
    "published w2 = published w1" "contents w2 rx = contents w1 rx" "tx_open w2 rx = tx_open w1 rx" "clock w2 = clock w1" by blast
  from writes[OF w1(2), of buf w2] obtain w3 where "z_write_ext S session key buf w2 = (w3, Inr ())"
    "published w3 = published w2 @ [buf]" "contents w3 rx = contents w2 rx" "tx_open w3 rx = tx_open w2 rx" "clock w3 = clock w2" by blast
  with w1 w2 show ?thesis by (auto simp: zenoh_send_def declare_and_publish_def)
qed

lemma zenoh_forward_loop_publishes:
  assumes "tx_open w rx \<Longrightarrow> clock w \<le> closes" and "\<forall>m \<in> set (arriving w). enc m = Inr (buf m)"
  shows "\<exists>w'. zenoh_forward_loop C (\<lambda>m. zenoh_send S session res_name (enc m)) env rx w = Some (w', Inl Disconnected) \<and>
    published w' = published w @ map buf (arriving w)"
proof -
  let ?loop = "zenoh_forward_loop C (\<lambda>m. zenoh_send S session res_name (enc m)) env rx"
  have "\<exists>w'. ?loop w = Some (w', Inl Disconnected) \<and> published w' = published w @ concat (map (\<lambda>m. [buf m]) (arriving w))"
  proof (rule loop_sends_all[where ok = "\<lambda>m. enc m = Inr (buf m)", OF _ _ _ assms])
    fix w w1 m
    assume recv: "mpsc_recv C rx w = Some (w1, Some m)" and "enc m = Inr (buf m)"
    with zenoh_send_publishes[of "buf m" w1]
    show "\<exists>w2. ?loop w = ?loop (env w2) \<and> published w2 = published w1 @ [buf m] \<and>
        contents w2 rx = contents w1 rx \<and> tx_open w2 rx = tx_open w1 rx \<and> clock w2 = clock w1"
      by (subst zenoh_forward_loop.simps) auto
  qed (subst zenoh_forward_loop.simps, simp)+
  then show ?thesis by (simp add: concat_map_singleton)
qed

end

section \<open>Receivers\<close>

lemma received_SomeE:
  assumes "received L msg = Some (sid, d)"
  obtains bs m where "msg = Serialized (MessageMetadata sid) bs" "decode_msg L bs = Inr m" "deserialized m = d"
proof (cases msg)
  case (Serialized md bs)
  obtain sid' where "md = MessageMetadata sid'" by (cases md)
  with Serialized assms that show thesis by (auto split: sum.splits)
qed (use assms in simp)

locale subscribing_task = delivering_task R rc rrx rtx N tc trx ttx pc prx ptx input rx
  for R :: "('w, 'r, StreamId \<times> 'ty \<times> ('h, 'i) Pusher) mpsc" and rc rrx rtx
    and N :: "'ty \<Rightarrow> ('w, 'h, 'i, 'm, 'e) net" and tc trx ttx pc prx ptx and input :: "'w \<Rightarrow> 'rb list" and rx +
  fixes S :: "('w, 'z, 'key, 'sub, 'rb, 'sb, 'shm, 'e) zenoh" and delay :: "'w \<Rightarrow> nat" and env :: "'w \<Rightarrow> 'w" and sub :: 'sub
  assumes next_waits: "0 < delay w \<Longrightarrow> z_next S sub w = None"
    and next_item: "delay w = 0 \<Longrightarrow> input w = buf # bufs \<Longrightarrow> \<exists>w'. z_next S sub w = Some (w', Some buf) \<and> input w' = bufs \<and>
      rc w' rx = rc w rx \<and> queued tc pc w' = queued tc pc w \<and> receiver_alive trx prx w' = receiver_alive trx prx w"
    and next_end: "delay w = 0 \<Longrightarrow> input w = [] \<Longrightarrow> \<exists>w'. z_next S sub w = Some (w', None) \<and> queued tc pc w' = queued tc pc w"
    and env_keeps: "input (env w) = input w \<and> delay (env w) = delay w - 1 \<and> rc (env w) rx = rc w rx \<and>
        queued tc pc (env w) = queued tc pc w \<and> receiver_alive trx prx (env w) = receiver_alive trx prx w"
begin

text \<open>A message is harmless if the pusher of its stream, where there is one, is of its type and has readers that are alive.\<close>

definition harmless :: "(StreamId \<Rightarrow> 'ty) \<Rightarrow> (StreamId \<times> 'ty \<times> ('h, 'i) Pusher) list \<Rightarrow> 'w \<Rightarrow> StreamId \<times> 'm \<Rightarrow> bool" where
  "harmless kind known w x \<longleftrightarrow> (\<forall>ty p. map_of known (fst x) = Some (ty, p) \<longrightarrow>
     ty = kind (fst x) \<and> (\<forall>ep \<in> set (endpoints p). receiver_alive trx prx w (ep_channel ep)))"

lemma push_zenoh_delivers:
  assumes "received (net_serde (N ty)) msg = Some (sid, d)" "sd_abomonation (net_serde (N ty)) = None"
    and "\<forall>ep \<in> set (endpoints p). receiver_alive trx prx w (ep_channel ep)"
  obtains bs w' where "msg = Serialized (MessageMetadata sid) bs" "dyn_send_from_bytes_zenoh N (ty, p) bs w = (w', Inr ())" "delivers ty p d w w'"
proof -
  from received_SomeE[OF assms(1)] obtain bs m where
    msg: "msg = Serialized (MessageMetadata sid) bs" "decode_msg (net_serde (N ty)) bs = Inr m" "deserialized m = d" .
  then have "decode_from_vec_zenoh (net_serde (N ty)) bs = Inr m"
    using assms(2) by (cases "bincode_deserialize (sd_bincode (net_serde (N ty))) bs") (simp_all add: decode_msg_def decode_from_vec_zenoh_def)
  with pusher_send_delivers[OF assms(3), of ty d] no_endpoints_delivers[of p ty d w] msg that show thesis
    by (cases "endpoints p = []") (auto simp: dyn_send_from_bytes_zenoh_def send_from_bytes_zenoh_def)
qed

lemma handle_data_delivers:
  assumes "from_rbuf Z W buf = Some (Inr msg)" "received (net_serde (N (kind (fst x)))) msg = Some x"
    and "\<And>ty. sd_abomonation (net_serde (N ty)) = None" "dr_rx self = rx"
    and known: "known = with_updates (rc w rx) (stream_id_to_pusher self)" and x: "harmless kind known w x"
  shows "\<exists>w'. handle_data Z W R (dyn_send_from_bytes_zenoh N) buf self w = Some ((self \<lparr> stream_id_to_pusher := known \<rparr>, w'), Inr ()) \<and>
    input w' = input w \<and> rc w' rx = [] \<and> receiver_alive trx prx w' = receiver_alive trx prx w \<and>
    (\<forall>c. queued tc pc w' c = queued tc pc w c @ arrivals N known c x)"
proof -
  from update_pushers_all[of "stream_id_to_pusher self" w] obtain w1 where
    w1: "update_pushers R rx (stream_id_to_pusher self) w = Some (known, w1)" "rc w1 rx = []" "input w1 = input w"
      "queued tc pc w1 = queued tc pc w" "receiver_alive trx prx w1 = receiver_alive trx prx w" unfolding known by blast
  show ?thesis
  proof (cases "map_of known (fst x)")
    case None
    from assms(2) obtain bs where "msg = Serialized (MessageMetadata (fst x)) bs"
      using received_SomeE[of _ msg "fst x" "snd x"] by fastforce
    with None w1 assms(1,4) show ?thesis by (simp add: handle_data_def zenoh_receive_message_def arrivals_def)
  next
    case (Some q)
    obtain ty p where q: "q = (ty, p)" by (cases q)
    with Some x w1(5) have ty: "ty = kind (fst x)" "\<forall>ep \<in> set (endpoints p). receiver_alive trx prx w1 (ep_channel ep)"
      by (auto simp: harmless_def)
    from assms(2) have "received (net_serde (N ty)) msg = Some (fst x, snd x)" by (simp add: ty(1))
    from push_zenoh_delivers[OF this assms(3) ty(2)] obtain bs w2 where "msg = Serialized (MessageMetadata (fst x)) bs"
      "dyn_send_from_bytes_zenoh N (ty, p) bs w1 = (w2, Inr ())" "delivers ty p (snd x) w1 w2" by blast
    with Some q w1 assms(1,4) show ?thesis
      by (simp add: handle_data_def zenoh_receive_message_def arrivals_def delivers_def)
  qed
qed

lemma subscriber_loop_waits:
  "\<exists>w'. subscriber_loop S handle env sub s w = subscriber_loop S handle env sub s w' \<and> delay w' = 0 \<and> input w' = input w \<and>
    rc w' rx = rc w rx \<and> queued tc pc w' = queued tc pc w \<and> receiver_alive trx prx w' = receiver_alive trx prx w"
proof (induction "delay w" arbitrary: w)
  case 0
  then show ?case by auto
next
  case (Suc n)
  then have "0 < delay w" by simp
  then have "subscriber_loop S handle env sub s w = subscriber_loop S handle env sub s (env w)"
    by (subst subscriber_loop.simps) (simp add: next_waits)
  with Suc.hyps(1)[of "env w"] Suc.hyps(2) env_keeps[of w] show ?case by auto
qed

lemma subscriber_loop_delivers:
  assumes "\<And>ty. sd_abomonation (net_serde (N ty)) = None"
    and "dr_rx self = rx" "known = with_updates (rc w rx) (stream_id_to_pusher self)" "\<forall>x \<in> set xs. harmless kind known w x"
    and "list_all2 (\<lambda>x buf. \<exists>msg. from_rbuf Z W buf = Some (Inr msg) \<and> received (net_serde (N (kind (fst x)))) msg = Some x) xs (input w)"
  shows "\<exists>self' w'. subscriber_loop S (handle_data Z W R (dyn_send_from_bytes_zenoh N)) env sub self w = Some ((self', w'), Inr ()) \<and>
    (\<forall>c. queued tc pc w' c = queued tc pc w c @ concat (map (arrivals N known c) xs))"
  using assms(2-5)
proof (induction xs arbitrary: w self)
  case Nil
  let ?loop = "subscriber_loop S (handle_data Z W R (dyn_send_from_bytes_zenoh N)) env sub self"
  from subscriber_loop_waits obtain w0 where
    w0: "?loop w = ?loop w0" "delay w0 = 0" "input w0 = input w" "queued tc pc w0 = queued tc pc w" by metis
  with Nil.prems(4) next_end[OF w0(2)] show ?case unfolding w0(1) by (subst subscriber_loop.simps) auto
next
  case (Cons x xs)
  let ?h = "handle_data Z W R (dyn_send_from_bytes_zenoh N)"
  from subscriber_loop_waits obtain w0 where
    w0: "subscriber_loop S ?h env sub self w = subscriber_loop S ?h env sub self w0" "delay w0 = 0" "input w0 = input w" "rc w0 rx = rc w rx"
      "queued tc pc w0 = queued tc pc w" "receiver_alive trx prx w0 = receiver_alive trx prx w" by metis
  from Cons.prems(4) obtain buf bufs msg where buf: "input w = buf # bufs" "from_rbuf Z W buf = Some (Inr msg)"
      "received (net_serde (N (kind (fst x)))) msg = Some x"
    and bufs: "list_all2 (\<lambda>x buf. \<exists>msg. from_rbuf Z W buf = Some (Inr msg) \<and> received (net_serde (N (kind (fst x)))) msg = Some x) xs bufs"
    by (auto simp: list_all2_Cons1)
  from next_item[OF w0(2), of buf bufs] w0 buf(1) obtain w1 where w1: "z_next S sub w0 = Some (w1, Some buf)" "input w1 = bufs" "rc w1 rx = rc w rx"
      "queued tc pc w1 = queued tc pc w" "receiver_alive trx prx w1 = receiver_alive trx prx w" by auto
  have "harmless kind known w1 x" using Cons.prems(3) w1(5) by (simp add: harmless_def)
  with handle_data_delivers[where kind = kind and known = known and w = w1, OF buf(2,3) assms(1) Cons.prems(1)] Cons.prems(2) w1 obtain w2 where
    w2: "?h buf self w1 = Some ((self \<lparr> stream_id_to_pusher := known \<rparr>, w2), Inr ())" "input w2 = bufs" "rc w2 rx = []"
      "receiver_alive trx prx w2 = receiver_alive trx prx w" "\<forall>c. queued tc pc w2 c = queued tc pc w c @ arrivals N known c x"
    by auto
  have step: "subscriber_loop S ?h env sub self w = subscriber_loop S ?h env sub (self \<lparr> stream_id_to_pusher := known \<rparr>) (env w2)"
    unfolding w0(1) by (subst subscriber_loop.simps) (simp add: w1(1) w2(1))
  have "\<forall>x \<in> set xs. harmless kind known (env w2) x"
    using Cons.prems(3) w2(4) env_keeps[of w2] by (simp add: harmless_def)
  with Cons.IH[of "self \<lparr> stream_id_to_pusher := known \<rparr>" "env w2"] Cons.prems(1) w2 bufs env_keeps[of w2]
  obtain self' w' where "subscriber_loop S ?h env sub (self \<lparr> stream_id_to_pusher := known \<rparr>) (env w2) = Some ((self', w'), Inr ())"
      "\<forall>c. queued tc pc w' c = queued tc pc (env w2) c @ concat (map (arrivals N known c) xs)"
    by (auto simp: with_updates_def)
  with step w2(5) env_keeps[of w2] show ?case by simp
qed

end

section \<open>A reference session\<close>

type_synonym zenoh_ref_node = "(bytes list, bytes) ref_node"

text \<open>A resource is known by its name, and shared memory is always exhausted.\<close>

definition ref_session :: "(zenoh_ref_node, unit, string, unit, bytes, bytes, unit, unit) zenoh" where
  "ref_session =
     \<lparr> z_id = (\<lambda>_ w. (w, ''id'')), z_declare_resource = (\<lambda>_ name w. (w, Inr name)), z_declare_publisher = (\<lambda>_ _ w. (w, Inr ())),
       z_write_ext = (\<lambda>_ _ buf w. (w \<lparr> rn_written := rn_written w @ [buf] \<rparr>, Inr ())), z_declare_subscriber = (\<lambda>_ _ w. (w, Inr ())),
       z_next = (\<lambda>_ w. if 0 < rn_delay w then None
         else (case rn_input w of [] \<Rightarrow> Some (w, None) | buf # bufs \<Rightarrow> Some (w \<lparr> rn_input := bufs, rn_delay := 1 \<rparr>, Some buf))),
       z_shm_new = (\<lambda>_ _ w. (w, Inr ())), z_garbage_collect = (\<lambda>shm w. (shm, w)), z_rbuf_from_sbuf = id, z_delay_for = (\<lambda>_ w. w) \<rparr>"

interpretation ref_publisher: publishing_task process_mpsc "\<lambda>w h. ch_items (rn_process w h)" "\<lambda>w h. ch_rx (rn_process w h)"
    "\<lambda>w h. ch_tx (rn_process w h)" "rn_env news closes" rn_clock news closes 0 rn_written ref_session "()" res_name id for news closes res_name
  by (intro publishing_task.intro publishing_task_axioms.intro rn_feed.fed_channel_axioms) (auto simp: ref_session_def)

interpretation ref_subscriber: subscribing_task pushers_mpsc "\<lambda>w h. ch_items (rn_pushers w h)" "\<lambda>w h. ch_rx (rn_pushers w h)"
    "\<lambda>w h. ch_tx (rn_pushers w h)" rn_net "\<lambda>w h. ch_items (rn_thread w h)" "\<lambda>w h. ch_rx (rn_thread w h)" "\<lambda>w h. ch_tx (rn_thread w h)"
    "\<lambda>w h. ch_items (rn_process w h)" "\<lambda>w h. ch_rx (rn_process w h)" "\<lambda>w h. ch_tx (rn_process w h)"
    rn_input 0 ref_session rn_delay idle_env "()"
  by (intro subscribing_task.intro subscribing_task_axioms.intro rn_delivery.delivering_task_axioms)
    (auto simp: ref_session_def idle_env_def queued_def receiver_alive_def fun_eq_iff split: sum.splits)

section \<open>Properties\<close>

text \<open>C17. Messages for another node arrive there over Zenoh as well. Once all handles to its channel are dropped the data sender has
  published every message under the name of the pair of nodes, to which the receiver of the other node subscribes. A
  receiver that gets those samples, whatever the delays, ends without an error when the session is closed, and the channel of
  each local reader has gained exactly the messages of the streams it reads, in order; messages of streams for
  which the node has no pusher are dropped. Relied on: the documented behaviour of the channels, of Zenoh and of bincode; that
  the messages serialize to less than \<open>2 ^ 32\<close> bytes, that readers are alive, and that the other tasks of the receiving node do not
  touch the channels of the readers and give the receiver no new pushers while it runs.\<close>

theorem zenoh_delivery:
  assumes pub: "publishing_task D contents rx_open tx_open env1 clock news closes (ds_rx sender) published S1 (zsession (ds_sink sender))
      (data_resource (self_node_id (ds_sink sender)) (ds_node_id sender)) key_name"
    and sub: "subscribing_task R rc rrx rtx N tc trx ttx pc prx ptx input (dr_rx receiver) S2 delay env2 sub"
    and libs: "wire_format W" "zenoh_buffers Z" "\<And>ty. serializer (net_serde (N ty))" "\<And>ty. sd_abomonation (net_serde (N ty)) = None"
    and start1: "mpsc_send C1 (ds_control_tx sender) (DataSenderInitialized (ds_node_id sender)) v0 = (v, Inr ())"
      "tx_open v (ds_rx sender)" "clock v \<le> closes" "published v = []"
    and msgs: "contents v (ds_rx sender) @ concat (map news [clock v..<Suc closes]) =
      map (\<lambda>(sid, d). new_deserialized (serializable fmt (net_serde (N (kind sid))) d) sid) xs"
    and ok: "\<forall>(sid, d) \<in> set xs. \<exists>bs. encode (net_serde (N (kind sid))) d = Inr bs \<and> length bs < 2 ^ 32"
    and pair: "dr_node_id receiver = self_node_id (ds_sink sender)" "self_node_id (dr_stream receiver) = ds_node_id sender"
  shows "\<exists>v'. zenoh_data_sender_run fmt Z W S1 C1 D env1 sender v0 = Some (v', Inl Disconnected) \<and>
    (\<forall>w0 w known. subscribe S2 C2 (zsession (dr_stream receiver)) (data_resource (self_node_id (ds_sink sender)) (ds_node_id sender))
        (dr_control_tx receiver) (DataReceiverInitialized (dr_node_id receiver)) w0 = (w, Inr sub) \<longrightarrow>
      input w = published v' \<longrightarrow> known = with_updates (rc w (dr_rx receiver)) (stream_id_to_pusher receiver) \<longrightarrow>
      (\<forall>(sid, d) \<in> set xs. \<forall>ty p. map_of known sid = Some (ty, p) \<longrightarrow> ty = kind sid \<and>
        (\<forall>ep \<in> set (endpoints p). receiver_alive trx prx w (ep_channel ep))) \<longrightarrow>
      (\<exists>receiver' w'. zenoh_data_receiver_run Z W S2 C2 R (dyn_send_from_bytes_zenoh N) env2 receiver w0 = Some ((receiver', w'), Inr ()) \<and>
        (\<forall>c. queued tc pc w' c = queued tc pc w c @ concat (map (arrivals N known c) xs))))"
proof -
  let ?msg = "\<lambda>x. new_deserialized (serializable fmt (net_serde (N (kind (fst x)))) (snd x)) (fst x)"
  let ?enc = "into_rbuf fmt Z W" and ?buf = "\<lambda>m. projr (into_rbuf fmt Z W m)"
  have enc: "?enc (?msg x) = Inr (?buf (?msg x)) \<and>
      (\<exists>msg. from_rbuf Z W (?buf (?msg x)) = Some (Inr msg) \<and> received (net_serde (N (kind (fst x)))) msg = Some x)" if "x \<in> set xs" for x
  proof -
    from ok that obtain bs where "encode (net_serde (N (kind (fst x)))) (snd x) = Inr bs" "length bs < 2 ^ 32" by fastforce
    from zenoh_encodings(1)[OF libs(1) libs(3) libs(2) this, of fmt "fst x"] show ?thesis by auto
  qed
  have arr: "fed_channel.arriving contents tx_open clock news closes (ds_rx sender) v = map ?msg xs"
    using start1(2) msgs by (simp add: fed_channel.arriving_def[OF publishing_task.axioms(1)[OF pub]] case_prod_unfold)
  have "\<forall>m \<in> set (map ?msg xs). ?enc m = Inr (?buf m)" using enc by simp
  with publishing_task.zenoh_forward_loop_publishes[OF pub, of v ?enc ?buf] start1 arr obtain v' where
    v': "zenoh_forward_loop D (\<lambda>m. zenoh_send S1 (zsession (ds_sink sender)) (data_resource (self_node_id (ds_sink sender)) (ds_node_id sender)) (?enc m))
        env1 (ds_rx sender) v = Some (v', Inl Disconnected)" "published v' = map ?buf (map ?msg xs)"
    by auto
  have bufs: "list_all2 (\<lambda>x buf. \<exists>msg. from_rbuf Z W buf = Some (Inr msg) \<and> received (net_serde (N (kind (fst x)))) msg = Some x) xs (published v')"
    unfolding v'(2) using enc by (simp add: list_all2_conv_all_nth)
  have "\<exists>receiver' w'. zenoh_data_receiver_run Z W S2 C2 R (dyn_send_from_bytes_zenoh N) env2 receiver w0 = Some ((receiver', w'), Inr ()) \<and>
        (\<forall>c. queued tc pc w' c = queued tc pc w c @ concat (map (arrivals N known c) xs))"
    if "subscribe S2 C2 (zsession (dr_stream receiver)) (data_resource (self_node_id (ds_sink sender)) (ds_node_id sender))
        (dr_control_tx receiver) (DataReceiverInitialized (dr_node_id receiver)) w0 = (w, Inr sub)"
      "input w = published v'" "known = with_updates (rc w (dr_rx receiver)) (stream_id_to_pusher receiver)"
      "\<forall>(sid, d) \<in> set xs. \<forall>ty p. map_of known sid = Some (ty, p) \<longrightarrow> ty = kind sid \<and>
        (\<forall>ep \<in> set (endpoints p). receiver_alive trx prx w (ep_channel ep))" for w0 w known
  proof -
    have "\<forall>x \<in> set xs. subscribing_task.harmless trx prx kind known w x"
      using that(4) by (auto simp: subscribing_task.harmless_def[OF sub])
    from subscribing_task.subscriber_loop_delivers[OF sub libs(4) refl that(3) this, of Z W] bufs that(1,2)
    show ?thesis by (simp add: zenoh_data_receiver_run_def pair)
  qed
  with v'(1) start1(1) show ?thesis by (auto simp: zenoh_data_sender_run_def)
qed

definition example_peer :: "NodeId \<Rightarrow> unit zenoh_peer" where
  "example_peer n = \<lparr> self_node_id = n, zsession = () \<rparr>"

lemma example_publishing: "publishing_task process_mpsc (\<lambda>w h. ch_items (rn_process w h)) (\<lambda>w h. ch_rx (rn_process w h))
    (\<lambda>w h. ch_tx (rn_process w h)) (rn_env example_news 3) rn_clock example_news 3 (ds_rx (example_sender (example_peer 0))) rn_written
    ref_session (zsession (ds_sink (example_sender (example_peer 0)))) res_name id"
  using ref_publisher.publishing_task_axioms[of example_news 3] by (simp add: example_sender_def)

lemma example_subscribing: "subscribing_task pushers_mpsc (\<lambda>w h. ch_items (rn_pushers w h)) (\<lambda>w h. ch_rx (rn_pushers w h))
    (\<lambda>w h. ch_tx (rn_pushers w h)) rn_net (\<lambda>w h. ch_items (rn_thread w h)) (\<lambda>w h. ch_rx (rn_thread w h)) (\<lambda>w h. ch_tx (rn_thread w h))
    (\<lambda>w h. ch_items (rn_process w h)) (\<lambda>w h. ch_rx (rn_process w h)) (\<lambda>w h. ch_tx (rn_process w h))
    rn_input (dr_rx (example_receiver (example_peer 1))) ref_session rn_delay idle_env ()"
  using ref_subscriber.subscribing_task_axioms by (simp add: example_receiver_def)

lemma rn_net_bincode: "sd_abomonation (net_serde (rn_net ty)) = None"
  by (simp add: rn_net_def ref_bytes_def ref_serde_def)

theorem zenoh_delivery_witness:
  "\<exists>v'. zenoh_data_sender_run (\<lambda>_. []) ref_zenoh ref_wire ref_session control_mpsc process_mpsc (rn_env example_news 3)
      (example_sender (example_peer 0)) (example_node []) = Some (v', Inl Disconnected) \<and>
    (\<exists>receiver' w'. zenoh_data_receiver_run ref_zenoh ref_wire ref_session control_mpsc pushers_mpsc (dyn_send_from_bytes_zenoh rn_net) idle_env
        (example_receiver (example_peer 1)) (example_node (rn_written v')) = Some ((receiver', w'), Inr ()) \<and>
      queued (\<lambda>w h. ch_items (rn_thread w h)) (\<lambda>w h. ch_items (rn_process w h)) w' (Inl 4) = [Inl [0], Inl [1]])"
proof -
  let ?s = "example_sender (example_peer 0)" and ?r = "example_receiver (example_peer 1)" and ?node = "example_node [] :: zenoh_ref_node"
  let ?v = "notified ?node (DataSenderInitialized 1)" and ?xs = "[(7, [0]), (7, [1])] :: (StreamId \<times> bytes) list"
  let ?N = "rn_net :: unit \<Rightarrow> (zenoh_ref_node, nat, nat, bytes, unit) net"
  have start: "ch_tx (rn_process ?v (ds_rx ?s))" "rn_clock ?v \<le> 3" "rn_written ?v = []"
    and pair: "dr_node_id ?r = self_node_id (ds_sink ?s)" "self_node_id (dr_stream ?r) = ds_node_id ?s"
    by (simp_all add: example_defs example_peer_def)
  from zenoh_delivery[where ?C2.0 = "control_mpsc :: (zenoh_ref_node, nat, ControlMessage) mpsc", OF example_publishing example_subscribing ref_wire.wire_format_axioms
      ref_zenoh.zenoh_buffers_axioms rn_net_serializer rn_net_bincode example_start(1) start example_messages example_ok pair]
  obtain v' where v': "zenoh_data_sender_run (\<lambda>_. []) ref_zenoh ref_wire ref_session control_mpsc process_mpsc (rn_env example_news 3) ?s ?node =
      Some (v', Inl Disconnected)"
    and rest: "\<forall>u u' known. subscribe ref_session control_mpsc (zsession (dr_stream ?r)) (data_resource (self_node_id (ds_sink ?s)) (ds_node_id ?s))
        (dr_control_tx ?r) (DataReceiverInitialized (dr_node_id ?r)) u = (u', Inr ()) \<longrightarrow>
      rn_input u' = rn_written v' \<longrightarrow> known = with_updates (ch_items (rn_pushers u' (dr_rx ?r))) (stream_id_to_pusher ?r) \<longrightarrow>
      (\<forall>(sid, d) \<in> set ?xs. \<forall>ty p. map_of known sid = Some (ty, p) \<longrightarrow> ty = () \<and>
        (\<forall>ep \<in> set (endpoints p). receiver_alive (\<lambda>w h. ch_rx (rn_thread w h)) (\<lambda>w h. ch_rx (rn_process w h)) u' (ep_channel ep))) \<longrightarrow>
      (\<exists>receiver' w'. zenoh_data_receiver_run ref_zenoh ref_wire ref_session control_mpsc pushers_mpsc (dyn_send_from_bytes_zenoh rn_net) idle_env ?r u =
          Some ((receiver', w'), Inr ()) \<and>
        (\<forall>c. queued (\<lambda>w h. ch_items (rn_thread w h)) (\<lambda>w h. ch_items (rn_process w h)) w' c =
           queued (\<lambda>w h. ch_items (rn_thread w h)) (\<lambda>w h. ch_items (rn_process w h)) u' c @ concat (map (arrivals ?N known c) ?xs)))"
    by (elim exE conjE) (rule that)
  let ?start = "example_node (rn_written v') :: zenoh_ref_node"
  let ?w = "notified ?start (DataReceiverInitialized 0)"
  have sub: "subscribe ref_session control_mpsc (zsession (dr_stream ?r)) name (dr_control_tx ?r) (DataReceiverInitialized (dr_node_id ?r)) ?start = (?w, Inr ())" for name
    by (simp add: subscribe_def ref_session_def example_notify example_defs)
  have "\<exists>receiver' w'. zenoh_data_receiver_run ref_zenoh ref_wire ref_session control_mpsc pushers_mpsc (dyn_send_from_bytes_zenoh rn_net) idle_env ?r ?start =
          Some ((receiver', w'), Inr ()) \<and>
        (\<forall>c. queued (\<lambda>w h. ch_items (rn_thread w h)) (\<lambda>w h. ch_items (rn_process w h)) w' c =
           queued (\<lambda>w h. ch_items (rn_thread w h)) (\<lambda>w h. ch_items (rn_process w h)) ?w c @ concat (map (arrivals ?N (stream_id_to_pusher ?r) c) ?xs))"
    by (rule rest[rule_format, of ?start ?w, OF sub]) (auto simp: example_defs with_updates_def receiver_alive_def)
  with v' example_arrivals show ?thesis by metis
qed

text \<open>The first \<open>n\<close> rounds of the loop: on the left the state after them, if all of them have to be repeated.\<close>

fun shm_attempts ::
    "('e CommunicationError \<Rightarrow> string) \<Rightarrow> ('rb, 'sb, 'shm, 'e) zenoh_buf \<Rightarrow> 'e wire \<Rightarrow>
       ('w, 'z, 'key, 'sub, 'rb, 'sb, 'shm, 'e) zenoh \<Rightarrow> 'e InterProcessMessage \<Rightarrow> nat \<Rightarrow> 'shm \<times> 'w \<Rightarrow>
       ('shm \<times> 'w) + (('shm \<times> 'w) \<times> ('e CodecError + 'sb)) outcome" where
  "shm_attempts fmt Z W S msg 0 c = Inl c"
| "shm_attempts fmt Z W S msg (Suc n) (shm, w) =
     (case shm_attempt fmt Z W S msg shm w of Inl c \<Rightarrow> shm_attempts fmt Z W S msg n c | Inr r \<Rightarrow> Inr r)"

lemma encode_in_shm_attempts: "shm_attempts fmt Z W S msg n (shm, w) = Inr r \<Longrightarrow> encode_in_shm fmt Z W S msg shm w = Some r"
proof (induction n arbitrary: shm w)
  case (Suc n)
  then show ?case by (subst encode_in_shm.simps) (auto split: sum.splits)
qed simp

text \<open>The loop does not end exactly when every round of it has to be repeated.\<close>

lemma encode_in_shm_waits:
  fixes Z :: "('rb, 'sb, 'shm, 'e) zenoh_buf" and S :: "('w, 'z, 'key, 'sub, 'rb, 'sb, 'shm, 'e) zenoh"
  shows "encode_in_shm fmt Z W S msg shm w = None \<longleftrightarrow> (\<forall>n. \<exists>c. shm_attempts fmt Z W S msg n (shm, w) = Inl c)"
proof
  assume "encode_in_shm fmt Z W S msg shm w = None"
  then show "\<forall>n. \<exists>c. shm_attempts fmt Z W S msg n (shm, w) = Inl c"
    using encode_in_shm_attempts[of fmt Z W S msg _ shm w] by (metis option.distinct(1) sum.exhaust)
next
  let ?P = "\<lambda>fmt Z W S msg shm w y. \<exists>n. shm_attempts fmt Z W S msg n (shm, w) = Inr y"
  have returns: "?P fmt Z W S msg shm w y" if y: "encode_in_shm fmt Z W S msg shm w = Some y" for y
  proof (rule encode_in_shm.raw_induct[where P = ?P, OF _ y])
    fix rec fmt and Z :: "('rb, 'sb, 'shm, 'e) zenoh_buf" and W and S :: "('w, 'z, 'key, 'sub, 'rb, 'sb, 'shm, 'e) zenoh"
      and msg shm w y
    assume IH: "\<And>fmt Z W S msg shm w y. rec fmt Z W S msg shm w = Some y \<Longrightarrow> ?P fmt Z W S msg shm w y"
      and body: "(case shm_attempt fmt Z W S msg shm w of Inl (shm, w) \<Rightarrow> rec fmt Z W S msg shm w | Inr r \<Rightarrow> Some r) = Some y"
    show "?P fmt Z W S msg shm w y"
    proof (cases "shm_attempt fmt Z W S msg shm w")
      case (Inl c)
      with body IH obtain n where "shm_attempts fmt Z W S msg n c = Inr y" by (cases c) fastforce
      with Inl show ?thesis by (intro exI[of _ "Suc n"]) simp
    next
      case (Inr r)
      with body show ?thesis by (intro exI[of _ "Suc 0"]) simp
    qed
  qed
  assume all: "\<forall>n. \<exists>c. shm_attempts fmt Z W S msg n (shm, w) = Inl c"
  show "encode_in_shm fmt Z W S msg shm w = None"
  proof (cases "encode_in_shm fmt Z W S msg shm w")
    case (Some y)
    with returns all show ?thesis by (metis sum.distinct(1))
  qed
qed

lemma shm_attempts_full:
  assumes "\<And>shm w. full shm \<Longrightarrow> \<exists>shm' w'. shm_attempt fmt Z W S msg shm w = Inl (shm', w') \<and> full shm'" and "full (fst c)"
  shows "\<exists>shm' w'. shm_attempts fmt Z W S msg n c = Inl (shm', w') \<and> full shm'"
  using assms(2)
proof (induction n arbitrary: c)
  case (Suc n)
  obtain shm w where c: "c = (shm, w)" by (cases c)
  with Suc.prems assms(1)[of shm w] obtain shm' w' where
    "shm_attempt fmt Z W S msg shm w = Inl (shm', w')" "full shm'" by auto
  with Suc.IH[of "(shm', w')"] c show ?case by simp
qed (metis prod.collapse shm_attempts.simps(1))

text \<open>C34. A message that the shared memory cannot hold blocks its sender for good. If allocating a buffer of the size of the message
  fails in every state of the shared memory that garbage collection leads to, then the attempt to send the message
  never ends, neither by returning nor by a panic: after any number of rounds, the allocation is tried once more.\<close>

theorem oversized_message_blocks_sender:
  assumes "message_sizes fmt W msg = Inr (metadata_size, data_size)"
    and "\<And>shm. full shm \<Longrightarrow> \<exists>shm'. shm_alloc Z (HEADER_SIZE + unat metadata_size + data_size) shm = (None, shm') \<and> full shm'"
    and "\<And>shm w. full shm \<Longrightarrow> full (fst (z_garbage_collect S shm w))" and "full shm"
  shows "shm_send fmt Z W S session reskey msg k shm w = None \<and>
    (\<forall>n. \<exists>shm' w'. shm_attempts fmt Z W S msg n (if k mod 256 = 0 then z_garbage_collect S shm w else (shm, w)) = Inl (shm', w') \<and>
       full shm')"
proof -
  have round: "\<exists>shm' w'. shm_attempt fmt Z W S msg shm w = Inl (shm', w') \<and> full shm'" if full: "full shm" for shm w
  proof -
    obtain shm' where shm': "shm_alloc Z (HEADER_SIZE + unat metadata_size + data_size) shm = (None, shm')" "full shm'"
      using assms(2)[OF full] by blast
    have "shm_attempt fmt Z W S msg shm w = Inl (z_garbage_collect S shm' (z_delay_for S 500 w))"
      using shm'(1) assms(1) by (simp add: shm_attempt_def into_sbuf_def Let_def)
    with assms(3)[OF shm'(2)] show ?thesis by (metis prod.collapse)
  qed
  have rounds: "\<exists>shm' w'. shm_attempts fmt Z W S msg n c = Inl (shm', w') \<and> full shm'" if "full (fst c)" for n c
    by (rule shm_attempts_full[of full, OF round that])
  let ?c = "if k mod 256 = 0 then z_garbage_collect S shm w else (shm, w)"
  have start: "full (fst ?c)" using assms(3,4) by simp
  have "encode_in_shm fmt Z W S msg (fst ?c) (snd ?c) = None"
    unfolding encode_in_shm_waits using rounds[OF start] by (metis prod.collapse)
  then show ?thesis using rounds[OF start] by (simp add: shm_send_def case_prod_unfold split del: if_split)
qed

definition full_zenoh :: "(bytes, bytes, unit, unit) zenoh_buf" where
  "full_zenoh = ref_zenoh \<lparr> shm_alloc := (\<lambda>n shm. (None, shm)) \<rparr>"

theorem oversized_message_blocks_sender_witness:
  "shm_send (\<lambda>_. []) full_zenoh ref_wire ref_session () ''key'' (new_serialized [1, 2, 3] (MessageMetadata 7)) 1 ()
     (example_node []) = None"
proof -
  have "message_sizes (\<lambda>_. []) ref_wire (new_serialized [1, 2, 3] (MessageMetadata 7)) = Inr (16, 3)"
    by (simp add: message_sizes_def new_serialized_def ref_wire_def ref_metadata_def ref_bincode_def be_value_bytes)
  from oversized_message_blocks_sender[where full = "\<lambda>_. True" and Z = full_zenoh and S = ref_session, OF this]
  show ?thesis by (simp add: full_zenoh_def)
qed

section \<open>Discovery\<close>

text \<open>The session answers a query for a node with what the node's query handler replies, after finitely many attempts.\<close>

locale discovery =
  fixes query :: "NodeId \<Rightarrow> 'w \<Rightarrow> 'w \<times> ('e foreign_error + string option)" and parse_usize :: "string \<Rightarrow> nat option"
    and attempts :: "'w \<Rightarrow> NodeId \<Rightarrow> nat"
  assumes no_reply: "0 < attempts w n \<Longrightarrow> \<exists>w'. query n w = (w', Inr None) \<and> attempts w' n < attempts w n"
    and reply: "attempts w n = 0 \<Longrightarrow> \<exists>w'. query n w = (w', Inr (Some (display_usize n)))"
    and parse: "parse_usize (display_usize n) = Some n"
begin

lemma discover_node:
  assumes "length nodes < num - 1" "n \<noteq> this"
  shows "\<exists>w'. discover_nodes query parse_usize num this nodes n w = discover_nodes query parse_usize num this (nodes @ [n]) (Suc n) w'"
proof (induction "attempts w n" arbitrary: w rule: less_induct)
  case less
  show ?case
  proof (cases "attempts w n = 0")
    case True
    from reply[OF this] parse assms show ?thesis by (subst discover_nodes.simps) auto
  next
    case False
    with no_reply obtain w' where "query n w = (w', Inr None)" "attempts w' n < attempts w n" by blast
    with less[OF this(2)] assms show ?thesis by (subst discover_nodes.simps) auto
  qed
qed

lemma length_others: "length (filter (\<lambda>k. k \<noteq> this) [0..<n]) = (if this < n then n - 1 else n)"
  by (induction n) auto

lemma discover_rest:
  assumes "this < num" "n \<le> num" "nodes = filter (\<lambda>k. k \<noteq> this) [0..<n]"
  shows "\<exists>w'. discover_nodes query parse_usize num this nodes n w = Some (w', Inr (get_nodes_ids num this))"
  using assms(2,3)
proof (induction "num - n" arbitrary: n nodes w)
  case 0
  then show ?case using assms(1) by (subst discover_nodes.simps) (simp add: length_others get_nodes_ids_def)
next
  case (Suc d)
  then have n: "n < num" "d = num - Suc n" by simp_all
  show ?case
  proof (cases "length nodes < num - 1")
    case True
    show ?thesis
    proof (cases "n = this")
      case True
      with Suc.hyps(1)[OF n(2), of nodes w] Suc.prems n \<open>length nodes < num - 1\<close> show ?thesis
        by (subst discover_nodes.simps) simp
    next
      case False
      from discover_node[OF True False, of w] obtain w' where
        "discover_nodes query parse_usize num this nodes n w = discover_nodes query parse_usize num this (nodes @ [n]) (Suc n) w'" by blast
      with Suc.hyps(1)[OF n(2), of "nodes @ [n]" w'] Suc.prems n False show ?thesis by simp
    qed
  next
    case False
    with Suc.prems n(1) assms(1) have "num = Suc n" "n = this" by (auto simp: length_others split: if_splits)
    with Suc.prems False show ?thesis by (subst discover_nodes.simps) (simp add: get_nodes_ids_def)
  qed
qed

end

text \<open>A session that answers each query at the third attempt.\<close>

definition ref_query :: "NodeId \<Rightarrow> nat \<Rightarrow> nat \<times> (unit foreign_error + string option)" where
  "ref_query n w = (if w mod 3 = 2 then (Suc w, Inr (Some (display_usize n))) else (Suc w, Inr None))"

interpretation ref_discovery: discovery ref_query "\<lambda>s. Some (digits_value s)" "\<lambda>w n. 2 - w mod 3"
  by unfold_locales (auto simp: ref_query_def display_usize_value mod_Suc)

text \<open>C20. Discovery over Zenoh ends, and it ends with every other node: the ids it returns are those, in order, for which the
  node then makes senders and receivers. Relied on: that a query is answered, after finitely many attempts, with the text
  the queried node's handler replies, and that parsing a number inverts printing it.\<close>

theorem discovery_finds_all_nodes:
  assumes "discovery query parse_usize attempts" "this < num"
  shows "\<exists>w'. wait_zenoh_nodes_discovered query parse_usize num this w = Some (w', Inr (get_nodes_ids num this))"
  using discovery.discover_rest[OF assms, of 0 "[]" w] assms(2) by (simp add: wait_zenoh_nodes_discovered_def)

theorem discovery_finds_all_nodes_witness:
  "\<exists>w'. wait_zenoh_nodes_discovered ref_query (\<lambda>s. Some (digits_value s)) 4 2 0 = Some (w', Inr [0, 1, 3])"
  using discovery_finds_all_nodes[OF ref_discovery.discovery_axioms, of 2 4 0] by (simp add: get_nodes_ids_def upt_rec numeral_3_eq_3)

end
