(* ===== verification/Operators.thy ===== *)
theory Operators
  imports Executor Binary_Heap
begin

text \<open>
  The operators of the library: \<^verbatim>\<open>join_operator.rs\<close>, \<^verbatim>\<open>map_operator.rs\<close> and \<^verbatim>\<open>source_operator.rs\<close> under
  \<^verbatim>\<open>src/src/dataflow/operators/\<close>.

  A callback that writes to a stream changes the network, which is a place of the store: the pointer
  \<open>net\<close> leads to it. The bundles of streams that the build generates are the parameter \<open>bundles\<close>.
  The join operator buffers the messages of both inputs and drops them at each watermark; the theory
  shows that it computes the same as an operator that keeps the whole history.
\<close>

section \<open>The state of a joined stream\<close>

text \<open>\<^verbatim>\<open>BinaryHeap<Reverse<Timestamp>>\<close> is a min-heap: \<^verbatim>\<open>Reverse\<close> flips the order.\<close>

definition reverse_cmp :: "('a \<Rightarrow> 'a \<Rightarrow> ordering) \<Rightarrow> 'a \<Rightarrow> 'a \<Rightarrow> ordering" where
  "reverse_cmp cmp a b = cmp b a"

record 'd StreamState =
  ss_msgs :: "(Timestamp \<times> 'd list) list"
  ss_timestamps :: "Timestamp list"

definition stream_state_new :: "'d StreamState" where
  "stream_state_new = \<lparr> ss_msgs = [], ss_timestamps = [] \<rparr>"

definition add_msg :: "Timestamp \<Rightarrow> 'd \<Rightarrow> 'd StreamState \<Rightarrow> 'd StreamState" where
  "add_msg t msg self =
     (case map_of (ss_msgs self) t of
        Some msg_vec \<Rightarrow> self \<lparr> ss_msgs := AList.update t (msg_vec @ [msg]) (ss_msgs self) \<rparr>
      | None \<Rightarrow> self \<lparr> ss_msgs := AList.update t [msg] (ss_msgs self),
                       ss_timestamps := heap_push t (ss_timestamps self) \<rparr>)"

text \<open>The loop of \<^verbatim>\<open>clean_state\<close>; \<open>None\<close> is the panic of \<^verbatim>\<open>expect\<close>.\<close>

function clean_loop ::
    "Timestamp \<Rightarrow> Timestamp list \<Rightarrow> (Timestamp \<times> 'd list) list \<Rightarrow> 'd StreamState option" where
  "clean_loop timestamp heap msgs =
     (case heap_peek (reverse_cmp ts_cmp) heap of
        None \<Rightarrow> Some \<lparr> ss_msgs = msgs, ss_timestamps = heap \<rparr>
      | Some least \<Rightarrow>
          if ts_le least timestamp
          then (case heap_pop (reverse_cmp ts_cmp) heap of
                  None \<Rightarrow> None
                | Some (t, heap') \<Rightarrow>
                    (case map_of msgs t of
                       None \<Rightarrow> None
                     | Some _ \<Rightarrow> clean_loop timestamp heap' (AList.delete t msgs)))
          else Some \<lparr> ss_msgs = msgs, ss_timestamps = heap \<rparr>)"
  by pat_completeness auto
termination
  by (relation "measure (\<lambda>(_, heap, _). length heap)")
    (auto dest: heap_pop_length)

declare clean_loop.simps [simp del]

definition clean_state :: "Timestamp \<Rightarrow> 'd StreamState \<Rightarrow> 'd StreamState option" where
  "clean_state timestamp self = clean_loop timestamp (ss_timestamps self) (ss_msgs self)"

definition ss_get_state :: "'d StreamState \<Rightarrow> Timestamp \<Rightarrow> 'd list option" where
  "ss_get_state self timestamp = map_of (ss_msgs self) timestamp"

section \<open>The join operator\<close>

definition on_data_callback :: "Timestamp \<Rightarrow> 'd \<Rightarrow> 'd StreamState \<Rightarrow> 'st \<Rightarrow> ('d StreamState \<times> 'st) option" where
  "on_data_callback t msg state st = Some (add_msg t msg state, st)"

text \<open>\<open>None\<close> is a panic: no message on one side, or an error of the output stream.\<close>

definition on_watermark_callback ::
    "('w, 'h, 'i, 'd3 Message, 'e) net \<Rightarrow> ('d1 list \<Rightarrow> 'd2 list \<Rightarrow> 'd3) \<Rightarrow> Timestamp \<Rightarrow> 'd1 StreamState \<Rightarrow> 'd2 StreamState \<Rightarrow>
       ('h, 'i) WriteStream \<Rightarrow> 'w \<Rightarrow> ('d1 StreamState \<times> 'd2 StreamState \<times> ('h, 'i) WriteStream \<times> 'w) option" where
  "on_watermark_callback N join_function t left_state right_state write_stream w =
     (case ss_get_state left_state t of
        None \<Rightarrow> None
      | Some left_state_t \<Rightarrow>
          (case ss_get_state right_state t of
             None \<Rightarrow> None
           | Some right_state_t \<Rightarrow>
               (case ws_send N (new_message t (join_function left_state_t right_state_t)) write_stream w of
                  (_, Inl _) \<Rightarrow> None
                | ((w, write_stream), Inr _) \<Rightarrow>
                    Option.bind (clean_state t left_state) (\<lambda>left_state.
                      map_option (\<lambda>right_state. (left_state, right_state, write_stream, w))
                        (clean_state t right_state)))))"

text \<open>
  The generated bundles: \<^verbatim>\<open>TwoReadZeroWrite::new\<close>, with the object that the streams notify, its
  \<^verbatim>\<open>add_write_stream\<close>, and \<^verbatim>\<open>add_watermark_callback\<close> of the result.
\<close>

record ('st, 'd1, 'd2, 's1, 's2, 'ws, 'b, 'c) bundles =
  two_read_new :: "('st, 'd1, 's1) StatefulReadStream \<Rightarrow> ('st, 'd2, 's2) StatefulReadStream \<Rightarrow> 'st \<Rightarrow>
    ('st MultiStreamEventMaker \<times> 'b) \<times> 'st"
  two_read_add_write_stream :: "'b \<Rightarrow> 'ws \<Rightarrow> 'st \<Rightarrow> 'c \<times> 'st"
  bundle_add_watermark_callback ::
    "'c \<Rightarrow> (Timestamp \<Rightarrow> 's1 \<Rightarrow> 's2 \<Rightarrow> 'ws \<Rightarrow> 'st \<Rightarrow> ('s1 \<times> 's2 \<times> 'ws \<times> 'st) option) \<Rightarrow> 'st \<Rightarrow> 'st"

text \<open>How the parts of an operator are put behind pointers.\<close>

record ('st, 'd, 's) allocator =
  alloc_state :: "'s \<Rightarrow> 'st \<Rightarrow> ('st, 's) rc \<times> 'st"
  alloc_stream :: "('st, 'd, 's) InternalStatefulReadStream \<Rightarrow> 'st \<Rightarrow> ('st, 'd, 's) StatefulReadStream \<times> 'st"

text \<open>\<open>None\<close> is the panic of a configuration without a function. The default methods of
  \<^verbatim>\<open>Operator\<close> are the operator that it returns.\<close>

definition join_new ::
    "'g id_source \<Rightarrow> ('st, 'd1, 'd1 StreamState) allocator \<Rightarrow> ('st, 'd2, 'd2 StreamState) allocator \<Rightarrow>
       ('st, 'd1, 'd2, 'd1 StreamState, 'd2 StreamState, ('h, 'i) WriteStream, 'b, 'c) bundles \<Rightarrow>
       ('w, 'h, 'i, 'd3 Message, 'e) net \<Rightarrow> ('st, 'w) rc \<Rightarrow> ('d1 list \<Rightarrow> 'd2 list \<Rightarrow> 'd3) OperatorConfig \<Rightarrow>
       ('st, 'd1, 'h) ReadStream \<Rightarrow> ('st, 'd2, 'h) ReadStream \<Rightarrow> ('h, 'i) WriteStream \<Rightarrow> 'g \<times> 'st \<Rightarrow>
       ('st Operator \<times> 'g \<times> 'st) option" where
  "join_new I A1 A2 B N net config left right output_stream gst =
     (case rs_add_state I default_managed (alloc_state A1) (alloc_stream A1) stream_state_new left gst of
        (sl, rng, st) \<Rightarrow>
          (case rs_add_state I default_managed (alloc_state A2) (alloc_stream A2) stream_state_new right
                  (rng, sfs_add_callback on_data_callback sl st) of
             (sr, rng, st) \<Rightarrow>
               let st = sfs_add_callback on_data_callback sr st
               in (case oc_arg config of
                     None \<Rightarrow> None
                   | Some cb \<Rightarrow>
                       (case two_read_new B sl sr st of ((maker, builder), st) \<Rightarrow>
                          (case two_read_add_write_stream B builder output_stream
                                  (sfs_add_read_stream maker sr sl st) of (builder, st) \<Rightarrow>
                             Some (default_operator, rng,
                               bundle_add_watermark_callback B builder
                                 (\<lambda>t l r ws st. map_option (\<lambda>(l, r, ws, w). (l, r, ws, rc_put net w st))
                                    (on_watermark_callback N cb t l r ws (rc_get net st))) st))))))"

definition join_connect :: "'g id_source \<Rightarrow> 'g \<Rightarrow> ('h, 'i) WriteStream \<times> 'g" where
  "join_connect I rng = ws_new I rng"

section \<open>The map operator\<close>

definition map_on_data_callback ::
    "('w, 'h, 'i, 'd2 Message, 'e) net \<Rightarrow> ('d1 \<Rightarrow> 'd2) \<Rightarrow> Timestamp \<Rightarrow> 'd1 \<Rightarrow> ('h, 'i) WriteStream \<Rightarrow> 'w \<Rightarrow>
       (('h, 'i) WriteStream \<times> 'w) option" where
  "map_on_data_callback N map_function t msg output_stream w =
     (case ws_send N (new_message t (map_function msg)) output_stream w of
        ((w, output_stream), Inr _) \<Rightarrow> Some (output_stream, w)
      | (_, Inl _) \<Rightarrow> None)"

definition map_new ::
    "'g id_source \<Rightarrow> ('st, 'd1, ('h, 'i) WriteStream) allocator \<Rightarrow> ('w, 'h, 'i, 'd2 Message, 'e) net \<Rightarrow> ('st, 'w) rc \<Rightarrow>
       ('d1 \<Rightarrow> 'd2) OperatorConfig \<Rightarrow> ('st, 'd1, 'h) ReadStream \<Rightarrow> ('h, 'i) WriteStream \<Rightarrow> 'g \<times> 'st \<Rightarrow>
       ('st Operator \<times> 'g \<times> 'st) option" where
  "map_new I A N net config input_stream output_stream gst =
     (case rs_add_state I default_managed (alloc_state A) (alloc_stream A) output_stream input_stream gst of
        (stateful_stream, rng, st) \<Rightarrow>
          (case oc_arg config of
             None \<Rightarrow> None
           | Some map_function \<Rightarrow>
               Some (default_operator, rng,
                 sfs_add_callback
                   (\<lambda>t msg ws st. map_option (\<lambda>(ws, w). (ws, rc_put net w st))
                      (map_on_data_callback N map_function t msg ws (rc_get net st)))
                   stateful_stream st)))"

definition map_connect :: "'g id_source \<Rightarrow> 'g \<Rightarrow> ('h, 'i) WriteStream \<times> 'g" where
  "map_connect I rng = ws_new I rng"

section \<open>The source operator\<close>

record ('h, 'i) SourceOperator =
  so_name :: string
  so_id :: OperatorId
  so_write_stream :: "('h, 'i) WriteStream"

text \<open>\<open>None\<close> is the panic of \<^verbatim>\<open>config.name.unwrap()\<close>.\<close>

definition source_new :: "unit OperatorConfig \<Rightarrow> ('h, 'i) WriteStream \<Rightarrow> ('h, 'i) SourceOperator option" where
  "source_new config write_stream =
     (case oc_name config of
        None \<Rightarrow> None
      | Some name \<Rightarrow> Some \<lparr> so_name = name, so_id = oc_id config, so_write_stream = write_stream \<rparr>)"

definition source_connect :: "'g id_source \<Rightarrow> 'g \<Rightarrow> ('h, 'i) WriteStream \<times> 'g" where
  "source_connect I rng = ws_new I rng"

section \<open>The state of a joined stream holds the messages that were not cleaned\<close>

interpretation min_heap: binary_heap "reverse_cmp ts_cmp"
  by unfold_locales
    (auto simp: reverse_cmp_def ts_ord.cmp_refl dest: ts_ord.cmp_le_trans intro: ts_ord.cmp_swap)

lemma least_timestamp: "heap_peek (reverse_cmp ts_cmp) h = Some t \<Longrightarrow> t' \<in> set h \<Longrightarrow> ts_le t t'"
  using min_heap.peek_ge by (fastforce simp: reverse_cmp_def ts_le_iff)

text \<open>Each key of the map is once in the heap, and no entry is empty.\<close>

definition ss_inv :: "'d StreamState \<Rightarrow> bool" where
  "ss_inv s \<longleftrightarrow> distinct (ss_timestamps s) \<and> set (ss_timestamps s) = dom (map_of (ss_msgs s)) \<and>
     (\<forall>t. map_of (ss_msgs s) t \<noteq> Some [])"

text \<open>The messages that are held for a timestamp.\<close>

definition held :: "'d StreamState \<Rightarrow> Timestamp \<Rightarrow> 'd list" where
  "held s t = (case map_of (ss_msgs s) t of None \<Rightarrow> [] | Some ms \<Rightarrow> ms)"

lemma ss_inv_new [simp]: "ss_inv stream_state_new" "held stream_state_new t = []"
  by (simp_all add: ss_inv_def held_def stream_state_new_def)

lemma ss_get_state_held: "ss_inv s \<Longrightarrow> ss_get_state s t = (if held s t = [] then None else Some (held s t))"
  by (auto simp: ss_get_state_def held_def ss_inv_def split: option.splits)

lemma held_add_msg: "held (add_msg t m s) = (held s)(t := held s t @ [m])"
  by (auto simp: held_def add_msg_def update_conv' split: option.splits)

lemma ss_inv_add_msg: "ss_inv s \<Longrightarrow> ss_inv (add_msg t m s)"
  by (auto simp: ss_inv_def add_msg_def update_conv' heap_push_def split: option.splits if_splits)

lemma clean_loop_held:
  assumes "ss_inv \<lparr> ss_msgs = msgs, ss_timestamps = heap \<rparr>"
  shows "\<exists>s. clean_loop t heap msgs = Some s \<and> ss_inv s \<and>
    held s = (\<lambda>t'. if ts_le t' t then [] else held \<lparr> ss_msgs = msgs, ss_timestamps = heap \<rparr> t')"
  using assms
proof (induction t heap msgs rule: clean_loop.induct)
  case (1 t heap msgs)
  let ?s = "\<lparr> ss_msgs = msgs, ss_timestamps = heap \<rparr>"
  have keys: "set heap = dom (map_of msgs)" using "1.prems" by (simp add: ss_inv_def)
  show ?case
  proof (cases "heap_peek (reverse_cmp ts_cmp) heap")
    case None
    with keys have "map_of msgs t' = None" for t' by (metis domIff empty_iff heap_peek_None list.set(1))
    then have "held ?s = (\<lambda>_. [])" by (simp add: held_def fun_eq_iff)
    with None "1.prems" show ?thesis by (subst clean_loop.simps) auto
  next
    case (Some x)
    show ?thesis
    proof (cases "ts_le x t")
      case True
      let ?s' = "\<lparr> ss_msgs = AList.delete x msgs, ss_timestamps = remove1 x heap \<rparr>"
      have x: "x \<in> set heap" using Some by (rule heap_peek_in)
      then obtain v where v: "map_of msgs x = Some v" using keys by auto
      have pop: "heap_pop (reverse_cmp ts_cmp) heap = Some (x, remove1 x heap)"
        using Some by (simp add: heap_pop_def)
      have inv: "ss_inv ?s'"
        using "1.prems" by (auto simp: ss_inv_def delete_conv' distinct_remove1 split: if_splits)
      have "held ?s' = (held ?s)(x := [])" by (auto simp: held_def delete_conv')
      moreover from "1.IH"[OF Some True pop refl v inv] obtain s' where
        "clean_loop t (remove1 x heap) (AList.delete x msgs) = Some s'" "ss_inv s'"
        "held s' = (\<lambda>t'. if ts_le t' t then [] else held ?s' t')" by auto
      ultimately show ?thesis using Some True pop v by (subst clean_loop.simps) auto
    next
      case False
      have "\<not> ts_le t' t" if "map_of msgs t' = Some v" for t' v
        using that least_timestamp[OF Some, of t'] False keys ts_le_trans[of x t' t] by auto
      then have "held ?s = (\<lambda>t'. if ts_le t' t then [] else held ?s t')"
        by (auto simp: held_def fun_eq_iff split: option.splits)
      with Some False "1.prems" show ?thesis by (subst clean_loop.simps) auto
    qed
  qed
qed

lemma clean_state_held:
  assumes "ss_inv s"
  obtains s' where "clean_state t s = Some s'" "ss_inv s'" "held s' = (\<lambda>t'. if ts_le t' t then [] else held s t')"
proof -
  have s: "\<lparr> ss_msgs = ss_msgs s, ss_timestamps = ss_timestamps s \<rparr> = s" by simp
  from assms clean_loop_held[of "ss_msgs s" "ss_timestamps s" t, unfolded s] that show ?thesis
    unfolding clean_state_def by blast
qed

section \<open>Runs of the join operator\<close>

text \<open>The callbacks of a join operator in the order in which they are invoked. A joint watermark is one
  that both inputs have reached.\<close>

datatype ('d1, 'd2) join_event = Left_Message Timestamp 'd1 | Right_Message Timestamp 'd2 | Joint_Watermark Timestamp

fun join_run ::
    "('w, 'h, 'i, 'd3 Message, 'e) net \<Rightarrow> ('d1 list \<Rightarrow> 'd2 list \<Rightarrow> 'd3) \<Rightarrow> ('d1, 'd2) join_event list \<Rightarrow>
       'd1 StreamState \<times> 'd2 StreamState \<times> ('h, 'i) WriteStream \<times> 'w \<Rightarrow>
       ('d1 StreamState \<times> 'd2 StreamState \<times> ('h, 'i) WriteStream \<times> 'w) option" where
  "join_run N f [] s = Some s"
| "join_run N f (Left_Message t d # es) (l, r, ws, w) =
     Option.bind (on_data_callback t d l w) (\<lambda>(l, w). join_run N f es (l, r, ws, w))"
| "join_run N f (Right_Message t d # es) (l, r, ws, w) =
     Option.bind (on_data_callback t d r w) (\<lambda>(r, w). join_run N f es (l, r, ws, w))"
| "join_run N f (Joint_Watermark t # es) (l, r, ws, w) =
     Option.bind (on_watermark_callback N f t l r ws w) (join_run N f es)"

text \<open>The reference: all messages are kept, and those of a timestamp are picked out of them.\<close>

definition messages_at :: "Timestamp \<Rightarrow> (Timestamp \<times> 'd) list \<Rightarrow> 'd list" where
  "messages_at t log = map snd (filter (\<lambda>(t', _). t' = t) log)"

fun join_reference ::
    "('w, 'h, 'i, 'd3 Message, 'e) net \<Rightarrow> ('d1 list \<Rightarrow> 'd2 list \<Rightarrow> 'd3) \<Rightarrow> ('d1, 'd2) join_event list \<Rightarrow>
       (Timestamp \<times> 'd1) list \<Rightarrow> (Timestamp \<times> 'd2) list \<Rightarrow> ('h, 'i) WriteStream \<Rightarrow> 'w \<Rightarrow> (('h, 'i) WriteStream \<times> 'w) option" where
  "join_reference N f [] ls rs ws w = Some (ws, w)"
| "join_reference N f (Left_Message t d # es) ls rs ws w = join_reference N f es (ls @ [(t, d)]) rs ws w"
| "join_reference N f (Right_Message t d # es) ls rs ws w = join_reference N f es ls (rs @ [(t, d)]) ws w"
| "join_reference N f (Joint_Watermark t # es) ls rs ws w =
     (if messages_at t ls = [] \<or> messages_at t rs = [] then None
      else (case ws_send N (new_message t (f (messages_at t ls) (messages_at t rs))) ws w of
              ((w, ws), Inr _) \<Rightarrow> join_reference N f es ls rs ws w
            | (_, Inl _) \<Rightarrow> None))"

text \<open>What watermarks promise: everything after a watermark is later.\<close>

fun event_time :: "('d1, 'd2) join_event \<Rightarrow> Timestamp" where
  "event_time (Left_Message t _) = t"
| "event_time (Right_Message t _) = t"
| "event_time (Joint_Watermark t) = t"

fun after_watermarks :: "Timestamp list \<Rightarrow> ('d1, 'd2) join_event list \<Rightarrow> bool" where
  "after_watermarks past [] = True"
| "after_watermarks past (e # es) =
     ((\<forall>t \<in> set past. ts_lt t (event_time e)) \<and>
      after_watermarks (case e of Joint_Watermark t \<Rightarrow> t # past | _ \<Rightarrow> past) es)"

text \<open>A state stands for a history if it holds all messages that are later than the past watermarks, and no others.\<close>

definition stands_for :: "Timestamp list \<Rightarrow> (Timestamp \<times> 'd) list \<Rightarrow> 'd StreamState \<Rightarrow> bool" where
  "stands_for past log s \<longleftrightarrow> ss_inv s \<and>
     (\<forall>t. held s t = (if \<forall>p \<in> set past. ts_lt p t then messages_at t log else []))"

lemma stands_for_new: "stands_for [] [] stream_state_new"
  by (simp add: stands_for_def messages_at_def)

lemma stands_for_add_msg:
  "stands_for past log s \<Longrightarrow> \<forall>p \<in> set past. ts_lt p t \<Longrightarrow> stands_for past (log @ [(t, m)]) (add_msg t m s)"
  by (auto simp: stands_for_def held_add_msg ss_inv_add_msg messages_at_def)

lemma stands_for_get_state:
  "stands_for past log s \<Longrightarrow> \<forall>p \<in> set past. ts_lt p t \<Longrightarrow>
     ss_get_state s t = (if messages_at t log = [] then None else Some (messages_at t log))"
  by (simp add: stands_for_def ss_get_state_held)

lemma stands_for_clean_state:
  assumes "stands_for past log s"
  obtains s' where "clean_state t s = Some s'" "stands_for (t # past) log s'"
proof -
  from assms have "ss_inv s" by (simp add: stands_for_def)
  then obtain s' where s': "clean_state t s = Some s'" "ss_inv s'"
    "held s' = (\<lambda>t'. if ts_le t' t then [] else held s t')"
    by (rule clean_state_held)
  moreover from s'(2,3) assms have "stands_for (t # past) log s'"
    by (auto simp: stands_for_def not_ts_lt_iff[symmetric])
  ultimately show ?thesis using that by blast
qed

lemma join_run_reference:
  "after_watermarks past es \<Longrightarrow> stands_for past ls l \<Longrightarrow> stands_for past rs r \<Longrightarrow>
     map_option (\<lambda>(l, r, ws, w). (ws, w)) (join_run N f es (l, r, ws, w)) = join_reference N f es ls rs ws w"
proof (induction es arbitrary: past ls rs l r ws w)
  case (Cons e es)
  show ?case
  proof (cases e)
    case (Left_Message t d)
    with Cons.prems Cons.IH[of past "ls @ [(t, d)]" "add_msg t d l" rs r] show ?thesis
      by (simp add: on_data_callback_def stands_for_add_msg)
  next
    case (Right_Message t d)
    with Cons.prems Cons.IH[of past ls l "rs @ [(t, d)]" "add_msg t d r"] show ?thesis
      by (simp add: on_data_callback_def stands_for_add_msg)
  next
    case (Joint_Watermark t)
    from Cons.prems(2) obtain l' where l': "clean_state t l = Some l'" "stands_for (t # past) ls l'"
      by (rule stands_for_clean_state)
    from Cons.prems(3) obtain r' where r': "clean_state t r = Some r'" "stands_for (t # past) rs r'"
      by (rule stands_for_clean_state)
    from Joint_Watermark Cons.prems have "after_watermarks (t # past) es" "\<forall>p \<in> set past. ts_lt p t" by auto
    with l' r' Cons.prems(2,3) Cons.IH[of "t # past" ls l' rs r'] Joint_Watermark show ?thesis
      by (auto simp: on_watermark_callback_def stands_for_get_state split: prod.split sum.split)
  qed
qed simp

text \<open>The messages and the watermarks of a run.\<close>

fun left_messages :: "('d1, 'd2) join_event list \<Rightarrow> (Timestamp \<times> 'd1) list" where
  "left_messages [] = []"
| "left_messages (Left_Message t d # es) = (t, d) # left_messages es"
| "left_messages (_ # es) = left_messages es"

fun right_messages :: "('d1, 'd2) join_event list \<Rightarrow> (Timestamp \<times> 'd2) list" where
  "right_messages [] = []"
| "right_messages (Right_Message t d # es) = (t, d) # right_messages es"
| "right_messages (_ # es) = right_messages es"

fun joint_watermarks :: "('d1, 'd2) join_event list \<Rightarrow> Timestamp list" where
  "joint_watermarks [] = []"
| "joint_watermarks (Joint_Watermark t # es) = t # joint_watermarks es"
| "joint_watermarks (_ # es) = joint_watermarks es"

lemma stands_for_past: "set past = set past' \<Longrightarrow> stands_for past log s = stands_for past' log s"
  by (simp add: stands_for_def)

lemma join_run_states:
  "after_watermarks past es \<Longrightarrow> stands_for past ls l \<Longrightarrow> stands_for past rs r \<Longrightarrow>
     join_run N f es (l, r, ws, w) = Some (l', r', ws', w') \<Longrightarrow>
     stands_for (joint_watermarks es @ past) (ls @ left_messages es) l' \<and>
     stands_for (joint_watermarks es @ past) (rs @ right_messages es) r'"
proof (induction es arbitrary: past ls rs l r ws w)
  case (Cons e es)
  show ?case
  proof (cases e)
    case (Left_Message t d)
    with Cons.prems Cons.IH[of past "ls @ [(t, d)]" "add_msg t d l" rs r ws w] show ?thesis
      by (simp add: on_data_callback_def stands_for_add_msg)
  next
    case (Right_Message t d)
    with Cons.prems Cons.IH[of past ls l "rs @ [(t, d)]" "add_msg t d r" ws w] show ?thesis
      by (simp add: on_data_callback_def stands_for_add_msg)
  next
    case (Joint_Watermark t)
    from Cons.prems(2) obtain l1 where l1: "clean_state t l = Some l1" "stands_for (t # past) ls l1"
      by (rule stands_for_clean_state)
    from Cons.prems(3) obtain r1 where r1: "clean_state t r = Some r1" "stands_for (t # past) rs r1"
      by (rule stands_for_clean_state)
    from Joint_Watermark Cons.prems(4) l1(1) r1(1) obtain ws1 w1
      where "join_run N f es (l1, r1, ws1, w1) = Some (l', r', ws', w')"
      by (auto simp: on_watermark_callback_def split: option.splits prod.splits sum.splits)
    with Cons.IH[of "t # past" ls l1 rs r1 ws1 w1] l1(2) r1(2) Joint_Watermark Cons.prems(1)
    have "stands_for (joint_watermarks es @ t # past) (ls @ left_messages es) l' \<and>
      stands_for (joint_watermarks es @ t # past) (rs @ right_messages es) r'" by simp
    then show ?thesis
      by (simp add: Joint_Watermark stands_for_past[of "t # joint_watermarks es @ past" "joint_watermarks es @ t # past"])
  qed
qed simp

lemma after_watermarks_append:
  "after_watermarks past (es @ es') \<longleftrightarrow>
     after_watermarks past es \<and> after_watermarks (rev (joint_watermarks es) @ past) es'"
  by (induction es arbitrary: past) (auto split: join_event.splits)

lemma join_run_append: "join_run N f (es @ es') s = Option.bind (join_run N f es s) (join_run N f es')"
  by (induction N f es s rule: join_run.induct) (auto simp: on_data_callback_def split: Option.bind_splits)

section \<open>Properties\<close>

text \<open>C26. The join operator joins: as long as nothing arrives behind a watermark, the operator with its
  bounded buffers sends exactly what an operator would send that keeps all messages and joins, at
  each watermark, all messages with its timestamp; it panics exactly when the other would have nothing to join
  on one side or could not send. Its loops end. It holds at any time exactly the messages that are later than
  all watermarks.\<close>

theorem join_operator_joins:
  assumes "after_watermarks [] es"
  shows "map_option (\<lambda>(l, r, ws, w). (ws, w)) (join_run N f es (stream_state_new, stream_state_new, ws, w)) =
      join_reference N f es [] [] ws w \<and>
    (\<forall>l r ws' w'. join_run N f es (stream_state_new, stream_state_new, ws, w) = Some (l, r, ws', w') \<longrightarrow>
      (\<forall>t. held l t = (if \<forall>p \<in> set (joint_watermarks es). ts_lt p t then messages_at t (left_messages es) else []) \<and>
           held r t = (if \<forall>p \<in> set (joint_watermarks es). ts_lt p t then messages_at t (right_messages es) else [])))"
  using join_run_reference[OF assms stands_for_new stands_for_new, of N f ws w]
    join_run_states[OF assms stands_for_new stands_for_new, of N f ws w]
  by (auto simp: stands_for_def)

theorem join_operator_joins_witness:
  "map_option (\<lambda>(l, r, ws, w). (ch_items (fst w 0), held l (ts_new [1]), held l (ts_new [2])))
     (join_run example_net (\<lambda>ls rs. sum_list ls + sum_list rs)
        [Left_Message (ts_new [1]) 3, Right_Message (ts_new [1]) 4, Left_Message (ts_new [2]) 5,
         Left_Message (ts_new [1]) 2, Joint_Watermark (ts_new [1])]
        (stream_state_new, stream_state_new, example_stream, (\<lambda>_. chan_new, \<lambda>_. chan_new))) =
   Some ([new_message (ts_new [1]) 9], [], [5])"
proof -
  let ?es = "[Left_Message (ts_new [1]) 3, Right_Message (ts_new [1]) 4, Left_Message (ts_new [2]) 5,
         Left_Message (ts_new [1]) 2, Joint_Watermark (ts_new [1])] :: (nat, nat) join_event list"
  let ?f = "\<lambda>ls rs. sum_list ls + sum_list rs :: nat"
  let ?w = "(\<lambda>_. chan_new, \<lambda>_. chan_new) :: (nat, nat Message) chans \<times> (nat, unit InterProcessMessage) chans"
  have "after_watermarks [] ?es" by simp
  note joins = join_operator_joins[OF this, of example_net ?f example_stream ?w]
  obtain ws where "join_reference example_net ?f ?es [] [] example_stream ?w =
      Some (ws, (\<lambda>_. chan_new)(0 := chan_new \<lparr> ch_items := [new_message (ts_new [1]) 9] \<rparr>), \<lambda>_. chan_new)"
    by (simp add: example_simps messages_at_def)
  with joins obtain l r where "join_run example_net ?f ?es (stream_state_new, stream_state_new, example_stream, ?w) =
      Some (l, r, ws, (\<lambda>_. chan_new)(0 := chan_new \<lparr> ch_items := [new_message (ts_new [1]) 9] \<rparr>), \<lambda>_. chan_new)"
    by auto
  with joins show ?thesis
    by (simp add: messages_at_def ts_new_def ts_lt_iff prim_cmp_def chan_new_def)
qed

text \<open>C35. A join operator cannot be closed: at the top watermark, which ends a stream, there are
  no messages to join, and the operator panics.\<close>

theorem join_panics_at_top:
  assumes "after_watermarks [] (es @ [Joint_Watermark ts_top])" and "ts_top \<notin> fst ` set (left_messages es)"
  shows "join_run N f (es @ [Joint_Watermark ts_top]) (stream_state_new, stream_state_new, ws, w) = None"
proof (cases "join_run N f es (stream_state_new, stream_state_new, ws, w)")
  case (Some s)
  obtain l r ws' w' where s: "s = (l, r, ws', w')" by (cases s)
  have "after_watermarks [] es" using assms(1) by (simp add: after_watermarks_append)
  from join_run_states[OF this stands_for_new stands_for_new] Some s
  have "stands_for (joint_watermarks es) (left_messages es) l" by fastforce
  moreover have "\<forall>p \<in> set (joint_watermarks es). ts_lt p ts_top"
    using assms(1) by (simp add: after_watermarks_append)
  moreover have "messages_at ts_top (left_messages es) = []"
    using assms(2) by (force simp: messages_at_def filter_empty_conv)
  ultimately show ?thesis using Some s
    by (simp add: join_run_append on_watermark_callback_def stands_for_get_state)
qed (simp add: join_run_append)

theorem join_panics_at_top_witness:
  "join_run example_net (\<lambda>ls rs. sum_list ls + sum_list rs)
     ([Left_Message (ts_new [1]) 3, Right_Message (ts_new [1]) 4, Joint_Watermark (ts_new [1])] @ [Joint_Watermark ts_top])
     (stream_state_new, stream_state_new, example_stream, (\<lambda>_. chan_new, \<lambda>_. chan_new)) = None"
  by (rule join_panics_at_top) (simp_all add: ts_new_def ts_top_def ts_lt_iff)

end
