(* ===== verification/Driver_Streams.thy ===== *)
theory Driver_Streams
  imports Channel_Manager Read_Stream
begin

text \<open>
  The streams of driver programs: \<^verbatim>\<open>ingest_stream.rs\<close>, \<^verbatim>\<open>extract_stream.rs\<close>, \<^verbatim>\<open>loop_stream.rs\<close> and the
  conversions of \<^verbatim>\<open>read_stream.rs\<close> under \<^verbatim>\<open>src/src/dataflow/stream/\<close>.

  A driver makes these streams before the node runs; each leaves a set-up hook in the graph, which
  the node invokes with its channel manager. The shared cells are pointers into the store \<open>'st\<close>, the
  channel manager is behind a handle \<open>'p\<close> that \<open>deref\<close> turns into a pointer. A closure is kept as the
  values it captures, and \<open>run_setup_hook\<close> is its body. The default graph and the generator of
  identifiers are passed along. Between two iterations of a waiting loop the rest of the program runs: the
  parameter \<open>env\<close>.
\<close>

section \<open>Hooks\<close>

datatype ('st, 'h, 'i, 'p, 'ty) setup_hook =
    Ingest_Hook 'ty StreamId "('st, ('h, 'i) WriteStream option) rc"
  | Extract_Hook "('st, 'p option) rc"

text \<open>\<open>None\<close> is the panic of an ingest stream that cannot be set up.\<close>

definition run_setup_hook ::
    "'g id_source \<Rightarrow> ('p \<Rightarrow> ('st, ('h, 'i, 'run, 'hook, 'ty) ChannelManager) rc) \<Rightarrow> ('st, 'h, 'i, 'p, 'ty) setup_hook \<Rightarrow>
       'p \<Rightarrow> 'st \<Rightarrow> 'st option" where
  "run_setup_hook I deref hook channel_manager st =
     (case hook of
        Ingest_Hook ty sid write_stream_option \<Rightarrow>
          (case get_send_endpoints (uuid_display I) ty sid (rc_get (deref channel_manager) st) of
             (cm, Inr eps) \<Rightarrow>
               map_option
                 (\<lambda>write_stream. rc_put write_stream_option (Some write_stream) (rc_put (deref channel_manager) cm st))
                 (ws_from_endpoints I eps sid)
           | (_, Inl _) \<Rightarrow> None)
      | Extract_Hook channel_manager_option \<Rightarrow> Some (rc_put channel_manager_option (Some channel_manager) st))"

section \<open>Ingest streams\<close>

record ('st, 'h, 'i) IngestStream =
  in_id :: StreamId
  in_name :: string
  in_node_id :: NodeId
  write_stream_option :: "('st, ('h, 'i) WriteStream option) rc"

text \<open>\<open>alloc\<close> makes the shared cell, \<open>ty\<close> is the type of the data at run time.\<close>

definition ingest_new_internal ::
    "(('h, 'i) WriteStream option \<Rightarrow> 'st \<Rightarrow> ('st, ('h, 'i) WriteStream option) rc \<times> 'st) \<Rightarrow> 'ty \<Rightarrow> NodeId \<Rightarrow> StreamId \<Rightarrow> string \<Rightarrow>
       ('run, ('st, 'h, 'i, 'p, 'ty) setup_hook, 'ty) Graph \<times> 'st \<Rightarrow>
       ('st, 'h, 'i) IngestStream \<times> ('run, ('st, 'h, 'i, 'p, 'ty) setup_hook, 'ty) Graph \<times> 'st" where
  "ingest_new_internal alloc ty node sid name = (\<lambda>(graph, st).
     case alloc None st of (cell, st) \<Rightarrow>
       (\<lparr> in_id = sid, in_name = name, in_node_id = node, write_stream_option = cell \<rparr>,
        add_ingest_stream ty sid node (Ingest_Hook ty sid cell) graph, st))"

definition ingest_new ::
    "'g id_source \<Rightarrow> (('h, 'i) WriteStream option \<Rightarrow> 'st \<Rightarrow> ('st, ('h, 'i) WriteStream option) rc \<times> 'st) \<Rightarrow> 'ty \<Rightarrow> NodeId \<Rightarrow>
       'g \<times> ('run, ('st, 'h, 'i, 'p, 'ty) setup_hook, 'ty) Graph \<times> 'st \<Rightarrow>
       ('st, 'h, 'i) IngestStream \<times> 'g \<times> ('run, ('st, 'h, 'i, 'p, 'ty) setup_hook, 'ty) Graph \<times> 'st" where
  "ingest_new I alloc ty node = (\<lambda>(rng, gst).
     case new_deterministic I rng of (sid, rng) \<Rightarrow>
       (case ingest_new_internal alloc ty node sid (uuid_display I sid) gst of (s, gst) \<Rightarrow> (s, rng, gst)))"

definition ingest_new_with_name ::
    "'g id_source \<Rightarrow> (('h, 'i) WriteStream option \<Rightarrow> 'st \<Rightarrow> ('st, ('h, 'i) WriteStream option) rc \<times> 'st) \<Rightarrow> 'ty \<Rightarrow> NodeId \<Rightarrow> string \<Rightarrow>
       'g \<times> ('run, ('st, 'h, 'i, 'p, 'ty) setup_hook, 'ty) Graph \<times> 'st \<Rightarrow>
       ('st, 'h, 'i) IngestStream \<times> 'g \<times> ('run, ('st, 'h, 'i, 'p, 'ty) setup_hook, 'ty) Graph \<times> 'st" where
  "ingest_new_with_name I alloc ty node name = (\<lambda>(rng, gst).
     case new_deterministic I rng of (sid, rng) \<Rightarrow>
       (case ingest_new_internal alloc ty node sid name gst of (s, gst) \<Rightarrow> (s, rng, gst)))"

definition ingest_is_closed :: "('st, 'h, 'i) IngestStream \<Rightarrow> 'st \<Rightarrow> bool" where
  "ingest_is_closed self st =
     (case rc_get (write_stream_option self) st of Some ws \<Rightarrow> ws_is_closed ws | None \<Rightarrow> True)"

text \<open>The loop that waits for the write stream; \<open>None\<close> is a loop that never ends.\<close>

partial_function (option) ingest_send_loop ::
    "('w, 'h, 'i, 'd Message, 'e) net \<Rightarrow> ('w \<times> 'st \<Rightarrow> 'w \<times> 'st) \<Rightarrow> ('st, ('h, 'i) WriteStream option) rc \<Rightarrow> 'd Message \<Rightarrow>
       'w \<times> 'st \<Rightarrow> (('w \<times> 'st) \<times> (WriteStreamError + unit)) option" where
  "ingest_send_loop N env cell msg wst =
     (case rc_get cell (snd wst) of
        Some write_stream \<Rightarrow>
          (case ws_send N msg write_stream (fst wst) of ((w, write_stream), res) \<Rightarrow>
             Some ((w, rc_put cell (Some write_stream) (snd wst)), res))
      | None \<Rightarrow> ingest_send_loop N env cell msg (env wst))"

definition ingest_send ::
    "('w, 'h, 'i, 'd Message, 'e) net \<Rightarrow> ('w \<times> 'st \<Rightarrow> 'w \<times> 'st) \<Rightarrow> ('st, 'h, 'i) IngestStream \<Rightarrow> 'd Message \<Rightarrow>
       'w \<times> 'st \<Rightarrow> (('w \<times> 'st) \<times> (WriteStreamError + unit)) option" where
  "ingest_send N env self msg wst =
     (if \<not> ingest_is_closed self (snd wst) then ingest_send_loop N env (write_stream_option self) msg wst
      else Some (wst, Inl Write_Closed))"

section \<open>Extract streams\<close>

record ('st, 'd, 'h, 'p) ExtractStream =
  ex_id :: StreamId
  ex_name :: string
  ex_node_id :: NodeId
  read_stream_option :: "('st, 'd, 'h) ReadStream option"
  channel_manager_option :: "('st, 'p option) rc"

definition extract_new_internal ::
    "'g id_source \<Rightarrow> ('p option \<Rightarrow> 'st \<Rightarrow> ('st, 'p option) rc \<times> 'st) \<Rightarrow> NodeId \<Rightarrow> ('st, 'd, 'h) ReadStream \<Rightarrow> string option \<Rightarrow>
       ('run, ('st, 'h, 'i, 'p, 'ty) setup_hook, 'ty) Graph \<times> 'st \<Rightarrow>
       ('st, 'd, 'h, 'p) ExtractStream \<times> ('run, ('st, 'h, 'i, 'p, 'ty) setup_hook, 'ty) Graph \<times> 'st" where
  "extract_new_internal I alloc node read_stream name = (\<lambda>(graph, st).
     let sid = irs_id (rc_get read_stream st);
         stream_name = (case name of None \<Rightarrow> uuid_display I sid | Some s \<Rightarrow> s)
     in (case alloc None st of (cell, st) \<Rightarrow>
           (\<lparr> ex_id = sid, ex_name = stream_name, ex_node_id = node, read_stream_option = None,
              channel_manager_option = cell \<rparr>,
            add_extract_stream sid node (Extract_Hook cell) graph, st)))"

definition extract_new ::
    "'g id_source \<Rightarrow> ('p option \<Rightarrow> 'st \<Rightarrow> ('st, 'p option) rc \<times> 'st) \<Rightarrow> NodeId \<Rightarrow> ('st, 'd, 'h) ReadStream \<Rightarrow>
       ('run, ('st, 'h, 'i, 'p, 'ty) setup_hook, 'ty) Graph \<times> 'st \<Rightarrow>
       ('st, 'd, 'h, 'p) ExtractStream \<times> ('run, ('st, 'h, 'i, 'p, 'ty) setup_hook, 'ty) Graph \<times> 'st" where
  "extract_new I alloc node read_stream = extract_new_internal I alloc node read_stream None"

definition extract_new_with_name ::
    "'g id_source \<Rightarrow> ('p option \<Rightarrow> 'st \<Rightarrow> ('st, 'p option) rc \<times> 'st) \<Rightarrow> NodeId \<Rightarrow> ('st, 'd, 'h) ReadStream \<Rightarrow> string \<Rightarrow>
       ('run, ('st, 'h, 'i, 'p, 'ty) setup_hook, 'ty) Graph \<times> 'st \<Rightarrow>
       ('st, 'd, 'h, 'p) ExtractStream \<times> ('run, ('st, 'h, 'i, 'p, 'ty) setup_hook, 'ty) Graph \<times> 'st" where
  "extract_new_with_name I alloc node read_stream name = extract_new_internal I alloc node read_stream (Some name)"

definition extract_is_closed :: "('st, 'd, 'h, 'p) ExtractStream \<Rightarrow> 'st \<Rightarrow> bool" where
  "extract_is_closed self st =
     (case read_stream_option self of Some rs \<Rightarrow> rs_is_closed rs st | None \<Rightarrow> True)"

text \<open>What the reads of an extract stream need: the network, the manager and a place for the read stream.\<close>

record ('w, 'h, 'i, 'd, 'e, 'st, 'p, 'run, 'hook, 'ty, 'g) extraction =
  ext_net :: "('w, 'h, 'i, 'd Message, 'e) net"
  ext_ids :: "'g id_source"
  ext_manager :: "'p \<Rightarrow> ('st, ('h, 'i, 'run, 'hook, 'ty) ChannelManager) rc"
  ext_alloc :: "('st, 'd, 'h) InternalReadStream \<Rightarrow> 'st \<Rightarrow> ('st, 'd, 'h) ReadStream \<times> 'st"
  ext_type :: 'ty

definition extract_try_read ::
    "('w, 'h, 'i, 'd, 'e, 'st, 'p, 'run, 'hook, 'ty, 'g) extraction \<Rightarrow> ('st, 'd, 'h, 'p) ExtractStream \<Rightarrow> 'w \<times> 'st \<Rightarrow>
       (('w \<times> 'st) \<times> ('st, 'd, 'h, 'p) ExtractStream) \<times> (TryReadError + 'd Message)" where
  "extract_try_read X self = (\<lambda>(w, st).
     case read_stream_option self of
       Some read_stream \<Rightarrow> (case rs_try_read (ext_net X) read_stream (w, st) of (wst, r) \<Rightarrow> ((wst, self), r))
     | None \<Rightarrow>
         (case rc_get (channel_manager_option self) st of
            Some channel_manager \<Rightarrow>
              (case take_recv_endpoint (uuid_display (ext_ids X)) (ext_type X) (ex_id self)
                      (rc_get (ext_manager X channel_manager) st) of
                 (cm, Inr endpoint) \<Rightarrow>
                   (case rs_from_internal (ext_alloc X) (irs_from_endpoint (ext_ids X) endpoint (ex_id self))
                           (rc_put (ext_manager X channel_manager) cm st) of
                      (read_stream, st) \<Rightarrow>
                        (case rs_try_read (ext_net X) read_stream (w, st) of (wst, result) \<Rightarrow>
                           ((wst, self \<lparr> read_stream_option := Some read_stream \<rparr>), result)))
               | (cm, Inl _) \<Rightarrow>
                   (((w, rc_put (ext_manager X channel_manager) cm st), self), Inl TryRead_Disconnected))
          | None \<Rightarrow> (((w, st), self), Inl TryRead_Disconnected)))"

text \<open>
  The blocking read: \<open>env\<close> runs while the loop waits for the set-up, and \<open>poll\<close> while
  \<^verbatim>\<open>ReadStream::read\<close> waits for a message.
\<close>

partial_function (option) extract_read ::
    "('w, 'h, 'i, 'd, 'e, 'st, 'p, 'run, 'hook, 'ty, 'g) extraction \<Rightarrow> ('w \<times> 'st \<Rightarrow> 'w \<times> 'st) \<Rightarrow> ('w \<Rightarrow> 'w) \<Rightarrow>
       ('st, 'd, 'h, 'p) ExtractStream \<Rightarrow> 'w \<times> 'st \<Rightarrow>
       ((('w \<times> 'st) \<times> ('st, 'd, 'h, 'p) ExtractStream) \<times> (ReadError + 'd Message)) option" where
  "extract_read X env poll self wst =
     (case extract_try_read X self wst of
        ((wst, self), result) \<Rightarrow>
          (case read_stream_option self of
             Some read_stream \<Rightarrow>
               (case result of
                  Inr msg \<Rightarrow> Some ((wst, self), Inr msg)
                | Inl TryRead_Disconnected \<Rightarrow> Some ((wst, self), Inl Read_Disconnected)
                | Inl TryRead_Empty \<Rightarrow>
                    map_option (\<lambda>(wst, r). ((wst, self), r)) (rs_read (ext_net X) poll read_stream wst)
                | Inl TryRead_SerializationError \<Rightarrow> Some ((wst, self), Inl Read_SerializationError)
                | Inl TryRead_Closed \<Rightarrow> Some ((wst, self), Inl Read_Closed))
           | None \<Rightarrow> extract_read X env poll self (env wst)))"

section \<open>Loop streams\<close>

record LoopStream =
  lo_id :: StreamId
  lo_name :: string

definition loop_new_internal ::
    "'ty \<Rightarrow> StreamId \<Rightarrow> string \<Rightarrow> ('run, 'hook, 'ty) Graph \<Rightarrow> LoopStream \<times> ('run, 'hook, 'ty) Graph" where
  "loop_new_internal ty sid name graph = (\<lparr> lo_id = sid, lo_name = name \<rparr>, add_loop_stream ty sid graph)"

definition loop_new ::
    "'g id_source \<Rightarrow> 'ty \<Rightarrow> 'g \<times> ('run, 'hook, 'ty) Graph \<Rightarrow> LoopStream \<times> 'g \<times> ('run, 'hook, 'ty) Graph" where
  "loop_new I ty = (\<lambda>(rng, graph).
     case new_deterministic I rng of (sid, rng) \<Rightarrow>
       (case loop_new_internal ty sid (uuid_display I sid) graph of (s, graph) \<Rightarrow> (s, rng, graph)))"

definition loop_new_with_name ::
    "'g id_source \<Rightarrow> 'ty \<Rightarrow> string \<Rightarrow> 'g \<times> ('run, 'hook, 'ty) Graph \<Rightarrow> LoopStream \<times> 'g \<times> ('run, 'hook, 'ty) Graph" where
  "loop_new_with_name I ty name = (\<lambda>(rng, graph).
     case new_deterministic I rng of (sid, rng) \<Rightarrow>
       (case loop_new_internal ty sid name graph of (s, graph) \<Rightarrow> (s, rng, graph)))"

text \<open>\<open>None\<close> is the panic of \<^verbatim>\<open>unwrap\<close> on the error of \<^verbatim>\<open>add_stream_alias\<close>.\<close>

definition loop_set ::
    "'g id_source \<Rightarrow> LoopStream \<Rightarrow> ('st, 'd, 'h) ReadStream \<Rightarrow> 'st \<Rightarrow> ('run, 'hook, 'ty) Graph \<Rightarrow> ('run, 'hook, 'ty) Graph option" where
  "loop_set I self stream st graph =
     (case add_stream_alias (uuid_display I) (lo_id self) (irs_id (rc_get stream st)) graph of
        Some (graph, Inr _) \<Rightarrow> Some graph
      | _ \<Rightarrow> None)"

section \<open>Conversions to read streams\<close>

definition rs_from_loop_stream ::
    "(('st, 'd, 'h) InternalReadStream \<Rightarrow> 'st \<Rightarrow> ('st, 'd, 'h) ReadStream \<times> 'st) \<Rightarrow> LoopStream \<Rightarrow>
       'st \<Rightarrow> ('st, 'd, 'h) ReadStream \<times> 'st" where
  "rs_from_loop_stream alloc s st = rs_from_internal alloc (irs_new_with_id_name (lo_id s) (lo_name s)) st"

definition rs_from_ingest_stream ::
    "(('st, 'd, 'h) InternalReadStream \<Rightarrow> 'st \<Rightarrow> ('st, 'd, 'h) ReadStream \<times> 'st) \<Rightarrow> ('st, 'h, 'i) IngestStream \<Rightarrow>
       'st \<Rightarrow> ('st, 'd, 'h) ReadStream \<times> 'st" where
  "rs_from_ingest_stream alloc s st = rs_from_internal alloc (irs_new_with_id_name (in_id s) (in_name s)) st"

end
