(* ===== verification/Connect.thy ===== *)
theory Connect
  imports Executor Driver_Streams
begin

text \<open>
  Connecting operators: the macros of \<^verbatim>\<open>src/src/connect.rs\<close>.

  A macro is expanded for each operator; here it is a function of the lists of the streams of the operator.
  The data of all streams is of one type \<open>'d\<close>, and \<open>'ty\<close> tells the types apart at run time. The constructor
  \<^verbatim>\<open>new\<close> and the function \<^verbatim>\<open>connect\<close> of an operator are the code of its author and so parameters, as is the
  bundle of streams that the build generates. The store \<open>'st\<close> holds the network too. \<open>None\<close> is a panic.
\<close>

section \<open>Flowing watermarks\<close>

text \<open>The callback: errors are printed and ignored.\<close>

fun flow_callback ::
    "('st, 'h, 'i, 'd Message, 'e) net \<Rightarrow> Timestamp \<Rightarrow> ('h, 'i) WriteStream list \<Rightarrow> 'st \<Rightarrow> ('h, 'i) WriteStream list \<times> 'st" where
  "flow_callback N t [] st = ([], st)"
| "flow_callback N t (ws # wss) st =
     (case ws_send N (new_watermark t) ws st of ((st, ws), _) \<Rightarrow>
        (case flow_callback N t wss st of (wss, st) \<Rightarrow> (ws # wss, st)))"

text \<open>What an operator is set up with. \<open>os_bundle\<close> makes the callback builder of the streams and registers a
  callback with a priority.\<close>

record ('st, 'd, 'h, 'i, 'e, 'g, 'run, 'hook, 'ty, 'c, 'lg, 'ld) operator_setting =
  os_ids :: "'g id_source"
  os_net :: "('st, 'h, 'i, 'd Message, 'e) net"
  os_manager :: "('st, ('h, 'i, 'run, 'hook, 'ty) ChannelManager) rc"
  os_control :: "('st, 'c, ControlMessage) mpsc"
  os_lattice :: "('lg, 'ld, 'st action) lattice_graph"
  os_alloc_stream :: "('st, 'd, 'h) InternalReadStream \<Rightarrow> 'st \<Rightarrow> ('st, 'd, 'h) ReadStream \<times> 'st"
  os_alloc_flag :: "bool \<Rightarrow> 'st \<Rightarrow> ('st, bool) rc \<times> 'st"
  os_alloc_box :: "('st, 'd, 'h) OperatorExecutorStream \<Rightarrow> 'st \<Rightarrow> ('st, ('st, 'd, 'h) OperatorExecutorStream) rc \<times> 'st"
  os_alloc_state :: "unit \<Rightarrow> 'st \<Rightarrow> ('st, unit) rc \<times> 'st"
  os_alloc_stateful :: "('st, 'd, unit) InternalStatefulReadStream \<Rightarrow> 'st \<Rightarrow> ('st, 'd, unit) StatefulReadStream \<times> 'st"
  os_bundle :: "('st, 'd, unit) StatefulReadStream list \<Rightarrow> ('h, 'i) WriteStream list \<Rightarrow>
    (Timestamp \<Rightarrow> ('h, 'i) WriteStream list \<Rightarrow> 'st \<Rightarrow> ('h, 'i) WriteStream list \<times> 'st) \<Rightarrow> i8 \<Rightarrow> 'st \<Rightarrow> 'st"

fun add_unit_states ::
    "('st, 'd, 'h, 'i, 'e, 'g, 'run, 'hook, 'ty, 'c, 'lg, 'ld) operator_setting \<Rightarrow> ('st, 'd, 'h) ReadStream list \<Rightarrow>
       'g \<times> 'st \<Rightarrow> ('st, 'd, unit) StatefulReadStream list \<times> 'g \<times> 'st" where
  "add_unit_states S [] gst = ([], gst)"
| "add_unit_states S (rs # rss) gst =
     (case rs_add_state (os_ids S) default_managed (os_alloc_state S) (os_alloc_stateful S) () rs gst of (sfs, gst) \<Rightarrow>
        (case add_unit_states S rss gst of (sfss, gst) \<Rightarrow> (sfs # sfss, gst)))"

definition flow_watermarks ::
    "('st, 'd, 'h, 'i, 'e, 'g, 'run, 'hook, 'ty, 'c, 'lg, 'ld) operator_setting \<Rightarrow> ('st, 'd, 'h) ReadStream list \<Rightarrow>
       ('h, 'i) WriteStream list \<Rightarrow> 'g \<times> 'st \<Rightarrow> 'g \<times> 'st" where
  "flow_watermarks S rss wss gst =
     (if rss = [] \<or> wss = [] then gst
      else (case add_unit_states S rss gst of (sfss, rng, st) \<Rightarrow>
              (rng, os_bundle S sfss wss (flow_callback (os_net S)) 127 st)))"

section \<open>Setting up an operator\<close>

text \<open>The streams of the operator. A failing \<^verbatim>\<open>unwrap\<close> panics.\<close>

fun set_up_reads ::
    "('st, 'd, 'h, 'i, 'e, 'g, 'run, 'hook, 'ty, 'c, 'lg, 'ld) operator_setting \<Rightarrow> (StreamId \<times> 'ty) list \<Rightarrow> 'st \<Rightarrow>
       (('st, 'd, 'h) ReadStream list \<times> 'st OperatorExecutorStreamT list \<times> 'st) option" where
  "set_up_reads S [] st = Some ([], [], st)"
| "set_up_reads S ((sid, ty) # reads) st =
     (case take_recv_endpoint (uuid_display (os_ids S)) ty sid (rc_get (os_manager S) st) of
        (_, Inl _) \<Rightarrow> None
      | (cm, Inr endpoint) \<Rightarrow>
          (case rs_from_internal (os_alloc_stream S) (irs_from_endpoint (os_ids S) endpoint sid) (rc_put (os_manager S) cm st) of
             (read_stream, st) \<Rightarrow>
               (case oes_new (os_alloc_flag S) read_stream st of (oes, st) \<Rightarrow>
                  (case os_alloc_box S oes st of (box, st) \<Rightarrow>
                     map_option (\<lambda>(rss, op_ex_streams, st'). (read_stream # rss, oes_object (os_net S) box st # op_ex_streams, st'))
                       (set_up_reads S reads st)))))"

fun set_up_writes ::
    "('st, 'd, 'h, 'i, 'e, 'g, 'run, 'hook, 'ty, 'c, 'lg, 'ld) operator_setting \<Rightarrow> (StreamId \<times> 'ty) list \<Rightarrow> 'st \<Rightarrow>
       (('h, 'i) WriteStream list \<times> 'st) option" where
  "set_up_writes S [] st = Some ([], st)"
| "set_up_writes S ((sid, ty) # writes) st =
     (case get_send_endpoints (uuid_display (os_ids S)) ty sid (rc_get (os_manager S) st) of
        (_, Inl _) \<Rightarrow> None
      | (cm, Inr eps) \<Rightarrow>
          Option.bind (ws_from_endpoints (os_ids S) eps sid) (\<lambda>ws.
            map_option (\<lambda>(wss, st). (ws # wss, st)) (set_up_writes S writes (rc_put (os_manager S) cm st))))"

text \<open>What the closure that a graph keeps for an operator captures.\<close>

record ('a, 'ty) operator_runner =
  or_config :: "'a OperatorConfig"
  or_reads :: "(StreamId \<times> 'ty) list"
  or_writes :: "(StreamId \<times> 'ty) list"

text \<open>The body of the closure; \<open>op_new\<close> is \<^verbatim>\<open>new\<close> of the operator.\<close>

definition make_operator_executor ::
    "('st, 'd, 'h, 'i, 'e, 'g, 'run, 'hook, 'ty, 'c, 'lg, 'ld) operator_setting \<Rightarrow>
       ('a OperatorConfig \<Rightarrow> ('st, 'd, 'h) ReadStream list \<Rightarrow> ('h, 'i) WriteStream list \<Rightarrow> 'g \<times> 'st \<Rightarrow>
          ('st Operator \<times> 'g \<times> 'st) option) \<Rightarrow>
       ('a, 'ty) operator_runner \<Rightarrow> 'c \<Rightarrow> 'c \<Rightarrow> 'g \<times> 'st \<Rightarrow> (('st, 'lg, 'c) OperatorExecutor \<times> 'g \<times> 'st) option" where
  "make_operator_executor S op_new r control_sender control_receiver = (\<lambda>(rng, st).
     case set_up_reads S (or_reads r) st of
       None \<Rightarrow> None
     | Some (rss, op_ex_streams, st) \<Rightarrow>
         (case set_up_writes S (or_writes r) st of
            None \<Rightarrow> None
          | Some (wss, st) \<Rightarrow>
              (let config = (or_config r) \<lparr> oc_node_id := cm_node_id (rc_get (os_manager S) st) \<rparr>
               in (case op_new config rss wss (rng, st) of
                     None \<Rightarrow> None
                   | Some (oper, gst) \<Rightarrow>
                       (case (if oc_flow_watermarks config then flow_watermarks S rss wss gst else gst) of
                          (rng, st) \<Rightarrow>
                            (case mpsc_send (os_control S) control_sender (OperatorInitialized (oc_id config)) st of
                               (_, Inl _) \<Rightarrow> None
                             | (st, Inr _) \<Rightarrow>
                                 Some (executor_new (os_lattice S) oper config op_ex_streams control_receiver st, rng, st)))))))"

section \<open>Registering an operator with the graph\<close>

text \<open>\<^verbatim>\<open>register!\<close>: the streams with their types, and the read streams that the driver gets for the
  streams the operator writes.\<close>

fun read_streams_from ::
    "(('st, 'd, 'h) InternalReadStream \<Rightarrow> 'st \<Rightarrow> ('st, 'd, 'h) ReadStream \<times> 'st) \<Rightarrow> ('h, 'i) WriteStream list \<Rightarrow> 'st \<Rightarrow>
       ('st, 'd, 'h) ReadStream list \<times> 'st" where
  "read_streams_from alloc [] st = ([], st)"
| "read_streams_from alloc (ws # wss) st =
     (case rs_from_write_stream alloc ws st of (rs, st) \<Rightarrow>
        (case read_streams_from alloc wss st of (rss, st) \<Rightarrow> (rs # rss, st)))"

definition register ::
    "'g id_source \<Rightarrow> (('st, 'd, 'h) InternalReadStream \<Rightarrow> 'st \<Rightarrow> ('st, 'd, 'h) ReadStream \<times> 'st) \<Rightarrow> 'a OperatorConfig \<Rightarrow>
       (('st, 'd, 'h) ReadStream \<times> 'ty) list \<Rightarrow> (('h, 'i) WriteStream \<times> 'ty) list \<Rightarrow>
       'g \<times> (('a, 'ty) operator_runner, 'hook, 'ty) Graph \<times> 'st \<Rightarrow>
       ('st, 'd, 'h) ReadStream list \<times> 'g \<times> (('a, 'ty) operator_runner, 'hook, 'ty) Graph \<times> 'st" where
  "register I alloc config rss wss = (\<lambda>(rng, graph, st).
     case new_deterministic I rng of (i, rng) \<Rightarrow>
       (let config = config \<lparr> oc_id := i \<rparr>;
            reads = map (\<lambda>(rs, ty). (irs_id (rc_get rs st), ty)) rss;
            writes = map (\<lambda>(ws, ty). (ws_id ws, ty)) wss;
            op_runner = \<lparr> or_config = config, or_reads = reads, or_writes = writes \<rparr>;
            graph = add_operator i (oc_name config) (oc_node_id config) (map fst reads) (map fst writes) op_runner graph;
            graph = fold (\<lambda>(sid, ty). add_operator_stream ty i sid) writes graph
        in (case read_streams_from alloc (map fst wss) st of (out, st) \<Rightarrow> (out, rng, graph, st))))"

text \<open>The conversions \<^verbatim>\<open>(&s).into()\<close> of the streams that a driver can pass.\<close>

datatype ('st, 'd, 'h, 'i) any_stream =
    Any_Read "('st, 'd, 'h) ReadStream"
  | Any_Write "('h, 'i) WriteStream"
  | Any_Loop LoopStream
  | Any_Ingest "('st, 'h, 'i) IngestStream"

fun into_read_stream ::
    "(('st, 'd, 'h) InternalReadStream \<Rightarrow> 'st \<Rightarrow> ('st, 'd, 'h) ReadStream \<times> 'st) \<Rightarrow> ('st, 'd, 'h, 'i) any_stream \<Rightarrow>
       'st \<Rightarrow> ('st, 'd, 'h) ReadStream \<times> 'st" where
  "into_read_stream alloc (Any_Read rs) st = (rs, st)"
| "into_read_stream alloc (Any_Write ws) st = rs_from_write_stream alloc ws st"
| "into_read_stream alloc (Any_Loop s) st = rs_from_loop_stream alloc s st"
| "into_read_stream alloc (Any_Ingest s) st = rs_from_ingest_stream alloc s st"

fun into_read_streams ::
    "(('st, 'd, 'h) InternalReadStream \<Rightarrow> 'st \<Rightarrow> ('st, 'd, 'h) ReadStream \<times> 'st) \<Rightarrow> (('st, 'd, 'h, 'i) any_stream \<times> 'ty) list \<Rightarrow>
       'st \<Rightarrow> (('st, 'd, 'h) ReadStream \<times> 'ty) list \<times> 'st" where
  "into_read_streams alloc [] st = ([], st)"
| "into_read_streams alloc ((s, ty) # ss) st =
     (case into_read_stream alloc s st of (rs, st) \<Rightarrow>
        (case into_read_streams alloc ss st of (rss, st) \<Rightarrow> ((rs, ty) # rss, st)))"

text \<open>\<^verbatim>\<open>connect_0_write!\<close> to \<^verbatim>\<open>connect_3_write!\<close>, which differ in the number of streams that
  \<^verbatim>\<open>connect\<close> of the operator returns.\<close>

definition connect_write ::
    "'g id_source \<Rightarrow> (('st, 'd, 'h) InternalReadStream \<Rightarrow> 'st \<Rightarrow> ('st, 'd, 'h) ReadStream \<times> 'st) \<Rightarrow>
       (('st, 'd, 'h) ReadStream list \<Rightarrow> 'g \<times> 'st \<Rightarrow> (('h, 'i) WriteStream \<times> 'ty) list \<times> 'g \<times> 'st) \<Rightarrow>
       'a OperatorConfig \<Rightarrow> (('st, 'd, 'h, 'i) any_stream \<times> 'ty) list \<Rightarrow>
       'g \<times> (('a, 'ty) operator_runner, 'hook, 'ty) Graph \<times> 'st \<Rightarrow>
       ('st, 'd, 'h) ReadStream list \<times> 'g \<times> (('a, 'ty) operator_runner, 'hook, 'ty) Graph \<times> 'st" where
  "connect_write I alloc op_connect config inputs = (\<lambda>(rng, graph, st).
     case into_read_streams alloc inputs st of (rss, st) \<Rightarrow>
       (case op_connect (map fst rss) (rng, st) of (wss, rng, st) \<Rightarrow>
          register I alloc config rss wss (rng, graph, st)))"

section \<open>Callbacks over several streams\<close>

text \<open>
  The types of the bundles and their methods are generated; \<open>'b\<close> are the bundles, \<open>'x\<close> is the store they live in. A
  read stream alone is a bundle, and gets a state by \<^verbatim>\<open>add_state\<close> of the stream.
\<close>

record ('rs, 'ws, 's, 'cb, 'b, 'x) bundle_ops =
  bo_first :: "'rs \<Rightarrow> 'x \<Rightarrow> 'b \<times> 'x"
  bo_first_with_state :: "'rs \<Rightarrow> 's \<Rightarrow> 'x \<Rightarrow> 'b \<times> 'x"
  bo_add_read_stream :: "'rs \<Rightarrow> 'b \<times> 'x \<Rightarrow> 'b \<times> 'x"
  bo_add_write_stream :: "'ws \<Rightarrow> 'b \<times> 'x \<Rightarrow> 'b \<times> 'x"
  bo_add_state :: "'s \<Rightarrow> 'b \<times> 'x \<Rightarrow> 'b \<times> 'x"
  bo_add_watermark_callback :: "'b \<Rightarrow> 'cb \<Rightarrow> 'x \<Rightarrow> 'x"

text \<open>\<open>None\<close> is a use without read streams, which no rule of the macro matches.\<close>

definition make_callback_builder ::
    "('rs, 'ws, 's, 'cb, 'b, 'x) bundle_ops \<Rightarrow> 'rs list \<Rightarrow> 'ws list \<Rightarrow> 's option \<Rightarrow> 'x \<Rightarrow> ('b \<times> 'x) option" where
  "make_callback_builder B streams_read wss state x =
     (case streams_read of
        [] \<Rightarrow> None
      | rs # rss \<Rightarrow>
          Some (case state of
            Some s \<Rightarrow>
              (if rss = [] \<and> wss = [] then bo_first_with_state B rs s x
               else bo_add_state B s (fold (bo_add_write_stream B) wss (fold (bo_add_read_stream B) rss (bo_first B rs x))))
          | None \<Rightarrow> fold (bo_add_write_stream B) wss (fold (bo_add_read_stream B) rss (bo_first B rs x))))"

definition add_watermark_callback ::
    "('rs, 'ws, 's, 'cb, 'b, 'x) bundle_ops \<Rightarrow> 'rs list \<Rightarrow> 'ws list \<Rightarrow> 'cb list \<Rightarrow> 's option \<Rightarrow> 'x \<Rightarrow> 'x option" where
  "add_watermark_callback B rss wss cbs state x =
     map_option (\<lambda>(cb_builder, x). fold (bo_add_watermark_callback B cb_builder) cbs x) (make_callback_builder B rss wss state x)"

end
