(* ===== verification/Driver_Properties.thy ===== *)
theory Driver_Properties
  imports Driver_Streams Channel_Manager_Properties Read_Stream_Properties
begin

text \<open>
  What a driver can rely on: its ingest streams are set up with an endpoint for every reader, a send
  never waits, and a read waits for the set-up and then for a message.
\<close>

section \<open>Cells\<close>

text \<open>A pointer from which the value can be read that was written to it.\<close>

definition rc_cell :: "('st, 'a) rc \<Rightarrow> bool" where
  "rc_cell r \<longleftrightarrow> (\<forall>v st. rc_get r (rc_put r v st) = v)"

text \<open>The read stream of an extract stream has no callbacks: no operator sees it. \<^verbatim>\<open>Rc::new\<close> returns a
  pointer to such a stream.\<close>

definition plain_stream :: "('st, 'd, 'h) InternalReadStream \<Rightarrow> bool" where
  "plain_stream s \<longleftrightarrow> irs_children s = [] \<and> irs_callbacks s = [] \<and> irs_watermark_cbs s = []"

definition allocates ::
    "(('st, 'd, 'h) InternalReadStream \<Rightarrow> 'st \<Rightarrow> ('st, 'd, 'h) ReadStream \<times> 'st) \<Rightarrow> bool" where
  "allocates alloc \<longleftrightarrow> (\<forall>s st r st'. plain_stream s \<longrightarrow> alloc s st = (r, st') \<longrightarrow>
     rc_get r st' = s \<and> (\<forall>s st. plain_stream s \<longrightarrow> rc_get r (rc_put r s st) = s))"

section \<open>Send endpoints of the streams of a node\<close>

definition scheduled :: "Channel \<Rightarrow> bool" where
  "scheduled c \<longleftrightarrow> (\<forall>cm. c \<noteq> Unscheduled cm)"

lemma connect_outgoing_sends:
  "connect_outgoing g nc display cts cs se w = Some (se', w') \<Longrightarrow>
     length (send_endpoints se') = length (send_endpoints se) + length (filter scheduled cs)"
proof (induction cs arbitrary: se w)
  case (Cons c cs)
  then show ?case
    by (cases c) (auto simp: add_inter_node_send_endpoint_def add_inter_thread_channel_def add_send_endpoint_def
        add_recv_endpoint_def scheduled_def split: option.splits sum.splits prod.splits)
qed simp

lemma entry_or_fresh: "map_of entries (sm_id sm) = None \<Longrightarrow> send_endpoints (entry_or sm entries) = []"
  by (simp add: entry_or_def to_stream_endpoints_t_def stream_endpoints_new_def)

text \<open>A stream that starts on the node has an entry with one send endpoint per channel.\<close>

lemma connect_streams_sends:
  fixes entries :: "(StreamId \<times> ('h, 'i, 'ty) StreamEndpoints) list"
  assumes "connect_streams T g n cts sms entries pushers w = Some (entries', pushers', w')"
    and "distinct (map sm_id sms)" and "\<forall>sm \<in> set sms. map_of entries (sm_id sm) = None"
    and "sm \<in> set sms" and "sm_source sm \<in> set (get_vertices_on g n)"
  shows "\<exists>se. map_of entries' (sm_id sm) = Some se \<and> length (send_endpoints se) = length (filter scheduled (sm_channels sm))"
  using assms
proof (induction sms arbitrary: entries pushers w)
  case (Cons a sms)
  have fresh: "map_of entries1 (sm_id sm') = None"
    if "\<forall>sid. sid \<noteq> sm_id a \<longrightarrow> map_of entries1 sid = map_of entries sid" "sm' \<in> set sms"
    for entries1 :: "(StreamId \<times> ('h, 'i, 'ty) StreamEndpoints) list" and sm'
  proof -
    from Cons.prems(2) that(2) have "sm_id sm' \<noteq> sm_id a" by (metis distinct.simps(2) image_eqI list.set_map list.simps(9))
    with that Cons.prems(3) show ?thesis by simp
  qed
  show ?case
  proof (cases "sm_source a \<in> set (get_vertices_on g n)")
    case True
    with Cons.prems(1) obtain se w1 where se:
        "connect_outgoing g (new_channel T) (display_node T) cts (sm_channels a) (entry_or a entries) w = Some (se, w1)"
        "connect_streams T g n cts sms (AList.update (sm_id a) se entries) pushers w1 = Some (entries', pushers', w')"
      by (auto split: option.splits)
    have keep: "\<forall>sid. sid \<noteq> sm_id a \<longrightarrow> map_of (AList.update (sm_id a) se entries) sid = map_of entries sid"
      by (simp add: update_conv')
    show ?thesis
    proof (cases "sm = a")
      case True
      from connect_streams_count[OF se(2)] Cons.prems(2) fresh[OF keep]
      have "map_of entries' (sm_id a) = map_of (AList.update (sm_id a) se entries) (sm_id a)" by simp
      with True connect_outgoing_sends[OF se(1)] entry_or_fresh[of entries a] Cons.prems(3) show ?thesis
        by (simp add: update_conv')
    next
      case False
      with Cons.IH[OF se(2)] fresh[OF keep] Cons.prems show ?thesis by simp
    qed
  next
    case False
    with Cons.prems(1) obtain e p w1 where e:
        "connect_incoming (new_channel T) (display_id T) (get_vertices_on g n) a (sm_channels a) entries pushers w = Some (e, p, w1)"
        "connect_streams T g n cts sms e p w1 = Some (entries', pushers', w')"
      by (auto split: option.splits)
    have "\<forall>sid. sid \<noteq> sm_id a \<longrightarrow> map_of e sid = map_of entries sid"
      using connect_incoming_count[OF e(1)] Cons.prems(3) by simp
    moreover from False Cons.prems(5) have "sm \<noteq> a" by blast
    ultimately show ?thesis using Cons.IH[OF e(2)] fresh Cons.prems by simp
  qed
qed simp

lemma channel_manager_sends:
  assumes built: "graph_built display g" and sched: "schedule g = Some g'"
    and new: "channel_manager_new T g' n ctr cts w = Some (cm, w')" and sm: "get_stream g sid = Some sm"
    and here: "vertex_node g (sm_source sm) = Some n"
  obtains se where "map_of (stream_entries cm) sid = Some se" "length (send_endpoints se) = size (readers g sid)"
    "se_type se = sm_type sm"
proof -
  note inv = graph_built_inv[OF built]
  from inv sm have ok: "stream_ok sid sm" and wk: "well_keyed g" and readers: "mset (sinks sm) = readers g sid"
    by (simp_all add: graph_inv_def get_stream_def)
  from new obtain ps w1 where cs: "connect_streams T g' n cts (get_streams g') [] [] w = Some (stream_entries cm, ps, w1)"
    by (rule channel_manager_entries)
  obtain sm' where sm': "sm' \<in> set (get_streams g')" "sm_id sm' = sid" "distinct (map sm_id (get_streams g'))"
      "schedule_stream g sm = Some sm'"
    by (rule scheduled_stream[OF built sched sm])
  from schedule_stream_eq[OF sm'(4) ok] have src: "sm_source sm' = sm_source sm"
    and chans: "list_all2 (\<lambda>c c'. placed g c c' \<and> scheduled c') (sm_channels sm) (sm_channels sm')"
    by (simp_all add: scheduled_def)
  have "vertex_known g (sm_source sm)"
    using here graph_built_sources[OF built, of sid sm] sm
    by (auto simp: vertex_known_def vertex_node_def get_operator_def get_stream_def split: Vertex.splits)
  then have "sm_source sm' \<in> set (get_vertices_on g' n)"
    using vertices_on_iff[OF well_keyed_schedule[OF sched wk]] vertex_schedule[OF sched] here src by simp
  from connect_streams_sends[OF cs sm'(3) _ sm'(1) this] sm'(2) obtain se
    where se: "map_of (stream_entries cm) sid = Some se" "length (send_endpoints se) = length (filter scheduled (sm_channels sm'))"
    by auto
  from chans have "filter scheduled (sm_channels sm') = sm_channels sm'"
    by (simp add: filter_id_conv list_all2_conv_all_nth all_set_conv_all_nth)
  moreover from readers have "length (sm_channels sm) = size (readers g sid)" by (metis length_map sinks_def size_mset)
  ultimately have "length (send_endpoints se) = size (readers g sid)" using se(2) list_all2_lengthD[OF chans] by simp
  with se(1) channel_manager_count[OF built sched new sm] that show ?thesis by blast
qed

section \<open>Reading from an extract stream\<close>

lemma extract_try_read_unset:
  "read_stream_option self = None \<Longrightarrow> rc_get (channel_manager_option self) (snd wst) = None \<Longrightarrow>
     extract_try_read X self wst = ((wst, self), Inl TryRead_Disconnected)"
  by (cases wst) (simp add: extract_try_read_def)

lemma extract_read_waits:
  "read_stream_option self = None \<Longrightarrow> rc_get (channel_manager_option self) (snd wst) = None \<Longrightarrow>
     extract_read X env poll self wst = extract_read X env poll self (env wst)"
  by (subst extract_read.simps) (simp add: extract_try_read_unset)

lemma extract_read_after:
  assumes "read_stream_option self = None"
  shows "(\<And>i. i < k \<Longrightarrow> rc_get (channel_manager_option self) (snd ((env ^^ i) wst)) = None) \<Longrightarrow>
     extract_read X env poll self wst = extract_read X env poll self ((env ^^ k) wst)"
proof (induction k)
  case (Suc k)
  from Suc.prems have "rc_get (channel_manager_option self) (snd ((env ^^ k) wst)) = None" by simp
  from Suc.IH Suc.prems extract_read_waits[OF assms this, of X env poll] show ?case by simp
qed simp

lemma extract_read_never:
  fixes X :: "('w, 'h, 'i, 'd, 'e, 'st, 'p, 'run, 'hook, 'ty, 'g) extraction"
  assumes "read_stream_option self = None"
    and "\<And>i. rc_get (channel_manager_option self) (snd ((env ^^ i) wst)) = None"
  shows "extract_read X env poll self wst = None"
proof (rule ccontr)
  let ?P = "\<lambda>X env poll self wst y. read_stream_option self = None \<longrightarrow>
    (\<exists>i. rc_get (channel_manager_option self) (snd ((env ^^ i) wst)) \<noteq> None)"
  assume "extract_read X env poll self wst \<noteq> None"
  then obtain y where y: "extract_read X env poll self wst = Some y" by blast
  have "?P X env poll self wst y"
  proof (rule extract_read.raw_induct[where P = ?P, OF _ y], intro impI, rule ccontr)
    fix rec and X :: "('w, 'h, 'i, 'd, 'e, 'st, 'p, 'run, 'hook, 'ty, 'g) extraction"
      and env poll self and wst :: "'w \<times> 'st" and y
    assume IH: "\<And>X env poll self wst y. rec X env poll self wst = Some y \<Longrightarrow> ?P X env poll self wst y"
      and body: "(case extract_try_read X self wst of
        ((wst, self), result) \<Rightarrow>
          (case read_stream_option self of
             Some read_stream \<Rightarrow>
               (case result of
                  Inr msg \<Rightarrow> Some ((wst, self), Inr msg)
                | Inl TryRead_Disconnected \<Rightarrow> Some ((wst, self), Inl Read_Disconnected)
                | Inl TryRead_Empty \<Rightarrow>
                    map_option (\<lambda>(wst, r). ((wst, self), r)) (rs_read (ext_net X) poll read_stream wst)
                | Inl TryRead_SerializationError \<Rightarrow> Some ((wst, self), Inl Read_SerializationError)
                | Inl TryRead_Closed \<Rightarrow> Some ((wst, self), Inl Read_Closed))
           | None \<Rightarrow> rec X env poll self (env wst))) = Some y"
      and none: "read_stream_option self = None"
      and "\<nexists>i. rc_get (channel_manager_option self) (snd ((env ^^ i) wst)) \<noteq> None"
    then have unset: "rc_get (channel_manager_option self) (snd ((env ^^ i) wst)) = None" for i by blast
    from body extract_try_read_unset[OF none, of wst X] unset[of 0] none have "rec X env poll self (env wst) = Some y" by simp
    from IH[OF this] none obtain i where "rc_get (channel_manager_option self) (snd ((env ^^ i) (env wst))) \<noteq> None" by blast
    with unset[of "Suc i"] show False by (simp add: funpow_swap1)
  qed
  with assms(1) obtain i where "rc_get (channel_manager_option self) (snd ((env ^^ i) wst)) \<noteq> None" by blast
  with assms(2)[of i] show False by simp
qed

context message_network
begin

lemma extract_read_set_up:
  fixes X :: "('w, 'h, 'i, 'd, 'e, 'st, 'p, 'run, 'hook, 'ty, 'g) extraction"
  assumes X: "ext_net X = N" "allocates (ext_alloc X)" and self: "read_stream_option self = None"
    "rc_get (channel_manager_option self) st = Some p"
    and take: "take_recv_endpoint (uuid_display (ext_ids X)) (ext_type X) (ex_id self) (rc_get (ext_manager X p) st) =
      (cm, Inr (Recv_InterThread h))"
    and ready: "readable tc ttx ((poll ^^ k) w) h" "\<And>i. i < k \<Longrightarrow> \<not> readable tc ttx ((poll ^^ i) w) h"
  shows "\<exists>x. extract_read X env poll self (w, st) =
    Some (x, case tc ((poll ^^ k) w) h of m # _ \<Rightarrow> Inr m | [] \<Rightarrow> Inl Read_Disconnected)"
proof -
  let ?s = "irs_from_endpoint (ext_ids X) (Recv_InterThread h) (ex_id self) :: ('st, 'd, 'h) InternalReadStream"
  obtain r st1 where alloc: "ext_alloc X ?s (rc_put (ext_manager X p) cm st) = (r, st1)" by fastforce
  have plain: "plain_stream ?s" by (simp add: plain_stream_def irs_from_endpoint_def)
  with X(2) alloc have r: "rc_get r st1 = ?s" "rc_get r (rc_put r ?s st) = ?s" for st
    unfolding allocates_def by blast+
  have op: "irs_open ?s h" by (simp add: irs_open_def irs_from_endpoint_def)
  have first: "extract_try_read X self (w, st) =
    (case irs_try_read N ?s w of ((w', s), res) \<Rightarrow>
       (((w', rc_put r s st1), self \<lparr> read_stream_option := Some r \<rparr>), res))"
    using self take alloc r(1) X(1)
    by (simp add: extract_try_read_def rs_from_internal_def rs_try_read_def case_prod_unfold)
  show ?thesis
  proof (cases k)
    case 0
    show ?thesis
    proof (cases "tc w h")
      case Nil
      with ready(1) 0 have "\<not> ttx w h" by (simp add: readable_def)
      with Nil try_read_empty[OF op Nil] first 0 show ?thesis by (subst extract_read.simps) simp
    next
      case (Cons m ms)
      obtain w' where "irs_try_read N ?s w = ((w', close_on_top (Inr m :: TryReadError + 'd Message) ?s), Inr m)"
        by (rule try_read_item[OF op Cons])
      with Cons first 0 show ?thesis by (subst extract_read.simps) simp
    qed
  next
    case (Suc j)
    with ready(2)[of 0] have empty: "tc w h = []" "ttx w h" by (auto simp: readable_def)
    from irs_read_first[OF op ready] obtain ws where
      "irs_read N poll ?s w = Some (ws, case tc ((poll ^^ k) w) h of m # _ \<Rightarrow> Inr m | [] \<Rightarrow> Inl Read_Disconnected)" by blast
    then show ?thesis using r(2) first try_read_empty[OF op empty(1)] empty(2) X(1)
      by (subst extract_read.simps) (cases ws, simp add: rs_read_def)
  qed
qed

end

section \<open>Properties\<close>

text \<open>C36. Sending on an ingest stream never waits. Before the node has set the stream up, and after it
  was closed, a send returns at once with the error that the stream is closed and does nothing; otherwise it is a
  send on the write stream behind it.\<close>

theorem ingest_send_never_waits:
  "ingest_send N env s msg (w, st) = Some
     (case rc_get (write_stream_option s) st of
        None \<Rightarrow> ((w, st), Inl Write_Closed)
      | Some ws \<Rightarrow>
          if ws_is_closed ws then ((w, st), Inl Write_Closed)
          else (case ws_send N msg ws w of ((w', ws'), res) \<Rightarrow>
                  ((w', rc_put (write_stream_option s) (Some ws') st), res)))"
proof (cases "rc_get (write_stream_option s) st")
  case (Some ws)
  then show ?thesis
    by (cases "ws_send N msg ws w") (simp add: ingest_send_def ingest_is_closed_def ingest_send_loop.simps case_prod_unfold)
qed (simp add: ingest_send_def ingest_is_closed_def)

text \<open>C24. An ingest stream is set up with the type of its data. The set-up hook of a stream that a driver
  ingests finds the stream's entry in the channel manager of the driver's node, and the entry has
  the type that the hook asks for: the hook does not panic. The write stream it leaves in the ingest stream is
  open and has one endpoint for every reader of the stream, on any node.\<close>

theorem ingest_stream_set_up:
  assumes "graph_built display g" and "schedule g = Some g'" and "channel_manager_new T g' n ctr cts w = Some (cm, w')"
    and "get_stream g sid = Some sm" and "sm_source sm = Vertex_Driver n"
    and "rc_get (deref p) st = cm" and "rc_cell (write_stream_option s)"
  shows "\<exists>st' ws. run_setup_hook I deref (Ingest_Hook (sm_type sm) sid (write_stream_option s)) p st = Some st' \<and>
    rc_get (write_stream_option s) st' = Some ws \<and> ws_id ws = sid \<and>
    length (ws_endpoints ws) = size (readers g sid) \<and> \<not> ingest_is_closed s st'"
proof -
  have "vertex_node g (sm_source sm) = Some n" using assms(5) by (simp add: vertex_node_def)
  from channel_manager_sends[OF assms(1-4) this] obtain se where
    "map_of (stream_entries cm) sid = Some se" "length (send_endpoints se) = size (readers g sid)" "se_type se = sm_type sm" .
  with assms(6,7) show ?thesis
    by (simp add: run_setup_hook_def get_send_endpoints_def se_get_send_endpoints_def ws_from_endpoints_eq rc_cell_def
        ws_endpoints_def ingest_is_closed_def ws_is_closed_def)
qed

text \<open>The store of the examples: the cell of the ingest stream, and the channel manager of the driver's node.\<close>

definition example_driver_manager :: "(nat, nat, unit, unit, unit) ChannelManager" where
  "example_driver_manager =
     fst (the (channel_manager_new example_transports example_scheduled 0 ctr_new (cts_add_sender 1 7 cts_new) 0))"

lemma example_driver_manager_new:
  "\<exists>w'. channel_manager_new example_transports example_scheduled 0 ctr_new (cts_add_sender 1 7 cts_new) 0 =
     Some (example_driver_manager, w')"
  by (simp add: example_driver_manager_def example_scheduled_def schedule_def schedule_stream_def schedule_channel_def
      example_manager_simps channel_manager_new_def example_transports_def set_channels_def add_inter_node_send_endpoint_def
      add_send_endpoint_def clone_channel_def entry_or_def to_stream_endpoints_t_def stream_endpoints_new_def ctr_send_def
      ctr_new_def cts_new_def cts_add_sender_def)

definition example_ingest ::
    "((nat, nat) WriteStream option \<times> (nat, nat, unit, unit, unit) ChannelManager, nat, nat) IngestStream" where
  "example_ingest = \<lparr> in_id = 1, in_name = [], in_node_id = 0, write_stream_option = Rc fst (\<lambda>v st. (v, snd st)) \<rparr>"

theorem ingest_stream_set_up_witness:
  "\<exists>st' ws. run_setup_hook ref_ids (\<lambda>_. Rc snd (\<lambda>v st. (fst st, v)))
      (Ingest_Hook () 1 (write_stream_option example_ingest)) () (None, example_driver_manager) = Some st' \<and>
    rc_get (write_stream_option example_ingest) st' = Some ws \<and> length (ws_endpoints ws) = 1"
proof -
  obtain w' where new: "channel_manager_new example_transports example_scheduled 0 ctr_new (cts_add_sender 1 7 cts_new) 0 =
      Some (example_driver_manager, w')"
    using example_driver_manager_new by blast
  have cell: "rc_cell (write_stream_option example_ingest)" by (simp add: rc_cell_def example_ingest_def)
  have source: "sm_source example_metadata = Vertex_Driver 0" "sm_type example_metadata = ()"
    by (simp_all add: example_metadata_def)
  have "readers example_graph 1 = {#Vertex_Operator 5#}"
    by (simp add: readers_def vertex_reads_def example_manager_simps)
  then show ?thesis
    using ingest_stream_set_up[OF example_graph_built example_schedule new example_graph_stream source(1), of
        "\<lambda>_ :: unit. Rc snd (\<lambda>v st. (fst st, v))" "()" "(None, example_driver_manager)" example_ingest ref_ids] cell source(2)
    by auto
qed

text \<open>C25. A read of an extract stream waits for the set-up, then for a message. If the node never invokes the
  set-up hook, the read never returns. If it does, and the channel manager has an endpoint for the
  stream, the read returns as soon as the channel has a message or has lost its senders, and
  returns the first message or that the channel is disconnected.\<close>

theorem extract_read_returns:
  assumes "message_network (ext_net X) tc trx ttx pc prx ptx" and "allocates (ext_alloc X)"
    and "read_stream_option self = None"
  shows "((\<forall>i. rc_get (channel_manager_option self) (snd ((env ^^ i) wst)) = None) \<longrightarrow>
      extract_read X env poll self wst = None) \<and>
    (\<forall>n w st p cm h k.
      (\<forall>i < n. rc_get (channel_manager_option self) (snd ((env ^^ i) wst)) = None) \<longrightarrow>
      (env ^^ n) wst = (w, st) \<longrightarrow> rc_get (channel_manager_option self) st = Some p \<longrightarrow>
      take_recv_endpoint (uuid_display (ext_ids X)) (ext_type X) (ex_id self) (rc_get (ext_manager X p) st) =
        (cm, Inr (Recv_InterThread h)) \<longrightarrow>
      readable tc ttx ((poll ^^ k) w) h \<longrightarrow> (\<forall>i < k. \<not> readable tc ttx ((poll ^^ i) w) h) \<longrightarrow>
      (\<exists>x. extract_read X env poll self wst =
         Some (x, case tc ((poll ^^ k) w) h of m # _ \<Rightarrow> Inr m | [] \<Rightarrow> Inl Read_Disconnected)))"
proof (intro conjI impI allI)
  assume "\<forall>i. rc_get (channel_manager_option self) (snd ((env ^^ i) wst)) = None"
  then show "extract_read X env poll self wst = None" by (simp add: extract_read_never[OF assms(3)])
next
  fix n w st p cm h k
  assume unset: "\<forall>i < n. rc_get (channel_manager_option self) (snd ((env ^^ i) wst)) = None" and wst: "(env ^^ n) wst = (w, st)"
    and set: "rc_get (channel_manager_option self) st = Some p" "take_recv_endpoint (uuid_display (ext_ids X)) (ext_type X)
      (ex_id self) (rc_get (ext_manager X p) st) = (cm, Inr (Recv_InterThread h))"
      "readable tc ttx ((poll ^^ k) w) h" "\<forall>i < k. \<not> readable tc ttx ((poll ^^ i) w) h"
  have "extract_read X env poll self wst = extract_read X env poll self (w, st)"
    using extract_read_after[OF assms(3), of n env wst X poll] unset wst by simp
  then show "\<exists>x. extract_read X env poll self wst =
      Some (x, case tc ((poll ^^ k) w) h of m # _ \<Rightarrow> Inr m | [] \<Rightarrow> Inl Read_Disconnected)"
    using message_network.extract_read_set_up[OF assms(1) refl assms(2,3) set(1-3), of env] set(4) by simp
qed

text \<open>The store of the example: the cell of the extract stream, the channel manager and the read stream.\<close>

type_synonym example_store =
  "unit option \<times> (nat, nat, unit, unit, unit) ChannelManager \<times> StreamId \<times> string \<times> bool \<times> nat RecvEndpoint option"

definition example_reader :: "(example_store, nat, nat) ReadStream" where
  "example_reader = Rc
     (\<lambda>(_, _, i, name, closed, ep). \<lparr> irs_id = i, irs_name = name, irs_closed = closed, recv_endpoint = ep,
        irs_children = [], irs_callbacks = [], irs_watermark_cbs = [] \<rparr>)
     (\<lambda>s (cell, cm, _). (cell, cm, irs_id s, irs_name s, irs_closed s, recv_endpoint s))"

definition example_extraction ::
    "((nat, nat Message) chans \<times> (nat, unit InterProcessMessage) chans, nat, nat, nat, unit, example_store, unit, unit, unit, unit, nat)
       extraction" where
  "example_extraction = \<lparr> ext_net = example_net, ext_ids = ref_ids,
     ext_manager = (\<lambda>_. Rc (\<lambda>(_, cm, _). cm) (\<lambda>cm (cell, _, rest). (cell, cm, rest))),
     ext_alloc = (\<lambda>s st. (example_reader, rc_put example_reader s st)), ext_type = () \<rparr>"

definition example_extract :: "(example_store, nat, nat, unit) ExtractStream" where
  "example_extract = \<lparr> ex_id = 1, ex_name = [], ex_node_id = 0, read_stream_option = None,
     channel_manager_option = Rc fst (\<lambda>v st. (v, snd st)) \<rparr>"

lemma example_allocates: "allocates (ext_alloc example_extraction)"
  by (auto simp: allocates_def example_extraction_def example_reader_def plain_stream_def)

theorem extract_read_returns_witness:
  "\<exists>x. extract_read example_extraction (\<lambda>(w, st). (w, Some (), snd st))
     (\<lambda>w. ((\<lambda>_. chan_new \<lparr> ch_items := [Watermark (ts_new [1])] \<rparr>), snd w)) example_extract
     ((\<lambda>_. chan_new, \<lambda>_. chan_new), None, example_sender, 0, [], False, None) =
   Some (x, Inr (Watermark (ts_new [1])))"
proof -
  let ?st = "(None, example_sender, 0, [], False, None) :: example_store"
  let ?w = "(\<lambda>_. chan_new, \<lambda>_. chan_new) :: (nat, nat Message) chans \<times> (nat, unit InterProcessMessage) chans"
  have net: "message_network (ext_net example_extraction)
      (\<lambda>w h. ch_items (fst w h)) (\<lambda>w h. ch_rx (fst w h)) (\<lambda>w h. ch_tx (fst w h))
      (\<lambda>w i. ch_items (snd w i)) (\<lambda>w i. ch_rx (snd w i)) (\<lambda>w i. ch_tx (snd w i))"
    using example_network by (simp add: example_extraction_def)
  have cell: "read_stream_option example_extract = None" by (simp add: example_extract_def)
  show ?thesis
    using extract_read_returns[OF net example_allocates cell, of "\<lambda>(w, st). (w, Some (), snd st)" "(?w, ?st)"
        "\<lambda>w. ((\<lambda>_. chan_new \<lparr> ch_items := [Watermark (ts_new [1])] \<rparr>), snd w)", THEN conjunct2, rule_format,
        of 1 ?w "(Some (), snd ?st)" "()" _ 0 1]
    by (simp add: example_extract_def example_extraction_def example_sender_def take_recv_endpoint_def resolve_stream_id_def
        se_take_recv_endpoint_def example_graph_def add_operator_def add_ingest_stream_def graph_new_def readable_def chan_new_def)
qed

end
