(* ===== verification/Connect_Properties.thy ===== *)
theory Connect_Properties
  imports Connect Driver_Properties Petgraph_Ref
begin

text \<open>
  What connecting operators achieves: the graphs that driver programs build are those for which the
  theorems on graphs and channels hold; every reader on a node finds its endpoint, so that operators are
  set up without a panic; and watermarks flow to all streams of an operator.
\<close>

section \<open>Graphs of driver programs\<close>

lemma fresh_add_operator: "fresh_stream (add_operator i name n rids wids run g) sid \<longleftrightarrow> fresh_stream g sid"
  by (simp add: fresh_stream_def add_operator_def Let_def map_of_connect_reads)

lemma fresh_add_operator_stream:
  "sid' \<noteq> sid \<Longrightarrow> fresh_stream (add_operator_stream ty i sid' g) sid \<longleftrightarrow> fresh_stream g sid"
  by (simp add: fresh_stream_def add_operator_stream_def update_conv')

lemma built_operator_streams:
  "graph_built display g \<Longrightarrow> \<forall>w \<in> set writes. fresh_stream g (fst w) \<Longrightarrow> distinct (map fst writes) \<Longrightarrow>
     graph_built display (fold (\<lambda>(sid, ty). add_operator_stream ty i sid) writes g)"
proof (induction writes arbitrary: g)
  case (Cons w writes)
  obtain sid ty where w: "w = (sid, ty)" by fastforce
  have "graph_built display (add_operator_stream ty i sid g)"
    using Cons.prems w by (auto intro: built_step step_operator_stream)
  moreover have "fresh_stream (add_operator_stream ty i sid g) (fst w')" if "w' \<in> set writes" for w'
  proof -
    from that Cons.prems(3) w have "sid \<noteq> fst w'" by (metis distinct.simps(2) fst_conv image_eqI list.set_map list.simps(9))
    with that Cons.prems(2) show ?thesis by (simp add: fresh_add_operator_stream)
  qed
  ultimately show ?case using Cons.IH Cons.prems(3) w by simp
qed simp

lemma register_built:
  assumes "register I alloc config rss wss (rng, g, st) = (out, rng', g', st')" and "graph_built display g"
    and "new_deterministic I rng = (i, rng1)" and "map_of (operators g) i = None"
    and "\<forall>(ws, ty) \<in> set wss. fresh_stream g (ws_id ws)" and "distinct (map (\<lambda>(ws, ty). ws_id ws) wss)"
  shows "graph_built display g'"
proof -
  let ?writes = "map (\<lambda>(ws, ty). (ws_id ws, ty)) wss"
  obtain name n rids run where g': "g' = fold (\<lambda>(sid, ty). add_operator_stream ty i sid) ?writes
      (add_operator i name n rids (map fst ?writes) run g)"
    using assms(1,3) by (auto simp: register_def Let_def case_prod_unfold)
  show ?thesis unfolding g'
  proof (rule built_operator_streams)
    show "graph_built display (add_operator i name n rids (map fst ?writes) run g)"
      by (rule built_step[OF assms(2) step_operator[where g = g, OF assms(4)]])
    show "\<forall>w \<in> set ?writes. fresh_stream (add_operator i name n rids (map fst ?writes) run g) (fst w)"
      using assms(5) by (auto simp: fresh_add_operator)
    show "distinct (map fst ?writes)" using assms(6) by (simp add: comp_def case_prod_unfold)
  qed
qed

text \<open>
  The calls a driver makes. The identifiers it draws are new; an extracted stream is not an alias, and a
  loop stream is set once, to another stream.
\<close>

inductive driver_graph ::
    "'g id_source \<Rightarrow> (('st, 'd, 'h) InternalReadStream \<Rightarrow> 'st \<Rightarrow> ('st, 'd, 'h) ReadStream \<times> 'st) \<Rightarrow>
       (('a, 'ty) operator_runner, ('st, 'h, 'i, 'p, 'ty) setup_hook, 'ty) Graph \<Rightarrow> bool"
  for I new_stream where
  dg_new: "driver_graph I new_stream graph_new"
| dg_ingest: "driver_graph I new_stream g \<Longrightarrow> ingest_new I alloc ty n (rng, g, st) = (s, rng', g', st') \<Longrightarrow>
    fresh_stream g (in_id s) \<Longrightarrow> driver_graph I new_stream g'"
| dg_ingest_named: "driver_graph I new_stream g \<Longrightarrow> ingest_new_with_name I alloc ty n name (rng, g, st) = (s, rng', g', st') \<Longrightarrow>
    fresh_stream g (in_id s) \<Longrightarrow> driver_graph I new_stream g'"
| dg_extract: "driver_graph I new_stream g \<Longrightarrow> extract_new I alloc n (rs :: ('st, 'd, 'h) ReadStream) (g, st) = (x, g', st') \<Longrightarrow>
    map_of (stream_aliases g) (ex_id x) = None \<Longrightarrow> driver_graph I new_stream g'"
| dg_extract_named: "driver_graph I new_stream g \<Longrightarrow> extract_new_with_name I alloc n (rs :: ('st, 'd, 'h) ReadStream) name (g, st) = (x, g', st') \<Longrightarrow>
    map_of (stream_aliases g) (ex_id x) = None \<Longrightarrow> driver_graph I new_stream g'"
| dg_loop: "driver_graph I new_stream g \<Longrightarrow> loop_new I ty (rng, g) = (l, rng', g') \<Longrightarrow>
    fresh_stream g (lo_id l) \<Longrightarrow> driver_graph I new_stream g'"
| dg_loop_named: "driver_graph I new_stream g \<Longrightarrow> loop_new_with_name I ty name (rng, g) = (l, rng', g') \<Longrightarrow>
    fresh_stream g (lo_id l) \<Longrightarrow> driver_graph I new_stream g'"
| dg_loop_set: "driver_graph I new_stream g \<Longrightarrow> loop_set I l (rs :: ('st, 'd, 'h) ReadStream) st g = Some g' \<Longrightarrow> lo_id l \<noteq> irs_id (rc_get rs st) \<Longrightarrow>
    map_of (streams g) (lo_id l) \<noteq> None \<Longrightarrow> \<forall>c. map_of (stream_aliases g) c \<noteq> Some (lo_id l) \<Longrightarrow> driver_graph I new_stream g'"
| dg_connect: "driver_graph I new_stream g \<Longrightarrow> connect_write I new_stream op_connect config inputs (rng, g, st) = (out, rng', g', st') \<Longrightarrow>
    into_read_streams new_stream inputs st = (rss, st1) \<Longrightarrow> op_connect (map fst rss) (rng, st1) = (wss :: (('h, 'i) WriteStream \<times> 'ty) list, rng1, st2) \<Longrightarrow>
    new_deterministic I rng1 = (i, rng2) \<Longrightarrow> map_of (operators g) i = None \<Longrightarrow>
    \<forall>(ws, ty) \<in> set wss. fresh_stream g (ws_id ws) \<Longrightarrow> distinct (map (\<lambda>(ws, ty). ws_id ws) wss) \<Longrightarrow>
    driver_graph I new_stream g'"

lemma driver_graph_built: "driver_graph I new_stream g \<Longrightarrow> graph_built (uuid_display I) g"
proof (induction rule: driver_graph.induct)
  case dg_new
  show ?case by (rule built_new)
next
  case (dg_ingest g alloc ty n rng st s rng' g' st')
  then obtain hook where "g' = add_ingest_stream ty (in_id s) n hook g"
    by (auto simp: ingest_new_def ingest_new_internal_def split: prod.splits)
  with dg_ingest show ?case by (auto intro: built_step step_ingest)
next
  case (dg_ingest_named g alloc ty n name rng st s rng' g' st')
  then obtain hook where "g' = add_ingest_stream ty (in_id s) n hook g"
    by (auto simp: ingest_new_with_name_def ingest_new_internal_def split: prod.splits)
  with dg_ingest_named show ?case by (auto intro: built_step step_ingest)
next
  case (dg_extract g alloc n rs st x g' st')
  then obtain hook where "g' = add_extract_stream (ex_id x) n hook g"
    by (auto simp: extract_new_def extract_new_internal_def Let_def split: prod.splits)
  with dg_extract show ?case by (auto intro: built_step step_extract)
next
  case (dg_extract_named g alloc n rs name st x g' st')
  then obtain hook where "g' = add_extract_stream (ex_id x) n hook g"
    by (auto simp: extract_new_with_name_def extract_new_internal_def Let_def split: prod.splits)
  with dg_extract_named show ?case by (auto intro: built_step step_extract)
next
  case (dg_loop g ty rng l rng' g')
  then have "g' = add_loop_stream ty (lo_id l) g"
    by (auto simp: loop_new_def loop_new_internal_def split: prod.splits)
  with dg_loop show ?case by (auto intro: built_step step_loop)
next
  case (dg_loop_named g ty name rng l rng' g')
  then have "g' = add_loop_stream ty (lo_id l) g"
    by (auto simp: loop_new_with_name_def loop_new_internal_def split: prod.splits)
  with dg_loop_named show ?case by (auto intro: built_step step_loop)
next
  case (dg_loop_set g l rs st g')
  then have "add_stream_alias (uuid_display I) (lo_id l) (irs_id (rc_get rs st)) g = Some (g', Inr ())"
    by (auto simp: loop_set_def split: option.splits sum.splits prod.splits)
  with dg_loop_set show ?case by (blast intro: built_step step_alias)
next
  case (dg_connect g op_connect config inputs rng st out rng' g' st' rss st1 wss rng1 st2 i rng2)
  then have "register I new_stream config rss wss (rng1, g, st2) = (out, rng', g', st')" by (simp add: connect_write_def)
  from register_built[OF this dg_connect.IH] dg_connect.hyps show ?case by blast
qed

section \<open>Every reader finds its endpoint\<close>

text \<open>A channel manager can serve requests for receive endpoints: the types are right and there are
  enough endpoints.\<close>

definition serves :: "('h, 'i, 'run, 'hook, 'ty) ChannelManager \<Rightarrow> (StreamId \<times> 'ty) list \<Rightarrow> bool" where
  "serves cm reqs \<longleftrightarrow>
     (\<forall>(i, ty) \<in> set reqs. \<forall>se. map_of (stream_entries cm) (resolve_stream_id (cm_graph cm) i) = Some se \<longrightarrow> se_type se = ty) \<and>
     (\<forall>sid. count_list (map (\<lambda>(i, ty). resolve_stream_id (cm_graph cm) i) reqs) sid \<le> recv_count (stream_entries cm) sid)"

text \<open>It has an entry for each stream that is written.\<close>

definition offers :: "('h, 'i, 'run, 'hook, 'ty) ChannelManager \<Rightarrow> (StreamId \<times> 'ty) list \<Rightarrow> bool" where
  "offers cm reqs \<longleftrightarrow> (\<forall>(sid, ty) \<in> set reqs. \<exists>se. map_of (stream_entries cm) sid = Some se \<and> se_type se = ty)"

lemma take_recv_endpoint_entry:
  assumes "take_recv_endpoint fmt ty i cm = (cm', Inr ep)"
  obtains se where "map_of (stream_entries cm) (resolve_stream_id (cm_graph cm) i) = Some se"
    "cm_graph cm' = cm_graph cm" "cm_node_id cm' = cm_node_id cm" "recv_endpoints se \<noteq> []"
    "map_of (stream_entries cm') = (map_of (stream_entries cm))(resolve_stream_id (cm_graph cm) i \<mapsto>
       se \<lparr> recv_endpoints := butlast (recv_endpoints se) \<rparr>)"
  using assms that
  by (auto simp: take_recv_endpoint_def se_take_recv_endpoint_def Let_def update_conv' split: option.splits if_splits)

lemma serves_take:
  assumes "serves cm ((i, ty) # reqs)"
  obtains cm' ep where "take_recv_endpoint fmt ty i cm = (cm', Inr ep)" "serves cm' reqs"
proof -
  let ?sid = "resolve_stream_id (cm_graph cm) i"
  from assms have "0 < recv_count (stream_entries cm) ?sid" unfolding serves_def by (force dest: spec[of _ ?sid])
  then obtain se where se: "map_of (stream_entries cm) ?sid = Some se" "recv_endpoints se \<noteq> []"
    by (auto simp: recv_count_def split: option.splits)
  with assms have "se_type se = ty" by (simp add: serves_def)
  with se obtain cm' ep where take: "take_recv_endpoint fmt ty i cm = (cm', Inr ep)"
    by (auto simp: take_recv_endpoint_def se_take_recv_endpoint_def Let_def)
  then obtain se' where se': "map_of (stream_entries cm) ?sid = Some se'" "cm_graph cm' = cm_graph cm"
    "map_of (stream_entries cm') = (map_of (stream_entries cm))(?sid \<mapsto> se' \<lparr> recv_endpoints := butlast (recv_endpoints se') \<rparr>)"
    by (rule take_recv_endpoint_entry)
  have "recv_count (stream_entries cm') sid = recv_count (stream_entries cm) sid - (if sid = ?sid then 1 else 0)" for sid
    using se' by (simp add: recv_count_def)
  moreover from assms have "count_list (map (\<lambda>(i, ty). resolve_stream_id (cm_graph cm) i) reqs) sid \<le>
      recv_count (stream_entries cm) sid - (if sid = ?sid then 1 else 0)" for sid
    unfolding serves_def by (auto dest: spec[of _ sid] split: if_splits)
  moreover have "se_type se = ty'" if "(j, ty') \<in> set reqs"
    "map_of (stream_entries cm') (resolve_stream_id (cm_graph cm) j) = Some se" for j ty' se
  proof -
    from assms that(1) have "\<And>se. map_of (stream_entries cm) (resolve_stream_id (cm_graph cm) j) = Some se \<Longrightarrow> se_type se = ty'"
      by (auto simp: serves_def)
    with that(2) se' show ?thesis by (auto split: if_splits)
  qed
  ultimately have "serves cm' reqs" using se'(2) unfolding serves_def by auto
  with take that show ?thesis by blast
qed

lemma offers_take: "take_recv_endpoint fmt ty i cm = (cm', Inr ep) \<Longrightarrow> offers cm reqs \<Longrightarrow> offers cm' reqs"
  by (erule take_recv_endpoint_entry) (fastforce simp: offers_def)

text \<open>Requests one after the other, in whichever order the readers make them.\<close>

fun take_all ::
    "(Uuid \<Rightarrow> string) \<Rightarrow> (StreamId \<times> 'ty) list \<Rightarrow> ('h, 'i, 'run, 'hook, 'ty) ChannelManager \<Rightarrow>
       ('h RecvEndpoint list \<times> ('h, 'i, 'run, 'hook, 'ty) ChannelManager) option" where
  "take_all fmt [] cm = Some ([], cm)"
| "take_all fmt ((i, ty) # reqs) cm =
     (case take_recv_endpoint fmt ty i cm of
        (cm, Inr ep) \<Rightarrow> map_option (\<lambda>(eps, cm). (ep # eps, cm)) (take_all fmt reqs cm)
      | (_, Inl _) \<Rightarrow> None)"

lemma take_all_served: "serves cm reqs \<Longrightarrow> \<exists>eps cm'. take_all fmt reqs cm = Some (eps, cm') \<and> length eps = length reqs"
proof (induction reqs arbitrary: cm)
  case (Cons req reqs)
  obtain i ty where req: "req = (i, ty)" by fastforce
  from Cons.prems[unfolded req] obtain cm1 ep where "take_recv_endpoint fmt ty i cm = (cm1, Inr ep)" "serves cm1 reqs"
    by (rule serves_take)
  with Cons.IH[of cm1] req show ?case by auto
qed simp

text \<open>The reads of the vertices on a node, each as the stream it resolves to.\<close>

definition reads_on :: "('run, 'hook, 'ty) Graph \<Rightarrow> NodeId \<Rightarrow> StreamId multiset" where
  "reads_on g n = image_mset (\<lambda>(v, i). resolve_stream_id g i) (filter_mset (\<lambda>(v, i). vertex_node g v = Some n) (mset (vertex_reads g)))"

lemma count_reads_on: "count (reads_on g n) sid = size (filter_mset (\<lambda>v. vertex_node g v = Some n) (readers g sid))"
proof -
  have "count (image_mset f M) x = size (filter_mset (\<lambda>y. f y = x) M)" for f :: "Vertex \<times> StreamId \<Rightarrow> StreamId" and M x
    by (induction M) auto
  then show ?thesis
    by (simp add: reads_on_def readers_def filter_mset_image_mset filter_filter_mset case_prod_unfold conj_commute)
qed

lemma channel_manager_serves:
  assumes built: "graph_built display g" and sched: "schedule g = Some g'" and new: "channel_manager_new T g' n ctr cts w = Some (cm, w')"
    and typed: "\<forall>(i, ty) \<in> set reqs. \<exists>sm. get_stream g (resolve_stream_id g i) = Some sm \<and> sm_type sm = ty"
    and reads: "mset (map (\<lambda>(i, ty). resolve_stream_id g i) reqs) \<subseteq># reads_on g n"
  shows "serves cm reqs"
proof -
  from new have "cm_graph cm = g'" by (auto simp: channel_manager_new_def split: option.splits)
  then have res: "resolve_stream_id (cm_graph cm) = resolve_stream_id g"
    using schedule_keeps(3)[OF sched] by (simp add: resolve_stream_id_def fun_eq_iff)
  note count = channel_manager_count[OF built sched new]
  have "count_list (map (\<lambda>(i, ty). resolve_stream_id g i) reqs) sid \<le> recv_count (stream_entries cm) sid" for sid
  proof (cases "sid \<in> set (map (\<lambda>(i, ty). resolve_stream_id g i) reqs)")
    case True
    with typed obtain sm where "get_stream g sid = Some sm" by fastforce
    from count[OF this] mset_subset_eq_count[OF reads, of sid] show ?thesis
      by (simp add: count_reads_on flip: count_mset)
  qed (simp add: count_list_0_iff)
  moreover from typed count have "\<forall>(i, ty) \<in> set reqs. \<forall>se. map_of (stream_entries cm) (resolve_stream_id g i) = Some se \<longrightarrow> se_type se = ty"
    by fastforce
  ultimately show ?thesis by (simp add: serves_def res)
qed

lemma channel_manager_offers:
  assumes "graph_built display g" and "schedule g = Some g'" and "channel_manager_new T g' n ctr cts w = Some (cm, w')"
    and "\<forall>(sid, ty) \<in> set reqs. \<exists>sm. get_stream g sid = Some sm \<and> sm_type sm = ty \<and> vertex_node g (sm_source sm) = Some n"
  shows "offers cm reqs"
  unfolding offers_def
proof (clarify)
  fix sid ty assume "(sid, ty) \<in> set reqs"
  with bspec[OF assms(4), of "(sid, ty)"] obtain sm where sm: "get_stream g sid = Some sm" "sm_type sm = ty" "vertex_node g (sm_source sm) = Some n" by auto
  obtain se where "map_of (stream_entries cm) sid = Some se" "se_type se = sm_type sm"
    by (rule channel_manager_sends[OF assms(1-3) sm(1,3)])
  with sm(2) show "\<exists>se. map_of (stream_entries cm) sid = Some se \<and> se_type se = ty" by blast
qed

section \<open>Setting up operators\<close>

text \<open>The channel manager is a cell of its own: making other cells does not change it.\<close>

definition apart_from :: "('st, 'm) rc \<Rightarrow> ('a \<Rightarrow> 'st \<Rightarrow> 'r \<times> 'st) \<Rightarrow> bool" where
  "apart_from m alloc \<longleftrightarrow> (\<forall>v st. rc_get m (snd (alloc v st)) = rc_get m st)"

lemma set_up_reads_served:
  assumes m: "rc_cell (os_manager S)" "apart_from (os_manager S) (os_alloc_stream S)" "apart_from (os_manager S) (os_alloc_flag S)"
    "apart_from (os_manager S) (os_alloc_box S)"
  shows "serves (rc_get (os_manager S) st) reqs \<Longrightarrow> offers (rc_get (os_manager S) st) writes \<Longrightarrow>
    \<exists>rss oss st'. set_up_reads S reqs st = Some (rss, oss, st') \<and> length rss = length reqs \<and> length oss = length reqs \<and>
      offers (rc_get (os_manager S) st') writes \<and> cm_node_id (rc_get (os_manager S) st') = cm_node_id (rc_get (os_manager S) st)"
proof (induction reqs arbitrary: st)
  case (Cons req reqs)
  let ?m = "os_manager S"
  obtain i ty where req: "req = (i, ty)" by fastforce
  from Cons.prems(1)[unfolded req] obtain cm ep
    where take: "take_recv_endpoint (uuid_display (os_ids S)) ty i (rc_get ?m st) = (cm, Inr ep)" "serves cm reqs"
    by (rule serves_take)
  obtain rs st1 where rs: "rs_from_internal (os_alloc_stream S) (irs_from_endpoint (os_ids S) ep i) (rc_put ?m cm st) = (rs, st1)" by fastforce
  obtain oes st2 where oes: "oes_new (os_alloc_flag S) rs st1 = (oes, st2)" by fastforce
  obtain box st3 where box: "os_alloc_box S oes st2 = (box, st3)" by fastforce
  have "rc_get ?m st1 = cm" using m(1,2) rs by (metis apart_from_def rs_from_internal_def rc_cell_def snd_conv)
  moreover have "rc_get ?m st2 = rc_get ?m st1"
    using m(3) oes by (auto simp: apart_from_def oes_new_def split: prod.splits) (metis snd_conv)
  moreover have "rc_get ?m st3 = rc_get ?m st2" using m(4) box by (metis apart_from_def snd_conv)
  ultimately have st3: "rc_get ?m st3 = cm" by simp
  have "cm_node_id cm = cm_node_id (rc_get ?m st)" using take(1) by (rule take_recv_endpoint_entry)
  with Cons.IH[of st3] st3 take offers_take[OF take(1) Cons.prems(2)] rs oes box req show ?case by auto
qed auto

lemma set_up_writes_offered:
  assumes "rc_cell (os_manager S)"
  shows "offers (rc_get (os_manager S) st) reqs \<Longrightarrow>
    \<exists>wss st'. set_up_writes S reqs st = Some (wss, st') \<and> map ws_id wss = map fst reqs \<and>
      cm_node_id (rc_get (os_manager S) st') = cm_node_id (rc_get (os_manager S) st)"
proof (induction reqs arbitrary: st)
  case (Cons req reqs)
  let ?m = "os_manager S"
  obtain sid ty where req: "req = (sid, ty)" by fastforce
  from Cons.prems req obtain se where se: "map_of (stream_entries (rc_get ?m st)) sid = Some se" "se_type se = ty"
    by (auto simp: offers_def)
  let ?cm = "(rc_get ?m st) \<lparr> stream_entries := AList.update sid (se \<lparr> send_endpoints := [] \<rparr>) (stream_entries (rc_get ?m st)) \<rparr>"
  have get: "get_send_endpoints (uuid_display (os_ids S)) ty sid (rc_get ?m st) = (?cm, Inr (send_endpoints se))"
    using se by (simp add: get_send_endpoints_def se_get_send_endpoints_def)
  have put: "rc_get ?m (rc_put ?m ?cm st) = ?cm" using assms by (simp add: rc_cell_def)
  have "offers ?cm reqs" using Cons.prems se by (fastforce simp: offers_def update_conv')
  with Cons.IH[of "rc_put ?m ?cm st"] put get req show ?case by (auto simp: ws_from_endpoints_eq)
qed simp

section \<open>Flowing watermarks\<close>

context message_network
begin

text \<open>Every stream that can take the watermark has it as its low watermark afterwards, and no stream
  is changed by another.\<close>

lemma flow_callback_effect:
  "flow_callback N t wss w = (wss', w') \<Longrightarrow> list_all ws_inv wss \<Longrightarrow>
     list_all2 (\<lambda>ws ws'. ws_inv ws' \<and> ws_id ws' = ws_id ws \<and>
       low_watermark ws' = (if admissible (new_watermark t :: 'd Message) ws then t else low_watermark ws)) wss wss'"
proof (induction wss arbitrary: w wss' w')
  case (Cons ws wss)
  obtain w1 ws1 r where send: "ws_send N (new_watermark t) ws w = ((w1, ws1), r)" by (metis prod.exhaust)
  obtain wss1 w2 where rest: "flow_callback N t wss w1 = (wss1, w2)" by fastforce
  have inv: "ws_inv ws" using Cons.prems(2) by simp
  have "ws_id ws1 = ws_id ws"
    using send by (auto simp: ws_send_def update_watermark_def close_stream_def new_watermark_def Let_def
      split: if_splits option.splits prod.splits sum.splits)
  moreover have "low_watermark ws1 = (if admissible (new_watermark t :: 'd Message) ws then t else low_watermark ws)"
    using ws_send_low_watermark[OF inv send] by (simp add: new_watermark_def)
  ultimately show ?case
    using Cons.IH[OF rest] Cons.prems send rest ws_inv_send[OF inv send] by auto
qed simp

end

section \<open>Properties\<close>

text \<open>C21. The graphs that driver programs build are well formed. Whatever ingest, extract and loop streams a
  driver makes and however it connects operators, each stream of the graph has exactly one channel for every
  time that an operator or driver reads it, directly or through a loop stream, and the channels name
  the stream and its source.\<close>

theorem driver_graphs_well_formed:
  assumes "driver_graph I new_stream g" and "get_stream g sid = Some sm"
  shows "mset (sinks sm) = readers g sid \<and> sm_id sm = sid \<and>
    (\<forall>c \<in> set (sm_channels sm). cm_stream_id (channel_metadata c) = sid \<and> cm_source (channel_metadata c) = sm_source sm)"
  using graph_built_inv[OF driver_graph_built[OF assms(1)]] assms(2)
  by (auto simp: graph_inv_def get_stream_def stream_ok_def)

text \<open>A driver that ingests a stream and connects an operator to it.\<close>

type_synonym example_driver_graph = "((unit, unit) operator_runner, (unit, nat, nat, unit, unit) setup_hook, unit) Graph"

definition example_new_stream :: "(unit, nat, nat) InternalReadStream \<Rightarrow> unit \<Rightarrow> (unit, nat, nat) ReadStream \<times> unit" where
  "example_new_stream s st = (Rc (\<lambda>_. s) (\<lambda>_ st. st), st)"

definition example_ingested :: "(unit, nat, nat) IngestStream \<times> nat \<times> example_driver_graph \<times> unit" where
  "example_ingested = ingest_new ref_ids (\<lambda>v st. (Rc (\<lambda>_. v) (\<lambda>_ st. st), st)) () 0 (1, graph_new, ())"

definition example_connect :: "(unit, nat, nat) ReadStream list \<Rightarrow> nat \<times> unit \<Rightarrow> ((nat, nat) WriteStream \<times> unit) list \<times> nat \<times> unit" where
  "example_connect rss = (\<lambda>(rng, st). case ws_new ref_ids rng of (ws, rng) \<Rightarrow> ([(ws, ())], rng, st))"

definition example_connected :: "(unit, nat, nat) ReadStream list \<times> nat \<times> example_driver_graph \<times> unit" where
  "example_connected = connect_write ref_ids example_new_stream example_connect (config_new :: unit OperatorConfig)
     [(Any_Ingest (fst example_ingested), ())] (snd example_ingested)"

lemma leading_zeros: "foldl (\<lambda>n b. 256 * n + unat b) 0 (replicate k (0 :: u8)) = 0"
  by (induction k) simp_all

lemma ref_ids_new: "g < 256 \<Longrightarrow> new_deterministic ref_ids g = (of_nat g, Suc g)"
  using leading_zeros[of 15]
  by (simp add: new_deterministic_def generate_id_def ref_ids_def uuid_of_bytes_def unat_of_nat)

lemma example_driver_ids: "new_deterministic ref_ids (Suc 0) = (1, Suc (Suc 0))"
  "new_deterministic ref_ids (Suc (Suc 0)) = (2, Suc (Suc (Suc 0)))"
  "new_deterministic ref_ids (Suc (Suc (Suc 0))) = (3, Suc (Suc (Suc (Suc 0))))"
  by (simp_all add: ref_ids_new)

lemmas example_connect_simps = example_ingested_def ingest_new_def ingest_new_internal_def example_driver_ids
  add_ingest_stream_def graph_new_def driver_add_ingest_stream_def driver_entry_def driver_new_def add_channels_eq
  vertex_reads_def Let_def

theorem driver_graphs_well_formed_witness:
  "\<exists>sm. get_stream (fst (snd (snd example_connected))) 1 = Some sm \<and> sinks sm = [Vertex_Operator 3] \<and>
     readers (fst (snd (snd example_connected))) 1 = {#Vertex_Operator 3#}"
proof -
  have ingested: "driver_graph ref_ids example_new_stream (fst (snd (snd example_ingested)))"
    by (rule dg_ingest[OF dg_new, of ref_ids "\<lambda>v st. (Rc (\<lambda>_. v) (\<lambda>_ st. st), st)" "()" 0 1 "()"
          "fst example_ingested" "fst (snd example_ingested)" _ "()"])
      (simp_all add: example_connect_simps fresh_stream_def)
  have ing: "(2, fst (snd (snd example_ingested)), ()) = snd example_ingested"
    by (simp add: example_connect_simps numeral_eq_Suc)
  have connected: "driver_graph ref_ids example_new_stream (fst (snd (snd example_connected)))"
  proof (rule dg_connect[OF ingested])
    show "connect_write ref_ids example_new_stream example_connect (config_new :: unit OperatorConfig)
        [(Any_Ingest (fst example_ingested), ())] (2, fst (snd (snd example_ingested)), ()) =
      (fst example_connected, fst (snd example_connected), fst (snd (snd example_connected)), ())"
      unfolding ing example_connected_def[symmetric] by (simp add: prod_eq_iff)
    show "into_read_streams example_new_stream [(Any_Ingest (fst example_ingested), ())] () =
      ([(fst (example_new_stream (irs_new_with_id_name 1 (uuid_display ref_ids 1)) ()), ())], ())"
      by (simp add: example_connect_simps rs_from_ingest_stream_def rs_from_internal_def example_new_stream_def)
    show "example_connect (map fst [(fst (example_new_stream (irs_new_with_id_name 1 (uuid_display ref_ids 1)) ()), ())]) (2, ()) =
      ([(fst (ws_new ref_ids 2), ())], 3, ())"
      by (simp add: example_connect_def ws_new_def example_driver_ids numeral_eq_Suc)
    show "new_deterministic ref_ids 3 = (3, 4)" using example_driver_ids(3) by (simp add: numeral_eq_Suc)
    show "map_of (operators (fst (snd (snd example_ingested)))) 3 = None" by (simp add: example_connect_simps)
    show "\<forall>(ws, ty) \<in> set [(fst (ws_new ref_ids 2), ())]. fresh_stream (fst (snd (snd example_ingested))) (ws_id ws)"
      by (simp add: example_connect_simps fresh_stream_def ws_new_def ws_new_internal_def numeral_eq_Suc)
  qed simp
  obtain sm where sm: "get_stream (fst (snd (snd example_connected))) 1 = Some sm" "sinks sm = [Vertex_Operator 3]"
    by (simp add: example_connected_def connect_write_def register_def)
      (simp add: example_connect_simps get_stream_def sinks_def rs_from_ingest_stream_def rs_from_internal_def
        rs_from_write_stream_def example_new_stream_def example_connect_def ws_new_def ws_new_internal_def
        add_operator_def add_operator_stream_def resolve_stream_id_def irs_new_with_id_name_def add_channel_def
        channel_metadata_new_def operator_new_def)
  with driver_graphs_well_formed[OF connected sm(1)] show ?thesis by auto
qed

text \<open>C22. Every reader is served. The readers of a node can take their endpoints from the node's channel
  manager in any order: no request fails, neither for lack of endpoints nor because of its type, as long as
  all streams that are read exist.\<close>

theorem every_reader_served:
  assumes "graph_built display g" and "schedule g = Some g'" and "channel_manager_new T g' n ctr cts w = Some (cm, w')"
    and "\<forall>(i, ty) \<in> set reqs. \<exists>sm. get_stream g (resolve_stream_id g i) = Some sm \<and> sm_type sm = ty"
    and "mset (map (\<lambda>(i, ty). resolve_stream_id g i) reqs) \<subseteq># reads_on g n"
  shows "\<exists>eps cm'. take_all fmt reqs cm = Some (eps, cm') \<and> length eps = length reqs"
  by (rule take_all_served[OF channel_manager_serves[OF assms]])

theorem every_reader_served_witness:
  "\<exists>eps cm'. take_all (\<lambda>_. []) [(1, ())] example_manager = Some (eps, cm') \<and> length eps = 1"
proof -
  obtain w' where new: "channel_manager_new example_transports example_scheduled 1 ctr_new cts_new 0 = Some (example_manager, w')"
    using example_manager_new by blast
  have "resolve_stream_id example_graph 1 = 1" "reads_on example_graph 1 = {#1#}"
    by (simp_all add: reads_on_def vertex_reads_def example_manager_simps)
  then show ?thesis
    using every_reader_served[OF example_graph_built example_schedule new, of "[(1, ())]" "\<lambda>_. []"] example_graph_stream by simp
qed

text \<open>C23. Operators are set up. When the channel manager has the endpoints of the operator's streams, the
  constructor of the operator returns and the node listens, the closure that the graph keeps for an operator returns an
  executor: for the operator's identifier, on this node, with one input for every stream the operator reads.\<close>

theorem operator_set_up:
  assumes "rc_cell (os_manager S)" and "apart_from (os_manager S) (os_alloc_stream S)"
    and "apart_from (os_manager S) (os_alloc_flag S)" and "apart_from (os_manager S) (os_alloc_box S)"
    and "serves (rc_get (os_manager S) st) (or_reads r)" and "offers (rc_get (os_manager S) st) (or_writes r)"
    and "\<And>config rss wss gst. op_new config rss wss gst \<noteq> None"
    and "\<And>i st. \<exists>st'. mpsc_send (os_control S) tx (OperatorInitialized i) st = (st', Inr ())"
  shows "\<exists>ex gst. make_operator_executor S op_new r tx rx (rng, st) = Some (ex, gst) \<and>
    oc_id (ex_config ex) = oc_id (or_config r) \<and>
    oc_node_id (ex_config ex) = cm_node_id (rc_get (os_manager S) st) \<and>
    (case ex_event_stream ex of None \<Rightarrow> or_reads r = [] | Some ss \<Rightarrow> length ss = length (or_reads r)) \<and>
    control_rx ex = rx"
proof -
  from set_up_reads_served[OF assms(1-6)] obtain rss oss st1 where reads:
    "set_up_reads S (or_reads r) st = Some (rss, oss, st1)" "length oss = length (or_reads r)"
    "offers (rc_get (os_manager S) st1) (or_writes r)"
    "cm_node_id (rc_get (os_manager S) st1) = cm_node_id (rc_get (os_manager S) st)" by blast
  from set_up_writes_offered[OF assms(1) reads(3)] obtain wss st2 where writes:
    "set_up_writes S (or_writes r) st1 = Some (wss, st2)"
    "cm_node_id (rc_get (os_manager S) st2) = cm_node_id (rc_get (os_manager S) st1)" by blast
  let ?config = "(or_config r) \<lparr> oc_node_id := cm_node_id (rc_get (os_manager S) st2) \<rparr>"
  obtain oper gst where oper: "op_new ?config rss wss (rng, st2) = Some (oper, gst)" using assms(7) by fastforce
  obtain rng3 st3 where flow: "(if oc_flow_watermarks ?config then flow_watermarks S rss wss gst else gst) = (rng3, st3)" by fastforce
  obtain st4 where sent: "mpsc_send (os_control S) tx (OperatorInitialized (oc_id ?config)) st3 = (st4, Inr ())" using assms(8) by blast
  have "make_operator_executor S op_new r tx rx (rng, st) =
      Some (executor_new (os_lattice S) oper ?config oss rx st4, rng3, st4)"
    using reads(1) writes(1) oper flow sent by (simp add: make_operator_executor_def Let_def)
  then show ?thesis
    using reads(2,4) writes(2) by (auto simp: executor_new_def drop_arg_def split: list.splits)
qed

text \<open>The store of the example: the channel manager and the network.\<close>

type_synonym example_op_store =
  "(nat, nat, unit, unit, unit) ChannelManager \<times> (nat, nat Message) chans \<times> (nat, unit InterProcessMessage) chans"

definition example_setting ::
    "(example_op_store, nat, nat, nat, unit, nat, unit, unit, unit, unit, example_op_store action OperatorEvent option ref_graph, ref_dfs)
       operator_setting" where
  "example_setting = \<lparr> os_ids = ref_ids,
     os_net = \<lparr> net_thread = chans_in (\<lambda>st. fst (snd st)) (\<lambda>c st. (fst st, c, snd (snd st))),
       net_process = chans_in (\<lambda>st. snd (snd st)) (\<lambda>c st. (fst st, fst (snd st), c)),
       net_serde = ref_serde False (\<lambda>_. []) (\<lambda>_. None) (), net_fmt = (\<lambda>_. []) \<rparr>,
     os_manager = Rc fst (\<lambda>cm st. (cm, snd st)),
     os_control = \<lparr> mpsc_send = (\<lambda>_ _ st. (st, Inr ())), mpsc_try_recv = (\<lambda>_ st. (st, Inl Mpsc_Empty)), mpsc_recv = (\<lambda>_ _. None) \<rparr>,
     os_lattice = ref_petgraph,
     os_alloc_stream = (\<lambda>s st. (Rc (\<lambda>_. s) (\<lambda>_ st. st), st)), os_alloc_flag = (\<lambda>s st. (Rc (\<lambda>_. s) (\<lambda>_ st. st), st)),
     os_alloc_box = (\<lambda>s st. (Rc (\<lambda>_. s) (\<lambda>_ st. st), st)), os_alloc_state = (\<lambda>s st. (Rc (\<lambda>_. s) (\<lambda>_ st. st), st)),
     os_alloc_stateful = (\<lambda>s st. (Rc (\<lambda>_. s) (\<lambda>_ st. st), st)), os_bundle = (\<lambda>_ _ _ _ st. st) \<rparr>"

definition example_runner :: "(unit, unit) operator_runner" where
  "example_runner = \<lparr> or_config = config_new \<lparr> oc_id := 5 \<rparr>, or_reads = [(1, ())], or_writes = [(1, ())] \<rparr>"

theorem operator_set_up_witness:
  "\<exists>ex gst. make_operator_executor example_setting (\<lambda>config rss wss gst. Some (default_operator, gst)) example_runner () ()
      (0, example_sender, \<lambda>_. chan_new, \<lambda>_. chan_new) = Some (ex, gst) \<and>
    oc_id (ex_config ex) = 5 \<and> length (the (ex_event_stream ex)) = 1"
proof -
  let ?st = "(example_sender, \<lambda>_. chan_new, \<lambda>_. chan_new) :: example_op_store"
  have "\<exists>ex gst. make_operator_executor example_setting (\<lambda>config rss wss gst. Some (default_operator, gst)) example_runner () ()
      (0, ?st) = Some (ex, gst) \<and>
    oc_id (ex_config ex) = oc_id (or_config example_runner) \<and>
    oc_node_id (ex_config ex) = cm_node_id (rc_get (os_manager example_setting) ?st) \<and>
    (case ex_event_stream ex of None \<Rightarrow> or_reads example_runner = [] | Some ss \<Rightarrow> length ss = length (or_reads example_runner)) \<and>
    control_rx ex = ()"
    by (rule operator_set_up)
      (auto simp: example_setting_def rc_cell_def apart_from_def example_runner_def serves_def offers_def example_sender_def
        resolve_stream_id_def example_graph_def add_operator_def add_ingest_stream_def graph_new_def recv_count_def)
  then show ?thesis by (auto simp: example_runner_def split: option.splits)
qed

end
