(* ===== verification/Node_Run.thy ===== *)
theory Node_Run
  imports Zenoh_Tasks Tcp_Connections
begin

text \<open>
  The life of a node: \<^verbatim>\<open>run\<close>, \<^verbatim>\<open>run_async\<close>, \<^verbatim>\<open>async_run\<close> and \<^verbatim>\<open>NodeHandle\<close> of \<^verbatim>\<open>src/src/node/node.rs\<close>.

  A node opens its connections, starts the tasks that serve them and the operators, and waits until one of them
  gives it a reason to stop. The runtime that runs the tasks concurrently is a parameter: it tells in
  which order they complete, and with which results. The data senders are spawned, so that a panic of one of them
  is only a result of joining it. The other tasks and the operators are futures that the node polls itself: a panic of one
  of them unwinds the node, which is a way to stop. \<open>None\<close> is a panic during the set-up or a node that never stops.
\<close>

section \<open>Waiting for a reason to stop\<close>

text \<open>The futures that the node polls itself.\<close>

datatype polled = Polled_Receivers | Polled_Control_Senders | Polled_Control_Receivers | Polled_Operators

datatype 'e completion =
    Senders_Done "'e CommunicationError + unit"
  | Receivers_Done "'e CommunicationError + unit"
  | Control_Senders_Done "'e CommunicationError + unit"
  | Control_Receivers_Done "'e CommunicationError + unit"
  | Operators_Done "string + unit"
  | Shutdown_Received
  | Query_Handler_Done
  | Panicked_In polled

datatype 'e stop =
    Senders_Failed "'e CommunicationError"
  | Receivers_Failed "'e CommunicationError"
  | Control_Senders_Failed "'e CommunicationError"
  | Control_Receivers_Failed "'e CommunicationError"
  | Operators_Failed string
  | Shut_Down
  | Query_Handler_Ended
  | Node_Panicked polled

text \<open>The branches of \<^verbatim>\<open>select!\<close>: a result that does not match its pattern disables the branch, and a panic
  leaves \<^verbatim>\<open>select!\<close>.\<close>

fun branch :: "'e completion \<Rightarrow> 'e stop option" where
  "branch (Senders_Done r) = (case r of Inl e \<Rightarrow> Some (Senders_Failed e) | Inr _ \<Rightarrow> None)"
| "branch (Receivers_Done r) = (case r of Inl e \<Rightarrow> Some (Receivers_Failed e) | Inr _ \<Rightarrow> None)"
| "branch (Control_Senders_Done r) = (case r of Inl e \<Rightarrow> Some (Control_Senders_Failed e) | Inr _ \<Rightarrow> None)"
| "branch (Control_Receivers_Done r) = (case r of Inl e \<Rightarrow> Some (Control_Receivers_Failed e) | Inr _ \<Rightarrow> None)"
| "branch (Operators_Done r) = (case r of Inl e \<Rightarrow> Some (Operators_Failed e) | Inr _ \<Rightarrow> None)"
| "branch Shutdown_Received = Some Shut_Down"
| "branch Query_Handler_Done = Some Query_Handler_Ended"
| "branch (Panicked_In p) = Some (Node_Panicked p)"

fun select_branch :: "'e completion list \<Rightarrow> 'e stop option" where
  "select_branch [] = None"
| "select_branch (c # cs) = (case branch c of Some s \<Rightarrow> Some s | None \<Rightarrow> select_branch cs)"

text \<open>
  \<^verbatim>\<open>try_join!\<close> of the communication tasks, on a single node: it ends when all \<open>n\<close> of them have ended or one has
  failed, and is left by a panic of one of them. What else completes meanwhile is noticed afterwards.
\<close>

fun communication_result :: "'e completion \<Rightarrow> ('e CommunicationError + unit) option" where
  "communication_result (Senders_Done r) = Some r"
| "communication_result (Receivers_Done r) = Some r"
| "communication_result (Control_Senders_Done r) = Some r"
| "communication_result (Control_Receivers_Done r) = Some r"
| "communication_result _ = None"

fun communication_panic :: "'e completion \<Rightarrow> polled option" where
  "communication_panic (Panicked_In p) = (if p = Polled_Operators then None else Some p)"
| "communication_panic _ = None"

fun try_join :: "nat \<Rightarrow> 'e completion list \<Rightarrow> ('e stop + 'e completion list) option" where
  "try_join 0 cs = Some (Inr cs)"
| "try_join (Suc n) [] = None"
| "try_join (Suc n) (c # cs) =
     (case communication_panic c of
        Some p \<Rightarrow> Some (Inl (Node_Panicked p))
      | None \<Rightarrow>
     (case communication_result c of
        Some (Inr _) \<Rightarrow> try_join n cs
      | Some (Inl _) \<Rightarrow> Some (Inr cs)
      | None \<Rightarrow>
     (case try_join (Suc n) cs of
        Some (Inr rest) \<Rightarrow> Some (Inr (c # rest))
      | r \<Rightarrow> r)))"

definition select_single_node :: "'e completion list \<Rightarrow> 'e stop option" where
  "select_single_node cs =
     (case try_join 4 cs of
        None \<Rightarrow> None
      | Some (Inl s) \<Rightarrow> Some s
      | Some (Inr rest) \<Rightarrow>
          select_branch (filter (\<lambda>c. communication_result c = None \<and> communication_panic c = None) rest))"

section \<open>Set-up of the connections over Zenoh\<close>

text \<open>
  \<open>z_open\<close> opens a session, \<open>start_handler\<close> spawns the query handler and waits until it is ready.
\<close>

definition set_up_zenoh ::
    "('w \<Rightarrow> 'w \<times> ('e foreign_error + 'z)) \<Rightarrow> ('z \<Rightarrow> NodeId \<Rightarrow> 'w \<Rightarrow> 'w option) \<Rightarrow>
       ('z \<Rightarrow> NodeId \<Rightarrow> 'w \<Rightarrow> 'w \<times> ('e foreign_error + string option)) \<Rightarrow> (string \<Rightarrow> nat option) \<Rightarrow>
       ('w \<Rightarrow> 'i \<times> 'w) \<Rightarrow> ('w \<Rightarrow> 'r \<times> 'w) \<Rightarrow> ('w \<Rightarrow> 'c \<times> 'w) \<Rightarrow>
       ('addr, 'c, 'i, 'r, 'run, 'hook, 'ty) Node \<Rightarrow> 'w \<Rightarrow>
       ((('z, 'c) ZenohControlSender list \<times> ('z, 'c) ZenohControlReceiver list) \<times>
        (('z, 'i, 'c) ZenohDataSender list \<times> ('z, 'r, 'p, 'c) ZenohDataReceiver list) \<times>
        ('addr, 'c, 'i, 'r, 'run, 'hook, 'ty) Node \<times> 'w) option" where
  "set_up_zenoh z_open start_handler query parse_usize mk_data mk_pushers mk_control self w =
     (case z_open w of
        (w, Inl _) \<Rightarrow> None
      | (w, Inr session) \<Rightarrow>
     (case start_handler session (node_id self) w of
        None \<Rightarrow> None
      | Some w \<Rightarrow>
     (case wait_zenoh_nodes_discovered (query session) parse_usize (num_nodes self) (node_id self) w of
        None \<Rightarrow> None
      | Some (w, Inl _) \<Rightarrow> None
      | Some (w, Inr _) \<Rightarrow>
     (case get_control_streams mk_control session (get_nodes_ids (num_nodes self) (node_id self)) self w of
        (control_tasks, self, w) \<Rightarrow>
     (case get_data_streams mk_data mk_pushers mk_control session (get_nodes_ids (num_nodes self) (node_id self)) self w of
        (data_tasks, self, w) \<Rightarrow> Some (control_tasks, data_tasks, self, w))))))"

section \<open>Running a node\<close>

text \<open>The part of a node that its tasks use, and the channel for the request to shut down.\<close>

record ('addr, 'c, 'i, 'r, 'run, 'hook, 'ty, 's) node_process =
  np_node :: "('addr, 'c, 'i, 'r, 'run, 'hook, 'ty) Node"
  np_shutdown_tx :: 's
  np_shutdown_rx :: "'s option"

definition node_process_new ::
    "('w \<Rightarrow> 'c \<times> 'w) \<Rightarrow> ('w \<Rightarrow> 's \<times> 'w) \<Rightarrow> 'addr Configuration \<Rightarrow> 'w \<Rightarrow>
       ('addr, 'c, 'i, 'r, 'run, 'hook, 'ty, 's) node_process \<times> 'w" where
  "node_process_new mk_control mk_shutdown cfg w =
     (case mk_shutdown w of (s, w) \<Rightarrow>
        (case node_new mk_control cfg w of (node, w) \<Rightarrow>
           (\<lparr> np_node = node, np_shutdown_tx = s, np_shutdown_rx = Some s \<rparr>, w)))"

text \<open>\<open>connect\<close> is \<open>set_up_connections\<close> or \<open>set_up_zenoh\<close>, depending on the transport the program is built for;
  \<open>runtime\<close> runs the tasks, \<^verbatim>\<open>run_operators\<close> among them, and returns their completions.\<close>

definition async_run ::
    "(('addr, 'c, 'i, 'r, 'run, 'hook, 'ty) Node \<Rightarrow> 'w \<Rightarrow>
        ('ctl \<times> 'data \<times> ('addr, 'c, 'i, 'r, 'run, 'hook, 'ty) Node \<times> 'w) option) \<Rightarrow>
       ('ctl \<Rightarrow> 'data \<Rightarrow> 's \<Rightarrow> ('addr, 'c, 'i, 'r, 'run, 'hook, 'ty) Node \<Rightarrow> 'w \<Rightarrow>
        'e completion list \<times> ('addr, 'c, 'i, 'r, 'run, 'hook, 'ty) Node \<times> 'w) \<Rightarrow>
       ('addr, 'c, 'i, 'r, 'run, 'hook, 'ty, 's) node_process \<Rightarrow> 'w \<Rightarrow>
       (('addr, 'c, 'i, 'r, 'run, 'hook, 'ty, 's) node_process \<times> 'w \<times> 'e stop) option" where
  "async_run connect runtime self w =
     (let nodes = num_nodes (np_node self)
      in (case connect (np_node self) w of
            None \<Rightarrow> None
          | Some (control_tasks, data_tasks, node, w) \<Rightarrow>
              (case np_shutdown_rx self of
                 None \<Rightarrow> None
               | Some rx \<Rightarrow>
                   (case runtime control_tasks data_tasks rx node w of
                      (completions, node, w) \<Rightarrow>
                        map_option (Pair (self \<lparr> np_node := node, np_shutdown_rx := None \<rparr>) \<circ> Pair w)
                          (if nodes \<le> 1 then select_single_node completions else select_branch completions)))))"

text \<open>The default graph is used unless the graph is set.\<close>

definition run_node ::
    "(('addr, 'c, 'i, 'r, 'run, 'hook, 'ty) Node \<Rightarrow> 'w \<Rightarrow>
        ('ctl \<times> 'data \<times> ('addr, 'c, 'i, 'r, 'run, 'hook, 'ty) Node \<times> 'w) option) \<Rightarrow>
       ('ctl \<Rightarrow> 'data \<Rightarrow> 's \<Rightarrow> ('addr, 'c, 'i, 'r, 'run, 'hook, 'ty) Node \<Rightarrow> 'w \<Rightarrow>
        'e completion list \<times> ('addr, 'c, 'i, 'r, 'run, 'hook, 'ty) Node \<times> 'w) \<Rightarrow> ('run, 'hook, 'ty) Graph \<Rightarrow>
       ('addr, 'c, 'i, 'r, 'run, 'hook, 'ty, 's) node_process \<Rightarrow> 'w \<Rightarrow>
       (('addr, 'c, 'i, 'r, 'run, 'hook, 'ty, 's) node_process \<times> 'w \<times> 'e stop) option" where
  "run_node connect runtime default_graph self w =
     async_run connect runtime
       (if dataflow_graph (np_node self) = None
        then self \<lparr> np_node := (np_node self) \<lparr> dataflow_graph := Some default_graph \<rparr> \<rparr> else self) w"

text \<open>
  \<^verbatim>\<open>run_async\<close> spawns a thread that runs the node and waits on the condition variable until the node is
  initialized; \<open>started\<close> reads the flag that the threads share, and \<open>env\<close> is what the rest of the program does
  during one wait.
\<close>

partial_function (option) wait_started :: "('w \<Rightarrow> bool) \<Rightarrow> ('w \<Rightarrow> 'w) \<Rightarrow> 'w \<Rightarrow> 'w option" where
  "wait_started started env w = (if started w then Some w else wait_started started env (env w))"

declare wait_started.simps [code]

record ('t, 's) NodeHandle =
  thread_handle :: 't
  shutdown_tx :: 's

definition run_async ::
    "(('addr, 'c, 'i, 'r, 'run, 'hook, 'ty, 's) node_process \<Rightarrow> 'w \<Rightarrow> 't \<times> 'w) \<Rightarrow> ('w \<Rightarrow> bool) \<Rightarrow> ('w \<Rightarrow> 'w) \<Rightarrow>
       ('run, 'hook, 'ty) Graph \<Rightarrow> ('addr, 'c, 'i, 'r, 'run, 'hook, 'ty, 's) node_process \<Rightarrow> 'w \<Rightarrow>
       (('t, 's) NodeHandle \<times> 'w) option" where
  "run_async spawn_run started env default_graph self w =
     (case spawn_run (self \<lparr> np_node := (np_node self) \<lparr> dataflow_graph := Some default_graph \<rparr> \<rparr>) w of
        (handle, w) \<Rightarrow>
          map_option (Pair \<lparr> thread_handle = handle, shutdown_tx = np_shutdown_tx self \<rparr>) (wait_started started env w))"

text \<open>\<open>join_thread\<close> waits for a thread; \<open>fmt\<close> formats the value it panicked with.\<close>

definition handle_join ::
    "('t \<Rightarrow> 'w \<Rightarrow> ('w \<times> ('x + unit)) option) \<Rightarrow> ('x \<Rightarrow> string) \<Rightarrow> ('t, 's) NodeHandle \<Rightarrow> 'w \<Rightarrow> ('w \<times> (string + unit)) option" where
  "handle_join join_thread fmt self w = map_option (\<lambda>(w, r). (w, map_err fmt r)) (join_thread (thread_handle self) w)"

definition handle_shutdown ::
    "('s \<Rightarrow> 'w \<Rightarrow> 'w \<times> ('x2 + unit)) \<Rightarrow> ('t \<Rightarrow> 'w \<Rightarrow> ('w \<times> ('x + unit)) option) \<Rightarrow> ('x \<Rightarrow> string) \<Rightarrow> ('t, 's) NodeHandle \<Rightarrow>
       'w \<Rightarrow> ('w \<times> (string + unit)) option" where
  "handle_shutdown try_send join_thread fmt self w =
     (case try_send (shutdown_tx self) w of (w, _) \<Rightarrow>
        map_option (\<lambda>(w, r). (w, map_err fmt r)) (join_thread (thread_handle self) w))"

section \<open>Why a node stops\<close>








text \<open>The driver waits for exactly as long as the node is not initialized.\<close>

lemma wait_started_returns:
  "(\<And>i. i < k \<Longrightarrow> \<not> started ((env ^^ i) w)) \<Longrightarrow> started ((env ^^ k) w) \<Longrightarrow> wait_started started env w = Some ((env ^^ k) w)"
proof (induction k arbitrary: w)
  case 0
  then show ?case by (simp add: wait_started.simps)
next
  case (Suc k)
  have "\<not> started w" using Suc.prems(1)[of 0] by simp
  moreover have "wait_started started env (env w) = Some ((env ^^ k) (env w))"
    using Suc.prems(2) Suc.prems(1)[of "Suc i" for i] by (intro Suc.IH) (auto simp: funpow_swap1)
  ultimately show ?case by (subst wait_started.simps) (simp add: funpow_swap1)
qed

lemma wait_started_sound: "wait_started started env w = Some w' \<Longrightarrow> \<exists>i. w' = (env ^^ i) w \<and> started w'"
proof (rule wait_started.raw_induct[where P = "\<lambda>started env w w'. \<exists>i. w' = (env ^^ i) w \<and> started w'", rotated])
  fix rec :: "('a \<Rightarrow> bool) \<Rightarrow> ('a \<Rightarrow> 'a) \<Rightarrow> 'a \<Rightarrow> 'a option" and started env w w'
  assume IH: "\<And>started env w w'. rec started env w = Some w' \<Longrightarrow> \<exists>i. w' = (env ^^ i) w \<and> started w'"
    and body: "(if started w then Some w else rec started env (env w)) = Some w'"
  show "\<exists>i. w' = (env ^^ i) w \<and> started w'"
  proof (cases "started w")
    case True
    with body show ?thesis by (auto intro!: exI[of _ 0])
  next
    case False
    with body have "rec started env (env w) = Some w'" by simp
    from IH[OF this] obtain i where "w' = (env ^^ i) (env w)" "started w'" by blast
    then show ?thesis by (auto intro!: exI[of _ "Suc i"] simp: funpow_swap1)
  qed
qed

lemma run_async_returns_iff:
  "run_async spawn_run started env g self w \<noteq> None \<longleftrightarrow>
     (\<exists>i. started ((env ^^ i) (snd (spawn_run (self \<lparr> np_node := (np_node self) \<lparr> dataflow_graph := Some g \<rparr> \<rparr>) w))))"
    (is "_ \<longleftrightarrow> (\<exists>i. ?P i)")
proof
  assume "run_async spawn_run started env g self w \<noteq> None"
  then show "\<exists>i. ?P i" using wait_started_sound by (fastforce simp: run_async_def split: prod.splits)
next
  assume "\<exists>i. ?P i"
  then have "?P (LEAST i. ?P i)" "\<And>i. i < (LEAST i. ?P i) \<Longrightarrow> \<not> ?P i" by (auto intro: LeastI_ex dest: not_less_Least)
  from wait_started_returns[where started = started and env = env, OF this(2,1)] show "run_async spawn_run started env g self w \<noteq> None"
    by (simp add: run_async_def case_prod_unfold)
qed

text \<open>A node runs once: the channel for the request to shut down is taken by the first run.\<close>

lemma node_runs_once:
  "async_run connect runtime self w = Some (self', w', s) \<Longrightarrow> async_run connect2 runtime2 self' w2 = None"
  by (auto simp: async_run_def Let_def split: option.splits prod.splits if_splits)

text \<open>A node whose set-up fails is never marked as initialized.\<close>

lemma failed_set_up_not_initialized:
  "set_up_operators P self w = Some (w', Inl e) \<Longrightarrow>
     run_operators P self w = Some ((w', self), Inl e)"
  by (simp add: run_operators_def)

section \<open>Properties\<close>



end
