(* ===== verification/Default_Graph.thy ===== *)
theory Default_Graph
  imports Connect_Properties Zenoh_Tasks
begin

text \<open>
  The graph that a driver program builds without naming it, \<^verbatim>\<open>src/src/dataflow/graph/default_graph.rs\<close>, with
  \<^verbatim>\<open>reset\<close> of \<^verbatim>\<open>src/src/lib.rs\<close>, and the export of graphs, \<^verbatim>\<open>to_dot\<close> of
  \<^verbatim>\<open>src/src/dataflow/graph/graph.rs\<close>.

  The graph and the generator of identifiers are variables of a thread, kept in one record. The operations of
  the other theories get them as arguments; the functions here are the ones they are called through.
\<close>

section \<open>The variables of a thread\<close>

record ('g, 'run, 'hook, 'ty) thread_locals =
  tl_rng :: 'g
  tl_graph :: "('run, 'hook, 'ty) Graph"

definition thread_start :: "'g id_source \<Rightarrow> ('g, 'run, 'hook, 'ty) thread_locals" where
  "thread_start I = \<lparr> tl_rng = initial_rng I, tl_graph = graph_new \<rparr>"

definition default_add_operator ::
    "OperatorId \<Rightarrow> string option \<Rightarrow> NodeId \<Rightarrow> StreamId list \<Rightarrow> StreamId list \<Rightarrow> 'run \<Rightarrow>
       ('g, 'run, 'hook, 'ty) thread_locals \<Rightarrow> ('g, 'run, 'hook, 'ty) thread_locals" where
  "default_add_operator i name node rids wids run tls =
     tls \<lparr> tl_graph := add_operator i name node rids wids run (tl_graph tls) \<rparr>"

definition default_add_operator_stream ::
    "'ty \<Rightarrow> OperatorId \<Rightarrow> ('h, 'i) WriteStream \<Rightarrow> ('g, 'run, 'hook, 'ty) thread_locals \<Rightarrow> ('g, 'run, 'hook, 'ty) thread_locals" where
  "default_add_operator_stream ty i ws tls = tls \<lparr> tl_graph := add_operator_stream ty i (ws_id ws) (tl_graph tls) \<rparr>"

definition default_add_ingest_stream ::
    "'ty \<Rightarrow> ('st, 'h, 'i) IngestStream \<Rightarrow> 'hook \<Rightarrow> ('g, 'run, 'hook, 'ty) thread_locals \<Rightarrow> ('g, 'run, 'hook, 'ty) thread_locals" where
  "default_add_ingest_stream ty s hook tls =
     tls \<lparr> tl_graph := add_ingest_stream ty (in_id s) (in_node_id s) hook (tl_graph tls) \<rparr>"

definition default_add_extract_stream ::
    "('st, 'd, 'h, 'p) ExtractStream \<Rightarrow> 'hook \<Rightarrow> ('g, 'run, 'hook, 'ty) thread_locals \<Rightarrow> ('g, 'run, 'hook, 'ty) thread_locals" where
  "default_add_extract_stream s hook tls =
     tls \<lparr> tl_graph := add_extract_stream (ex_id s) (ex_node_id s) hook (tl_graph tls) \<rparr>"

definition default_add_loop_stream ::
    "'ty \<Rightarrow> LoopStream \<Rightarrow> ('g, 'run, 'hook, 'ty) thread_locals \<Rightarrow> ('g, 'run, 'hook, 'ty) thread_locals" where
  "default_add_loop_stream ty s tls = tls \<lparr> tl_graph := add_loop_stream ty (lo_id s) (tl_graph tls) \<rparr>"

definition default_add_stream_alias ::
    "(StreamId \<Rightarrow> string) \<Rightarrow> StreamId \<Rightarrow> StreamId \<Rightarrow> ('g, 'run, 'hook, 'ty) thread_locals \<Rightarrow>
       (('g, 'run, 'hook, 'ty) thread_locals \<times> (string + unit)) option" where
  "default_add_stream_alias display from_id to_id tls =
     map_option (\<lambda>(graph, r). (tls \<lparr> tl_graph := graph \<rparr>, r)) (add_stream_alias display from_id to_id (tl_graph tls))"

definition default_clone :: "('g, 'run, 'hook, 'ty) thread_locals \<Rightarrow> ('run, 'hook, 'ty) Graph" where
  "default_clone tls = tl_graph tls"

definition default_set ::
    "('run, 'hook, 'ty) Graph \<Rightarrow> ('g, 'run, 'hook, 'ty) thread_locals \<Rightarrow> ('run, 'hook, 'ty) Graph \<times> ('g, 'run, 'hook, 'ty) thread_locals" where
  "default_set graph tls = (tl_graph tls, tls \<lparr> tl_graph := graph \<rparr>)"

definition reset :: "'g id_source \<Rightarrow> ('g, 'run, 'hook, 'ty) thread_locals \<Rightarrow> ('g, 'run, 'hook, 'ty) thread_locals" where
  "reset I tls = (let tls = tls \<lparr> tl_rng := from_seed I [1913, 03, 26] \<rparr> in snd (default_set graph_new tls))"

text \<open>A reset forgets everything: the program that follows draws the identifiers and builds the graph of a new thread.\<close>

lemma reset_forgets: "reset I tls = thread_start I"
  by (simp add: reset_def default_set_def thread_start_def initial_rng_def Let_def)

lemma default_set_restores: "default_set g tls = (old, tls') \<Longrightarrow> default_clone tls' = g \<and> snd (default_set old tls') = tls"
  by (auto simp: default_set_def default_clone_def)

section \<open>Export as DOT\<close>

definition dquote :: string where
  "dquote = [CHR 0x22]"

definition quoted :: "string \<Rightarrow> string" where
  "quoted s = dquote @ s @ dquote"

fun vertex_name :: "(Uuid \<Rightarrow> string) \<Rightarrow> Vertex \<Rightarrow> string" where
  "vertex_name display (Vertex_Driver n) = display_usize n"
| "vertex_name display (Vertex_Operator i) = display i"

definition dot_driver :: "'hook DriverMetadata \<Rightarrow> string" where
  "dot_driver d =
     ''   '' @ quoted (display_usize (drv_id d)) @ '' [label='' @ quoted (''Driver ('' @ display_usize (drv_id d) @ '')'') @ ''];''"

definition dot_operator :: "(Uuid \<Rightarrow> string) \<Rightarrow> 'run OperatorMetadata \<Rightarrow> string" where
  "dot_operator display oper =
     (let name = (case op_name oper of Some s \<Rightarrow> s | None \<Rightarrow> display (op_id oper))
      in ''   '' @ quoted (display (op_id oper)) @ '' [label='' @
           quoted (name @ [CHR 0x5C] @ ''n(Node '' @ display_usize (op_node_id oper) @ '')'') @ ''];'')"

definition dot_edge :: "(Uuid \<Rightarrow> string) \<Rightarrow> Vertex \<Rightarrow> Vertex \<Rightarrow> StreamId \<Rightarrow> string" where
  "dot_edge display source sink sid =
     ''   '' @ quoted (vertex_name display source) @ '' -> '' @ quoted (vertex_name display sink) @ '' [label='' @
       quoted (display sid) @ ''];''"

definition dot_edges :: "(Uuid \<Rightarrow> string) \<Rightarrow> ('run, 'hook, 'ty) Graph \<Rightarrow> string list" where
  "dot_edges display self =
     concat (map (\<lambda>(_, sm). map (\<lambda>c. dot_edge display (sm_source sm) (cm_sink (channel_metadata c)) (sm_id sm)) (sm_channels sm))
       (streams self))"

definition dot_lines :: "(Uuid \<Rightarrow> string) \<Rightarrow> ('run, 'hook, 'ty) Graph \<Rightarrow> string list" where
  "dot_lines display self =
     [''digraph erdos_dataflow {'', ''   // Declare driver''] @ map (dot_driver \<circ> snd) (drivers self) @
     [''   // Declare operators''] @ map (dot_operator display \<circ> snd) (operators self) @
     [''   // Declare channels''] @ dot_edges display self @ [''}'']"

text \<open>Files; \<^verbatim>\<open>writeln!\<close> ends a line, and the first error ends the export.\<close>

record ('w, 'f, 'e) files =
  create_file :: "string \<Rightarrow> 'w \<Rightarrow> 'w \<times> ('e + 'f)"
  write_str :: "'f \<Rightarrow> string \<Rightarrow> 'w \<Rightarrow> 'w \<times> ('e + unit)"
  flush_file :: "'f \<Rightarrow> 'w \<Rightarrow> 'w \<times> ('e + unit)"

fun write_lines :: "('w, 'f, 'e) files \<Rightarrow> 'f \<Rightarrow> string list \<Rightarrow> 'w \<Rightarrow> 'w \<times> ('e + unit)" where
  "write_lines F file [] w = (w, Inr ())"
| "write_lines F file (l # ls) w =
     (case write_str F file (l @ [CHR 0x0A]) w of
        (w, Inl e) \<Rightarrow> (w, Inl e)
      | (w, Inr _) \<Rightarrow> write_lines F file ls w)"

definition graph_to_dot ::
    "('w, 'f, 'e) files \<Rightarrow> (Uuid \<Rightarrow> string) \<Rightarrow> ('run, 'hook, 'ty) Graph \<Rightarrow> string \<Rightarrow> 'w \<Rightarrow> 'w \<times> ('e + unit)" where
  "graph_to_dot F display self filename w =
     (case create_file F filename w of
        (w, Inl e) \<Rightarrow> (w, Inl e)
      | (w, Inr file) \<Rightarrow>
          (case write_lines F file (dot_lines display self) w of
             (w, Inl e) \<Rightarrow> (w, Inl e)
           | (w, Inr _) \<Rightarrow> flush_file F file w))"

text \<open>The file has one edge for every time that a vertex reads a stream.\<close>

lemma dot_edges_readers:
  assumes "graph_built disp g"
  shows "mset (dot_edges display g) =
    sum_list (map (\<lambda>(sid, sm). image_mset (\<lambda>v. dot_edge display (sm_source sm) v sid) (readers g sid)) (streams g))"
proof -
  have inv: "graph_inv g" by (rule graph_built_inv[OF assms])
  have "mset (map (\<lambda>c. dot_edge display (sm_source sm) (cm_sink (channel_metadata c)) (sm_id sm)) (sm_channels sm)) =
      image_mset (\<lambda>v. dot_edge display (sm_source sm) v sid) (readers g sid)" if "(sid, sm) \<in> set (streams g)" for sid sm
  proof -
    from that inv have "map_of (streams g) sid = Some sm" by (auto simp: graph_inv_def well_keyed_def)
    with inv have "sm_id sm = sid" "readers g sid = mset (sinks sm)" by (auto simp: graph_inv_def stream_ok_def)
    then show ?thesis by (simp add: sinks_def image_mset.compositionality comp_def)
  qed
  then show ?thesis
    by (auto simp: dot_edges_def mset_concat intro!: arg_cong[where f = sum_list] map_cong split: prod.split)
qed

text \<open>A file to which all writes succeed holds the lines in order.\<close>

definition ref_files :: "(string \<times> string, unit, 'e) files" where
  "ref_files = \<lparr> create_file = (\<lambda>name w. ((name, []), Inr ())), write_str = (\<lambda>_ s (name, content). ((name, content @ s), Inr ())),
     flush_file = (\<lambda>_ w. (w, Inr ())) \<rparr>"

lemma ref_files_calls:
  "create_file ref_files filename w = ((filename, []), Inr ())" "flush_file ref_files f w = (w, Inr ())"
  by (simp_all add: ref_files_def)

lemma ref_write_lines: "write_lines ref_files f ls (name, content) = ((name, content @ concat (map (\<lambda>l. l @ [CHR 0x0A]) ls)), Inr ())"
  by (induction ls arbitrary: content) (simp_all add: ref_files_def)

lemma graph_to_dot_writes:
  "graph_to_dot ref_files display g filename w = ((filename, concat (map (\<lambda>l. l @ [CHR 0x0A]) (dot_lines display g))), Inr ())"
  by (simp add: graph_to_dot_def ref_write_lines ref_files_calls)

end
