(* ===== verification/Python_Streams.thy ===== *)
theory Python_Streams
  imports Driver_Streams
begin

text \<open>
  Messages and streams as Python sees them: \<^verbatim>\<open>src/src/python/py_message.rs\<close> and
  \<^verbatim>\<open>src/src/python/py_stream/\<close>.

  The classes wrap messages and streams of bytes, and turn errors into exceptions. The bindings to Python are a
  library, of which the code uses the construction of exceptions, the call of a Python object and the printing
  of an exception; the last two are parameters on the store \<open>'st\<close>. A value \<open>None\<close> is a panic or a call that never returns.
\<close>

section \<open>Exceptions\<close>

datatype py_exception =
    ValueError | TypeError | PyException
  | ReadStreamError_SerializationError | ReadStreamError_Disconnected | ReadStreamError_Closed
  | WriteStreamError_TimestampError | WriteStreamError_ClosedError | WriteStreamError_IOError
  | WriteStreamError_SerializationError

text \<open>An exception that the bridge makes, or one that Python code raises.\<close>

datatype 'x py_err = PyErr py_exception string | Raised 'x

text \<open>The derived \<^verbatim>\<open>Debug\<close> of the errors of streams.\<close>

fun read_error_debug :: "ReadError \<Rightarrow> string" where
  "read_error_debug Read_SerializationError = ''SerializationError''"
| "read_error_debug Read_Disconnected = ''Disconnected''"
| "read_error_debug Read_Closed = ''Closed''"

fun try_read_error_debug :: "TryReadError \<Rightarrow> string" where
  "try_read_error_debug TryRead_Empty = ''Empty''"
| "try_read_error_debug TryRead_Disconnected = ''Disconnected''"
| "try_read_error_debug TryRead_SerializationError = ''SerializationError''"
| "try_read_error_debug TryRead_Closed = ''Closed''"

fun write_error_debug :: "WriteStreamError \<Rightarrow> string" where
  "write_error_debug Write_SerializationError = ''SerializationError''"
| "write_error_debug Write_IOError = ''IOError''"
| "write_error_debug TimestampError = ''TimestampError''"
| "write_error_debug Write_Closed = ''Closed''"

section \<open>Messages\<close>

datatype PyMessage = PyMessage (py_msg: "u8 list Message")

definition py_message_new :: "u64 list option \<Rightarrow> bool \<Rightarrow> u8 list option \<Rightarrow> ('x py_err + PyMessage) option" where
  "py_message_new timestamp_coordinates is_top data =
     (if timestamp_coordinates = None \<and> data \<noteq> None
      then Some (Inl (PyErr ValueError
             ''Passing a non-None value to data when timestamp_coordinates=None is not allowed''))
      else map_option (Inr \<circ> PyMessage)
             (if is_top then Some (new_watermark ts_top)
              else (case (timestamp_coordinates, data) of
                      (Some t, Some d) \<Rightarrow> Some (new_message (ts_new t) d)
                    | (Some t, None) \<Rightarrow> Some (new_watermark (ts_new t))
                    | _ \<Rightarrow> None)))"

fun py_message_data :: "PyMessage \<Rightarrow> u8 list option" where
  "py_message_data (PyMessage (TimestampedData d)) = Some (td_data d)"
| "py_message_data (PyMessage (Watermark _)) = None"

fun py_message_timestamp :: "PyMessage \<Rightarrow> u64 list option" where
  "py_message_timestamp (PyMessage (TimestampedData d)) = Some (ts_time (td_timestamp d))"
| "py_message_timestamp (PyMessage (Watermark t)) = Some (ts_time t)"

fun py_message_is_timestamped_data :: "PyMessage \<Rightarrow> bool" where
  "py_message_is_timestamped_data (PyMessage (TimestampedData _)) = True"
| "py_message_is_timestamped_data (PyMessage (Watermark _)) = False"

fun py_message_is_watermark :: "PyMessage \<Rightarrow> bool" where
  "py_message_is_watermark (PyMessage (Watermark _)) = True"
| "py_message_is_watermark (PyMessage (TimestampedData _)) = False"

definition py_message_is_top_watermark :: "PyMessage \<Rightarrow> bool" where
  "py_message_is_top_watermark self = is_top_watermark (py_msg self)"

section \<open>Write streams\<close>

datatype ('h, 'i) PyWriteStream = PyWriteStream (py_write_stream: "('h, 'i) WriteStream")

definition py_write_new :: "'g id_source \<Rightarrow> 'g \<Rightarrow> ('h, 'i) PyWriteStream \<times> 'g" where
  "py_write_new I rng = apfst PyWriteStream (ws_new I rng)"

definition py_write_is_closed :: "('h, 'i) PyWriteStream \<Rightarrow> bool" where
  "py_write_is_closed self = ws_is_closed (py_write_stream self)"

fun py_write_error :: "WriteStreamError \<Rightarrow> py_exception" where
  "py_write_error TimestampError = WriteStreamError_TimestampError"
| "py_write_error Write_Closed = WriteStreamError_ClosedError"
| "py_write_error Write_IOError = WriteStreamError_IOError"
| "py_write_error Write_SerializationError = WriteStreamError_SerializationError"

definition py_write_send ::
    "'g id_source \<Rightarrow> ('w, 'h, 'i, u8 list Message, 'e) net \<Rightarrow> PyMessage \<Rightarrow> ('h, 'i) PyWriteStream \<Rightarrow> 'w \<Rightarrow>
       ('w \<times> ('h, 'i) PyWriteStream) \<times> ('x py_err + unit)" where
  "py_write_send I N msg self w =
     (case ws_send N (py_msg msg) (py_write_stream self) w of ((w, ws), r) \<Rightarrow>
        ((w, PyWriteStream ws),
         map_err (\<lambda>e. PyErr (py_write_error e) (''Error sending message on '' @ uuid_display I (ws_id ws))) r))"

section \<open>Read streams\<close>

datatype ('st, 'h) PyReadStream = PyReadStream (py_read_stream: "('st, u8 list, 'h) ReadStream")

definition py_read_new ::
    "'g id_source \<Rightarrow> (('st, u8 list, 'h) InternalReadStream \<Rightarrow> 'st \<Rightarrow> ('st, u8 list, 'h) ReadStream \<times> 'st) \<Rightarrow> string option \<Rightarrow>
       'g \<times> 'st \<Rightarrow> ('st, 'h) PyReadStream \<times> 'g \<times> 'st" where
  "py_read_new I alloc name gst =
     apfst PyReadStream (case name of Some s \<Rightarrow> rs_new_with_name I alloc s gst | None \<Rightarrow> rs_new I alloc gst)"

definition py_read_is_closed :: "('st, 'h) PyReadStream \<Rightarrow> 'st \<Rightarrow> bool" where
  "py_read_is_closed self st = rs_is_closed (py_read_stream self) st"

definition read_error_str :: "'g id_source \<Rightarrow> ('st, 'h) PyReadStream \<Rightarrow> 'st \<Rightarrow> string" where
  "read_error_str I self st =
     (let s = rc_get (py_read_stream self) st
      in ''Error reading from '' @ irs_name s @ '' (ID: '' @ uuid_display I (irs_id s) @ '')'')"

fun py_read_error :: "ReadError \<Rightarrow> py_exception" where
  "py_read_error Read_SerializationError = ReadStreamError_SerializationError"
| "py_read_error Read_Disconnected = ReadStreamError_Disconnected"
| "py_read_error Read_Closed = ReadStreamError_Closed"

definition py_read_read ::
    "'g id_source \<Rightarrow> ('w, 'h, 'i, u8 list Message, 'e) net \<Rightarrow> ('w \<Rightarrow> 'w) \<Rightarrow> ('st, 'h) PyReadStream \<Rightarrow> 'w \<times> 'st \<Rightarrow>
       (('w \<times> 'st) \<times> ('x py_err + PyMessage)) option" where
  "py_read_read I N env self wst =
     map_option
       (\<lambda>(wst, r). (wst, case r of
            Inr msg \<Rightarrow> Inr (PyMessage msg)
          | Inl e \<Rightarrow> Inl (PyErr (py_read_error e) (read_error_str I self (snd wst)))))
       (rs_read N env (py_read_stream self) wst)"

definition py_read_try_read ::
    "'g id_source \<Rightarrow> ('w, 'h, 'i, u8 list Message, 'e) net \<Rightarrow> ('st, 'h) PyReadStream \<Rightarrow> 'w \<times> 'st \<Rightarrow>
       ('w \<times> 'st) \<times> ('x py_err + PyMessage option)" where
  "py_read_try_read I N self wst =
     (case rs_try_read N (py_read_stream self) wst of (wst, r) \<Rightarrow>
        (wst, case r of
           Inr msg \<Rightarrow> Inr (Some (PyMessage msg))
         | Inl TryRead_SerializationError \<Rightarrow>
             Inl (PyErr ReadStreamError_SerializationError (read_error_str I self (snd wst)))
         | Inl TryRead_Disconnected \<Rightarrow> Inl (PyErr ReadStreamError_Disconnected (read_error_str I self (snd wst)))
         | Inl TryRead_Closed \<Rightarrow> Inl (PyErr ReadStreamError_Closed (read_error_str I self (snd wst)))
         | Inl TryRead_Empty \<Rightarrow> Inr None))"

text \<open>Call of a Python object: an exception is printed. \<open>print_err\<close> prints it.\<close>

definition call_print :: "('x \<Rightarrow> 'st \<Rightarrow> 'st) \<Rightarrow> ('st \<Rightarrow> 'st \<times> ('x + unit)) \<Rightarrow> 'st action" where
  "call_print print_err call st = (case call st of (st, Inr _) \<Rightarrow> Some st | (st, Inl e) \<Rightarrow> Some (print_err e st))"

definition py_read_add_callback ::
    "('x \<Rightarrow> 'st \<Rightarrow> 'st) \<Rightarrow> (u8 list \<Rightarrow> 'st \<Rightarrow> 'st \<times> ('x + unit)) \<Rightarrow> ('st, 'h) PyReadStream \<Rightarrow> 'st \<Rightarrow> 'st" where
  "py_read_add_callback print_err cb self =
     rs_add_callback (\<lambda>_ data. call_print print_err (cb data)) (py_read_stream self)"

definition py_read_add_watermark_callback ::
    "('x \<Rightarrow> 'st \<Rightarrow> 'st) \<Rightarrow> (u64 list \<times> bool \<Rightarrow> 'st \<Rightarrow> 'st \<times> ('x + unit)) \<Rightarrow> ('st, 'h) PyReadStream \<Rightarrow> 'st \<Rightarrow> 'st" where
  "py_read_add_watermark_callback print_err cb self =
     rs_add_watermark_callback (\<lambda>t. call_print print_err (cb (ts_time t, ts_is_top t))) (py_read_stream self)"

definition py_read_from_write ::
    "(('st, u8 list, 'h) InternalReadStream \<Rightarrow> 'st \<Rightarrow> ('st, u8 list, 'h) ReadStream \<times> 'st) \<Rightarrow> ('h, 'i) PyWriteStream \<Rightarrow>
       'st \<Rightarrow> ('st, 'h) PyReadStream \<times> 'st" where
  "py_read_from_write alloc s st = apfst PyReadStream (rs_from_write_stream alloc (py_write_stream s) st)"

section \<open>Streams of drivers\<close>

datatype ('st, 'h, 'i) PyIngestStream = PyIngestStream (py_ingest_stream: "('st, 'h, 'i) IngestStream")

definition py_ingest_new ::
    "'g id_source \<Rightarrow> (('h, 'i) WriteStream option \<Rightarrow> 'st \<Rightarrow> ('st, ('h, 'i) WriteStream option) rc \<times> 'st) \<Rightarrow> 'ty \<Rightarrow> NodeId \<Rightarrow>
       string option \<Rightarrow> 'g \<times> ('run, ('st, 'h, 'i, 'p, 'ty) setup_hook, 'ty) Graph \<times> 'st \<Rightarrow>
       ('st, 'h, 'i) PyIngestStream \<times> 'g \<times> ('run, ('st, 'h, 'i, 'p, 'ty) setup_hook, 'ty) Graph \<times> 'st" where
  "py_ingest_new I alloc ty node name s =
     apfst PyIngestStream
       (case name of Some n \<Rightarrow> ingest_new_with_name I alloc ty node n s | None \<Rightarrow> ingest_new I alloc ty node s)"

definition py_ingest_is_closed :: "('st, 'h, 'i) PyIngestStream \<Rightarrow> 'st \<Rightarrow> bool" where
  "py_ingest_is_closed self st = ingest_is_closed (py_ingest_stream self) st"

definition py_ingest_send ::
    "'g id_source \<Rightarrow> ('w, 'h, 'i, u8 list Message, 'e) net \<Rightarrow> ('w \<times> 'st \<Rightarrow> 'w \<times> 'st) \<Rightarrow> PyMessage \<Rightarrow> ('st, 'h, 'i) PyIngestStream \<Rightarrow>
       'w \<times> 'st \<Rightarrow> (('w \<times> 'st) \<times> ('x py_err + unit)) option" where
  "py_ingest_send I N env msg self wst =
     map_option
       (\<lambda>(wst, r). (wst, map_err
          (\<lambda>e. PyErr PyException (''Error sending message on ingest stream '' @ uuid_display I (in_id (py_ingest_stream self)) @
             '': '' @ write_error_debug e)) r))
       (ingest_send N env (py_ingest_stream self) (py_msg msg) wst)"

definition py_ingest_to_py_read_stream ::
    "(('st, u8 list, 'h) InternalReadStream \<Rightarrow> 'st \<Rightarrow> ('st, u8 list, 'h) ReadStream \<times> 'st) \<Rightarrow> ('st, 'h, 'i) PyIngestStream \<Rightarrow>
       'st \<Rightarrow> ('st, 'h) PyReadStream \<times> 'st" where
  "py_ingest_to_py_read_stream alloc self st = apfst PyReadStream (rs_from_ingest_stream alloc (py_ingest_stream self) st)"

datatype ('st, 'h, 'p) PyExtractStream = PyExtractStream (py_extract_stream: "('st, u8 list, 'h, 'p) ExtractStream")

definition py_extract_new ::
    "'g id_source \<Rightarrow> ('p option \<Rightarrow> 'st \<Rightarrow> ('st, 'p option) rc \<times> 'st) \<Rightarrow> ('st, 'h) PyReadStream \<Rightarrow> string option \<Rightarrow>
       ('run, ('st, 'h, 'i, 'p, 'ty) setup_hook, 'ty) Graph \<times> 'st \<Rightarrow>
       ('st, 'h, 'p) PyExtractStream \<times> ('run, ('st, 'h, 'i, 'p, 'ty) setup_hook, 'ty) Graph \<times> 'st" where
  "py_extract_new I alloc rs name s =
     apfst PyExtractStream
       (case name of Some n \<Rightarrow> extract_new_with_name I alloc 0 (py_read_stream rs) n s
        | None \<Rightarrow> extract_new I alloc 0 (py_read_stream rs) s)"

definition py_extract_is_closed :: "('st, 'h, 'p) PyExtractStream \<Rightarrow> 'st \<Rightarrow> bool" where
  "py_extract_is_closed self st = extract_is_closed (py_extract_stream self) st"

definition extract_error :: "'g id_source \<Rightarrow> ('st, 'h, 'p) PyExtractStream \<Rightarrow> string \<Rightarrow> 'x py_err" where
  "extract_error I self e =
     PyErr PyException (''Unable to to read from stream '' @ uuid_display I (ex_id (py_extract_stream self)) @ '': '' @ e)"

definition py_extract_read ::
    "('w, 'h, 'i, u8 list, 'e, 'st, 'p, 'run, 'hook, 'ty, 'g) extraction \<Rightarrow> ('w \<times> 'st \<Rightarrow> 'w \<times> 'st) \<Rightarrow> ('w \<Rightarrow> 'w) \<Rightarrow>
       ('st, 'h, 'p) PyExtractStream \<Rightarrow> 'w \<times> 'st \<Rightarrow>
       ((('w \<times> 'st) \<times> ('st, 'h, 'p) PyExtractStream) \<times> ('x py_err + PyMessage)) option" where
  "py_extract_read X env poll self wst =
     map_option
       (\<lambda>((wst, s), r). ((wst, PyExtractStream s), case r of
            Inr msg \<Rightarrow> Inr (PyMessage msg)
          | Inl e \<Rightarrow> Inl (extract_error (ext_ids X) (PyExtractStream s) (read_error_debug e))))
       (extract_read X env poll (py_extract_stream self) wst)"

definition py_extract_try_read ::
    "('w, 'h, 'i, u8 list, 'e, 'st, 'p, 'run, 'hook, 'ty, 'g) extraction \<Rightarrow> ('st, 'h, 'p) PyExtractStream \<Rightarrow> 'w \<times> 'st \<Rightarrow>
       (('w \<times> 'st) \<times> ('st, 'h, 'p) PyExtractStream) \<times> ('x py_err + PyMessage option)" where
  "py_extract_try_read X self wst =
     (case extract_try_read X (py_extract_stream self) wst of
        ((wst, s), r) \<Rightarrow> ((wst, PyExtractStream s), case r of
            Inr msg \<Rightarrow> Inr (Some (PyMessage msg))
          | Inl TryRead_Empty \<Rightarrow> Inr None
          | Inl e \<Rightarrow> Inl (extract_error (ext_ids X) (PyExtractStream s) (try_read_error_debug e))))"

datatype PyLoopStream = PyLoopStream (py_loop_stream: LoopStream)

definition py_loop_new :: "'g id_source \<Rightarrow> 'ty \<Rightarrow> 'g \<times> ('run, 'hook, 'ty) Graph \<Rightarrow> PyLoopStream \<times> 'g \<times> ('run, 'hook, 'ty) Graph" where
  "py_loop_new I ty s = apfst PyLoopStream (loop_new I ty s)"

definition py_loop_set ::
    "'g id_source \<Rightarrow> PyLoopStream \<Rightarrow> ('st, 'h) PyReadStream \<Rightarrow> 'st \<Rightarrow> ('run, 'hook, 'ty) Graph \<Rightarrow> ('run, 'hook, 'ty) Graph option" where
  "py_loop_set I self rs st graph = loop_set I (py_loop_stream self) (py_read_stream rs) st graph"

definition py_loop_to_py_read_stream ::
    "(('st, u8 list, 'h) InternalReadStream \<Rightarrow> 'st \<Rightarrow> ('st, u8 list, 'h) ReadStream \<times> 'st) \<Rightarrow> PyLoopStream \<Rightarrow>
       'st \<Rightarrow> ('st, 'h) PyReadStream \<times> 'st" where
  "py_loop_to_py_read_stream alloc self st = apfst PyReadStream (rs_from_loop_stream alloc (py_loop_stream self) st)"

end
