(* ===== verification/Python_Bridge.thy ===== *)
theory Python_Bridge
  imports Python_Streams Connect Node_Run
begin

text \<open>
  The module that Python imports: \<^verbatim>\<open>src/src/python/mod.rs\<close>.

  Python code is a parameter: \<^verbatim>\<open>connect\<close> and the constructor of an operator, its attributes and callbacks, as is the
  code that the build generates. All streams carry bytes, and \<open>ty\<close> is the type of bytes at
  run time. \<open>None\<close> is a panic.
\<close>

section \<open>Callbacks on watermarks\<close>

text \<open>Unlike the callback of Rust operators, the one for Python operators panics on an error.\<close>

fun flow_callback_py ::
    "('st, 'h, 'i, u8 list Message, 'e) net \<Rightarrow> Timestamp \<Rightarrow> ('h, 'i) WriteStream list \<Rightarrow> 'st \<Rightarrow> (('h, 'i) WriteStream list \<times> 'st) option" where
  "flow_callback_py N t [] st = Some ([], st)"
| "flow_callback_py N t (ws # wss) st =
     (case ws_send N (new_watermark t) ws st of
        (_, Inl _) \<Rightarrow> None
      | ((st, ws), Inr _) \<Rightarrow> map_option (\<lambda>(wss, st). (ws # wss, st)) (flow_callback_py N t wss st))"

text \<open>
  \<^verbatim>\<open>add_watermark_callback_vec\<close> of \<^verbatim>\<open>src/src/dataflow/mod.rs\<close>: every stream gets a state \<^verbatim>\<open>()\<close>; without read streams
  there is no bundle and so no callback. The rest, which bundles the streams and registers the callback, is generated.
\<close>

type_synonym ('st, 'h, 'i, 'g) generated_bundle =
  "('st, u8 list, unit) StatefulReadStream list \<Rightarrow> ('h, 'i) WriteStream list \<Rightarrow>
     (Timestamp \<Rightarrow> ('h, 'i) WriteStream list \<Rightarrow> 'st \<Rightarrow> (('h, 'i) WriteStream list \<times> 'st) option) \<Rightarrow> i8 \<Rightarrow> 'g \<times> 'st \<Rightarrow>
     ('g \<times> 'st) option"

definition add_watermark_callback_vec ::
    "('st, u8 list, 'h, 'i, 'e, 'g, 'run, 'hook, 'ty, 'c, 'lg, 'ld) operator_setting \<Rightarrow> ('st, 'h, 'i, 'g) generated_bundle \<Rightarrow>
       ('st, u8 list, 'h) ReadStream list \<Rightarrow> ('h, 'i) WriteStream list \<Rightarrow>
       (Timestamp \<Rightarrow> ('h, 'i) WriteStream list \<Rightarrow> 'st \<Rightarrow> (('h, 'i) WriteStream list \<times> 'st) option) \<Rightarrow> i8 \<Rightarrow> 'g \<times> 'st \<Rightarrow>
       ('g \<times> 'st) option" where
  "add_watermark_callback_vec S gen rss wss cb prio gst =
     (case add_unit_states S rss gst of (sfss, gst) \<Rightarrow>
        (if sfss = [] then Some gst else gen sfss wss cb prio gst))"

definition flow_watermarks_py ::
    "('st, u8 list, 'h, 'i, 'e, 'g, 'run, 'hook, 'ty, 'c, 'lg, 'ld) operator_setting \<Rightarrow> ('st, 'h, 'i, 'g) generated_bundle \<Rightarrow>
       ('st, 'h) PyReadStream list \<Rightarrow> ('h, 'i) PyWriteStream list \<Rightarrow> 'g \<times> 'st \<Rightarrow> ('g \<times> 'st) option" where
  "flow_watermarks_py S gen rss wss =
     add_watermark_callback_vec S gen (map py_read_stream rss) (map py_write_stream wss) (flow_callback_py (os_net S)) 127"

definition add_watermark_callback_py ::
    "('st, u8 list, 'h, 'i, 'e, 'g, 'run, 'hook, 'ty, 'c, 'lg, 'ld) operator_setting \<Rightarrow> ('st, 'h, 'i, 'g) generated_bundle \<Rightarrow>
       ('x \<Rightarrow> 'st \<Rightarrow> 'st) \<Rightarrow> ('st, 'h) PyReadStream list \<Rightarrow> ('h, 'i) PyWriteStream list \<Rightarrow>
       (PyMessage \<Rightarrow> 'st \<Rightarrow> 'st \<times> ('x + unit)) \<Rightarrow> i8 \<Rightarrow> 'g \<times> 'st \<Rightarrow> (('g \<times> 'st) \<times> ('x py_err + unit)) option" where
  "add_watermark_callback_py S gen print_err rss wss cb prio gst =
     (if length rss > 15
      then Some (gst, Inl (PyErr TypeError ''Unable to create watermark callback across more than fifteen read streams''))
      else if length wss > 8
      then Some (gst, Inl (PyErr TypeError ''Unable to create watermark callback across more than eight write streams''))
      else map_option (\<lambda>gst. (gst, Inr ()))
             (add_watermark_callback_vec S gen (map py_read_stream rss) (map py_write_stream wss)
                (\<lambda>t wss st. map_option (Pair wss) (call_print print_err (cb (PyMessage (new_watermark t))) st)) prio gst))"

section \<open>Operators\<close>

definition py_operator :: "('x \<Rightarrow> 'st \<Rightarrow> 'st) \<Rightarrow> ('obj \<Rightarrow> string \<Rightarrow> 'st \<Rightarrow> 'st \<times> ('x + unit)) \<Rightarrow> 'obj \<Rightarrow> 'st Operator" where
  "py_operator print_err call_method0 obj =
     \<lparr> op_run = call_print print_err (call_method0 obj ''run''),
       op_destroy = call_print print_err (call_method0 obj ''destroy'') \<rparr>"

text \<open>What the closure that the graph keeps for an operator captures; \<open>'o\<close> are its class, configuration and arguments.\<close>

record 'o py_runner =
  pr_objects :: 'o
  pr_id :: OperatorId
  pr_name :: "string option"
  pr_flow_watermarks :: bool
  pr_node_id :: NodeId
  pr_reads :: "StreamId list"
  pr_writes :: "StreamId list"

fun py_set_up_reads ::
    "('st, u8 list, 'h, 'i, 'e, 'g, 'run, 'hook, 'ty, 'c, 'lg, 'ld) operator_setting \<Rightarrow> 'ty \<Rightarrow> StreamId list \<Rightarrow> 'st \<Rightarrow>
       (('st, 'h) PyReadStream list \<times> 'st) option" where
  "py_set_up_reads S ty [] st = Some ([], st)"
| "py_set_up_reads S ty (sid # sids) st =
     (case take_recv_endpoint (uuid_display (os_ids S)) ty sid (rc_get (os_manager S) st) of
        (_, Inl _) \<Rightarrow> None
      | (cm, Inr endpoint) \<Rightarrow>
          (case rs_from_internal (os_alloc_stream S) (irs_from_endpoint (os_ids S) endpoint sid) (rc_put (os_manager S) cm st) of
             (rs, st) \<Rightarrow> map_option (\<lambda>(rss, st). (PyReadStream rs # rss, st)) (py_set_up_reads S ty sids st)))"

definition py_set_up_writes ::
    "('st, u8 list, 'h, 'i, 'e, 'g, 'run, 'hook, 'ty, 'c, 'lg, 'ld) operator_setting \<Rightarrow> 'ty \<Rightarrow> StreamId list \<Rightarrow> 'st \<Rightarrow>
       (('h, 'i) PyWriteStream list \<times> 'st) option" where
  "py_set_up_writes S ty sids st = map_option (apfst (map PyWriteStream)) (set_up_writes S (map (\<lambda>sid. (sid, ty)) sids) st)"

fun py_executor_streams ::
    "('st, u8 list, 'h, 'i, 'e, 'g, 'run, 'hook, 'ty, 'c, 'lg, 'ld) operator_setting \<Rightarrow> ('st, 'h) PyReadStream list \<Rightarrow> 'st \<Rightarrow>
       'st OperatorExecutorStreamT list \<times> 'st" where
  "py_executor_streams S [] st = ([], st)"
| "py_executor_streams S (rs # rss) st =
     (case oes_new (os_alloc_flag S) (py_read_stream rs) st of (oes, st) \<Rightarrow>
        (case os_alloc_box S oes st of (box, st) \<Rightarrow>
           (case py_executor_streams S rss st of (ss, st') \<Rightarrow> (oes_object (os_net S) box st # ss, st'))))"

text \<open>
  The body of the closure. \<open>py_init\<close> runs the Python code that makes the operator, given the streams, their identifiers
  and the identifier of the operator; it returns the exception, if one was raised, and the value of the variable
  \<^verbatim>\<open>operator\<close>, if it was assigned. The panic is that of \<^verbatim>\<open>unwrap\<close> when it was not. A notification that cannot be sent is only logged.
\<close>

definition py_operator_executor ::
    "('st, u8 list, 'h, 'i, 'e, 'g, 'run, 'hook, 'ty, 'c, 'lg, 'ld) operator_setting \<Rightarrow> ('st, 'h, 'i, 'g) generated_bundle \<Rightarrow>
       ('x \<Rightarrow> 'st \<Rightarrow> 'st) \<Rightarrow> ('obj \<Rightarrow> string \<Rightarrow> 'st \<Rightarrow> 'st \<times> ('x + unit)) \<Rightarrow>
       ('o \<Rightarrow> ('st, 'h) PyReadStream list \<Rightarrow> string list \<Rightarrow> ('h, 'i) PyWriteStream list \<Rightarrow> string list \<Rightarrow> string \<Rightarrow> 'g \<times> 'st \<Rightarrow>
          ('g \<times> 'st) \<times> ('x + unit) \<times> 'obj option) \<Rightarrow>
       'ty \<Rightarrow> 'o py_runner \<Rightarrow> 'c \<Rightarrow> 'c \<Rightarrow> 'g \<times> 'st \<Rightarrow> (('st, 'lg, 'c) OperatorExecutor \<times> 'g \<times> 'st) option" where
  "py_operator_executor S gen print_err call_method0 py_init ty r control_sender control_receiver = (\<lambda>(rng, st).
     case py_set_up_reads S ty (pr_reads r) st of
       None \<Rightarrow> None
     | Some (rss, st) \<Rightarrow>
    (case py_set_up_writes S ty (pr_writes r) st of
       None \<Rightarrow> None
     | Some (wss, st) \<Rightarrow>
    (case (if pr_flow_watermarks r then flow_watermarks_py S gen rss wss (rng, st) else Some (rng, st)) of
       None \<Rightarrow> None
     | Some (rng, st) \<Rightarrow>
    (case py_executor_streams S rss st of (op_ex_streams, st) \<Rightarrow>
    (case py_init (pr_objects r) rss (map (uuid_display (os_ids S)) (pr_reads r)) wss
            (map (uuid_display (os_ids S)) (pr_writes r)) (uuid_display (os_ids S) (pr_id r)) (rng, st) of
       ((rng, st), result, oper) \<Rightarrow>
         (let st = (case result of Inl e \<Rightarrow> print_err e st | Inr _ \<Rightarrow> st);
              st = fst (mpsc_send (os_control S) control_sender (OperatorInitialized (pr_id r)) st);
              config = config_new \<lparr> oc_name := pr_name r, oc_id := pr_id r, oc_flow_watermarks := pr_flow_watermarks r,
                oc_node_id := pr_node_id r \<rparr>
          in map_option
               (\<lambda>obj. (executor_new (os_lattice S) (py_operator print_err call_method0 obj) (config :: unit OperatorConfig)
                  op_ex_streams control_receiver st, rng, st))
               oper))))))"

section \<open>Connecting operators\<close>

text \<open>
  \<open>get_name\<close> and \<open>get_flow_watermarks\<close> read attributes of the configuration, \<open>op_connect\<close> calls \<^verbatim>\<open>connect\<close> of the
  operator and extracts the streams it returns. That is Python code, which may itself create streams and connect
  operators, and so change the graph.
\<close>

fun py_read_streams_from ::
    "(('st, u8 list, 'h) InternalReadStream \<Rightarrow> 'st \<Rightarrow> ('st, u8 list, 'h) ReadStream \<times> 'st) \<Rightarrow> ('h, 'i) PyWriteStream list \<Rightarrow> 'st \<Rightarrow>
       ('st, 'h) PyReadStream list \<times> 'st" where
  "py_read_streams_from alloc [] st = ([], st)"
| "py_read_streams_from alloc (ws # wss) st =
     (case py_read_from_write alloc ws st of (rs, st) \<Rightarrow>
        (case py_read_streams_from alloc wss st of (rss, st) \<Rightarrow> (rs # rss, st)))"

definition connect_py ::
    "'g id_source \<Rightarrow> (('st, u8 list, 'h) InternalReadStream \<Rightarrow> 'st \<Rightarrow> ('st, u8 list, 'h) ReadStream \<times> 'st) \<Rightarrow>
       ('o \<Rightarrow> 'st \<Rightarrow> 'x + string option) \<Rightarrow>
       ('o \<Rightarrow> ('st, 'h) PyReadStream list \<Rightarrow> 'g \<times> ('o py_runner, 'hook, 'ty) Graph \<times> 'st \<Rightarrow>
          ('x + ('h, 'i) PyWriteStream list) \<times> 'g \<times> ('o py_runner, 'hook, 'ty) Graph \<times> 'st) \<Rightarrow>
       ('o \<Rightarrow> 'st \<Rightarrow> 'x + bool) \<Rightarrow> 'ty \<Rightarrow> 'o \<Rightarrow> ('st, 'h) PyReadStream list \<Rightarrow> NodeId \<Rightarrow>
       'g \<times> ('o py_runner, 'hook, 'ty) Graph \<times> 'st \<Rightarrow>
       ('x py_err + ('st, 'h) PyReadStream list) \<times> 'g \<times> ('o py_runner, 'hook, 'ty) Graph \<times> 'st" where
  "connect_py I alloc get_name op_connect get_flow_watermarks ty objs rss node = (\<lambda>(rng, graph, st).
     case get_name objs st of
       Inl e \<Rightarrow> (Inl (Raised e), rng, graph, st)
     | Inr name \<Rightarrow>
    (case op_connect objs rss (rng, graph, st) of
       (Inl e, rng, graph, st) \<Rightarrow> (Inl (Raised e), rng, graph, st)
     | (Inr wss, rng, graph, st) \<Rightarrow>
    (case new_deterministic I rng of (i, rng) \<Rightarrow>
    (case get_flow_watermarks objs st of
       Inl e \<Rightarrow> (Inl (Raised e), rng, graph, st)
     | Inr flow \<Rightarrow>
         (let reads = map (\<lambda>rs. irs_id (rc_get (py_read_stream rs) st)) rss;
              writes = map (\<lambda>ws. ws_id (py_write_stream ws)) wss;
              runner = \<lparr> pr_objects = objs, pr_id = i, pr_name = name, pr_flow_watermarks = flow, pr_node_id = node,
                pr_reads = reads, pr_writes = writes \<rparr>;
              graph = add_operator i name node reads writes runner graph
          in (case py_read_streams_from alloc wss st of (out, st) \<Rightarrow>
                (Inr out, rng, fold (\<lambda>sid. add_operator_stream ty i sid) writes graph, st)))))))"

section \<open>Running a node\<close>

text \<open>\<open>parse_addr\<close> parses a socket address; the panic is that of \<^verbatim>\<open>expect\<close>.\<close>

definition py_configuration ::
    "(string \<Rightarrow> 'addr option) \<Rightarrow> NodeId \<Rightarrow> string list \<Rightarrow> string list \<Rightarrow> string option \<Rightarrow> 'addr Configuration option" where
  "py_configuration parse_addr node data controls filename =
     Option.bind (those (map parse_addr data)) (\<lambda>data.
     Option.bind (those (map parse_addr controls)) (\<lambda>controls.
       Some (configuration_new node data controls 7 filename)))"

definition run_py ::
    "(string \<Rightarrow> 'addr option) \<Rightarrow> ('w \<Rightarrow> 'c \<times> 'w) \<Rightarrow> ('w \<Rightarrow> 's \<times> 'w) \<Rightarrow>
       (('addr, 'c, 'i, 'r, 'run, 'hook, 'ty) Node \<Rightarrow> 'w \<Rightarrow>
        ('ctl \<times> 'data \<times> ('addr, 'c, 'i, 'r, 'run, 'hook, 'ty) Node \<times> 'w) option) \<Rightarrow>
       ('ctl \<Rightarrow> 'data \<Rightarrow> 's \<Rightarrow> ('addr, 'c, 'i, 'r, 'run, 'hook, 'ty) Node \<Rightarrow> 'w \<Rightarrow>
        'e completion list \<times> ('addr, 'c, 'i, 'r, 'run, 'hook, 'ty) Node \<times> 'w) \<Rightarrow>
       ('run, 'hook, 'ty) Graph \<Rightarrow> NodeId \<Rightarrow> string list \<Rightarrow> string list \<Rightarrow> string option \<Rightarrow> 'w \<Rightarrow> 'w option" where
  "run_py parse_addr mk_control mk_shutdown connect runtime default_graph node data controls filename w =
     Option.bind (py_configuration parse_addr node data controls filename) (\<lambda>cfg.
       (case node_process_new mk_control mk_shutdown cfg w of (np, w) \<Rightarrow>
          map_option (\<lambda>(_, w, _). w) (run_node connect runtime default_graph np w)))"

record ('t, 's) PyNodeHandle =
  node_handle :: "('t, 's) NodeHandle option"

definition py_handle_from :: "('t, 's) NodeHandle \<Rightarrow> ('t, 's) PyNodeHandle" where
  "py_handle_from h = \<lparr> node_handle = Some h \<rparr>"

definition run_async_py ::
    "(string \<Rightarrow> 'addr option) \<Rightarrow> ('w \<Rightarrow> 'c \<times> 'w) \<Rightarrow> ('w \<Rightarrow> 's \<times> 'w) \<Rightarrow>
       (('addr, 'c, 'i, 'r, 'run, 'hook, 'ty, 's) node_process \<Rightarrow> 'w \<Rightarrow> 't \<times> 'w) \<Rightarrow> ('w \<Rightarrow> bool) \<Rightarrow> ('w \<Rightarrow> 'w) \<Rightarrow>
       ('run, 'hook, 'ty) Graph \<Rightarrow> NodeId \<Rightarrow> string list \<Rightarrow> string list \<Rightarrow> string option \<Rightarrow> 'w \<Rightarrow>
       (('t, 's) PyNodeHandle \<times> 'w) option" where
  "run_async_py parse_addr mk_control mk_shutdown spawn_run started env default_graph node data controls filename w =
     Option.bind (py_configuration parse_addr node data controls filename) (\<lambda>cfg.
       (case node_process_new mk_control mk_shutdown cfg w of (np, w) \<Rightarrow>
          map_option (apfst py_handle_from) (run_async spawn_run started env default_graph np w)))"

definition shutdown_node ::
    "('s \<Rightarrow> 'w \<Rightarrow> 'w \<times> ('x2 + unit)) \<Rightarrow> ('t \<Rightarrow> 'w \<Rightarrow> ('w \<times> ('p + unit)) option) \<Rightarrow> ('p \<Rightarrow> string) \<Rightarrow> ('t, 's) PyNodeHandle \<Rightarrow>
       'w \<Rightarrow> (('t, 's) PyNodeHandle \<times> 'w \<times> ('x py_err + unit)) option" where
  "shutdown_node try_send join_thread fmt self w =
     (case node_handle self of
        Some h \<Rightarrow>
          map_option (\<lambda>(w, r). (self \<lparr> node_handle := None \<rparr>, w, map_err (PyErr PyException) r))
            (handle_shutdown try_send join_thread fmt h w)
      | None \<Rightarrow> Some (self, w, Inl (PyErr PyException ''Unable to shut down; no Rust node handle available'')))"

end
