(* ===== verification/Python_Properties.thy ===== *)
theory Python_Properties
  imports Python_Bridge Connect_Properties
begin

text \<open>
  What crossing between Python and Rust keeps: messages, the graph that connecting operators builds, and the
  flow of watermarks.
\<close>

section \<open>Messages\<close>

lemma py_message_new_panics_iff:
  "(py_message_new c b d :: ('x py_err + PyMessage) option) = None \<longleftrightarrow> c = None \<and> d = None \<and> \<not> b"
  by (auto simp: py_message_new_def split: option.splits)

text \<open>The watermark at the top drops coordinates and data.\<close>

lemma py_message_new_top: "c \<noteq> None \<Longrightarrow> py_message_new c True d = Some (Inr (PyMessage (new_watermark ts_top)))"
  by (simp add: py_message_new_def)

section \<open>Graphs without the closures of operators\<close>

definition operator_shape :: "'run OperatorMetadata \<Rightarrow> OperatorId \<times> string option \<times> NodeId \<times> StreamId list \<times> StreamId list" where
  "operator_shape om = (op_id om, op_name om, op_node_id om, read_stream_ids om, write_stream_ids om)"

definition same_shape :: "('run, 'hook, 'ty) Graph \<Rightarrow> ('run2, 'hook, 'ty) Graph \<Rightarrow> bool" where
  "same_shape g h \<longleftrightarrow> streams g = streams h \<and> stream_aliases g = stream_aliases h \<and> drivers g = drivers h \<and>
     map (map_prod id operator_shape) (operators g) = map (map_prod id operator_shape) (operators h)"

lemma same_shape_resolve: "same_shape g h \<Longrightarrow> resolve_stream_id g = resolve_stream_id h"
  by (simp add: same_shape_def resolve_stream_id_def fun_eq_iff)

lemma map_update: "map (map_prod id f) (AList.update k v xs) = AList.update k (f v) (map (map_prod id f) xs)"
  by (induction xs) auto

lemma same_shape_add_operator:
  "same_shape g h \<Longrightarrow> same_shape (add_operator i name n rids wids run g) (add_operator i name n rids wids run2 h)"
  using same_shape_resolve[of g h]
  by (simp add: same_shape_def add_operator_def Let_def map_update operator_shape_def operator_new_def)

lemma operator_channels_shape:
  "operator_shape om = operator_shape om2 \<Longrightarrow> operator_channels sid source om = operator_channels sid source om2"
  by (simp add: operator_shape_def operator_channels_def)

lemma map_operator_channels_shape:
  "map (map_prod id operator_shape) xs = map (map_prod id operator_shape) ys \<Longrightarrow>
     map (operator_channels sid source) (map snd xs) = map (operator_channels sid source) (map snd ys)"
proof (induction xs arbitrary: ys)
  case (Cons x xs)
  then obtain y ys2 where ys: "ys = y # ys2" by (cases ys) auto
  with Cons.prems have "operator_shape (snd x) = operator_shape (snd y)" by (simp add: map_prod_def case_prod_unfold)
  from operator_channels_shape[OF this] Cons.IH[of ys2] Cons.prems ys show ?case by simp
qed simp

lemma same_shape_add_operator_stream:
  "same_shape g h \<Longrightarrow> same_shape (add_operator_stream ty i sid g) (add_operator_stream ty i sid h)"
  using map_operator_channels_shape[of "operators g" "operators h"]
  by (simp add: same_shape_def add_operator_stream_def add_channels_def)

lemma same_shape_add_operator_streams:
  "same_shape g h \<Longrightarrow> same_shape (fold (\<lambda>p. add_operator_stream (snd p) i (fst p)) (map (\<lambda>ws. (f ws, ty)) wss) g)
     (fold (\<lambda>sid. add_operator_stream ty i sid) (map f wss) h)"
  by (induction wss arbitrary: g h) (simp_all add: same_shape_add_operator_stream)

lemma py_read_streams_from_eq:
  "py_read_streams_from alloc wss st = apfst (map PyReadStream) (read_streams_from alloc (map py_write_stream wss) st)"
  by (induction wss arbitrary: st) (simp_all add: py_read_from_write_def case_prod_unfold prod_eq_iff)

section \<open>Flowing watermarks\<close>

text \<open>The condition under which the watermark \<open>t\<close> can be sent on a stream.\<close>

abbreviation accepts_watermark ::
    "('w \<Rightarrow> 'h \<Rightarrow> bool) \<Rightarrow> ('w \<Rightarrow> 'i \<Rightarrow> bool) \<Rightarrow> Timestamp \<Rightarrow> 'w \<Rightarrow> ('h, 'i) WriteStream \<Rightarrow> bool" where
  "accepts_watermark trx prx t w ws \<equiv> \<not> stream_closed ws \<and> ts_le (low_watermark ws) t \<and>
     (\<forall>ep \<in> set (ws_endpoints ws). receiver_alive trx prx w (ep_channel ep))"

lemma flow_callback_py_eq:
  assumes net: "message_network N tc trx ttx pc prx ptx" and "\<forall>ws \<in> set wss. ws_inv ws"
  shows "flow_callback_py N t wss w =
    (if \<forall>ws \<in> set wss. accepts_watermark trx prx t w ws then Some (flow_callback N t wss w) else None)"
  using assms(2)
proof (induction wss arbitrary: w)
  case (Cons ws wss)
  obtain w1 ws1 r where send: "ws_send N (new_watermark t) ws w = ((w1, ws1), r)" by (metis prod.exhaust)
  have inv: "ws_inv ws" and invs: "\<forall>ws \<in> set wss. ws_inv ws" using Cons.prems by simp_all
  have res: "r = Inr () \<longleftrightarrow> accepts_watermark trx prx t w ws"
    using message_network.ws_send_effect(1)[OF net inv send] by (simp add: admissible_def new_watermark_def)
  note tail = Cons.IH[OF invs, of w1, unfolded message_network.ws_send_alive[OF net inv send]]
  show ?case
  proof (cases "r = Inr ()")
    case True
    with res have "accepts_watermark trx prx t w ws" by blast
    then have all: "(\<forall>ws \<in> set (ws # wss). accepts_watermark trx prx t w ws) \<longleftrightarrow> (\<forall>ws \<in> set wss. accepts_watermark trx prx t w ws)"
      by auto
    show ?thesis unfolding all using True send tail by (simp add: case_prod_unfold)
  next
    case False
    then have "flow_callback_py N t (ws # wss) w = None" using send by (cases r) auto
    moreover have "\<not> (\<forall>ws \<in> set (ws # wss). accepts_watermark trx prx t w ws)" using res False by auto
    ultimately show ?thesis by (simp only: if_False)
  qed
qed simp

section \<open>Shutting down\<close>

text \<open>A handle shuts its node down once.\<close>

lemma shutdown_node_once:
  "shutdown_node try_send join_thread fmt self w = Some (self', w', r) \<Longrightarrow>
     shutdown_node try_send join_thread fmt self' w2 =
       Some (self', w2, Inl (PyErr PyException ''Unable to shut down; no Rust node handle available''))"
  by (auto simp: shutdown_node_def split: option.splits)

section \<open>Examples\<close>

definition py_example_alloc :: "(unit, u8 list, nat) InternalReadStream \<Rightarrow> unit \<Rightarrow> (unit, u8 list, nat) ReadStream \<times> unit" where
  "py_example_alloc s st = (Rc (\<lambda>_. s) (\<lambda>_ st. st), st)"

definition py_example_net ::
    "((nat, u8 list Message) chans \<times> (nat, unit InterProcessMessage) chans, nat, nat, u8 list Message, unit) net" where
  "py_example_net = ref_net (ref_serde False (\<lambda>_. []) (\<lambda>_. None) ())"

definition py_example_stream :: "(nat, nat) WriteStream" where
  "py_example_stream = fst (ws_new ref_ids 0)"

definition py_open_stream :: "(nat, nat) WriteStream" where
  "py_open_stream = \<lparr> ws_id = 7, ws_name = [], ws_pusher = Some \<lparr> endpoints = [InterThread 4] \<rparr>,
     low_watermark = ts_new [0], stream_closed = False \<rparr>"

definition py_example_connect ::
    "unit \<Rightarrow> (unit, nat) PyReadStream list \<Rightarrow> nat \<times> (unit py_runner, unit, unit) Graph \<times> unit \<Rightarrow>
       (unit + (nat, nat) PyWriteStream list) \<times> nat \<times> (unit py_runner, unit, unit) Graph \<times> unit" where
  "py_example_connect _ rss = (\<lambda>(rng, g, st). (Inr [PyWriteStream py_example_stream], 1, g, st))"

section \<open>Properties\<close>

text \<open>C40. A message survives the way through Python: rebuilt from its coordinates, its data and whether
  it is the top watermark it is the same message, except that data at the top timestamp is not kept.\<close>

theorem py_message_roundtrip:
  assumes "ts_wf (msg_timestamp m)"
  shows "py_message_new (py_message_timestamp (PyMessage m)) (py_message_is_top_watermark (PyMessage m))
      (py_message_data (PyMessage m)) = Some (Inr (PyMessage m)) \<longleftrightarrow>
    \<not> (py_message_is_timestamped_data (PyMessage m) \<and> ts_is_top (msg_timestamp m))"
proof (cases m)
  case (TimestampedData td)
  then show ?thesis
    by (cases td; cases "td_timestamp td")
      (auto simp: py_message_new_def py_message_is_top_watermark_def new_message_def ts_new_def)
next
  case (Watermark t)
  with assms show ?thesis
    by (cases t) (auto simp: py_message_new_def py_message_is_top_watermark_def new_watermark_def ts_new_def ts_top_def ts_wf_def)
qed

theorem py_message_roundtrip_witness:
  "py_message_new (Some [3]) False (Some [7]) = Some (Inr (PyMessage (new_message (ts_new [3]) [7])) :: unit py_err + PyMessage)"
  using py_message_roundtrip[of "new_message (ts_new [3]) [7]"]
  by (simp add: new_message_def ts_new_def ts_wf_def py_message_is_top_watermark_def)

text \<open>C38. Operators are registered alike from Python and from Rust. When connecting a Python operator succeeds, its
  \<^verbatim>\<open>connect\<close> has returned streams and left some graph, and the rest does what the macro does for a Rust operator with
  the same streams, name and node: on graphs that differ in the closures of their operators only, both give the same identifiers and
  read streams, and again graphs that differ in the closures only. When it fails, then because Python code raised the exception that
  is returned, and the graph is as Python code left it.\<close>

theorem python_operators_registered_alike:
  fixes h :: "('o py_runner, 'hook, 'ty) Graph"
  assumes "connect_py I alloc get_name op_connect get_flow ty objs rss node (rng, h, st) = (r, rng2, h2, st2)"
  shows "case r of
      Inr out2 \<Rightarrow> (\<exists>name wss rng1 h1 st1. get_name objs st = Inr name \<and> op_connect objs rss (rng, h, st) = (Inr wss, rng1, h1, st1) \<and>
        (\<forall>(g :: (('a, 'ty) operator_runner, 'hook, 'ty) Graph) cfg out rng3 g' st3.
           same_shape g h1 \<and> oc_name cfg = name \<and> oc_node_id cfg = node \<and>
           register I alloc cfg (map (\<lambda>rs. (py_read_stream rs, ty)) rss) (map (\<lambda>ws. (py_write_stream ws, ty)) wss) (rng1, g, st1) =
             (out, rng3, g', st3) \<longrightarrow>
           out2 = map PyReadStream out \<and> rng2 = rng3 \<and> st2 = st3 \<and> same_shape g' h2))
    | Inl e \<Rightarrow> (\<exists>x. e = Raised x \<and>
        (get_name objs st = Inl x \<and> (rng2, h2, st2) = (rng, h, st) \<or>
         op_connect objs rss (rng, h, st) = (Inl x, rng2, h2, st2) \<or>
         (\<exists>wss rng1. op_connect objs rss (rng, h, st) = (Inr wss, rng1, h2, st2) \<and> get_flow objs st2 = Inl x)))"
proof (cases r)
  case (Inl e)
  with assms show ?thesis by (auto simp: connect_py_def Let_def split: sum.splits prod.splits)
next
  case (Inr out2)
  with assms obtain name wss rng1 h1 st1 flow where
    py: "get_name objs st = Inr name" "op_connect objs rss (rng, h, st) = (Inr wss, rng1, h1, st1)" "get_flow objs st1 = Inr flow"
    by (auto simp: connect_py_def Let_def split: sum.splits prod.splits)
  have "out2 = map PyReadStream out \<and> rng2 = rng3 \<and> st2 = st3 \<and> same_shape g' h2"
    if shape: "same_shape g h1" and cfg: "oc_name cfg = name" "oc_node_id cfg = node"
      and reg: "register I alloc cfg (map (\<lambda>rs. (py_read_stream rs, ty)) rss) (map (\<lambda>ws. (py_write_stream ws, ty)) wss) (rng1, g, st1) =
        (out, rng3, g', st3)"
    for g :: "(('a, 'ty) operator_runner, 'hook, 'ty) Graph" and cfg out rng3 g' st3
  proof -
    obtain i rng4 where i: "new_deterministic I rng1 = (i, rng4)" by fastforce
    show ?thesis
      using assms Inr py i cfg reg
      by (auto simp: connect_py_def register_def Let_def comp_def py_read_streams_from_eq case_prod_unfold apfst_def map_prod_def
          intro!: same_shape_add_operator_streams same_shape_add_operator[OF shape])
  qed
  with Inr py(1,2) show ?thesis by auto
qed

theorem python_operators_registered_alike_witness:
  "\<exists>out rng g st. connect_py ref_ids py_example_alloc (\<lambda>_ _. Inr None) py_example_connect (\<lambda>_ _. Inr True) () () [] 0 (0, graph_new, ()) =
     (Inr [PyReadStream out] :: unit py_err + _, rng, g :: (unit py_runner, unit, unit) Graph, st) \<and>
     fst (register ref_ids py_example_alloc (config_new :: unit OperatorConfig) [] [(py_example_stream, ())]
       (1, graph_new :: ((unit, unit) operator_runner, unit, unit) Graph, ())) = [out]"
proof -
  obtain r rng2 h' st2 where py: "connect_py ref_ids py_example_alloc (\<lambda>_ _. Inr None) py_example_connect (\<lambda>_ _. Inr True) () () [] 0
      (0, graph_new, ()) = (r :: unit py_err + _, rng2, h' :: (unit py_runner, unit, unit) Graph, st2)"
    by (metis prod.exhaust)
  obtain out rng3 g' st3 where rs: "register ref_ids py_example_alloc (config_new :: unit OperatorConfig) [] [(py_example_stream, ())]
      (1, graph_new :: ((unit, unit) operator_runner, unit, unit) Graph, ()) = (out, rng3, g', st3)"
    by (metis prod.exhaust)
  have shape: "same_shape (graph_new :: ((unit, unit) operator_runner, unit, unit) Graph) (graph_new :: (unit py_runner, unit, unit) Graph)"
    by (simp add: same_shape_def graph_new_def)
  obtain out2 where r: "r = Inr out2" using py by (auto simp: connect_py_def py_example_connect_def Let_def split: prod.splits)
  have "oc_name (config_new :: unit OperatorConfig) = None" "oc_node_id (config_new :: unit OperatorConfig) = 0"
    by (simp_all add: config_new_def)
  with python_operators_registered_alike[OF py, where 'a = unit] shape rs have "out2 = map PyReadStream out"
    unfolding r py_example_connect_def by fastforce
  moreover have "length out = 1"
    using rs by (auto simp: register_def Let_def split: prod.splits)
  ultimately show ?thesis using py rs r by (auto simp: length_Suc_conv)
qed

text \<open>C39. The watermarks of Python operators flow as those of Rust operators, unless there is an error: if every stream
  is open, has not passed the watermark and all its receivers are there, the callback of a Python operator returns and does what
  the callback of a Rust operator does; otherwise it panics, where that of a Rust operator reports the error and goes on.\<close>

theorem python_watermarks_flow:
  assumes "message_network N tc trx ttx pc prx ptx" and "\<forall>ws \<in> set wss. ws_inv ws"
  shows "flow_callback_py N t wss w =
    (if \<forall>ws \<in> set wss. \<not> stream_closed ws \<and> ts_le (low_watermark ws) t \<and>
          (\<forall>ep \<in> set (ws_endpoints ws). receiver_alive trx prx w (ep_channel ep))
     then Some (flow_callback N t wss w) else None)"
  by (rule flow_callback_py_eq[OF assms])

theorem python_watermarks_flow_witness:
  "(\<exists>wss w. flow_callback_py py_example_net (ts_new [1]) [py_open_stream] (\<lambda>_. chan_new, \<lambda>_. chan_new) = Some (wss, w) \<and>
      ch_items (fst w 4) = [Watermark (ts_new [1])]) \<and>
   flow_callback_py py_example_net (ts_new [1]) [py_open_stream, close_stream py_open_stream] (\<lambda>_. chan_new, \<lambda>_. chan_new) = None"
proof -
  have net: "message_network py_example_net
    (\<lambda>w h. ch_items (fst w h)) (\<lambda>w h. ch_rx (fst w h)) (\<lambda>w h. ch_tx (fst w h))
    (\<lambda>w i. ch_items (snd w i)) (\<lambda>w i. ch_rx (snd w i)) (\<lambda>w i. ch_tx (snd w i))"
    unfolding py_example_net_def by (rule ref_messages.message_network_axioms)
  have "\<forall>ws \<in> set [py_open_stream]. ws_inv ws" "\<forall>ws \<in> set [py_open_stream, close_stream py_open_stream]. ws_inv ws"
    by (simp_all add: py_open_stream_def ws_inv_def close_stream_def)
  note flow = this[THEN python_watermarks_flow[OF net], of "ts_new [1]" "(\<lambda>_. chan_new, \<lambda>_. chan_new)"]
  show ?thesis
    unfolding flow
    by (simp add: py_open_stream_def py_example_net_def example_simps ws_endpoints_def receiver_alive_def new_watermark_def
        close_stream_def)
qed

end
