(* ===== verification/Spec2Isabelle.thy ===== *)
theory Spec2Isabelle
  imports Time_Versioned_State Lattice_Properties Codec_Properties Read_Stream_Properties
    Channel_Manager_Properties Executor_Properties Node_Properties Tcp_Properties Tcp_Connections_Properties
    Zenoh_Properties Operators Connect_Properties Node_Run Default_Graph Python_Properties
begin

text \<open>
  A verification development for ERDOS, a system that runs streaming dataflow applications such as the
  pipeline of a self-driving car. The code is Rust, under \<^verbatim>\<open>src/src/\<close>.

  \<^bold>\<open>The program.\<close> A driver program builds a graph of operators that are connected by streams, and runs
  it on one or more nodes. All nodes build the same graph, with the same identifiers. A node opens connections to
  all other nodes, over TCP or Zenoh, makes the channels of the streams that its operators write and read, sets its
  operators up, waits until all other nodes have done the same and then runs the operators. On a stream travel
  messages with timestamps, and watermarks, each of which says that no smaller timestamp will follow. An
  operator registers callbacks for messages and watermarks. Each message that arrives is turned into events, one
  per callback; the executor of the operator puts the events into an execution lattice, which orders those that depend
  on each other, and several tasks take events that are ready and run them. State that an operator keeps per
  timestamp is held in a time-versioned state.

  \<^bold>\<open>Reading the model.\<close> Definitions have the names of the code where these are free. A struct is a record, an
  enum a datatype, an integer a word of its width; \<^verbatim>\<open>usize\<close> values that only count are natural numbers. A \<^verbatim>\<open>Result\<close> is
  a sum whose left side is the error. A panic is \<open>None\<close>, and so is a call that never returns: loops that may wait are
  defined by \<open>partial_function (option)\<close> without fuel, and theorems say when they return. Where a property tells the two apart, the
  definitions do too: \<open>outcome\<close> for the senders with shared memory, \<open>Panicked_In\<close> for the tasks of a node. What other tasks do while a
  loop waits is an argument, usually \<open>env\<close>, which the theorems constrain and the definitions do not. Shared and mutable objects are pointers
  \<open>rc\<close> into a store \<open>'st\<close>, and channels, connections and sockets live in a world \<open>'w\<close>, both of which are passed along.
  A \<^verbatim>\<open>HashMap\<close> is an association list or a map, a \<^verbatim>\<open>BTreeMap\<close> the sorted list of its entries, a
  \<^verbatim>\<open>BinaryHeap\<close> the list of its elements. Closures that the graph keeps are the values that they capture, together with a
  function that is their body.

  Code of other libraries is a parameter: a record of the functions that are called, with a locale that states
  the documented behaviour the proofs rely on. Each locale has an interpretation, by the definitions of the
  model where these meet the interface and otherwise by an executable reference implementation that
  the examples use. The locales are \<open>rust_ord\<close> (the trait \<^verbatim>\<open>Ord\<close>), \<open>btree_map\<close> and \<open>binary_heap\<close> (the collections, for
  any such order), \<open>stable_graph\<close> and \<open>dfs_post_order\<close> (\<^verbatim>\<open>petgraph\<close>), \<open>bincode_format\<close>, \<open>abomonation_format\<close>,
  \<open>serializer\<close>, \<open>wire_format\<close>, \<open>decoder\<close> and \<open>framing\<close> (serialization and codecs), \<open>zenoh_buffers\<close>, \<open>unbounded_channel\<close>, \<open>network\<close> and
  \<open>control_queue\<close> (channels), \<open>fed_channel\<close>, \<open>delivering_task\<close> and the tasks of each transport (\<open>sending_task\<close>, \<open>receiving_task\<close>,
  \<open>publishing_task\<close>, \<open>subscribing_task\<close>), \<open>tcp_network\<close>, \<open>discovery\<close>, and \<open>lattice_library\<close> and
  \<open>executor_library\<close>, which join what the lattice and the executor need.

  \<^bold>\<open>Foundations.\<close> \<open>Erdos_Prelude\<close>: types, orderings, results, generic lemmas. \<open>Timestamps\<close>
  (\<^verbatim>\<open>dataflow/message.rs\<close>): messages and the total order of timestamps. \<open>Ids\<close> (\<^verbatim>\<open>lib.rs\<close>): identifiers. \<open>Btree_Map\<close>, \<open>Binary_Heap\<close>: collections of the standard
  library. \<open>Petgraph\<close>, \<open>Petgraph_Ref\<close>: the interface of the graph library and its reference. \<open>Comm_Errors\<close>
  (\<^verbatim>\<open>communication/errors.rs\<close>, \<^verbatim>\<open>dataflow/stream/errors.rs\<close>): errors and their conversions. \<open>Channels\<close>: the interface of
  channels.

  \<^bold>\<open>State and events.\<close> \<open>Time_Versioned_State\<close> (\<^verbatim>\<open>dataflow/state.rs\<close>): all operations with their access contexts;
  histories stay aligned with the messages, nothing panics once the time is set, and garbage collection does not change what later
  callbacks see; which entries it removes is stated exactly, with the exception that it removes none under history size 0 when no entry is after
  the closed time. \<open>Operator_Event\<close> (\<^verbatim>\<open>node/operator_event.rs\<close>): the comparison of events, when it panics,
  and where it is not a partial order.

  \<open>Lattice\<close> (\<^verbatim>\<open>node/lattice.rs\<close>) with \<open>Lattice_Invariant\<close>, \<open>Lattice_Order\<close> and \<open>Lattice_Properties\<close>: the whole
  lattice. No operation panics as long as the comparison of events does not, and every search ends; the run queue holds exactly the events that can run.
  The properties of the order hold for events that are \<open>well_timed\<close>: messages that are pending together compare \<^verbatim>\<open>Equal\<close>, and pending watermark
  events with one timestamp are linearly ordered by their conflicts and priorities, as a user's watermark callback and the default callback that lets watermarks
  flow are. Then a watermark is handed out only after the messages and watermarks before it, and waits until they are completed, and the lattice is
  never stuck. Both halves of the condition are needed: \<open>lattice_stuck_with_ties\<close> is a run with watermark events of equal timestamp and priority that
  ends in a lattice that is stuck, and in \<open>watermark_early_with_conflicts\<close> conflicting messages let a watermark overtake a pending message. Another limit
  holds in general: an event that is added while an event runs on which it depends does not wait for it.

  \<open>Executor\<close> (\<^verbatim>\<open>node/operator_executor.rs\<close>, \<^verbatim>\<open>dataflow/operator.rs\<close>) with \<open>Executor_Properties\<close>: the tasks of an executor as sequences
  of steps and all their interleavings. Every interleaving is a run of the lattice and the executor ends once its inputs have, as long as the comparison of
  events does not panic; if the events are \<open>well_timed\<close>, every event is run exactly once before the operator is destroyed.

  \<^bold>\<open>Streams.\<close> \<open>Serialization\<close>, \<open>Codec\<close>, \<open>Codec_Properties\<close> (\<^verbatim>\<open>communication/serializable.rs\<close>, \<^verbatim>\<open>communication/mod.rs\<close>,
  \<^verbatim>\<open>message_codec.rs\<close>, \<^verbatim>\<open>control_message_codec.rs\<close>): framing; any sequence of messages comes back however the bytes are cut, and sizes
  beyond 32 bits are truncated. \<open>Endpoints\<close> (\<^verbatim>\<open>endpoints.rs\<close>, \<^verbatim>\<open>pusher.rs\<close>), \<open>Write_Stream\<close> (\<^verbatim>\<open>write_stream.rs\<close>): which messages a stream accepts, and that
  what every reader gets respects the watermarks. \<open>Read_Stream\<close>, \<open>Read_Stream_Properties\<close>
  (\<^verbatim>\<open>read_stream.rs\<close>, \<^verbatim>\<open>internal_read_stream.rs\<close>, the stateful variants): reads in order, when a blocking read returns, the events that a message
  gives.

  \<^bold>\<open>Graphs.\<close> \<open>Graph\<close>, \<open>Graph_Properties\<close> (\<^verbatim>\<open>dataflow/graph/\<close>, \<^verbatim>\<open>scheduler/mod.rs\<close>): the channels of a stream are exactly its
  readers, and scheduling places them. \<open>Channel_Manager\<close>, \<open>Channel_Manager_Properties\<close> (\<^verbatim>\<open>scheduler/\<close>): endpoints match channels. \<open>Driver_Streams\<close>,
  \<open>Driver_Properties\<close> (ingest, extract and loop streams): set-up finds entries of the right type, when reads return. \<open>Connect\<close>,
  \<open>Connect_Properties\<close> (\<^verbatim>\<open>connect.rs\<close>): all graphs of driver programs are well formed, every reader on a node finds its endpoint, and operators
  are set up without a panic. \<open>Operators\<close> (\<^verbatim>\<open>dataflow/operators/\<close>): the join operator computes what an operator with unbounded
  buffers would. \<open>Default_Graph\<close> (\<^verbatim>\<open>default_graph.rs\<close>, \<^verbatim>\<open>Graph::to_dot\<close>, \<^verbatim>\<open>reset\<close>): the graph of a thread and its export.

  \<^bold>\<open>Nodes.\<close> \<open>Control_Handler\<close> (\<^verbatim>\<open>control_message_handler.rs\<close>), \<open>Node\<close>, \<open>Node_Properties\<close> (\<^verbatim>\<open>node/node.rs\<close>, \<^verbatim>\<open>configuration.rs\<close>): start-up;
  operators run only when all nodes are ready, and do run then. \<open>Tcp_Tasks\<close>, \<open>Task_Loops\<close>, \<open>Tcp_Properties\<close>
  (\<^verbatim>\<open>senders.rs\<close>, \<^verbatim>\<open>receivers.rs\<close>): messages are delivered in order. \<open>Tcp_Connections\<close>, \<open>Tcp_Connections_Properties\<close> (\<^verbatim>\<open>communication/mod.rs\<close>, \<^verbatim>\<open>node/node.rs\<close>):
  nodes that start in any order get one connection per pair, if the others greet as the code does. \<open>Zenoh_Tasks\<close>, \<open>Zenoh_Properties\<close> (\<^verbatim>\<open>zenoh_senders.rs\<close>,
  \<^verbatim>\<open>zenoh_receivers.rs\<close>, \<^verbatim>\<open>zenoh_shm_senders.rs\<close>, \<^verbatim>\<open>zenoh_shm_receivers.rs\<close>): the same over Zenoh, discovery of nodes, and a message that does not fit the
  shared memory blocks its sender. Delivery is stated for receivers whose node leaves the channels of the readers alone while the receiver runs.
  \<open>Node_Run\<close> (\<^verbatim>\<open>run\<close>, \<^verbatim>\<open>run_async\<close>, \<^verbatim>\<open>NodeHandle\<close>): why a node stops: failed operators, a request to shut down, or a panic of a task that it polls
  itself.

  \<^bold>\<open>Python.\<close> \<open>Python_Streams\<close>, \<open>Python_Bridge\<close>, \<open>Python_Properties\<close> (\<^verbatim>\<open>python/\<close>): the classes and functions that Python sees. Messages survive
  the conversion, operators are registered as those of Rust are, from whatever graph the Python code of \<^verbatim>\<open>connect\<close> leaves, and watermarks flow alike except that errors panic.

  \<^bold>\<open>Bounds.\<close> Timestamps have coordinates of 64 bits, sizes in frames 32 bits with the truncation of the code, priorities
  8 bits, identifiers 128 bits. Indices of \<^verbatim>\<open>petgraph\<close> are natural numbers, so that theorems speak of graphs below its capacity. Sequences of steps,
  messages and nodes are unbounded.

  \<^bold>\<open>Not modelled.\<close> Code that the build generates (\<^verbatim>\<open>callback_builder.rs\<close>, the inner part of \<^verbatim>\<open>add_watermark_callback_vec\<close>) is a
  parameter wherever it is called, and the build script only runs scripts that write it. Logging, \<^verbatim>\<open>Debug\<close> output and the export of the
  lattice, which prints with \<^verbatim>\<open>petgraph\<close>, have no effect on the rest. Locks are left out where an operation holds them
  throughout; atomic steps stand for them where tasks interleave. Threads and the runtime that schedules them are parameters,
  as are the interpreter of Python and Python code. The program \<^verbatim>\<open>main.rs\<close>, tests and benchmarks use the library and are no part of it.
\<close>

end
